(* ===== verification/Yerd_Prelude.thy ===== *)
theory Yerd_Prelude
  imports Main "HOL-Library.Word" "HOL-Library.Char_ord" "HOL-Library.List_Lexorder" "HOL-Library.Code_Target_Nat"
begin

text \<open>
  The shared vocabulary of the development: the Rust standard-library types and functions the
  sources use, as HOL definitions, with the lemmas the component theories rest on.

  \<^item> A Rust \<open>str\<close> is a sequence of UTF-8 bytes, so it is a \<open>string\<close> whose \<open>char\<close>s are those
    bytes: \<open>len\<close> is \<open>length\<close>, \<open>bytes()\<close> is the list itself. \<open>chars()\<close> groups the bytes into
    characters, each the list of its bytes (\<open>utf8_chars\<close>).
  \<^item> \<open>Result\<close> is the datatype \<open>result\<close>, \<open>Option\<close> is \<open>option\<close>.
  \<^item> \<open>BTreeMap\<close> is an association list sorted by key (\<open>bt_insert\<close>, \<open>bt_remove\<close>, \<open>bt_get\<close>);
    \<open>HashMap\<close>, whose order is unspecified, is a partial function. The locale \<open>map_api\<close> states
    what both promise, and is interpreted on both.
\<close>

type_synonym u8 = "8 word"
type_synonym u16 = "16 word"
type_synonym u32 = "32 word"

section \<open>Results\<close>

datatype ('e, 'a) result = Err 'e | Ok 'a

fun is_ok :: "('e, 'a) result \<Rightarrow> bool" where
  "is_ok (Ok _) = True"
| "is_ok (Err _) = False"

fun ok :: "('e, 'a) result \<Rightarrow> 'a option" where
  "ok (Ok x) = Some x"
| "ok (Err _) = None"

fun map_err :: "('e \<Rightarrow> 'f) \<Rightarrow> ('e, 'a) result \<Rightarrow> ('f, 'a) result" where
  "map_err f (Ok x) = Ok x"
| "map_err f (Err e) = Err (f e)"

fun and_then :: "('e, 'a) result \<Rightarrow> ('a \<Rightarrow> ('e, 'b) result) \<Rightarrow> ('e, 'b) result" where
  "and_then (Ok x) f = f x"
| "and_then (Err e) f = Err e"

definition is_some :: "'a option \<Rightarrow> bool" where
  "is_some x \<longleftrightarrow> x \<noteq> None"

lemma is_some_simps [simp]: "is_some (Some x)" "\<not> is_some None"
  by (simp_all add: is_some_def)

lemma map_err_Ok_iff [simp]: "map_err f r = Ok x \<longleftrightarrow> r = Ok x"
  by (cases r) auto

lemma map_err_Err_iff: "map_err f r = Err e \<longleftrightarrow> (\<exists>e'. r = Err e' \<and> e = f e')"
  by (cases r) auto

lemma and_then_Ok_iff: "and_then r f = Ok y \<longleftrightarrow> (\<exists>x. r = Ok x \<and> f x = Ok y)"
  by (cases r) auto

lemma is_ok_iff: "is_ok r \<longleftrightarrow> (\<exists>x. r = Ok x)"
  by (cases r) auto

text \<open>A loop of checks that stops at the first failure.\<close>

fun check_all :: "('a \<Rightarrow> ('e, unit) result) \<Rightarrow> 'a list \<Rightarrow> ('e, unit) result" where
  "check_all f [] = Ok ()"
| "check_all f (x # xs) = (case f x of Err e \<Rightarrow> Err e | Ok _ \<Rightarrow> check_all f xs)"

lemma check_all_Ok_iff: "check_all f xs = Ok () \<longleftrightarrow> (\<forall>x \<in> set xs. f x = Ok ())"
  by (induction xs) (auto split: result.splits)

section \<open>Lists\<close>

text \<open>\<open>Iterator::position\<close>.\<close>

fun position :: "('a \<Rightarrow> bool) \<Rightarrow> 'a list \<Rightarrow> nat option" where
  "position P [] = None"
| "position P (x # xs) = (if P x then Some 0 else map_option Suc (position P xs))"

lemma position_Some:
  "position P xs = Some i \<Longrightarrow> i < length xs \<and> P (xs ! i) \<and> (\<forall>j < i. \<not> P (xs ! j))"
proof (induction xs arbitrary: i)
  case (Cons x xs)
  then show ?case
    by (cases i) (auto simp: less_Suc_eq_0_disj split: if_splits)
qed simp

section \<open>Bytes\<close>

named_theorems byte_defs \<open>definitions of the byte classes\<close>

abbreviation code :: "char \<Rightarrow> nat" where
  "code \<equiv> of_char"

definition is_ascii :: "char \<Rightarrow> bool" where
  [byte_defs]: "is_ascii c \<longleftrightarrow> code c < 128"

definition is_ascii_digit :: "char \<Rightarrow> bool" where
  [byte_defs]: "is_ascii_digit c \<longleftrightarrow> 48 \<le> code c \<and> code c \<le> 57"

definition is_ascii_lowercase :: "char \<Rightarrow> bool" where
  [byte_defs]: "is_ascii_lowercase c \<longleftrightarrow> 97 \<le> code c \<and> code c \<le> 122"

definition is_ascii_uppercase :: "char \<Rightarrow> bool" where
  [byte_defs]: "is_ascii_uppercase c \<longleftrightarrow> 65 \<le> code c \<and> code c \<le> 90"

definition is_ascii_alphabetic :: "char \<Rightarrow> bool" where
  "is_ascii_alphabetic c \<longleftrightarrow> is_ascii_lowercase c \<or> is_ascii_uppercase c"

definition is_ascii_alphanumeric :: "char \<Rightarrow> bool" where
  "is_ascii_alphanumeric c \<longleftrightarrow> is_ascii_alphabetic c \<or> is_ascii_digit c"

text \<open>\<open>u8::is_ascii_whitespace\<close>: space, tab, line feed, form feed, carriage return.\<close>

definition is_ascii_whitespace :: "char \<Rightarrow> bool" where
  "is_ascii_whitespace c \<longleftrightarrow> code c \<in> {32, 9, 10, 12, 13}"

definition lower_byte :: "char \<Rightarrow> char" where
  "lower_byte c = (if is_ascii_uppercase c then char_of (code c + 32) else c)"

definition upper_byte :: "char \<Rightarrow> char" where
  "upper_byte c = (if is_ascii_lowercase c then char_of (code c - 32) else c)"

definition to_ascii_lowercase :: "string \<Rightarrow> string" where
  "to_ascii_lowercase s = map lower_byte s"

definition to_ascii_uppercase :: "string \<Rightarrow> string" where
  "to_ascii_uppercase s = map upper_byte s"

definition eq_ignore_ascii_case :: "string \<Rightarrow> string \<Rightarrow> bool" where
  "eq_ignore_ascii_case a b \<longleftrightarrow> to_ascii_lowercase a = to_ascii_lowercase b"

lemmas byte_class_defs = byte_defs is_ascii_alphabetic_def is_ascii_alphanumeric_def

lemma code_eq_iff: "code c = code d \<longleftrightarrow> c = d"
  by (metis char_of_char)

lemma code_lower_byte:
  "code (lower_byte c) = (if is_ascii_uppercase c then code c + 32 else code c)"
  by (simp add: lower_byte_def is_ascii_uppercase_def)

lemma lower_byte_idem [simp]: "lower_byte (lower_byte c) = lower_byte c"
  by (simp add: lower_byte_def is_ascii_uppercase_def)

lemma lower_byte_not_upper [simp]: "\<not> is_ascii_uppercase (lower_byte c)"
  by (simp add: is_ascii_uppercase_def code_lower_byte)

lemma lower_byte_id: "\<not> is_ascii_uppercase c \<Longrightarrow> lower_byte c = c"
  by (simp add: lower_byte_def)

lemma lower_byte_eq_nonletter:
  "\<not> is_ascii_alphabetic d \<Longrightarrow> lower_byte c = d \<longleftrightarrow> c = d"
proof -
  assume "\<not> is_ascii_alphabetic d"
  then have d: "\<not> (97 \<le> code d \<and> code d \<le> 122)" "\<not> (65 \<le> code d \<and> code d \<le> 90)"
    by (simp_all add: byte_class_defs)
  have "code (lower_byte c) = code d \<longleftrightarrow> code c = code d"
    using d by (auto simp: code_lower_byte is_ascii_uppercase_def)
  then show ?thesis by (simp only: code_eq_iff)
qed

lemma is_ascii_lower_byte [simp]: "is_ascii (lower_byte c) = is_ascii c"
  by (auto simp: is_ascii_def code_lower_byte is_ascii_uppercase_def)

lemma lower_byte_alnum:
  "is_ascii_alphanumeric c \<Longrightarrow> is_ascii_lowercase (lower_byte c) \<or> is_ascii_digit (lower_byte c)"
  by (auto simp: byte_class_defs code_lower_byte)

lemma lower_byte_keeps:
  "is_ascii_lowercase c \<or> is_ascii_digit c \<Longrightarrow> lower_byte c = c"
  by (rule lower_byte_id) (auto simp: byte_class_defs)

lemma lower_byte_letter: "is_ascii_lowercase (lower_byte c) \<Longrightarrow> is_ascii_alphabetic c"
  by (cases "is_ascii_uppercase c") (auto simp: is_ascii_alphabetic_def lower_byte_id)

lemma is_ascii_alphabetic_ascii: "is_ascii_alphabetic c \<Longrightarrow> is_ascii c"
  by (auto simp: byte_class_defs)

lemma length_to_ascii_lowercase [simp]: "length (to_ascii_lowercase s) = length s"
  by (simp add: to_ascii_lowercase_def)

lemma to_ascii_lowercase_idem [simp]:
  "to_ascii_lowercase (to_ascii_lowercase s) = to_ascii_lowercase s"
  by (simp add: to_ascii_lowercase_def)

lemma to_ascii_lowercase_Nil [simp]: "to_ascii_lowercase s = [] \<longleftrightarrow> s = []"
  by (simp add: to_ascii_lowercase_def)

lemma to_ascii_lowercase_empty [simp]: "to_ascii_lowercase [] = []"
  by (simp add: to_ascii_lowercase_def)

lemma to_ascii_lowercase_append [simp]:
  "to_ascii_lowercase (a @ b) = to_ascii_lowercase a @ to_ascii_lowercase b"
  by (simp add: to_ascii_lowercase_def)

lemma to_ascii_lowercase_Cons [simp]:
  "to_ascii_lowercase (c # s) = lower_byte c # to_ascii_lowercase s"
  by (simp add: to_ascii_lowercase_def)

lemma to_ascii_lowercase_id:
  "\<forall>c \<in> set s. \<not> is_ascii_uppercase c \<Longrightarrow> to_ascii_lowercase s = s"
  by (simp add: to_ascii_lowercase_def lower_byte_id map_idI)

lemma in_set_to_ascii_lowercase_nonletter:
  "\<not> is_ascii_alphabetic d \<Longrightarrow> d \<in> set (to_ascii_lowercase s) \<longleftrightarrow> d \<in> set s"
  by (induction s) (auto simp: lower_byte_eq_nonletter eq_commute [of d])

lemma lowercase_no_upper: "c \<in> set (to_ascii_lowercase s) \<Longrightarrow> \<not> is_ascii_uppercase c"
  by (auto simp: to_ascii_lowercase_def)

text \<open>The punctuation bytes the sources compare against are not letters.\<close>

lemma nonletters [simp]:
  "\<not> is_ascii_alphabetic (CHR ''.'')" "\<not> is_ascii_alphabetic (CHR ''-'')"
  "\<not> is_ascii_alphabetic (CHR ''*'')" "\<not> is_ascii_alphabetic (CHR '':'')"
  "\<not> is_ascii_alphabetic (CHR ''/'')"
  by (simp_all add: byte_class_defs)

end
