(* ===== verification/Rust_Str.thy ===== *)
theory Rust_Str
  imports Yerd_Prelude
begin

text \<open>
  The methods of Rust's \<open>str\<close> that the sources call, on byte strings: \<open>strip_prefix\<close>,
  \<open>strip_suffix\<close>, \<open>split\<close>, \<open>split_once\<close>, \<open>rsplit_once\<close>, \<open>chars\<close>, \<open>trim\<close>, \<open>lines\<close>, \<open>parse\<close> of
  an unsigned integer and its \<open>Display\<close>. Each is characterised once by the equation that the
  component proofs use.
\<close>

section \<open>Prefixes and suffixes\<close>

fun strip_prefix :: "string \<Rightarrow> string \<Rightarrow> string option" where
  "strip_prefix [] s = Some s"
| "strip_prefix (p # ps) [] = None"
| "strip_prefix (p # ps) (c # cs) = (if p = c then strip_prefix ps cs else None)"

definition strip_suffix :: "string \<Rightarrow> string \<Rightarrow> string option" where
  "strip_suffix q s = map_option rev (strip_prefix (rev q) (rev s))"

definition starts_with :: "string \<Rightarrow> string \<Rightarrow> bool" where
  "starts_with p s \<longleftrightarrow> is_some (strip_prefix p s)"

definition ends_with :: "string \<Rightarrow> string \<Rightarrow> bool" where
  "ends_with q s \<longleftrightarrow> is_some (strip_suffix q s)"

lemma strip_prefix_Some_iff: "strip_prefix p s = Some r \<longleftrightarrow> s = p @ r"
  by (induction p s rule: strip_prefix.induct) auto

lemma strip_prefix_append [simp]: "strip_prefix p (p @ r) = Some r"
  by (simp add: strip_prefix_Some_iff)

lemma strip_suffix_Some_iff: "strip_suffix q s = Some r \<longleftrightarrow> s = r @ q"
proof -
  have "strip_suffix q s = Some r \<longleftrightarrow> rev s = rev q @ rev r"
    by (auto simp: strip_suffix_def strip_prefix_Some_iff)
  also have "\<dots> \<longleftrightarrow> s = r @ q"
    by (metis rev_append rev_rev_ident)
  finally show ?thesis .
qed

lemma strip_suffix_append [simp]: "strip_suffix q (r @ q) = Some r"
  by (simp add: strip_suffix_Some_iff)

lemma strip_suffix_None_iff: "strip_suffix q s = None \<longleftrightarrow> (\<forall>r. s \<noteq> r @ q)"
  by (metis not_None_eq strip_suffix_Some_iff)

lemma strip_prefix_None_iff: "strip_prefix p s = None \<longleftrightarrow> (\<forall>r. s \<noteq> p @ r)"
  by (metis not_None_eq strip_prefix_Some_iff)

lemma starts_with_iff: "starts_with p s \<longleftrightarrow> (\<exists>r. s = p @ r)"
  by (auto simp: starts_with_def is_some_def strip_prefix_Some_iff)

lemma ends_with_iff: "ends_with q s \<longleftrightarrow> (\<exists>r. s = r @ q)"
  by (auto simp: ends_with_def is_some_def strip_suffix_Some_iff)

lemma starts_with_singleton: "starts_with [c] s \<longleftrightarrow> s \<noteq> [] \<and> hd s = c"
  by (cases s) (auto simp: starts_with_iff)

lemma ends_with_singleton: "ends_with [c] s \<longleftrightarrow> s \<noteq> [] \<and> last s = c"
  by (cases s rule: rev_cases) (auto simp: ends_with_iff)

section \<open>Splitting\<close>

fun split_on :: "char \<Rightarrow> string \<Rightarrow> string list" where
  "split_on c [] = [[]]"
| "split_on c (x # xs) =
     (if x = c then [] # split_on c xs
      else (case split_on c xs of [] \<Rightarrow> [[x]] | w # ws \<Rightarrow> (x # w) # ws))"

fun join_with :: "string \<Rightarrow> string list \<Rightarrow> string" where
  "join_with sep [] = []"
| "join_with sep [w] = w"
| "join_with sep (w # ws) = w @ sep @ join_with sep ws"

fun split_once :: "char \<Rightarrow> string \<Rightarrow> (string \<times> string) option" where
  "split_once c [] = None"
| "split_once c (x # xs) =
     (if x = c then Some ([], xs) else map_option (\<lambda>(a, b). (x # a, b)) (split_once c xs))"

definition rsplit_once :: "char \<Rightarrow> string \<Rightarrow> (string \<times> string) option" where
  "rsplit_once c s = map_option (\<lambda>(a, b). (rev b, rev a)) (split_once c (rev s))"

text \<open>\<open>split_once\<close> with a string pattern: the leftmost occurrence.\<close>

fun split_once_str :: "string \<Rightarrow> string \<Rightarrow> (string \<times> string) option" where
  "split_once_str p s =
     (case strip_prefix p s of
        Some rest \<Rightarrow> Some ([], rest)
      | None \<Rightarrow> (case s of [] \<Rightarrow> None
                 | x # xs \<Rightarrow> map_option (\<lambda>(a, b). (x # a, b)) (split_once_str p xs)))"

declare split_once_str.simps [simp del]

lemma split_on_not_Nil [simp]: "split_on c s \<noteq> []"
  by (cases s) (auto split: list.splits)

lemma split_on_Cons_neq:
  "x \<noteq> c \<Longrightarrow> split_on c (x # xs) = (x # hd (split_on c xs)) # tl (split_on c xs)"
  by (cases "split_on c xs") auto

lemma split_on_no_sep: "w \<in> set (split_on c s) \<Longrightarrow> c \<notin> set w"
  by (induction s arbitrary: w) (auto split: if_splits list.splits)

lemma split_on_notin: "c \<notin> set s \<Longrightarrow> split_on c s = [s]"
  by (induction s) auto

lemma split_on_append_sep: "c \<notin> set a \<Longrightarrow> split_on c (a @ c # b) = a # split_on c b"
  by (induction a) auto

lemma split_on_append_general:
  "split_on c (a @ c # b) = split_on c a @ split_on c b"
proof (induction a)
  case (Cons x a)
  then show ?case
    by (cases "split_on c a") auto
qed simp

lemma join_with_Cons: "ws \<noteq> [] \<Longrightarrow> join_with sep (w # ws) = w @ sep @ join_with sep ws"
  by (cases ws) auto

lemma join_split_on: "join_with [c] (split_on c s) = s"
proof (induction s)
  case Nil
  then show ?case by simp
next
  case (Cons x xs)
  obtain w ws where sp: "split_on c xs = w # ws"
    by (cases "split_on c xs") auto
  with Cons show ?case
    by (cases ws) auto
qed

lemma split_on_join:
  "ws \<noteq> [] \<Longrightarrow> \<forall>w \<in> set ws. c \<notin> set w \<Longrightarrow> split_on c (join_with [c] ws) = ws"
proof (induction ws)
  case (Cons w ws)
  then show ?case
    by (cases ws) (auto simp: split_on_notin split_on_append_sep)
qed simp

lemma split_on_subset: "w \<in> set (split_on c s) \<Longrightarrow> set w \<subseteq> set s"
  by (induction s arbitrary: w) (fastforce split: if_splits list.splits)+

lemma set_split_on: "x \<in> set s \<Longrightarrow> x = c \<or> (\<exists>w \<in> set (split_on c s). x \<in> set w)"
proof (induction s)
  case (Cons y s)
  then show ?case
    by (cases "split_on c s") (auto split: if_splits)
qed simp

lemma split_once_Some_iff:
  "split_once c s = Some (a, b) \<longleftrightarrow> s = a @ c # b \<and> c \<notin> set a"
proof (induction s arbitrary: a)
  case (Cons x s)
  show ?case
  proof (cases a)
    case (Cons y a')
    then show ?thesis
      using Cons.IH [of a'] by auto
  qed auto
qed simp

lemma split_once_None_iff [simp]: "split_once c s = None \<longleftrightarrow> c \<notin> set s"
  by (induction s) auto

lemma split_once_append: "c \<notin> set a \<Longrightarrow> split_once c (a @ c # b) = Some (a, b)"
  by (simp add: split_once_Some_iff)

lemma rsplit_once_Some_iff:
  "rsplit_once c s = Some (a, b) \<longleftrightarrow> s = a @ c # b \<and> c \<notin> set b"
proof -
  have "rsplit_once c s = Some (a, b) \<longleftrightarrow> split_once c (rev s) = Some (rev b, rev a)"
    by (force simp: rsplit_once_def)
  also have "\<dots> \<longleftrightarrow> rev s = rev (a @ c # b) \<and> c \<notin> set b"
    by (simp add: split_once_Some_iff)
  finally show ?thesis
    by (simp only: rev_is_rev_conv)
qed

lemma rsplit_once_None_iff [simp]: "rsplit_once c s = None \<longleftrightarrow> c \<notin> set s"
  by (simp add: rsplit_once_def)

lemma split_once_str_Some:
  "split_once_str p s = Some (a, b) \<Longrightarrow> s = a @ p @ b"
proof (induction p s arbitrary: a rule: split_once_str.induct)
  case (1 p s)
  show ?case
  proof (cases "strip_prefix p s")
    case (Some r)
    with "1.prems" show ?thesis
      by (simp add: split_once_str.simps [of p s] strip_prefix_Some_iff)
  next
    case None
    with "1.prems" obtain x xs where s: "s = x # xs"
      by (cases s) (auto simp: split_once_str.simps [of p "[]"])
    with None "1.prems" obtain a' where "split_once_str p xs = Some (a', b)" "a = x # a'"
      by (auto simp: split_once_str.simps [of p "x # xs"])
    with "1.IH" [OF None s] s show ?thesis by simp
  qed
qed

lemma split_once_str_hit: "split_once_str p (p @ b) = Some ([], b)"
  by (simp add: split_once_str.simps)

lemma split_once_str_skip:
  "strip_prefix p (x # xs) = None \<Longrightarrow>
     split_once_str p (x # xs) = map_option (\<lambda>(a, b). (x # a, b)) (split_once_str p xs)"
  by (simp add: split_once_str.simps [of p "x # xs"])

section \<open>Characters\<close>

text \<open>
  A character of a valid UTF-8 string is an ASCII byte, or a leading byte and the continuation
  bytes after it.
\<close>

definition is_cont :: "char \<Rightarrow> bool" where
  "is_cont c \<longleftrightarrow> 128 \<le> code c \<and> code c < 192"

function utf8_chars :: "string \<Rightarrow> string list" where
  "utf8_chars [] = []"
| "utf8_chars (b # bs) =
     (if is_ascii b then [b] # utf8_chars bs
      else (b # takeWhile is_cont bs) # utf8_chars (dropWhile is_cont bs))"
  by pat_completeness auto
termination
  by (relation "measure length") (auto simp: le_imp_less_Suc length_dropWhile_le)

lemma concat_utf8_chars [simp]: "concat (utf8_chars s) = s"
  by (induction s rule: utf8_chars.induct) auto

lemma utf8_chars_ascii: "\<forall>c \<in> set s. is_ascii c \<Longrightarrow> utf8_chars s = map (\<lambda>c. [c]) s"
  by (induction s) auto

lemma utf8_chars_nonempty: "w \<in> set (utf8_chars s) \<Longrightarrow> w \<noteq> []"
  by (induction s rule: utf8_chars.induct) (auto split: if_splits)

text \<open>An ASCII byte is always a character of its own.\<close>

lemma utf8_chars_ascii_byte: "c \<in> set s \<Longrightarrow> is_ascii c \<Longrightarrow> [c] \<in> set (utf8_chars s)"
proof (induction s rule: utf8_chars.induct)
  case (2 b bs)
  show ?case
  proof (cases "is_ascii b")
    case True
    with 2 show ?thesis by auto
  next
    case False
    with "2.prems" have "c \<in> set bs" by auto
    moreover have "c \<notin> set (takeWhile is_cont bs)"
      using "2.prems"(2) by (auto simp: is_cont_def is_ascii_def dest: set_takeWhileD)
    ultimately have "c \<in> set (dropWhile is_cont bs)"
      by (metis UnE set_append takeWhile_dropWhile_id)
    with 2 False show ?thesis by auto
  qed
qed simp

text \<open>
  \<open>char::is_control\<close> is general category Cc: U+0000..U+001F, U+007F..U+009F. The last block is
  the two-byte sequences C2 80..C2 9F.
\<close>

fun is_control :: "string \<Rightarrow> bool" where
  "is_control [b] = (code b < 32 \<or> code b = 127)"
| "is_control [b, d] = (code b = 194 \<and> 128 \<le> code d \<and> code d \<le> 159)"
| "is_control _ = False"

text \<open>
  \<open>char::is_whitespace\<close> is the property White\_Space: U+0009..U+000D, U+0020, U+0085, U+00A0,
  U+1680, U+2000..U+200A, U+2028, U+2029, U+202F, U+205F, U+3000.
\<close>

fun is_whitespace :: "string \<Rightarrow> bool" where
  "is_whitespace [b] = ((9 \<le> code b \<and> code b \<le> 13) \<or> code b = 32)"
| "is_whitespace [b, d] = (code b = 194 \<and> (code d = 133 \<or> code d = 160))"
| "is_whitespace [b, d, e] =
     ((code b = 225 \<and> code d = 154 \<and> code e = 128)
      \<or> (code b = 226 \<and> code d = 128 \<and>
          ((128 \<le> code e \<and> code e \<le> 138) \<or> code e = 168 \<or> code e = 169 \<or> code e = 175))
      \<or> (code b = 226 \<and> code d = 129 \<and> code e = 159)
      \<or> (code b = 227 \<and> code d = 128 \<and> code e = 128))"
| "is_whitespace _ = False"

definition trim :: "string \<Rightarrow> string" where
  "trim s = concat (rev (dropWhile is_whitespace (rev (dropWhile is_whitespace (utf8_chars s)))))"

definition all_whitespace :: "string \<Rightarrow> bool" where
  "all_whitespace s \<longleftrightarrow> list_all is_whitespace (utf8_chars s)"

definition any_control :: "string \<Rightarrow> bool" where
  "any_control s \<longleftrightarrow> list_ex is_control (utf8_chars s)"

lemma trim_sublist: "\<exists>a b. s = a @ trim s @ b"
proof -
  define cs where "cs = utf8_chars s"
  define ds where "ds = dropWhile is_whitespace cs"
  define es where "es = rev (dropWhile is_whitespace (rev ds))"
  have "ds = es @ rev (takeWhile is_whitespace (rev ds))"
    by (metis es_def rev_append rev_rev_ident takeWhile_dropWhile_id)
  moreover have "cs = takeWhile is_whitespace cs @ ds"
    by (simp add: ds_def)
  ultimately have "concat cs = concat (takeWhile is_whitespace cs) @ concat es
      @ concat (rev (takeWhile is_whitespace (rev ds)))"
    by (metis concat_append)
  moreover have "concat es = trim s"
    by (simp add: trim_def es_def ds_def cs_def)
  ultimately show ?thesis
    by (metis concat_utf8_chars cs_def)
qed

lemma set_trim_subset: "set (trim s) \<subseteq> set s"
proof -
  obtain a b where "s = a @ trim s @ b"
    using trim_sublist by blast
  then show ?thesis
    by (metis Un_iff set_append subsetI)
qed

lemma length_trim_le: "length (trim s) \<le> length s"
proof -
  obtain a b where "s = a @ trim s @ b"
    using trim_sublist by blast
  then show ?thesis
    by (metis le_add1 le_add2 le_trans length_append)
qed

text \<open>A string whose first and last bytes are ASCII and not whitespace is already trimmed.\<close>

lemma trim_nonspace_ascii:
  assumes "\<forall>c \<in> set s. is_ascii c" "s \<noteq> []"
    "\<not> is_whitespace [hd s]" "\<not> is_whitespace [last s]"
  shows "trim s = s"
proof -
  let ?cs = "map (\<lambda>c. [c]) s"
  have "dropWhile is_whitespace ?cs = ?cs"
    using assms by (cases s) auto
  moreover have "dropWhile is_whitespace (rev ?cs) = rev ?cs"
    using assms by (cases s rule: rev_cases) auto
  moreover have "concat ?cs = s"
    by (induction s) auto
  ultimately show ?thesis
    using assms(1) by (simp add: trim_def utf8_chars_ascii)
qed

text \<open>
  The groups \<open>utf8_chars\<close> makes: an ASCII byte alone, or a lead byte with all its continuation
  bytes. A contiguous part of a grouped string groups the same way, so trimming is idempotent.
\<close>

fun grouped :: "string list \<Rightarrow> bool" where
  "grouped [] \<longleftrightarrow> True"
| "grouped (g # gs) \<longleftrightarrow>
     (case g of
        [] \<Rightarrow> False
      | b # cs \<Rightarrow>
          if is_ascii b then cs = []
          else list_all is_cont cs \<and> (case concat gs of [] \<Rightarrow> True | d # _ \<Rightarrow> \<not> is_cont d))
     \<and> grouped gs"

lemma hd_dropWhile_cont: "dropWhile P xs = d # ds \<Longrightarrow> \<not> P d"
  by (metis hd_dropWhile list.distinct(1) list.sel(1))

lemma grouped_utf8_chars: "grouped (utf8_chars s)"
proof (induction s rule: utf8_chars.induct)
  case (2 b bs)
  then show ?case
    by (auto simp: list_all_iff dest: set_takeWhileD hd_dropWhile_cont split: list.split)
qed simp

lemma utf8_chars_grouped: "grouped gs \<Longrightarrow> utf8_chars (concat gs) = gs"
proof (induction gs)
  case (Cons g gs)
  obtain b cs where g: "g = b # cs"
    using Cons.prems by (cases g) auto
  show ?case
  proof (cases "is_ascii b")
    case False
    then have "list_all is_cont cs" "takeWhile is_cont (concat gs) = []"
      using Cons.prems g by (cases "concat gs"; simp del: concat_eq_Nil_conv)+
    then have "takeWhile is_cont (cs @ concat gs) = cs" "dropWhile is_cont (cs @ concat gs) = concat gs"
      by (auto simp: takeWhile_append2 dropWhile_append2 list_all_iff dropWhile_eq_self_iff takeWhile_eq_Nil_iff)
    with Cons False g show ?thesis by simp
  qed (use Cons g in simp)
qed simp

lemma grouped_append: "grouped (a @ b) \<Longrightarrow> grouped a \<and> grouped b"
proof (induction a)
  case (Cons g a)
  then show ?case
    by (cases g; cases "concat a") (auto simp del: concat_eq_Nil_conv split: if_splits list.splits)
qed simp

lemma utf8_chars_trim:
  "utf8_chars (trim s) = rev (dropWhile is_whitespace (rev (dropWhile is_whitespace (utf8_chars s))))"
proof -
  have "grouped (dropWhile is_whitespace (utf8_chars s))"
    using grouped_utf8_chars [of s] grouped_append by (metis takeWhile_dropWhile_id)
  moreover have "dropWhile is_whitespace (utf8_chars s) =
      rev (dropWhile is_whitespace (rev (dropWhile is_whitespace (utf8_chars s))))
      @ rev (takeWhile is_whitespace (rev (dropWhile is_whitespace (utf8_chars s))))"
    by (metis rev_append rev_rev_ident takeWhile_dropWhile_id)
  ultimately have "grouped (rev (dropWhile is_whitespace (rev (dropWhile is_whitespace (utf8_chars s)))))"
    using grouped_append by metis
  then show ?thesis
    unfolding trim_def by (rule utf8_chars_grouped)
qed

lemma dropWhile_rev_dropWhile:
  "dropWhile P (rev (dropWhile P (rev (dropWhile P xs)))) = rev (dropWhile P (rev (dropWhile P xs)))"
proof (cases "dropWhile P xs")
  case (Cons y ys)
  then have "\<not> P y" by (rule hd_dropWhile_cont)
  then have "dropWhile P (rev ys @ [y]) = dropWhile P (rev ys) @ [y]"
    by (induction ys rule: rev_induct) auto
  with Cons \<open>\<not> P y\<close> show ?thesis by simp
next
  case Nil
  then show ?thesis by (simp only: rev.simps dropWhile.simps)
qed

lemma trim_trim [simp]: "trim (trim s) = trim s"
  unfolding trim_def [of "trim s"] utf8_chars_trim
  by (simp add: dropWhile_rev_dropWhile trim_def)

lemma trim_space [simp]: "trim (CHR 0x20 # s) = trim s"
  by (simp add: trim_def is_ascii_def)

lemma utf8_chars_ascii_append:
  "\<forall>c \<in> set a. is_ascii c \<Longrightarrow> utf8_chars (a @ b) = map (\<lambda>c. [c]) a @ utf8_chars b"
  by (induction a) auto

lemma utf8_chars_snoc_ascii: "is_ascii c \<Longrightarrow> utf8_chars (s @ [c]) = utf8_chars s @ [[c]]"
proof (induction s rule: utf8_chars.induct)
  case (2 b bs)
  have "\<not> is_cont c"
    using "2.prems" by (simp add: is_cont_def is_ascii_def)
  then have "takeWhile is_cont (bs @ [c]) = takeWhile is_cont bs"
      "dropWhile is_cont (bs @ [c]) = dropWhile is_cont bs @ [c]"
    by (induction bs) auto
  with 2 show ?case by simp
qed simp

lemma dropWhile_append_last: "\<not> P y \<Longrightarrow> dropWhile P (xs @ [y]) = dropWhile P xs @ [y]"
  by (induction xs) auto

text \<open>A leading ASCII character that is not whitespace survives trimming.\<close>

lemma trim_keeps_head:
  assumes "is_ascii c" "\<not> is_whitespace [c]"
  shows "\<exists>r. trim (c # s) = c # r"
  using assms dropWhile_append_last [of is_whitespace "[c]" "rev (utf8_chars s)"]
  by (auto simp: trim_def)

lemma last_utf8_chars_trimmed:
  assumes "trim w = w" "w \<noteq> []"
  shows "utf8_chars w \<noteq> [] \<and> \<not> is_whitespace (last (utf8_chars w))"
proof -
  let ?d = "dropWhile is_whitespace (rev (dropWhile is_whitespace (utf8_chars w)))"
  have e: "utf8_chars w = rev ?d"
    using utf8_chars_trim [of w] assms(1) by simp
  have "utf8_chars w \<noteq> []"
    using assms(2) by (cases w) auto
  then show ?thesis
    using e hd_dropWhile [of is_whitespace] by (metis last_rev rev_is_Nil_conv)
qed

text \<open>ASCII text that starts with a non-blank, followed by trimmed text, is trimmed.\<close>

lemma trim_prefixed:
  assumes "\<forall>c \<in> set a. is_ascii c" "a \<noteq> []" "\<not> is_whitespace [hd a]" "trim w = w" "w \<noteq> []"
  shows "trim (a @ w) = a @ w"
proof -
  note l = last_utf8_chars_trimmed [OF assms(4,5)]
  have "utf8_chars (a @ w) = map (\<lambda>c. [c]) a @ utf8_chars w"
    using assms(1) by (rule utf8_chars_ascii_append)
  moreover have "dropWhile is_whitespace (map (\<lambda>c. [c]) a @ utf8_chars w) = map (\<lambda>c. [c]) a @ utf8_chars w"
    using assms(2,3) by (cases a) auto
  moreover have "dropWhile is_whitespace (rev (map (\<lambda>c. [c]) a @ utf8_chars w)) = rev (map (\<lambda>c. [c]) a @ utf8_chars w)"
    using l by (auto simp: dropWhile_eq_self_iff hd_append hd_rev)
  ultimately show ?thesis
    by (simp add: trim_def)
qed

lemma dropWhile_all_iff: "(\<forall>x \<in> set (dropWhile P xs). P x) \<longleftrightarrow> (\<forall>x \<in> set xs. P x)"
  by (induction xs) auto

text \<open>Trimming neither creates nor loses content: it is empty exactly for whitespace.\<close>

lemma trim_Nil_iff: "trim s = [] \<longleftrightarrow> all_whitespace s"
proof -
  have "trim s = [] \<longleftrightarrow> utf8_chars (trim s) = []"
    by (metis concat.simps(1) concat_utf8_chars utf8_chars.simps(1))
  also have "\<dots> \<longleftrightarrow> all_whitespace s"
    unfolding utf8_chars_trim all_whitespace_def
    by (simp only: rev_is_Nil_conv dropWhile_eq_Nil_conv set_rev list_all_iff dropWhile_all_iff)
  finally show ?thesis .
qed

lemma no_control_byte:
  assumes "\<not> any_control s" "c \<in> set s"
  shows "32 \<le> code c \<and> code c \<noteq> 127"
proof (cases "is_ascii c")
  case True
  with assms(2) have "[c] \<in> set (utf8_chars s)"
    by (rule utf8_chars_ascii_byte)
  with assms(1) have "\<not> is_control [c]"
    by (auto simp: any_control_def list_ex_iff)
  then show ?thesis by simp
qed (simp add: is_ascii_def)

text \<open>
  \<open>split_whitespace().next()\<close>: the first maximal run of characters that are not whitespace.
  \<open>split_once(char::is_whitespace)\<close>: the text before and after the first whitespace character.
\<close>

definition first_word :: "string \<Rightarrow> string" where
  "first_word s = concat (takeWhile (\<lambda>w. \<not> is_whitespace w)
     (dropWhile is_whitespace (utf8_chars s)))"

definition split_once_ws :: "string \<Rightarrow> (string \<times> string) option" where
  "split_once_ws s =
     (case dropWhile (\<lambda>w. \<not> is_whitespace w) (utf8_chars s) of
        [] \<Rightarrow> None
      | _ # rest \<Rightarrow> Some (concat (takeWhile (\<lambda>w. \<not> is_whitespace w) (utf8_chars s)), concat rest))"

text \<open>\<open>replace\<close> of one byte by a string.\<close>

definition replace_byte :: "char \<Rightarrow> string \<Rightarrow> string \<Rightarrow> string" where
  "replace_byte c t s = concat (map (\<lambda>x. if x = c then t else [x]) s)"

text \<open>
  \<open>lines\<close>: the pieces between line feeds, a final empty piece left out, a carriage return before
  a line feed dropped.
\<close>

abbreviation LF :: char where "LF \<equiv> CHR 0x0A"
abbreviation CR :: char where "CR \<equiv> CHR 0x0D"

definition chomp_cr :: "string \<Rightarrow> string" where
  "chomp_cr s = (case strip_suffix [CR] s of Some r \<Rightarrow> r | None \<Rightarrow> s)"

definition str_lines :: "string \<Rightarrow> string list" where
  "str_lines s =
     (let ps = split_on LF s
      in map chomp_cr (butlast ps) @ (if last ps = [] then [] else [last ps]))"

lemma split_on_terminated:
  "\<forall>l \<in> set ls. c \<notin> set l \<Longrightarrow> split_on c (concat (map (\<lambda>l. l @ [c]) ls)) = ls @ [[]]"
  by (induction ls) (simp_all add: split_on_append_sep)

lemma chomp_cr_id: "CR \<notin> set l \<Longrightarrow> chomp_cr l = l"
  by (auto simp: chomp_cr_def strip_suffix_Some_iff split: option.split)

lemma str_lines_terminated:
  assumes "\<forall>l \<in> set ls. LF \<notin> set l \<and> CR \<notin> set l"
  shows "str_lines (concat (map (\<lambda>l. l @ [LF]) ls)) = ls"
  using assms by (simp add: str_lines_def split_on_terminated chomp_cr_id map_idI)

section \<open>Unsigned integers in decimal\<close>

definition digit_val :: "char \<Rightarrow> nat" where
  "digit_val c = code c - 48"

definition digits_val :: "string \<Rightarrow> nat" where
  "digits_val s = foldl (\<lambda>n c. 10 * n + digit_val c) 0 s"

text \<open>
  \<open>str::parse\<close> for an unsigned type whose largest value is \<open>max\<close>: an optional \<open>+\<close>, then one or
  more digits whose value fits.
\<close>

definition parse_digits :: "nat \<Rightarrow> string \<Rightarrow> nat option" where
  "parse_digits mx s =
     (if s \<noteq> [] \<and> list_all is_ascii_digit s \<and> digits_val s \<le> mx then Some (digits_val s) else None)"

definition parse_uint :: "nat \<Rightarrow> string \<Rightarrow> nat option" where
  "parse_uint mx s = (case s of c # r \<Rightarrow> (if c = CHR ''+'' then parse_digits mx r else parse_digits mx s)
                      | [] \<Rightarrow> None)"

abbreviation u16_max :: nat where "u16_max \<equiv> 65535"
abbreviation u32_max :: nat where "u32_max \<equiv> 4294967295"

function show_nat :: "nat \<Rightarrow> string" where
  "show_nat n = (if n < 10 then [char_of (48 + n)] else show_nat (n div 10) @ [char_of (48 + n mod 10)])"
  by pat_completeness auto
termination
  by (relation "measure id") auto

declare show_nat.simps [simp del]

lemma digit_char:
  "n < 10 \<Longrightarrow> is_ascii_digit (char_of (48 + n)) \<and> digit_val (char_of (48 + n)) = n"
  by (simp add: is_ascii_digit_def digit_val_def)

lemma digits_val_snoc [simp]: "digits_val (s @ [c]) = 10 * digits_val s + digit_val c"
  by (simp add: digits_val_def)

lemma show_nat_digits: "list_all is_ascii_digit (show_nat n)"
proof (induction n rule: show_nat.induct)
  case (1 n)
  then show ?case
    by (auto simp: show_nat.simps [of n] digit_char)
qed

lemma digits_val_show_nat [simp]: "digits_val (show_nat n) = n"
proof (induction n rule: show_nat.induct)
  case (1 n)
  show ?case
  proof (cases "n < 10")
    case True
    then show ?thesis
      using digit_char [of n] by (simp add: show_nat.simps [of n] digits_val_def)
  next
    case False
    have "digit_val (char_of (48 + n mod 10)) = n mod 10"
      using digit_char [of "n mod 10"] by simp
    with False "1.IH" show ?thesis
      by (simp add: show_nat.simps [of n])
  qed
qed

lemma show_nat_not_Nil [simp]: "show_nat n \<noteq> []"
  by (subst show_nat.simps) simp

lemma is_ascii_digit_not_plus: "is_ascii_digit c \<Longrightarrow> c \<noteq> CHR ''+''"
  by (auto simp: is_ascii_digit_def)

lemma parse_digits_show_nat: "n \<le> mx \<Longrightarrow> parse_digits mx (show_nat n) = Some n"
  by (simp add: parse_digits_def show_nat_digits)

lemma parse_uint_digits: "list_all is_ascii_digit s \<Longrightarrow> parse_uint mx s = parse_digits mx s"
  by (cases s) (auto simp: parse_uint_def parse_digits_def dest: is_ascii_digit_not_plus)

lemma parse_uint_show_nat: "n \<le> mx \<Longrightarrow> parse_uint mx (show_nat n) = Some n"
  by (simp add: parse_uint_digits show_nat_digits parse_digits_show_nat)

lemma parse_uint_le: "parse_uint mx s = Some n \<Longrightarrow> n \<le> mx"
  by (auto simp: parse_uint_def parse_digits_def split: list.splits if_splits)

section \<open>UTF-8 validity\<close>

text \<open>\<open>String::from_utf8\<close> accepts the well-formed byte sequences of the Unicode standard.\<close>

abbreviation byte_in :: "char \<Rightarrow> nat \<Rightarrow> nat \<Rightarrow> bool" where
  "byte_in c lo hi \<equiv> lo \<le> code c \<and> code c \<le> hi"

function valid_utf8 :: "string \<Rightarrow> bool" where
  "valid_utf8 [] = True"
| "valid_utf8 (b # bs) =
     (if is_ascii b then valid_utf8 bs
      else (case bs of
          c # cs \<Rightarrow>
            if byte_in b 194 223 then is_cont c \<and> valid_utf8 cs
            else (case cs of
                d # ds \<Rightarrow>
                  if code b = 224 then byte_in c 160 191 \<and> is_cont d \<and> valid_utf8 ds
                  else if byte_in b 225 236 \<or> byte_in b 238 239 then is_cont c \<and> is_cont d \<and> valid_utf8 ds
                  else if code b = 237 then byte_in c 128 159 \<and> is_cont d \<and> valid_utf8 ds
                  else (case ds of
                      e # es \<Rightarrow>
                        is_cont d \<and> is_cont e \<and> valid_utf8 es
                        \<and> ((code b = 240 \<and> byte_in c 144 191) \<or> (byte_in b 241 243 \<and> is_cont c)
                           \<or> (code b = 244 \<and> byte_in c 128 143))
                    | [] \<Rightarrow> False)
              | [] \<Rightarrow> False)
        | [] \<Rightarrow> False))"
  by pat_completeness auto
termination
  by (relation "measure length") auto

definition from_utf8 :: "string \<Rightarrow> string option" where
  "from_utf8 bs = (if valid_utf8 bs then Some bs else None)"

lemma valid_utf8_ascii: "\<forall>c \<in> set s. is_ascii c \<Longrightarrow> valid_utf8 s"
  by (induction s) simp_all

end
