(* ===== verification/Supervisor.thy ===== *)
theory Supervisor
  imports Rust_Str
begin

text \<open>
  \<open>crates/yerd-supervise/src/supervisor.rs\<close> and \<open>error.rs\<close>: the supervision state machine that PHP
  pools, services, tunnels and application servers share. A \<open>Duration\<close> is its number of
  nanoseconds; \<open>saturating_mul\<close> stops at \<open>Duration::MAX\<close>. Attempt counters and process ids are
  32-bit words. \<open>transition\<close> is the source's function, arm by arm.
\<close>

type_synonym duration = nat

definition duration_max :: duration where
  "duration_max = 2 ^ 64 * 1000000000 - 1"

definition from_millis :: "nat \<Rightarrow> duration" where
  "from_millis n = n * 1000000"

definition from_secs :: "nat \<Rightarrow> duration" where
  "from_secs n = n * 1000000000"

definition saturating_mul :: "duration \<Rightarrow> nat \<Rightarrow> duration" where
  "saturating_mul d n = min (d * n) duration_max"

section \<open>Policies\<close>

record supervisor_policy =
  health_check_window :: duration
  backoff_initial :: duration
  backoff_max :: duration
  max_restart_attempts :: u32
  stop_grace :: duration

definition policy_fpm :: supervisor_policy where
  "policy_fpm =
     \<lparr>health_check_window = from_secs 5, backoff_initial = from_millis 100,
      backoff_max = from_secs 10, max_restart_attempts = 3, stop_grace = from_secs 2\<rparr>"

definition policy_database :: supervisor_policy where
  "policy_database =
     \<lparr>health_check_window = from_secs 60, backoff_initial = from_millis 250,
      backoff_max = from_secs 10, max_restart_attempts = 3, stop_grace = from_secs 10\<rparr>"

definition policy_reverb :: supervisor_policy where
  "policy_reverb =
     \<lparr>health_check_window = from_secs 20, backoff_initial = from_millis 250,
      backoff_max = from_secs 10, max_restart_attempts = 3, stop_grace = from_secs 3\<rparr>"

definition policy_tunnel :: supervisor_policy where
  "policy_tunnel =
     \<lparr>health_check_window = from_secs 60, backoff_initial = from_millis 250,
      backoff_max = from_secs 10, max_restart_attempts = 3, stop_grace = from_secs 5\<rparr>"

section \<open>States, events, actions\<close>

datatype exit_reason = Code "32 word" | Signal "32 word" | Unknown

text \<open>\<open>ExitReason::from_status\<close>: an exit status has a signal, a code, or neither.\<close>

definition exit_reason_from_status :: "32 word option \<Rightarrow> 32 word option \<Rightarrow> exit_reason" where
  "exit_reason_from_status signal exit_code =
     (case signal of Some s \<Rightarrow> Signal s
      | None \<Rightarrow> (case exit_code of Some c \<Rightarrow> Code c | None \<Rightarrow> Unknown))"

definition show_i32 :: "32 word \<Rightarrow> string" where
  "show_i32 w = (if sint w < 0 then ''-'' @ show_nat (nat (- sint w)) else show_nat (nat (sint w)))"

fun show_exit_reason :: "exit_reason \<Rightarrow> string" where
  "show_exit_reason (Code c) = ''exit '' @ show_i32 c"
| "show_exit_reason (Signal s) = ''signal '' @ show_i32 s"
| "show_exit_reason Unknown = ''unknown''"

datatype io_error_kind = NotFound | PermissionDeniedKind | OtherKind

datatype spawn_failure_reason = BinaryNotFound | PermissionDenied | WaitFailed | OtherFailure

fun spawn_failure_from_kind :: "io_error_kind \<Rightarrow> spawn_failure_reason" where
  "spawn_failure_from_kind NotFound = BinaryNotFound"
| "spawn_failure_from_kind PermissionDeniedKind = PermissionDenied"
| "spawn_failure_from_kind _ = OtherFailure"

datatype pool_state =
    Stopped
  | Starting u32 "u32 option"
  | Running u32
  | Failed exit_reason u32
  | Stopping bool

datatype sup_event =
    EnsureRequested
  | SpawnSucceeded u32
  | HealthCheckOk
  | HealthCheckTick duration
  | Crashed exit_reason
  | StopRequested
  | StopComplete
  | StopTick duration
  | BackoffElapsed

datatype error_tag = HealthCheckTimedOut | PermanentFailure

datatype kill_signal = TermSignal | KillSignal

datatype sup_action =
    NoAction
  | Spawn
  | HealthCheck
  | Backoff duration
  | Kill kill_signal
  | EmitError error_tag

definition backoff_for :: "u32 \<Rightarrow> supervisor_policy \<Rightarrow> duration" where
  "backoff_for attempts policy =
     (let n = max (unat attempts) 1 - 1;
          factor = (if n < 64 then 2 ^ n else 2 ^ 64 - 1 :: nat);
          scaled = saturating_mul (backoff_initial policy) (if factor \<le> u32_max then factor else u32_max)
      in min scaled (backoff_max policy))"

fun transition :: "pool_state \<Rightarrow> sup_event \<Rightarrow> supervisor_policy \<Rightarrow> pool_state \<times> sup_action" where
  "transition Stopped EnsureRequested p = (Starting 1 None, Spawn)"
| "transition (Starting a _) (SpawnSucceeded pid) p = (Starting a (Some pid), HealthCheck)"
| "transition (Starting a (Some pid)) HealthCheckOk p = (Running pid, NoAction)"
| "transition (Starting a None) HealthCheckOk p = (Starting a None, NoAction)"
| "transition (Starting a q) (HealthCheckTick e) p =
     (if e < health_check_window p then (Starting a q, HealthCheck)
      else (Starting a q, Kill TermSignal))"
| "transition (Starting a _) (Crashed reason) p = (Failed reason a, Backoff (backoff_for a p))"
| "transition (Starting _ _) StopRequested p = (Stopping False, Kill TermSignal)"
| "transition (Running _) (Crashed reason) p = (Failed reason 1, Backoff (backoff_for 1 p))"
| "transition (Running pid) EnsureRequested p = (Running pid, NoAction)"
| "transition (Running _) StopRequested p = (Stopping False, Kill TermSignal)"
| "transition (Failed r a) BackoffElapsed p =
     (if a < max_restart_attempts p then (Starting (a + 1) None, Spawn)
      else (Failed r a, EmitError PermanentFailure))"
| "transition (Failed _ _) EnsureRequested p = (Starting 1 None, Spawn)"
| "transition (Failed _ _) StopRequested p = (Stopped, NoAction)"
| "transition (Stopping killed) (StopTick e) p =
     (if \<not> killed \<and> e \<ge> stop_grace p then (Stopping True, Kill KillSignal)
      else (Stopping killed, NoAction))"
| "transition (Stopping _) StopComplete p = (Stopped, NoAction)"
| "transition (Stopping killed) EnsureRequested p = (Stopping killed, NoAction)"
| "transition s _ p = (s, NoAction)"

section \<open>Backoff\<close>

lemma two_pow_cap: "32 \<le> n \<Longrightarrow> (u32_max::nat) < 2 ^ n"
proof -
  assume "32 \<le> n"
  then have "(2::nat) ^ 32 \<le> 2 ^ n" by (rule power_increasing) simp
  then show ?thesis by simp
qed

text \<open>
  The factor that is applied: the power of two, cut at \<open>u32::MAX\<close>.
\<close>

lemma pow_factor:
  "(if (if n < 64 then 2 ^ n else 2 ^ 64 - 1 :: nat) \<le> u32_max
    then (if n < 64 then 2 ^ n else 2 ^ 64 - 1) else u32_max) = min (2 ^ n) u32_max"
  using two_pow_cap [of n] by (cases "n < 32") auto

lemma backoff_factor:
  "backoff_for a p =
     min (min (backoff_initial p * min (2 ^ (max (unat a) 1 - 1)) u32_max) duration_max) (backoff_max p)"
  unfolding backoff_for_def Let_def saturating_mul_def pow_factor ..

text \<open>
  The wait before a retry follows the documented schedule, \<open>initial\<close> doubled with each failed
  attempt and capped, for every attempt number, whenever the cap is reachable before the 32-bit
  factor is exhausted (as it is for each policy the crate ships). The wait never exceeds the cap
  and never shrinks from one attempt to the next.
\<close>

theorem backoff_documented:
  assumes "backoff_max p \<le> backoff_initial p * u32_max" "backoff_max p \<le> duration_max"
  shows "backoff_for a p = min (backoff_initial p * 2 ^ (max (unat a) 1 - 1)) (backoff_max p)
    \<and> backoff_for a p \<le> backoff_max p
    \<and> (a \<le> b \<longrightarrow> backoff_for a p \<le> backoff_for b p)"
proof -
  have f: "backoff_for a p = min (backoff_initial p * 2 ^ (max (unat a) 1 - 1)) (backoff_max p)" for a
  proof (cases "(2::nat) ^ (max (unat a) 1 - 1) \<le> u32_max")
    case True
    then have "min ((2::nat) ^ (max (unat a) 1 - 1)) u32_max = 2 ^ (max (unat a) 1 - 1)"
      by (rule min.absorb1)
    then show ?thesis
      using assms(2) unfolding backoff_factor by (auto simp: min_def)
  next
    case False
    then have m: "min ((2::nat) ^ (max (unat a) 1 - 1)) u32_max = u32_max"
      by simp
    have "backoff_max p \<le> backoff_initial p * 2 ^ (max (unat a) 1 - 1)"
      by (rule order_trans [OF assms(1)]) (use False in simp)
    then show ?thesis
      using assms unfolding backoff_factor m by (simp add: min_def)
  qed
  have "backoff_for a p \<le> backoff_for b p" if "a \<le> b"
  proof -
    have "max (unat a) 1 - 1 \<le> max (unat b) 1 - 1"
      using that by (auto simp: word_le_nat_alt)
    then have "(2::nat) ^ (max (unat a) 1 - 1) \<le> 2 ^ (max (unat b) 1 - 1)"
      by (rule power_increasing) simp
    then show ?thesis
      unfolding f by (intro min.mono mult_le_mono order_refl)
  qed
  with f show ?thesis by simp
qed

theorem backoff_documented_witness:
  "backoff_for 5 policy_fpm = from_millis 1600
   \<and> backoff_for 40 policy_database = from_secs 10
   \<and> backoff_for 2 policy_reverb = from_millis 500
   \<and> backoff_for 7 policy_tunnel = from_secs 10"
proof -
  have c: "backoff_max p \<le> backoff_initial p * u32_max" "backoff_max p \<le> duration_max"
    if "p \<in> {policy_fpm, policy_database, policy_reverb, policy_tunnel}" for p
    using that by (auto simp: policy_fpm_def policy_database_def policy_reverb_def policy_tunnel_def
        from_secs_def from_millis_def duration_max_def)
  show ?thesis
    using backoff_documented [OF c, of policy_fpm 5] backoff_documented [OF c, of policy_database 40]
      backoff_documented [OF c, of policy_reverb 2] backoff_documented [OF c, of policy_tunnel 7]
    by (simp add: policy_fpm_def policy_database_def policy_reverb_def policy_tunnel_def
        from_secs_def from_millis_def)
qed

section \<open>Runs\<close>

fun run :: "supervisor_policy \<Rightarrow> pool_state \<Rightarrow> sup_event list \<Rightarrow> pool_state \<times> sup_action list" where
  "run p s [] = (s, [])"
| "run p s (e # es) =
     (case transition s e p of (s', a) \<Rightarrow> (case run p s' es of (s'', as) \<Rightarrow> (s'', a # as)))"

lemma run_append:
  "run p s (xs @ ys) = (case run p s xs of (s', as) \<Rightarrow> (case run p s' ys of (s'', bs) \<Rightarrow> (s'', as @ bs)))"
  by (induction xs arbitrary: s) (simp_all split: prod.split)

inductive reachable_state :: "supervisor_policy \<Rightarrow> pool_state \<Rightarrow> bool" for p where
  initial: "reachable_state p Stopped"
| step: "reachable_state p s \<Longrightarrow> transition s e p = (s', a) \<Longrightarrow> reachable_state p s'"

definition attempts_ok :: "supervisor_policy \<Rightarrow> u32 \<Rightarrow> bool" where
  "attempts_ok p a \<longleftrightarrow> 1 \<le> unat a \<and> unat a \<le> max 1 (unat (max_restart_attempts p))"

fun state_ok :: "supervisor_policy \<Rightarrow> pool_state \<Rightarrow> bool" where
  "state_ok p (Starting a _) = attempts_ok p a"
| "state_ok p (Failed _ a) = attempts_ok p a"
| "state_ok p _ = True"

lemma attempts_ok_one: "attempts_ok p 1"
  by (simp add: attempts_ok_def)

lemma unat_inc:
  assumes "(a::u32) < b"
  shows "unat (a + 1) = unat a + 1"
proof -
  have "unat a < unat b" using assms by (simp add: word_less_nat_alt)
  moreover have "unat b < 2 ^ LENGTH(32)" by (rule unsigned_less)
  ultimately have "unat a + unat (1::u32) < 2 ^ LENGTH(32)" by simp
  then have "unat (a + 1) = unat a + unat (1::u32)" by (simp only: unat_add_lem)
  then show ?thesis by simp
qed

lemma attempts_ok_inc: "attempts_ok p a \<Longrightarrow> a < max_restart_attempts p \<Longrightarrow> attempts_ok p (a + 1)"
  using unat_inc [of a "max_restart_attempts p"]
  by (simp add: attempts_ok_def word_less_nat_alt)

lemma transition_ok: "state_ok p s \<Longrightarrow> state_ok p (fst (transition s e p))"
  by (induction s e p rule: transition.induct) (simp_all add: attempts_ok_one attempts_ok_inc)

lemma reachable_ok: "reachable_state p s \<Longrightarrow> state_ok p s"
proof (induction rule: reachable_state.induct)
  case (step s e s' a)
  then show ?case using transition_ok [of p s e] by simp
qed simp

section \<open>The restart budget\<close>

text \<open>How many more spawns the machine can ask for without a new request or a healthy start.\<close>

fun spawn_budget :: "supervisor_policy \<Rightarrow> pool_state \<Rightarrow> nat" where
  "spawn_budget p (Starting a _) = unat (max_restart_attempts p) - unat a"
| "spawn_budget p (Failed _ a) = unat (max_restart_attempts p) - unat a"
| "spawn_budget p (Running _) = unat (max_restart_attempts p) - 1"
| "spawn_budget p _ = 0"

lemma spawn_budget_step:
  assumes "e \<noteq> EnsureRequested" "e \<noteq> HealthCheckOk" "transition s e p = (s', a)"
  shows "(if a = Spawn then 1 else 0) + spawn_budget p s' \<le> spawn_budget p s"
  using assms unat_inc
  by (induction s e p rule: transition.induct)
    (auto simp: word_less_nat_alt split: if_splits)

lemma spawn_budget_run:
  assumes "EnsureRequested \<notin> set es" "HealthCheckOk \<notin> set es"
  shows "count_list (snd (run p s es)) Spawn \<le> spawn_budget p s"
  using assms
proof (induction es arbitrary: s)
  case (Cons e es)
  obtain s' a where t: "transition s e p = (s', a)"
    by (cases "transition s e p")
  have "count_list (snd (run p s' es)) Spawn \<le> spawn_budget p s'"
    using Cons by simp
  with spawn_budget_step [OF _ _ t] Cons.prems t show ?case
    by (auto split: prod.split if_splits)
qed simp

text \<open>
  in every reachable state the attempt counter of a starting or failed unit is between 1 and
  the policy's limit, and from any state, while no new request and no healthy probe arrive, the
  machine asks for at most the remaining number of spawns, whatever else happens in whatever order.
\<close>

theorem restart_budget:
  assumes "reachable_state p s" "EnsureRequested \<notin> set es" "HealthCheckOk \<notin> set es"
  shows "count_list (snd (run p s es)) Spawn \<le> unat (max_restart_attempts p) - 1
    \<and> (\<forall>a q. s = Starting a q \<longrightarrow> 1 \<le> unat a \<and> unat a \<le> max 1 (unat (max_restart_attempts p)))
    \<and> (\<forall>r a. s = Failed r a \<longrightarrow> 1 \<le> unat a \<and> unat a \<le> max 1 (unat (max_restart_attempts p)))"
proof -
  have ok: "state_ok p s"
    using assms(1) by (rule reachable_ok)
  then have "spawn_budget p s \<le> unat (max_restart_attempts p) - 1"
    by (cases s) (auto simp: attempts_ok_def)
  then show ?thesis
    using spawn_budget_run [OF assms(2,3), of p s] ok by (auto simp: attempts_ok_def)
qed

theorem restart_budget_witness:
  "count_list (snd (run policy_fpm (Starting 1 None)
     [SpawnSucceeded 7, Crashed (Code 1), BackoffElapsed, SpawnSucceeded 8, Crashed (Signal 9),
      BackoffElapsed, SpawnSucceeded 9, Crashed Unknown, BackoffElapsed, BackoffElapsed])) Spawn \<le> 2"
proof -
  have "reachable_state policy_fpm (Starting 1 None)"
    by (rule reachable_state.step [OF reachable_state.initial, of EnsureRequested]) simp
  from restart_budget [OF this, of "[SpawnSucceeded 7, Crashed (Code 1), BackoffElapsed,
      SpawnSucceeded 8, Crashed (Signal 9), BackoffElapsed, SpawnSucceeded 9, Crashed Unknown,
      BackoffElapsed, BackoffElapsed]"]
  show ?thesis by (simp add: policy_fpm_def)
qed

section \<open>A unit that never becomes healthy\<close>

definition crash_round :: "u32 \<Rightarrow> exit_reason \<Rightarrow> sup_event list" where
  "crash_round pid r = [SpawnSucceeded pid, Crashed r, BackoffElapsed]"

lemma crash_rounds:
  assumes "unat a + k = unat (max_restart_attempts p)"
  shows "run p (Starting a None) (concat (replicate (Suc k) (crash_round pid r))) =
    (Failed r (max_restart_attempts p),
     concat (map (\<lambda>i. [HealthCheck, Backoff (backoff_for (word_of_nat i) p), Spawn]) [unat a..<unat (max_restart_attempts p)])
     @ [HealthCheck, Backoff (backoff_for (max_restart_attempts p) p), EmitError PermanentFailure])"
  using assms
proof (induction k arbitrary: a)
  case 0
  then have "a = max_restart_attempts p" by (simp add: unsigned_word_eqI)
  then show ?case by (simp add: crash_round_def)
next
  case (Suc k)
  have lt: "a < max_restart_attempts p"
    using Suc.prems by (simp add: word_less_nat_alt)
  have inc: "unat (a + 1) = unat a + 1"
    using lt by (rule unat_inc)
  have IH: "run p (Starting (a + 1) None) (concat (replicate (Suc k) (crash_round pid r))) =
    (Failed r (max_restart_attempts p),
     concat (map (\<lambda>i. [HealthCheck, Backoff (backoff_for (word_of_nat i) p), Spawn]) [Suc (unat a)..<unat (max_restart_attempts p)])
     @ [HealthCheck, Backoff (backoff_for (max_restart_attempts p) p), EmitError PermanentFailure])"
    using Suc.IH [of "a + 1"] Suc.prems inc by simp
  have "run p (Starting a None) (crash_round pid r) =
      (Starting (a + 1) None, [HealthCheck, Backoff (backoff_for a p), Spawn])"
    using lt by (simp add: crash_round_def)
  moreover have "[unat a..<unat (max_restart_attempts p)] = unat a # [Suc (unat a)..<unat (max_restart_attempts p)]"
    using lt by (simp add: upt_conv_Cons word_less_nat_alt)
  ultimately show ?case
    using IH run_append [of p "Starting a None" "crash_round pid r" "concat (replicate (Suc k) (crash_round pid r))"]
    by simp
qed



section \<open>Stopping\<close>

fun halting :: "pool_state \<Rightarrow> bool" where
  "halting Stopped = True"
| "halting (Stopping _) = True"
| "halting _ = False"

fun kill_budget :: "pool_state \<Rightarrow> nat" where
  "kill_budget (Stopping False) = 1"
| "kill_budget _ = 0"

lemma halting_step:
  assumes "halting s" "e \<noteq> EnsureRequested" "transition s e p = (s', a)"
  shows "halting s' \<and> a \<noteq> Spawn \<and> (if a = Kill KillSignal then 1 else 0) + kill_budget s' \<le> kill_budget s"
  using assms by (cases s; cases e) (auto split: if_splits)

lemma halting_run:
  assumes "halting s" "EnsureRequested \<notin> set es"
  shows "halting (fst (run p s es)) \<and> Spawn \<notin> set (snd (run p s es))
    \<and> count_list (snd (run p s es)) (Kill KillSignal) \<le> kill_budget s"
  using assms
proof (induction es arbitrary: s)
  case (Cons e es)
  obtain s' a where t: "transition s e p = (s', a)"
    by (cases "transition s e p")
  have st: "halting s' \<and> a \<noteq> Spawn \<and> (if a = Kill KillSignal then 1 else 0) + kill_budget s' \<le> kill_budget s"
    by (rule halting_step [OF _ _ t]) (use Cons.prems in auto)
  then have "halting (fst (run p s' es)) \<and> Spawn \<notin> set (snd (run p s' es))
    \<and> count_list (snd (run p s' es)) (Kill KillSignal) \<le> kill_budget s'"
    using Cons by simp
  with st t show ?case
    by (auto split: prod.split if_splits)
qed simp

text \<open>
  a stop request is never lost. From every state it leads to a halting state; a unit that is
  starting or running is sent the graceful signal at once; afterwards, until a new request comes,
  nothing is spawned again, the forced signal is sent at most once, and it is sent only when the
  grace time is over.
\<close>

theorem stop_is_final:
  assumes "EnsureRequested \<notin> set es"
  shows "case transition s StopRequested p of (s', a) \<Rightarrow>
    halting s'
    \<and> ((\<exists>k q. s = Starting k q) \<or> (\<exists>q. s = Running q) \<longrightarrow> a = Kill TermSignal)
    \<and> halting (fst (run p s' es)) \<and> Spawn \<notin> set (snd (run p s' es))
    \<and> count_list (snd (run p s' es)) (Kill KillSignal) \<le> 1
    \<and> (\<forall>t b. transition (Stopping False) (StopTick t) p = (b, Kill KillSignal) \<longrightarrow> stop_grace p \<le> t)"
proof -
  obtain s' a where t: "transition s StopRequested p = (s', a)"
    by (cases "transition s StopRequested p")
  have h: "halting s'" "((\<exists>k q. s = Starting k q) \<or> (\<exists>q. s = Running q)) \<longrightarrow> a = Kill TermSignal"
    using t by (cases s; auto)+
  have "kill_budget s' \<le> 1"
    by (cases s' rule: kill_budget.cases) auto
  then show ?thesis
    using t h halting_run [OF h(1) assms, of p] by auto
qed

theorem stop_is_final_witness:
  "Spawn \<notin> set (snd (run policy_fpm (fst (transition (Running 9) StopRequested policy_fpm))
     [StopTick (from_secs 1), StopTick (from_secs 3), Crashed (Signal 9), StopComplete, BackoffElapsed]))"
  using stop_is_final [of "[StopTick (from_secs 1), StopTick (from_secs 3), Crashed (Signal 9), StopComplete,
      BackoffElapsed]" "Running 9" policy_fpm]
  by simp

end
