(* ===== verification/Rust_Map.thy ===== *)
theory Rust_Map
  imports Yerd_Prelude
begin

text \<open>
  The two map types of the sources. \<open>BTreeMap\<close> iterates in key order, so it is an association
  list that its operations keep strictly sorted by key; \<open>HashMap\<close> is a partial function. The
  locale \<open>map_api\<close> is the contract the router relies on; its two loop lemmas (insert the same
  value under many keys, remove many keys that still hold a value) are proved once in it.
\<close>

section \<open>The interface\<close>

locale map_api =
  fixes empty :: "'m"
    and get :: "'m \<Rightarrow> 'k \<Rightarrow> 'v option"
    and put :: "'k \<Rightarrow> 'v \<Rightarrow> 'm \<Rightarrow> 'm"
    and del :: "'k \<Rightarrow> 'm \<Rightarrow> 'm"
  assumes get_empty: "get empty k = None"
    and get_put: "get (put k v m) x = (if x = k then Some v else get m x)"
    and get_del: "get (del k m) x = (if x = k then None else get m x)"
begin

lemma get_put_same: "get (put k v m) k = Some v"
  by (simp add: get_put)

lemma get_put_all:
  "get (fold (\<lambda>k. put k v) ks m) x = (if x \<in> set ks then Some v else get m x)"
  by (induction ks arbitrary: m) (auto simp: get_put)

lemma get_del_owned:
  "get (fold (\<lambda>k m. if get m k = Some v then del k m else m) ks m) x =
     (if x \<in> set ks \<and> get m x = Some v then None else get m x)"
  by (induction ks arbitrary: m) (auto simp: get_del)

lemma get_put_pairs:
  "distinct (map fst ps) \<Longrightarrow>
     get (fold (\<lambda>(k, v). put k v) ps m) x =
       (case map_of ps x of Some v \<Rightarrow> Some v | None \<Rightarrow> get m x)"
proof (induction ps arbitrary: m)
  case (Cons p ps)
  obtain k v where p: "p = (k, v)"
    by (cases p)
  have "map_of ps k = None"
    using Cons.prems p by (simp add: map_of_eq_None_iff)
  with Cons p show ?case
    by (auto simp: get_put split: option.splits)
qed simp

end

section \<open>BTreeMap\<close>

type_synonym ('k, 'v) btree_map = "('k \<times> 'v) list"

definition bt_empty :: "('k, 'v) btree_map" where
  "bt_empty = []"

definition bt_get :: "('k, 'v) btree_map \<Rightarrow> 'k \<Rightarrow> 'v option" where
  "bt_get m k = map_of m k"

fun bt_insert :: "'k::linorder \<Rightarrow> 'v \<Rightarrow> ('k, 'v) btree_map \<Rightarrow> ('k, 'v) btree_map" where
  "bt_insert k v [] = [(k, v)]"
| "bt_insert k v ((a, b) # m) =
     (if k < a then (k, v) # (a, b) # m
      else if k = a then (k, v) # m
      else (a, b) # bt_insert k v m)"

definition bt_remove :: "'k \<Rightarrow> ('k, 'v) btree_map \<Rightarrow> ('k, 'v) btree_map" where
  "bt_remove k m = filter (\<lambda>p. fst p \<noteq> k) m"

definition bt_contains_key :: "('k, 'v) btree_map \<Rightarrow> 'k \<Rightarrow> bool" where
  "bt_contains_key m k \<longleftrightarrow> is_some (bt_get m k)"

definition bt_values :: "('k, 'v) btree_map \<Rightarrow> 'v list" where
  "bt_values m = map snd m"

text \<open>The invariant every operation keeps: the keys are strictly increasing.\<close>

definition bt_inv :: "('k::linorder, 'v) btree_map \<Rightarrow> bool" where
  "bt_inv m \<longleftrightarrow> sorted_wrt (<) (map fst m)"

lemma bt_get_empty [simp]: "bt_get bt_empty k = None"
  by (simp add: bt_get_def bt_empty_def)

lemma bt_get_insert [simp]: "bt_get (bt_insert k v m) x = (if x = k then Some v else bt_get m x)"
  unfolding bt_get_def by (induction k v m rule: bt_insert.induct) auto

lemma bt_get_remove [simp]: "bt_get (bt_remove k m) x = (if x = k then None else bt_get m x)"
  unfolding bt_get_def bt_remove_def by (induction m) auto

lemma bt_keys_insert: "fst ` set (bt_insert k v m) = insert k (fst ` set m)"
  by (induction k v m rule: bt_insert.induct) auto

lemma bt_inv_empty [simp]: "bt_inv bt_empty"
  by (simp add: bt_inv_def bt_empty_def)

lemma bt_inv_insert [simp]: "bt_inv m \<Longrightarrow> bt_inv (bt_insert k v m)"
proof (induction k v m rule: bt_insert.induct)
  case (2 k v a b m)
  then show ?case
    using bt_keys_insert [of k v m] by (auto simp: bt_inv_def)
qed (simp add: bt_inv_def)

lemma bt_inv_remove [simp]: "bt_inv m \<Longrightarrow> bt_inv (bt_remove k m)"
  unfolding bt_inv_def bt_remove_def by (induction m) auto

lemma bt_inv_distinct: "bt_inv m \<Longrightarrow> distinct (map fst m)"
  by (simp add: bt_inv_def strict_sorted_iff)

lemma bt_get_in_set: "bt_inv m \<Longrightarrow> bt_get m k = Some v \<longleftrightarrow> (k, v) \<in> set m"
  by (simp add: bt_get_def bt_inv_distinct)

text \<open>Two sorted maps with the same lookups are the same list, so lookups decide equality.\<close>

lemma bt_ext:
  assumes "bt_inv m" "bt_inv n" "\<And>k. bt_get m k = bt_get n k"
  shows "m = n"
proof -
  have "set m = set n"
    using assms bt_get_in_set by (metis (no_types, lifting) subset_antisym subrelI)
  then have "map fst m = map fst n"
    using assms by (metis bt_inv_def image_set strict_sorted_equal)
  moreover have "inj_on fst (set m \<union> set n)"
    using bt_inv_distinct [OF assms(1)] \<open>set m = set n\<close> by (simp add: distinct_map)
  ultimately show ?thesis
    by (rule map_inj_on)
qed

interpretation bt: map_api bt_empty bt_get bt_insert bt_remove
  by unfold_locales simp_all

text \<open>\<open>collect\<close> into a map: later pairs win.\<close>

definition bt_collect :: "('k::linorder \<times> 'v) list \<Rightarrow> ('k, 'v) btree_map" where
  "bt_collect ps = fold (\<lambda>(k, v). bt_insert k v) ps bt_empty"

lemma bt_get_collect: "bt_get (bt_collect ps) k = map_of (rev ps) k"
proof -
  have "bt_get (fold (\<lambda>(k, v). bt_insert k v) ps m) k =
      (case map_of (rev ps) k of Some v \<Rightarrow> Some v | None \<Rightarrow> bt_get m k)" for m
    by (induction ps arbitrary: m) (auto simp: map_add_def split: option.splits)
  then show ?thesis
    by (simp add: bt_collect_def split: option.splits)
qed

lemma bt_inv_collect [simp]: "bt_inv (bt_collect ps)"
proof -
  have "bt_inv m \<Longrightarrow> bt_inv (fold (\<lambda>(k, v). bt_insert k v) ps m)" for m
    by (induction ps arbitrary: m) auto
  then show ?thesis
    by (simp add: bt_collect_def)
qed

section \<open>HashMap\<close>

type_synonym ('k, 'v) hash_map = "'k \<rightharpoonup> 'v"

definition hm_empty :: "('k, 'v) hash_map" where
  "hm_empty = (\<lambda>_. None)"

definition hm_get :: "('k, 'v) hash_map \<Rightarrow> 'k \<Rightarrow> 'v option" where
  "hm_get m k = m k"

definition hm_insert :: "'k \<Rightarrow> 'v \<Rightarrow> ('k, 'v) hash_map \<Rightarrow> ('k, 'v) hash_map" where
  "hm_insert k v m = m(k \<mapsto> v)"

definition hm_remove :: "'k \<Rightarrow> ('k, 'v) hash_map \<Rightarrow> ('k, 'v) hash_map" where
  "hm_remove k m = m(k := None)"

definition hm_contains_key :: "('k, 'v) hash_map \<Rightarrow> 'k \<Rightarrow> bool" where
  "hm_contains_key m k \<longleftrightarrow> is_some (hm_get m k)"

lemma hm_get_empty [simp]: "hm_get hm_empty k = None"
  by (simp add: hm_get_def hm_empty_def)

lemma hm_get_insert [simp]: "hm_get (hm_insert k v m) x = (if x = k then Some v else hm_get m x)"
  by (simp add: hm_get_def hm_insert_def)

lemma hm_get_remove [simp]: "hm_get (hm_remove k m) x = (if x = k then None else hm_get m x)"
  by (simp add: hm_get_def hm_remove_def)

interpretation hm: map_api hm_empty hm_get hm_insert hm_remove
  by unfold_locales simp_all

end
