(* ===== verification/Service_Drive.thy ===== *)
theory Service_Drive
  imports Supervisor Rust_Map
begin

text \<open>
  The driver of \<open>crates/yerd-services/src/manager.rs\<close>: the loop that pumps the supervisor's state
  machine and performs what each action asks for. What
  the operating system answers at each turn of the loop (spawning, probing, signalling, waiting, the
  clock) is the record \<open>drive_world\<close>; a child is known by the turn that spawned it. The effects are
  kept in a list, newest last. An error of the operating system is its kind and its text; the state
  printed after one message of the driver is left out.
\<close>

section \<open>Types\<close>

type_synonym io_error = "io_error_kind \<times> string"

record child =
  ch_serial :: nat
  ch_pid :: u32

datatype effect = EffSpawned child | EffKilled child kill_signal | EffReaped child | EffSlept duration

datatype service_error =
    SvUnsupported string string
  | SvVersionNotInstalled string string
  | SvDiscoveryIo string string
  | SvInit string string string
  | SvSpawn string spawn_failure_reason string
  | SvConfigWrite string string string
  | SvHealthCheckTimedOut string u32
  | SvPermanentFailure string exit_reason
  | SvPortInUse string u16
  | SvBind string u16 string
  | SvKill string string
  | SvVersionUnavailable string string
  | SvUnsupportedPlatform string
  | SvListingParse string
  | SvUnsupportedListingSchema u32 u32
  | SvDownload string
  | SvExtract string string

datatype probe_outcome = ProbeReady | ProbeNotReady | ProbeExited "(io_error, exit_reason) result"

record drive_world =
  dw_now :: "nat \<Rightarrow> duration"
  dw_after :: "nat \<Rightarrow> duration"
  dw_command :: "nat \<Rightarrow> (service_error, unit) result"
  dw_spawn :: "nat \<Rightarrow> (io_error, u32) result"
  dw_probe :: "nat \<Rightarrow> probe_outcome"
  dw_kill :: "nat \<Rightarrow> (io_error, unit) result"
  dw_wait :: "nat \<Rightarrow> (io_error, exit_reason) result"
  dw_grace :: "nat \<Rightarrow> bool"
  dw_try_wait :: "nat \<Rightarrow> (io_error, exit_reason option) result"

datatype drive_outcome = DriveRunning child u32 | DriveStopped

record drive =
  dv_turn :: nat
  dv_state :: pool_state
  dv_since :: duration
  dv_child :: "child option"
  dv_pending :: sup_event
  dv_effects :: "effect list"

definition HEALTH_PROBE_GAP :: duration where
  "HEALTH_PROBE_GAP = from_millis 100"

section \<open>One action\<close>

fun starting_attempts :: "pool_state \<Rightarrow> u32" where
  "starting_attempts (Starting a _) = a"
| "starting_attempts _ = 0"

fun failed_reason :: "pool_state \<Rightarrow> exit_reason" where
  "failed_reason (Failed r _) = r"
| "failed_reason _ = Unknown"

definition wait_failed :: "string \<Rightarrow> io_error \<Rightarrow> service_error" where
  "wait_failed wire_id e = SvSpawn wire_id WaitFailed (snd e)"

definition driver_error :: "string \<Rightarrow> string \<Rightarrow> service_error" where
  "driver_error wire_id msg = SvSpawn wire_id OtherFailure msg"

definition finish_terminal :: "string \<Rightarrow> drive \<Rightarrow> (service_error, drive_outcome) result" where
  "finish_terminal wire_id d =
     (case dv_state d of
        Running pid \<Rightarrow>
          (case dv_child d of
             Some ch \<Rightarrow> Ok (DriveRunning ch pid)
           | None \<Rightarrow> Err (driver_error wire_id ''drive: Running with no child handle''))
      | Stopped \<Rightarrow> Ok DriveStopped
      | _ \<Rightarrow> Err (driver_error wire_id ''drive: Action::None in non-terminal state''))"

definition spawn_child :: "drive_world \<Rightarrow> string \<Rightarrow> bool \<Rightarrow> drive \<Rightarrow> (service_error, drive) result" where
  "spawn_child w wire_id has_builder d =
     (if \<not> has_builder then Err (driver_error wire_id ''drive: Spawn without cmd_builder'')
      else (case dw_command w (dv_turn d) of
          Err e \<Rightarrow> Err e
        | Ok _ \<Rightarrow>
            (case dw_spawn w (dv_turn d) of
               Err (kind, msg) \<Rightarrow> Err (SvSpawn wire_id (spawn_failure_from_kind kind) msg)
             | Ok pid \<Rightarrow>
                 (let ch = \<lparr>ch_serial = dv_turn d, ch_pid = pid\<rparr>
                  in Ok (d\<lparr>dv_child := Some ch, dv_pending := SpawnSucceeded pid,
                           dv_effects := dv_effects d @ [EffSpawned ch]\<rparr>)))))"

definition health_check :: "drive_world \<Rightarrow> string \<Rightarrow> drive \<Rightarrow> (service_error, drive) result" where
  "health_check w wire_id d =
     (let slept = (if dw_now w (dv_turn d) - dv_since d > 0 then [EffSlept HEALTH_PROBE_GAP] else [])
      in case dv_child d of
           None \<Rightarrow> Err (driver_error wire_id ''HealthCheck with no child handle'')
         | Some ch \<Rightarrow>
             (case dw_probe w (dv_turn d) of
                ProbeReady \<Rightarrow> Ok (d\<lparr>dv_pending := HealthCheckOk, dv_effects := dv_effects d @ slept\<rparr>)
              | ProbeNotReady \<Rightarrow>
                  Ok (d\<lparr>dv_pending := HealthCheckTick (dw_after w (dv_turn d) - dv_since d),
                        dv_effects := dv_effects d @ slept\<rparr>)
              | ProbeExited (Err e) \<Rightarrow> Err (wait_failed wire_id e)
              | ProbeExited (Ok reason) \<Rightarrow>
                  Ok (d\<lparr>dv_child := None, dv_pending := Crashed reason,
                        dv_effects := dv_effects d @ slept @ [EffReaped ch]\<rparr>)))"

text \<open>Waiting for the child to exit: with the grace the policy gives, or without limit.\<close>

definition reap :: "drive_world \<Rightarrow> string \<Rightarrow> sup_event \<Rightarrow> drive \<Rightarrow> (service_error, drive) result" where
  "reap w wire_id ev d =
     (case dv_child d of
        None \<Rightarrow> Ok (d\<lparr>dv_pending := ev\<rparr>)
      | Some ch \<Rightarrow>
          (case dw_wait w (dv_turn d) of
             Err e \<Rightarrow> Err (wait_failed wire_id e)
           | Ok _ \<Rightarrow> Ok (d\<lparr>dv_child := None, dv_pending := ev, dv_effects := dv_effects d @ [EffReaped ch]\<rparr>)))"

definition wait_after_kill ::
  "drive_world \<Rightarrow> string \<Rightarrow> duration \<Rightarrow> kill_signal \<Rightarrow> drive \<Rightarrow> (service_error, drive) result" where
  "wait_after_kill w wire_id grace signal d =
     (case (dv_state d, signal) of
        (Stopping False, TermSignal) \<Rightarrow>
          (if dv_child d \<noteq> None \<and> dw_grace w (dv_turn d)
           then Ok (d\<lparr>dv_pending := StopTick grace, dv_effects := dv_effects d @ [EffSlept grace]\<rparr>)
           else reap w wire_id StopComplete d)
      | (Stopping True, _) \<Rightarrow> reap w wire_id StopComplete d
      | (Starting _ _, TermSignal) \<Rightarrow> reap w wire_id (Crashed Unknown) d
      | _ \<Rightarrow> Ok (d\<lparr>dv_pending := StopComplete\<rparr>))"

definition send_kill :: "drive_world \<Rightarrow> string \<Rightarrow> kill_signal \<Rightarrow> drive \<Rightarrow> (service_error, drive) result" where
  "send_kill w wire_id signal d =
     (case dv_child d of
        None \<Rightarrow> Ok d
      | Some ch \<Rightarrow>
          (case dw_kill w (dv_turn d) of
             Err e \<Rightarrow> Err (SvKill wire_id (snd e))
           | Ok _ \<Rightarrow> Ok (d\<lparr>dv_effects := dv_effects d @ [EffKilled ch signal]\<rparr>)))"

section \<open>The loop\<close>

text \<open>One turn: the final result, or the configuration of the next turn.\<close>

datatype drive_turn = Finished "(service_error, drive_outcome) result" drive | Continue drive

definition continue_with :: "drive \<Rightarrow> (service_error, drive) result \<Rightarrow> drive_turn" where
  "continue_with d r = (case r of Err e \<Rightarrow> Finished (Err e) d | Ok d' \<Rightarrow> Continue (d'\<lparr>dv_turn := Suc (dv_turn d')\<rparr>))"

definition drive_step :: "drive_world \<Rightarrow> string \<Rightarrow> bool \<Rightarrow> supervisor_policy \<Rightarrow> drive \<Rightarrow> drive_turn" where
  "drive_step w wire_id has_builder policy d =
     (let (nxt, action) = transition (dv_state d) (dv_pending d) policy;
          d1 = (if nxt \<noteq> dv_state d then d\<lparr>dv_state := nxt, dv_since := dw_now w (dv_turn d)\<rparr> else d)
      in case action of
           NoAction \<Rightarrow> Finished (finish_terminal wire_id d1) d1
         | Spawn \<Rightarrow> continue_with d1 (spawn_child w wire_id has_builder d1)
         | HealthCheck \<Rightarrow> continue_with d1 (health_check w wire_id d1)
         | Backoff wait \<Rightarrow>
             continue_with d1 (Ok (d1\<lparr>dv_pending := BackoffElapsed, dv_effects := dv_effects d1 @ [EffSlept wait]\<rparr>))
         | Kill signal \<Rightarrow>
             continue_with d1 (and_then (send_kill w wire_id signal d1)
               (wait_after_kill w wire_id (stop_grace policy) signal))
         | EmitError HealthCheckTimedOut \<Rightarrow> Finished (Err (SvHealthCheckTimedOut wire_id (starting_attempts (dv_state d1)))) d1
         | EmitError PermanentFailure \<Rightarrow> Finished (Err (SvPermanentFailure wire_id (failed_reason (dv_state d1)))) d1)"

text \<open>The loop runs while fuel lasts; \<open>drive_returns\<close> shows that some fuel is always enough.\<close>

fun drive_loop :: "nat \<Rightarrow> drive_world \<Rightarrow> string \<Rightarrow> bool \<Rightarrow> supervisor_policy \<Rightarrow> drive
    \<Rightarrow> ((service_error, drive_outcome) result \<times> drive) option" where
  "drive_loop 0 w wire_id has_builder policy d = None"
| "drive_loop (Suc fuel) w wire_id has_builder policy d =
     (case drive_step w wire_id has_builder policy d of
        Finished r d' \<Rightarrow> Some (r, d')
      | Continue d' \<Rightarrow> drive_loop fuel w wire_id has_builder policy d')"

definition drive_start :: "nat \<Rightarrow> pool_state \<Rightarrow> duration \<Rightarrow> child option \<Rightarrow> sup_event \<Rightarrow> drive" where
  "drive_start turn s since ch ev =
     \<lparr>dv_turn = turn, dv_state = s, dv_since = since, dv_child = ch, dv_pending = ev, dv_effects = []\<rparr>"

section \<open>What the effects leave behind\<close>

text \<open>The children spawned and not yet waited for.\<close>

definition spawned :: "effect list \<Rightarrow> child list" where
  "spawned es = concat (map (\<lambda>e. case e of EffSpawned c \<Rightarrow> [c] | _ \<Rightarrow> []) es)"

definition reaped :: "effect list \<Rightarrow> child list" where
  "reaped es = concat (map (\<lambda>e. case e of EffReaped c \<Rightarrow> [c] | _ \<Rightarrow> []) es)"

lemma spawned_append [simp]: "spawned (a @ b) = spawned a @ spawned b"
  by (simp add: spawned_def)

lemma reaped_append [simp]: "reaped (a @ b) = reaped a @ reaped b"
  by (simp add: reaped_def)

lemma effects_Cons [simp]:
  "spawned (EffSpawned c # es) = c # spawned es" "spawned (EffKilled c s # es) = spawned es"
  "spawned (EffReaped c # es) = spawned es" "spawned (EffSlept t # es) = spawned es" "spawned [] = []"
  "reaped (EffSpawned c # es) = reaped es" "reaped (EffKilled c s # es) = reaped es"
  "reaped (EffReaped c # es) = c # reaped es" "reaped (EffSlept t # es) = reaped es" "reaped [] = []"
  by (simp_all add: spawned_def reaped_def)

section \<open>The driver keeps its contract\<close>

text \<open>
  What a turn starts from. \<open>owned\<close> are the children the run was given; each child is either waited
  for or the one held; between turns state, pending event and child fit together.
\<close>

inductive fits :: "drive_world \<Rightarrow> supervisor_policy \<Rightarrow> drive \<Rightarrow> bool" for w p d where
  asked: "dv_state d = Stopped \<Longrightarrow> dv_pending d = EnsureRequested \<Longrightarrow> dv_child d = None
    \<Longrightarrow> spawned (dv_effects d) = [] \<Longrightarrow> fits w p d"
| started: "dv_state d = Starting a None \<Longrightarrow> dv_pending d = SpawnSucceeded (ch_pid ch) \<Longrightarrow> dv_child d = Some ch
    \<Longrightarrow> length (spawned (dv_effects d)) = unat a \<Longrightarrow> fits w p d"
| healthy: "dv_state d = Starting a (Some (ch_pid ch)) \<Longrightarrow> dv_pending d = HealthCheckOk \<Longrightarrow> dv_child d = Some ch
    \<Longrightarrow> length (spawned (dv_effects d)) = unat a \<Longrightarrow> fits w p d"
| probed: "dv_state d = Starting a (Some (ch_pid ch)) \<Longrightarrow> dv_pending d = HealthCheckTick (dw_after w m - dv_since d)
    \<Longrightarrow> dv_child d = Some ch \<Longrightarrow> length (spawned (dv_effects d)) = unat a \<Longrightarrow> dv_turn d = Suc m
    \<Longrightarrow> dv_since d \<le> dw_after w m \<Longrightarrow> fits w p d"
| crashed: "dv_state d = Starting a (Some pid) \<Longrightarrow> dv_pending d = Crashed r \<Longrightarrow> dv_child d = None
    \<Longrightarrow> length (spawned (dv_effects d)) = unat a \<Longrightarrow> fits w p d"
| backed_off: "dv_state d = Failed r a \<Longrightarrow> dv_pending d = BackoffElapsed \<Longrightarrow> dv_child d = None
    \<Longrightarrow> length (spawned (dv_effects d)) = unat a \<Longrightarrow> fits w p d"
| told: "dv_state d = Running pid \<Longrightarrow> dv_pending d = StopRequested \<Longrightarrow> spawned (dv_effects d) = [] \<Longrightarrow> fits w p d"
| patient: "dv_state d = Stopping False \<Longrightarrow> dv_pending d = StopTick (stop_grace p) \<Longrightarrow> dv_child d = Some ch
    \<Longrightarrow> spawned (dv_effects d) = [] \<Longrightarrow> fits w p d"
| gone: "dv_state d = Stopping b \<Longrightarrow> dv_pending d = StopComplete \<Longrightarrow> dv_child d = None
    \<Longrightarrow> spawned (dv_effects d) = [] \<Longrightarrow> fits w p d"

definition held :: "child option \<Rightarrow> child list" where
  "held c = (case c of Some ch \<Rightarrow> [ch] | None \<Rightarrow> [])"

fun starting :: "pool_state \<Rightarrow> bool" where
  "starting (Running _) = False"
| "starting (Stopping _) = False"
| "starting _ = True"

definition drive_ok :: "drive_world \<Rightarrow> supervisor_policy \<Rightarrow> bool \<Rightarrow> child list \<Rightarrow> drive \<Rightarrow> bool" where
  "drive_ok w p st owned d \<longleftrightarrow>
     fits w p d \<and> state_ok p (dv_state d) \<and> (st \<longrightarrow> starting (dv_state d))
     \<and> owned @ spawned (dv_effects d) = reaped (dv_effects d) @ held (dv_child d)"

text \<open>The clock never goes back, and moves between turns.\<close>

definition clock_runs :: "drive_world \<Rightarrow> bool" where
  "clock_runs w \<longleftrightarrow> (\<forall>k. dw_now w k \<le> dw_after w k \<and> dw_after w k < dw_now w (Suc k))"

text \<open>A signal or a wait that failed; a command that could not be built or spawned.\<close>

inductive os_failed :: "drive_world \<Rightarrow> string \<Rightarrow> service_error \<Rightarrow> bool" for w wire_id where
  waiting: "dw_wait w k = Err x \<Longrightarrow> os_failed w wire_id (wait_failed wire_id x)"
| probing: "dw_probe w k = ProbeExited (Err x) \<Longrightarrow> os_failed w wire_id (wait_failed wire_id x)"
| killing: "dw_kill w k = Err (kind, m) \<Longrightarrow> os_failed w wire_id (SvKill wire_id m)"

inductive cannot_start :: "drive_world \<Rightarrow> string \<Rightarrow> service_error \<Rightarrow> bool" for w wire_id where
  command: "dw_command w k = Err e \<Longrightarrow> cannot_start w wire_id e"
| spawning: "dw_spawn w k = Err (kind, m) \<Longrightarrow> cannot_start w wire_id (SvSpawn wire_id (spawn_failure_from_kind kind) m)"

lemmas failures = os_failed.intros cannot_start.intros

text \<open>A result that is not the driver's own fault.\<close>

definition accounted :: "drive_world \<Rightarrow> string \<Rightarrow> supervisor_policy \<Rightarrow> bool \<Rightarrow> child list \<Rightarrow> (service_error, drive_outcome) result \<Rightarrow> drive \<Rightarrow> bool" where
  "accounted w wire_id p st owned r d \<longleftrightarrow>
     length (spawned (dv_effects d)) \<le> max 1 (unat (max_restart_attempts p))
     \<and> (case r of
        Ok (DriveRunning ch pid) \<Rightarrow> ch_pid ch = pid \<and> owned @ spawned (dv_effects d) = reaped (dv_effects d) @ [ch]
      | Ok DriveStopped \<Rightarrow> owned @ spawned (dv_effects d) = reaped (dv_effects d) \<and> \<not> st
      | Err e \<Rightarrow>
          os_failed w wire_id e
          \<or> owned @ spawned (dv_effects d) = reaped (dv_effects d)
             \<and> (cannot_start w wire_id e
                 \<or> (\<exists>reason. e = SvPermanentFailure wire_id reason)
                    \<and> unat (max_restart_attempts p) \<le> length (spawned (dv_effects d))))"

lemma health_check_ok:
  assumes "dv_state d = Starting a (Some (ch_pid ch))" "dv_child d = Some ch" "length (spawned (dv_effects d)) = unat a"
    "dv_since d \<le> dw_after w (dv_turn d)" "health_check w wire_id d = Ok d'"
  shows "fits w p (d'\<lparr>dv_turn := Suc (dv_turn d')\<rparr>) \<and> dv_state d' = dv_state d \<and> dv_since d' = dv_since d
    \<and> (reaped (dv_effects d) @ [ch] = reaped (dv_effects d') @ held (dv_child d')) \<and> spawned (dv_effects d') = spawned (dv_effects d)"
  using assms
  by (auto simp: health_check_def Let_def held_def split: probe_outcome.splits result.splits if_splits
      intro: healthy probed crashed)

lemma health_check_err:
  "dv_child d = Some ch \<Longrightarrow> health_check w wire_id d = Err e \<Longrightarrow>
     \<exists>x. dw_probe w (dv_turn d) = ProbeExited (Err x) \<and> e = wait_failed wire_id x"
  by (auto simp: health_check_def Let_def split: probe_outcome.splits result.splits)

text \<open>A turn that probes: from the state it is in when the probe is made.\<close>

lemma probe_turn:
  assumes "dv_state d = Starting a (Some (ch_pid ch))" "dv_child d = Some ch" "length (spawned (dv_effects d)) = unat a"
    "dv_since d \<le> dw_after w (dv_turn d)" "state_ok p (dv_state d)" "st \<longrightarrow> starting (dv_state d)"
    "owned @ spawned (dv_effects d) = reaped (dv_effects d) @ [ch]"
  shows "case continue_with d (health_check w wire_id d) of
      Continue d' \<Rightarrow> drive_ok w p st owned d' | Finished r d' \<Rightarrow> accounted w wire_id p st owned r d'"
proof (cases "health_check w wire_id d")
  case (Err e)
  have "length (spawned (dv_effects d)) \<le> max 1 (unat (max_restart_attempts p))"
    using assms(1,3,5) by (auto simp: attempts_ok_def)
  with health_check_err [OF assms(2) Err] have "accounted w wire_id p st owned (Err e) d"
    by (auto simp: accounted_def intro: failures)
  with Err show ?thesis by (simp add: continue_with_def)
next
  case (Ok d')
  from health_check_ok [OF assms(1-4) Ok, of p] assms(5-7) Ok show ?thesis
    by (simp add: continue_with_def drive_ok_def)
qed

lemma drive_step_ok:
  assumes "drive_ok w p st owned d" "clock_runs w"
  shows "case drive_step w wire_id True p d of
      Continue d' \<Rightarrow> drive_ok w p st owned d' | Finished r d' \<Rightarrow> accounted w wire_id p st owned r d'"
proof -
  have now: "dw_now w k \<le> dw_after w k" "dw_after w k < dw_after w (Suc k)" for k
    using assms(2) by (auto simp: clock_runs_def intro: less_le_trans)
  have s: "state_ok p (dv_state d)" "st \<longrightarrow> starting (dv_state d)" and o: "owned @ spawned (dv_effects d) = reaped (dv_effects d) @ held (dv_child d)"
    using assms(1) by (simp_all add: drive_ok_def)
  from assms(1) have "fits w p d" by (simp add: drive_ok_def)
  then show ?thesis
  proof cases
    case asked
    then show ?thesis
      using s o attempts_ok_one
      by (auto simp: drive_step_def continue_with_def spawn_child_def Let_def drive_ok_def held_def accounted_def attempts_ok_def word_less_nat_alt
          split: result.split intro: failures intro!: fits.started)
  next
    case (started a ch)
    let ?d = "d\<lparr>dv_state := Starting a (Some (ch_pid ch)), dv_since := dw_now w (dv_turn d)\<rparr>"
    have "drive_step w wire_id True p d = continue_with ?d (health_check w wire_id ?d)"
      using started by (simp add: drive_step_def Let_def)
    with probe_turn [of ?d a ch w p st owned wire_id] started s o now show ?thesis
      by (simp add: held_def)
  next
    case (healthy a ch)
    then show ?thesis
      using s o by (auto simp: drive_step_def Let_def finish_terminal_def accounted_def attempts_ok_def word_less_nat_alt held_def)
  next
    case (probed a ch m)
    show ?thesis
    proof (cases "dw_after w m - dv_since d < health_check_window p")
      case True
      then have "drive_step w wire_id True p d = continue_with d (health_check w wire_id d)"
        using probed by (simp add: drive_step_def Let_def)
      moreover have "dv_since d \<le> dw_after w (dv_turn d)"
        using probed now(2) [of m] by simp
      ultimately show ?thesis
        using probe_turn [of d a ch w p st owned wire_id] probed s o by (simp add: held_def)
    next
      case False
      with probed s o show ?thesis
        by (auto simp: drive_step_def Let_def continue_with_def send_kill_def wait_after_kill_def reap_def
            drive_ok_def accounted_def attempts_ok_def word_less_nat_alt held_def split: result.split intro: failures intro!: fits.crashed)
    qed
  next
    case (crashed a pid r)
    then show ?thesis
      using s o by (auto simp: drive_step_def Let_def continue_with_def drive_ok_def held_def intro!: fits.backed_off)
  next
    case (backed_off r a)
    show ?thesis
    proof (cases "a < max_restart_attempts p")
      case True
      with backed_off s o show ?thesis
        by (auto simp: drive_step_def continue_with_def spawn_child_def Let_def drive_ok_def held_def accounted_def attempts_ok_def word_less_nat_alt
            unat_inc [OF True] attempts_ok_inc split: result.split intro: failures intro!: fits.started)
    next
      case False
      with backed_off s o show ?thesis
        by (auto simp: drive_step_def Let_def accounted_def attempts_ok_def word_less_nat_alt held_def)
    qed
  next
    case (told pid)
    then show ?thesis
      using s o
      by (auto simp: drive_step_def Let_def continue_with_def send_kill_def wait_after_kill_def reap_def
            drive_ok_def accounted_def attempts_ok_def word_less_nat_alt held_def split: result.split option.splits intro: failures fits.gone fits.patient)
  next
    case (patient ch)
    then show ?thesis
      using s o
      by (auto simp: drive_step_def Let_def continue_with_def send_kill_def wait_after_kill_def reap_def
            drive_ok_def accounted_def attempts_ok_def word_less_nat_alt held_def split: result.split intro: failures intro!: fits.gone)
  next
    case (gone b)
    then show ?thesis
      using s o by (auto simp: drive_step_def Let_def finish_terminal_def accounted_def attempts_ok_def word_less_nat_alt held_def)
  qed
qed

section \<open>The driver returns\<close>

text \<open>
  What is left of a run: the restarts, the phase within an attempt, and while the child is probed the
  time until the window closes.
\<close>

fun phase :: "pool_state \<Rightarrow> sup_event \<Rightarrow> nat" where
  "phase Stopped _ = 4"
| "phase (Starting _ None) _ = 3"
| "phase (Starting _ (Some _)) HealthCheckOk = 2"
| "phase (Starting _ (Some _)) (HealthCheckTick _) = 2"
| "phase (Starting _ (Some _)) _ = 1"
| "phase (Running _) _ = 3"
| "phase (Stopping False) (StopTick _) = 2"
| "phase (Stopping _) _ = 1"
| "phase _ _ = 0"

fun attempts_left :: "supervisor_policy \<Rightarrow> pool_state \<Rightarrow> nat" where
  "attempts_left p Stopped = unat (max_restart_attempts p)"
| "attempts_left p (Starting a _) = unat (max_restart_attempts p) - unat a"
| "attempts_left p (Failed _ a) = unat (max_restart_attempts p) - unat a"
| "attempts_left p _ = 0"

fun time_left :: "supervisor_policy \<Rightarrow> sup_event \<Rightarrow> nat" where
  "time_left p (HealthCheckTick e) = health_check_window p - e"
| "time_left p _ = 0"

definition rank :: "supervisor_policy \<Rightarrow> drive \<Rightarrow> nat \<times> nat \<times> nat" where
  "rank p d = (attempts_left p (dv_state d), phase (dv_state d) (dv_pending d), time_left p (dv_pending d))"

abbreviation rank_less :: "((nat \<times> nat \<times> nat) \<times> (nat \<times> nat \<times> nat)) set" where
  "rank_less \<equiv> less_than <*lex*> (less_than <*lex*> less_than)"

lemma health_check_rank:
  assumes "dv_state d = Starting a (Some pid)" "dv_child d = Some ch" "health_check w wire_id d = Ok d'"
  shows "dv_state d' = dv_state d"
    "dv_pending d' = HealthCheckOk \<or> dv_pending d' = HealthCheckTick (dw_after w (dv_turn d) - dv_since d)
       \<or> (\<exists>r. dv_pending d' = Crashed r)"
  using assms by (auto simp: health_check_def Let_def split: probe_outcome.splits result.splits if_splits)

lemma drive_step_rank:
  assumes "drive_ok w p st owned d" "clock_runs w" "drive_step w wire_id b p d = Continue d'"
  shows "(rank p d', rank p d) \<in> rank_less"
proof -
  have now: "dw_now w k \<le> dw_after w k" "dw_after w k < dw_after w (Suc k)" for k
    using assms(2) by (auto simp: clock_runs_def intro: less_le_trans)
  from assms(1) have "fits w p d" by (simp add: drive_ok_def)
  then show ?thesis
  proof cases
    case asked
    with assms(3) show ?thesis
      by (auto simp: drive_step_def continue_with_def spawn_child_def Let_def rank_def split: result.splits if_splits)
  next
    case (started a ch)
    let ?d = "d\<lparr>dv_state := Starting a (Some (ch_pid ch)), dv_since := dw_now w (dv_turn d)\<rparr>"
    obtain d1 where d1: "health_check w wire_id ?d = Ok d1" "d' = d1\<lparr>dv_turn := Suc (dv_turn d1)\<rparr>"
      using started assms(3) by (auto simp: drive_step_def Let_def continue_with_def split: result.splits)
    with health_check_rank [of ?d a "ch_pid ch" ch w wire_id d1] started show ?thesis
      by (auto simp: rank_def)
  next
    case (healthy a ch)
    with assms(3) show ?thesis by (simp add: drive_step_def Let_def)
  next
    case (probed a ch m)
    show ?thesis
    proof (cases "dw_after w m - dv_since d < health_check_window p")
      case True
      then obtain d1 where d1: "health_check w wire_id d = Ok d1" "d' = d1\<lparr>dv_turn := Suc (dv_turn d1)\<rparr>"
        using probed assms(3) by (auto simp: drive_step_def Let_def continue_with_def split: result.splits)
      have "health_check_window p - (dw_after w (Suc m) - dv_since d) < health_check_window p - (dw_after w m - dv_since d)"
        using True now(2) [of m] probed by linarith
      with health_check_rank [of d a "ch_pid ch" ch w wire_id d1] d1 probed show ?thesis
        by (auto simp: rank_def)
    next
      case False
      with probed assms(3) show ?thesis
        by (auto simp: drive_step_def Let_def continue_with_def send_kill_def wait_after_kill_def reap_def rank_def
            split: result.splits)
    qed
  next
    case (crashed a pid r)
    with assms(3) show ?thesis by (auto simp: drive_step_def Let_def continue_with_def rank_def)
  next
    case (backed_off r a)
    then have "a < max_restart_attempts p"
      using assms(3) by (auto simp: drive_step_def Let_def split: if_splits)
    moreover from this have "unat a < unat (max_restart_attempts p)" by (simp add: word_less_nat_alt)
    ultimately show ?thesis
      using backed_off assms(3) unat_inc [of a "max_restart_attempts p"]
      by (auto simp: drive_step_def continue_with_def spawn_child_def Let_def rank_def split: result.splits if_splits)
  next
    case (told pid)
    with assms(3) show ?thesis
      by (auto simp: drive_step_def Let_def continue_with_def send_kill_def wait_after_kill_def reap_def rank_def
          split: result.splits option.splits if_splits)
  next
    case (patient ch)
    with assms(3) show ?thesis
      by (auto simp: drive_step_def Let_def continue_with_def send_kill_def wait_after_kill_def reap_def rank_def
          split: result.splits)
  next
    case (gone k)
    with assms(3) show ?thesis by (auto simp: drive_step_def Let_def)
  qed
qed

lemma drive_returns:
  assumes "drive_ok w p st owned d" "clock_runs w"
  shows "\<exists>fuel r d'. drive_loop fuel w wire_id True p d = Some (r, d') \<and> accounted w wire_id p st owned r d'"
proof -
  have "wf (inv_image rank_less (rank p))" by (intro wf_inv_image wf_lex_prod wf_less_than)
  then show ?thesis using assms(1)
  proof (induction d rule: wf_induct_rule)
    case (less d)
    show ?case
    proof (cases "drive_step w wire_id True p d")
      case (Finished r d')
      with drive_step_ok [OF less.prems assms(2), of wire_id] have "accounted w wire_id p st owned r d'" by simp
      with Finished show ?thesis by (intro exI [of _ "Suc 0"]) simp
    next
      case (Continue d')
      with drive_step_ok [OF less.prems assms(2), of wire_id] have "drive_ok w p st owned d'" by simp
      moreover have "(d', d) \<in> inv_image rank_less (rank p)"
        using drive_step_rank [OF less.prems assms(2) Continue] by simp
      ultimately obtain fuel r e where
        "drive_loop fuel w wire_id True p d' = Some (r, e)" "accounted w wire_id p st owned r e" using less.IH by blast
      with Continue show ?thesis by (intro exI [of _ "Suc fuel"]) simp
    qed
  qed
qed

section \<open>Starting and stopping\<close>

lemma start_ok: "drive_ok w p True [] (drive_start turn Stopped since None EnsureRequested)"
  by (auto simp: drive_ok_def drive_start_def held_def intro: asked)

text \<open>Signals and waiting work; the service itself may fail in any way.\<close>

definition os_works :: "drive_world \<Rightarrow> bool" where
  "os_works w \<longleftrightarrow> (\<forall>k. is_ok (dw_kill w k) \<and> is_ok (dw_wait w k) \<and> is_ok (dw_try_wait w k)
     \<and> (\<forall>e. dw_probe w k \<noteq> ProbeExited (Err e)))"

text \<open>Stopping a running instance, turn by turn.\<close>

lemma stop_turns:
  assumes "os_works w"
  shows "\<exists>d. drive_loop 3 w wire_id False p (drive_start k (Running pid) since (Some ch) StopRequested) = Some (Ok DriveStopped, d)
    \<and> dv_effects d = (if dw_grace w k then [EffKilled ch TermSignal, EffSlept (stop_grace p), EffKilled ch KillSignal, EffReaped ch]
            else [EffKilled ch TermSignal, EffReaped ch])"
proof -
  obtain x y where "dw_kill w k = Ok ()" "dw_kill w (Suc k) = Ok ()" "dw_wait w k = Ok x" "dw_wait w (Suc k) = Ok y"
    using assms unfolding os_works_def is_ok_iff by (metis (full_types) old.unit.exhaust)
  then show ?thesis
    by (simp add: drive_start_def numeral_3_eq_3 drive_step_def Let_def continue_with_def send_kill_def wait_after_kill_def
        reap_def finish_terminal_def)
qed

lemma drive_loop_accounted:
  assumes "drive_ok w p st owned d" "clock_runs w" "drive_loop fuel w wire_id True p d = Some (r, d')"
  shows "accounted w wire_id p st owned r d'"
  using assms(1,3)
proof (induction fuel arbitrary: d)
  case (Suc fuel)
  then show ?case
    using drive_step_ok [OF Suc.prems(1) assms(2), of wire_id] by (auto split: drive_turn.splits)
qed simp

lemma drive_loop_mono:
  "drive_loop f w i b p d = Some x \<Longrightarrow> f \<le> f' \<Longrightarrow> drive_loop f' w i b p d = Some x"
proof (induction f arbitrary: d f')
  case (Suc f)
  then obtain g where "f' = Suc g" "f \<le> g" by (cases f') auto
  with Suc show ?case by (auto split: drive_turn.splits)
qed simp

lemma drive_loop_det:
  "drive_loop f w i b p d = Some x \<Longrightarrow> drive_loop f' w i b p d = Some y \<Longrightarrow> x = y"
  using drive_loop_mono [of f w i b p d x f'] drive_loop_mono [of f' w i b p d y f] by (cases "f \<le> f'") auto

text \<open>A child is known by the turn that spawned it, so no two children of a run are the same.\<close>

definition fresh_children :: "nat \<Rightarrow> nat \<Rightarrow> effect list \<Rightarrow> bool" where
  "fresh_children lo hi es \<longleftrightarrow> distinct (spawned es) \<and> (\<forall>c \<in> set (spawned es). lo \<le> ch_serial c \<and> ch_serial c < hi)"

lemma fresh_children_append:
  "fresh_children lo mid a \<Longrightarrow> fresh_children mid hi b \<Longrightarrow> lo \<le> mid \<Longrightarrow> mid \<le> hi \<Longrightarrow> fresh_children lo hi (a @ b)"
  by (fastforce simp: fresh_children_def)

lemma drive_step_turn:
  "case drive_step w wire_id b p d of
     Continue d' \<Rightarrow> dv_turn d' = Suc (dv_turn d) \<and> (spawned (dv_effects d') = spawned (dv_effects d)
       \<or> (\<exists>pid. spawned (dv_effects d') = spawned (dv_effects d) @ [\<lparr>ch_serial = dv_turn d, ch_pid = pid\<rparr>]))
   | Finished r d' \<Rightarrow> dv_turn d' = dv_turn d \<and> dv_effects d' = dv_effects d"
proof -
  obtain nxt action where t: "transition (dv_state d) (dv_pending d) p = (nxt, action)" by fastforce
  show ?thesis
    by (cases action)
      (auto simp: t drive_step_def Let_def continue_with_def spawn_child_def health_check_def send_kill_def wait_after_kill_def reap_def
        split: result.splits option.splits probe_outcome.splits error_tag.splits pool_state.splits kill_signal.splits bool.splits)
qed

lemma drive_loop_fresh:
  "drive_loop fuel w wire_id b p d = Some (r, d') \<Longrightarrow> fresh_children lo (dv_turn d) (dv_effects d) \<Longrightarrow> lo \<le> dv_turn d \<Longrightarrow>
     fresh_children lo (Suc (dv_turn d')) (dv_effects d') \<and> lo \<le> dv_turn d'"
proof (induction fuel arbitrary: d)
  case (Suc fuel)
  show ?case
  proof (cases "drive_step w wire_id b p d")
    case (Finished r' e)
    with Suc.prems drive_step_turn [where d = d and w = w and wire_id = wire_id and b = b and p = p] show ?thesis by (auto simp: fresh_children_def)
  next
    case (Continue e)
    have "fresh_children lo (dv_turn e) (dv_effects e)" "lo \<le> dv_turn e"
      using Continue Suc.prems drive_step_turn [where d = d and w = w and wire_id = wire_id and b = b and p = p] by (fastforce simp: fresh_children_def less_Suc_eq)+
    with Suc.IH [of e] Suc.prems(1) Continue show ?thesis by simp
  qed
qed simp

lemma drive_start_fields [simp]:
  "dv_turn (drive_start k s t c e) = k" "dv_effects (drive_start k s t c e) = []"
  by (simp_all add: drive_start_def)

text \<open>
  A service that never becomes ready is restarted until the attempts are used up and then reported as
  permanently failing: the state machine never asks for the report of a health check that timed out.
\<close>

lemma timed_out_never_reported: "snd (transition s e p) \<noteq> EmitError HealthCheckTimedOut"
  by (induction s e p rule: transition.induct) simp_all


text \<open>A service that dies on its first start and is ready on the second, and ignores the polite signal.\<close>

definition flaky_world :: drive_world where
  "flaky_world = \<lparr>dw_now = (\<lambda>k. 2 * k), dw_after = (\<lambda>k. 2 * k + 1), dw_command = (\<lambda>_. Ok ()), dw_spawn = (\<lambda>k. Ok (of_nat (100 + k))),
     dw_probe = (\<lambda>k. if k = 1 then ProbeExited (Ok (Code 1)) else ProbeReady), dw_kill = (\<lambda>_. Ok ()), dw_wait = (\<lambda>_. Ok (Signal 9)),
     dw_grace = (\<lambda>_. True), dw_try_wait = (\<lambda>_. Ok None)\<rparr>"

lemma flaky_world_ok: "os_works flaky_world" "clock_runs flaky_world"
  by (simp_all add: os_works_def clock_runs_def flaky_world_def)


end
