(* ===== verification/Rust_Str_More.thy ===== *)
theory Rust_Str_More
  imports Rust_Str
begin

text \<open>
  More of Rust's strings and byte slices: \<open>String::from_utf8_lossy\<close>, \<open>find\<close>, \<open>rfind\<close>, \<open>get\<close> of a
  range and \<open>replace\<close>.
\<close>

section \<open>Lossy decoding\<close>

text \<open>
  \<open>utf8_step\<close> looks at the front of a non-empty byte string: whether it starts with a well-formed
  sequence, and how many bytes that sequence, or the ill-formed prefix that is replaced as one,
  takes. A missing byte counts as zero.
\<close>

definition byte_at :: "nat \<Rightarrow> string \<Rightarrow> char" where
  "byte_at i s = (if i < length s then s ! i else CHR 0x00)"

definition second_ok :: "char \<Rightarrow> char \<Rightarrow> bool" where
  "second_ok b c \<longleftrightarrow>
     (code b = 224 \<and> byte_in c 160 191) \<or> (byte_in b 225 236 \<and> is_cont c)
     \<or> (code b = 237 \<and> byte_in c 128 159) \<or> (byte_in b 238 239 \<and> is_cont c)
     \<or> (code b = 240 \<and> byte_in c 144 191) \<or> (byte_in b 241 243 \<and> is_cont c)
     \<or> (code b = 244 \<and> byte_in c 128 143)"

definition utf8_step :: "string \<Rightarrow> bool \<times> nat" where
  "utf8_step s =
     (let b = byte_at 0 s; c = byte_at 1 s; d = byte_at 2 s; e = byte_at 3 s
      in if is_ascii b then (True, 1)
         else if byte_in b 194 223 then (if is_cont c then (True, 2) else (False, 1))
         else if byte_in b 224 239 then
           (if \<not> second_ok b c then (False, 1) else if is_cont d then (True, 3) else (False, 2))
         else if byte_in b 240 244 then
           (if \<not> second_ok b c then (False, 1) else if \<not> is_cont d then (False, 2)
            else if is_cont e then (True, 4) else (False, 3))
         else (False, 1))"

definition REPLACEMENT :: string where
  "REPLACEMENT = [CHR 0xEF, CHR 0xBF, CHR 0xBD]"

lemma utf8_step_pos: "0 < snd (utf8_step s)"
  by (simp add: utf8_step_def Let_def)

function from_utf8_lossy :: "string \<Rightarrow> string" where
  "from_utf8_lossy s =
     (if s = [] then []
      else (case utf8_step s of (good, n) \<Rightarrow>
             (if good then take n s else REPLACEMENT) @ from_utf8_lossy (drop n s)))"
  by pat_completeness auto
termination
proof (relation "measure length", goal_cases)
  case (2 s good n)
  then show ?case
    using utf8_step_pos [of s] by (metis diff_less in_measure length_drop length_greater_0_conv snd_conv)
qed simp

declare from_utf8_lossy.simps [simp del]

lemma from_utf8_lossy_Nil [simp]: "from_utf8_lossy [] = []"
  by (simp add: from_utf8_lossy.simps)

lemma from_utf8_lossy_ascii_Cons:
  "is_ascii b \<Longrightarrow> from_utf8_lossy (b # s) = b # from_utf8_lossy s"
  by (simp add: from_utf8_lossy.simps [of "b # s"] utf8_step_def byte_at_def)

text \<open>Text that is well formed is decoded to itself.\<close>

lemma utf8_step_valid:
  assumes "valid_utf8 s" "s \<noteq> []"
  shows "fst (utf8_step s) \<and> valid_utf8 (drop (snd (utf8_step s)) s)"
proof (cases s)
  case (Cons b bs)
  note v = assms(1) [unfolded Cons valid_utf8.simps(2)]
  show ?thesis
  proof (cases bs)
    case Nil
    with v Cons show ?thesis
      by (simp add: utf8_step_def byte_at_def split: if_splits)
  next
    case bs: (Cons c cs)
    show ?thesis
    proof (cases cs)
      case Nil
      with v Cons bs show ?thesis
        by (auto simp: utf8_step_def byte_at_def simp del: valid_utf8.simps split: if_splits)
    next
      case cs: (Cons d ds)
      note shape = Cons bs cs and step = utf8_step_def second_ok_def byte_at_def Let_def
      consider "is_ascii b" | "byte_in b 194 223" "\<not> is_ascii b" | "byte_in b 224 239" "\<not> is_ascii b"
        | "\<not> is_ascii b" "\<not> byte_in b 194 223" "\<not> byte_in b 224 239"
        by blast
      then show ?thesis
      proof cases
        case 3
        then show ?thesis
          using v by (cases "code b = 224"; cases "code b = 237")
            (auto simp: shape step simp del: valid_utf8.simps)
      next
        case 4
        then have "code b \<noteq> 224" "code b \<noteq> 237" "\<not> (byte_in b 225 236 \<or> byte_in b 238 239)"
          by auto
        with 4 v obtain e es where ds: "ds = e # es" "is_cont d" "is_cont e" "valid_utf8 es"
            and l: "(code b = 240 \<and> byte_in c 144 191) \<or> (byte_in b 241 243 \<and> is_cont c)
              \<or> (code b = 244 \<and> byte_in c 128 143)"
          by (cases ds) (auto simp: shape simp del: valid_utf8.simps)
        then have "byte_in b 240 244" "second_ok b c"
          by (auto simp: second_ok_def)
        with 4 ds show ?thesis
          by (simp add: shape utf8_step_def byte_at_def del: valid_utf8.simps)
      qed (use v in \<open>simp_all add: shape step del: valid_utf8.simps\<close>)
    qed
  qed
qed (use assms in simp)

lemma from_utf8_lossy_valid: "valid_utf8 s \<Longrightarrow> from_utf8_lossy s = s"
proof (induction s rule: from_utf8_lossy.induct)
  case (1 s)
  show ?case
  proof (cases "s = []")
    case False
    obtain good n where st: "utf8_step s = (good, n)" by fastforce
    with utf8_step_valid [OF 1(2) False] have "good" "valid_utf8 (drop n s)" by simp_all
    with 1(1) [OF False] st False show ?thesis
      by (simp add: from_utf8_lossy.simps [of s])
  qed simp
qed

section \<open>Searching\<close>

text \<open>\<open>str::find\<close> and \<open>str::rfind\<close> of a byte, and \<open>str::get\<close> of a range between ASCII bytes.\<close>

definition find_byte :: "char \<Rightarrow> string \<Rightarrow> nat option" where
  "find_byte c s = position (\<lambda>x. x = c) s"

definition rfind_byte :: "char \<Rightarrow> string \<Rightarrow> nat option" where
  "rfind_byte c s = map_option (\<lambda>i. length s - 1 - i) (position (\<lambda>x. x = c) (rev s))"

definition get_range :: "nat \<Rightarrow> nat \<Rightarrow> string \<Rightarrow> string option" where
  "get_range a b s = (if a \<le> b \<and> b \<le> length s then Some (drop a (take b s)) else None)"

text \<open>\<open>str::replace\<close> of a pattern, which every caller gives at least four bytes.\<close>

lemma split_once_str_shorter: "split_once_str p s = Some (a, b) \<Longrightarrow> p \<noteq> [] \<Longrightarrow> length b < length s"
  by (drule split_once_str_Some) auto

function str_replace :: "string \<Rightarrow> string \<Rightarrow> string \<Rightarrow> string" where
  "str_replace p t s =
     (if p = [] then s
      else (case split_once_str p s of None \<Rightarrow> s | Some (a, b) \<Rightarrow> a @ t @ str_replace p t b))"
  by pat_completeness auto
termination
  by (relation "measure (\<lambda>(p, t, s). length s)") (auto intro: split_once_str_shorter)

declare str_replace.simps [simp del]

end
