(* ===== verification/Service_Init.thy ===== *)
theory Service_Init
  imports Service_Drive Rust_Str_More
begin

text \<open>
  The one-time initialisation of a data directory, from \<open>crates/yerd-services/src/manager.rs\<close>: the
  engine's tool fills a staging directory, which is then renamed onto the data directory. Only what the
  two directories hold is modelled; what the operating system and the tool answer is the record
  \<open>init_world\<close>. Each function returns the disk after every change it makes, so an interruption is
  any state of that list.
\<close>

section \<open>Types\<close>

text \<open>
  Nothing there; what was there before the run, or what a failed removal left of it; an empty
  directory; one the tool has not finished; and what the tool leaves when it exits with code 0.
\<close>

datatype contents = NoDir | OldDir | EmptyDir | PartDir | InitDir

record init_disk =
  id_staging :: contents
  id_datadir :: contents

record init_world =
  iw_needs_init :: bool
  iw_is_initialized :: bool
  iw_major_scope :: bool
  iw_pg_version :: "string option"
  iw_version_major :: string
  iw_log_dir_error :: "(string \<times> string) option"
  iw_install_dir :: string
  iw_init_binary :: "string option"
  iw_binary_is_file :: bool
  iw_cleared :: bool
  iw_create_error :: "string option"
  iw_init_args :: "string list"
  iw_spawn_error :: "string option"
  iw_waited :: "(string, exit_reason) result"
  iw_wipe_error :: "string option"
  iw_parent_error :: "string option"
  iw_rename_error :: "string option"
  iw_discarded :: bool

section \<open>Operations\<close>

definition check_pg_major :: "init_world \<Rightarrow> string \<Rightarrow> (service_error, unit) result" where
  "check_pg_major w datadir =
     (case iw_pg_version w of
        None \<Rightarrow> Ok ()
      | Some content \<Rightarrow>
          (let on_disk = trim content; want = iw_version_major w
           in if on_disk \<noteq> [] \<and> on_disk \<noteq> want
              then Err (SvInit ''postgres'' datadir (''datadir was initialised by PostgreSQL '' @ on_disk @ '', but '' @ want
                     @ '' was requested; cross-major migration is unsupported''))
              else Ok ()))"

definition run_init :: "init_world \<Rightarrow> string \<Rightarrow> string \<Rightarrow> string \<Rightarrow> init_disk \<Rightarrow> (service_error, unit) result \<times> init_disk list" where
  "run_init w wire_id init_bin datadir d =
     (if iw_init_args w = [] then (Ok (), [d])
      else (case iw_spawn_error w of
          Some e \<Rightarrow> (Err (SvInit wire_id datadir (''spawn '' @ init_bin @ '': '' @ e)), [d])
        | None \<Rightarrow>
            (let part = d\<lparr>id_staging := PartDir\<rparr>
             in case iw_waited w of
                  Err e \<Rightarrow> (Err (SvInit wire_id datadir (''wait for init: '' @ e)), [part])
                | Ok reason \<Rightarrow>
                    if reason = Code 0 then (Ok (), [part, d\<lparr>id_staging := InitDir\<rparr>])
                    else (Err (SvInit wire_id datadir (''init process exited with '' @ show_exit_reason reason)), [part]))))"

text \<open>Removing the staging directory, with the result ignored.\<close>

definition discard_staging :: "bool \<Rightarrow> init_disk \<Rightarrow> init_disk" where
  "discard_staging removed d = (if removed then d\<lparr>id_staging := NoDir\<rparr> else d)"

text \<open>The last part: the staging directory takes the place of the data directory.\<close>

definition install_datadir :: "init_world \<Rightarrow> string \<Rightarrow> string \<Rightarrow> init_disk \<Rightarrow> (service_error, unit) result \<times> init_disk list" where
  "install_datadir w wire_id datadir d =
     (case (if id_datadir d = NoDir then None else iw_wipe_error w) of
        Some e \<Rightarrow> (Err (SvInit wire_id datadir (''remove prior datadir: '' @ e)), [discard_staging (iw_discarded w) d])
      | None \<Rightarrow>
          (let d1 = d\<lparr>id_datadir := NoDir\<rparr>
           in case iw_parent_error w of
                Some e \<Rightarrow> (Err (SvInit wire_id datadir (''create datadir parent: '' @ e)), [d1])
              | None \<Rightarrow>
                  (case iw_rename_error w of
                     Some e \<Rightarrow>
                       (Err (SvInit wire_id datadir (''install datadir: '' @ e)), [d1, discard_staging (iw_discarded w) d1])
                   | None \<Rightarrow> (Ok (), [d1, d1\<lparr>id_staging := NoDir, id_datadir := id_staging d1\<rparr>]))))"

definition init_datadir :: "init_world \<Rightarrow> string \<Rightarrow> string \<Rightarrow> init_disk \<Rightarrow> (service_error, unit) result \<times> init_disk list" where
  "init_datadir w wire_id datadir d =
     (case iw_init_binary w of
        None \<Rightarrow> (Ok (), [])
      | Some bin \<Rightarrow>
          if \<not> iw_binary_is_file w then (Err (SvInit wire_id datadir (''install is missing bin/'' @ bin)), [])
          else
            let d1 = discard_staging (iw_cleared w) d
            in case iw_create_error w of
                 Some e \<Rightarrow> (Err (SvInit wire_id datadir (''create staging dir: '' @ e)), [d1])
               | None \<Rightarrow>
                   (let d2 = (if id_staging d1 = NoDir then d1\<lparr>id_staging := EmptyDir\<rparr> else d1)
                    in case run_init w wire_id (iw_install_dir w @ ''/bin/'' @ bin) datadir d2 of
                         (Err e, tr) \<Rightarrow> (Err e, d1 # d2 # tr @ [discard_staging (iw_discarded w) (last tr)])
                       | (Ok _, tr) \<Rightarrow>
                           (case install_datadir w wire_id datadir (last tr) of (r, tr') \<Rightarrow> (r, d1 # d2 # tr @ tr'))))"

definition init_datadir_if_needed ::
  "init_world \<Rightarrow> string \<Rightarrow> string \<Rightarrow> init_disk \<Rightarrow> (service_error, unit) result \<times> init_disk list" where
  "init_datadir_if_needed w wire_id datadir d =
     (if \<not> iw_needs_init w then (Ok (), [])
      else if iw_is_initialized w then (if iw_major_scope w then check_pg_major w datadir else Ok (), [])
      else (case iw_log_dir_error w of
          Some (dir, e) \<Rightarrow> (Err (SvConfigWrite dir wire_id e), [])
        | None \<Rightarrow> init_datadir w wire_id datadir d))"

section \<open>An interrupted initialisation leaves no half-filled data directory\<close>

lemma run_init_cases:
  assumes "run_init w i b p d = (r, tr)" "iw_init_args w \<noteq> []"
  shows "tr \<noteq> [] \<and> (\<forall>x \<in> set tr. id_datadir x = id_datadir d) \<and> (r = Ok () \<longrightarrow> id_staging (last tr) = InitDir)"
  using assms by (auto simp: run_init_def Let_def split: option.splits result.splits if_splits)

lemma discard_staging_datadir [simp]: "id_datadir (discard_staging b d) = id_datadir d"
  by (simp add: discard_staging_def)

lemma install_datadir_cases:
  assumes "install_datadir w i p d = (r, tr)" "id_staging d = InitDir"
  shows "if r = Ok () then tr \<noteq> [] \<and> last tr = \<lparr>id_staging = NoDir, id_datadir = InitDir\<rparr>
           \<and> (\<forall>x \<in> set tr. id_datadir x = NoDir \<or> x = \<lparr>id_staging = NoDir, id_datadir = InitDir\<rparr>)
         else \<forall>x \<in> set tr. id_datadir x = id_datadir d \<or> id_datadir x = NoDir"
  using assms by (auto simp: install_datadir_def Let_def split: option.splits if_splits)

lemma init_crash_safe:
  assumes "iw_init_args w \<noteq> []" "init_datadir w i p d = (r, tr)"
  shows "\<forall>x \<in> set tr. id_datadir x = id_datadir d \<or> id_datadir x = NoDir
      \<or> r = Ok () \<and> x = \<lparr>id_staging = NoDir, id_datadir = InitDir\<rparr>"
    and "r = Ok () \<Longrightarrow> iw_init_binary w \<noteq> None \<Longrightarrow> tr \<noteq> [] \<and> last tr = \<lparr>id_staging = NoDir, id_datadir = InitDir\<rparr>"
proof -
  let ?d1 = "discard_staging (iw_cleared w) d"
  let ?d2 = "if id_staging ?d1 = NoDir then ?d1\<lparr>id_staging := EmptyDir\<rparr> else ?d1"
  have "(\<forall>x \<in> set tr. id_datadir x = id_datadir d \<or> id_datadir x = NoDir
      \<or> r = Ok () \<and> x = \<lparr>id_staging = NoDir, id_datadir = InitDir\<rparr>)
    \<and> (r = Ok () \<longrightarrow> iw_init_binary w \<noteq> None \<longrightarrow> tr \<noteq> [] \<and> last tr = \<lparr>id_staging = NoDir, id_datadir = InitDir\<rparr>)"
  proof (cases "iw_init_binary w = None \<or> \<not> iw_binary_is_file w \<or> iw_create_error w \<noteq> None")
    case True
    with assms(2) show ?thesis by (auto simp: init_datadir_def Let_def split: option.splits if_splits)
  next
    case False
    then obtain bin where bin: "iw_init_binary w = Some bin" by auto
    obtain r1 t1 where run: "run_init w i (iw_install_dir w @ ''/bin/'' @ bin) p ?d2 = (r1, t1)" by fastforce
    note c = run_init_cases [OF run assms(1)]
    obtain r2 t2 where inst: "install_datadir w i p (last t1) = (r2, t2)" by fastforce
    have last: "id_datadir (last t1) = id_datadir d" using c by simp
    show ?thesis
    proof (cases r1)
      case (Err e)
      with assms(2) False bin run c last show ?thesis by (auto simp: init_datadir_def Let_def)
    next
      case (Ok u)
      have eqs: "r = r2" "tr = ?d1 # ?d2 # t1 @ t2"
        using assms(2) False bin run inst Ok by (simp_all add: init_datadir_def Let_def)
      have st: "id_staging (last t1) = InitDir" using c Ok by simp
      from install_datadir_cases [OF inst st] c last show ?thesis
        unfolding eqs by (auto split: if_splits)
    qed
  qed
  then show "\<forall>x \<in> set tr. id_datadir x = id_datadir d \<or> id_datadir x = NoDir
      \<or> r = Ok () \<and> x = \<lparr>id_staging = NoDir, id_datadir = InitDir\<rparr>"
    "r = Ok () \<Longrightarrow> iw_init_binary w \<noteq> None \<Longrightarrow> tr \<noteq> [] \<and> last tr = \<lparr>id_staging = NoDir, id_datadir = InitDir\<rparr>"
    by blast+
qed

end
