(* ===== verification/Net_Addr.thy ===== *)
theory Net_Addr
  imports Rust_Str
begin

text \<open>
  \<open>std::net::IpAddr\<close> as the sources use it (parsing, the scope predicates) and
  \<open>crates/yerd-core/src/net.rs\<close>, the LAN-scope predicate. A parser takes the rest of the input and
  returns a value with the input it leaves, or \<open>None\<close>; \<open>parse_ip\<close> accepts what is consumed whole.
\<close>

unbundle bit_operations_syntax

section \<open>Addresses\<close>

datatype ip_addr = V4 u8 u8 u8 u8 | V6 "u16 list"

fun v4_is_loopback :: "u8 \<Rightarrow> u8 \<Rightarrow> u8 \<Rightarrow> u8 \<Rightarrow> bool" where
  "v4_is_loopback a b c d \<longleftrightarrow> a = 127"

fun v4_is_private :: "u8 \<Rightarrow> u8 \<Rightarrow> u8 \<Rightarrow> u8 \<Rightarrow> bool" where
  "v4_is_private a b c d \<longleftrightarrow>
     a = 10 \<or> (a = 172 \<and> 16 \<le> b \<and> b \<le> 31) \<or> (a = 192 \<and> b = 168)"

fun v4_is_link_local :: "u8 \<Rightarrow> u8 \<Rightarrow> u8 \<Rightarrow> u8 \<Rightarrow> bool" where
  "v4_is_link_local a b c d \<longleftrightarrow> a = 169 \<and> b = 254"

definition v6_is_loopback :: "u16 list \<Rightarrow> bool" where
  "v6_is_loopback gs \<longleftrightarrow> gs = [0, 0, 0, 0, 0, 0, 0, 1]"

text \<open>\<open>Ipv6Addr::to_ipv4_mapped\<close>: the prefix \<open>::ffff\<close>, then the four octets.\<close>

fun to_ipv4_mapped :: "u16 list \<Rightarrow> (u8 \<times> u8 \<times> u8 \<times> u8) option" where
  "to_ipv4_mapped [g0, g1, g2, g3, g4, g5, g6, g7] =
     (if g0 = 0 \<and> g1 = 0 \<and> g2 = 0 \<and> g3 = 0 \<and> g4 = 0 \<and> g5 = 0xFFFF
      then Some (ucast (drop_bit 8 g6), ucast g6, ucast (drop_bit 8 g7), ucast g7)
      else None)"
| "to_ipv4_mapped _ = None"

definition is_lan_source_v4 :: "u8 \<Rightarrow> u8 \<Rightarrow> u8 \<Rightarrow> u8 \<Rightarrow> bool" where
  "is_lan_source_v4 a b c d \<longleftrightarrow>
     v4_is_loopback a b c d \<or> v4_is_private a b c d \<or> v4_is_link_local a b c d"

fun is_lan_source :: "ip_addr \<Rightarrow> bool" where
  "is_lan_source (V4 a b c d) = is_lan_source_v4 a b c d"
| "is_lan_source (V6 gs) =
     (v6_is_loopback gs
      \<or> (case to_ipv4_mapped gs of Some (a, b, c, d) \<Rightarrow> is_lan_source_v4 a b c d | None \<Rightarrow> False))"

section \<open>Parsing\<close>

definition is_hex_digit :: "char \<Rightarrow> bool" where
  "is_hex_digit c \<longleftrightarrow> is_ascii_digit c \<or> (97 \<le> code c \<and> code c \<le> 102) \<or> (65 \<le> code c \<and> code c \<le> 70)"

definition hex_val :: "char \<Rightarrow> nat" where
  "hex_val c = (if is_ascii_digit c then code c - 48
                else if 97 \<le> code c then code c - 87 else code c - 55)"

definition is_radix_digit :: "nat \<Rightarrow> char \<Rightarrow> bool" where
  "is_radix_digit radix c \<longleftrightarrow> is_hex_digit c \<and> hex_val c < radix"

text \<open>
  \<open>read_number(radix, Some(max_digits), allow_zero_prefix)\<close> for a type whose largest value is
  \<open>mx\<close>: the whole run of digits is read, and must be short enough and fit.
\<close>

definition read_number :: "nat \<Rightarrow> nat \<Rightarrow> bool \<Rightarrow> nat \<Rightarrow> string \<Rightarrow> (nat \<times> string) option" where
  "read_number radix max_digits allow_zero_prefix mx s =
     (let ds = takeWhile (is_radix_digit radix) s;
          v = foldl (\<lambda>n c. radix * n + hex_val c) 0 ds
      in if ds = [] \<or> length ds > max_digits \<or> v > mx then None
         else if \<not> allow_zero_prefix \<and> hd ds = CHR ''0'' \<and> length ds > 1 then None
         else Some (v, dropWhile (is_radix_digit radix) s))"

text \<open>\<open>read_separator\<close>: before every item but the first, the separator has to be there.\<close>

definition read_separator ::
    "char \<Rightarrow> nat \<Rightarrow> (string \<Rightarrow> ('a \<times> string) option) \<Rightarrow> string \<Rightarrow> ('a \<times> string) option" where
  "read_separator sep i inner s =
     (if i = 0 then inner s
      else (case strip_prefix [sep] s of None \<Rightarrow> None | Some r \<Rightarrow> inner r))"

definition read_octet :: "nat \<Rightarrow> string \<Rightarrow> (nat \<times> string) option" where
  "read_octet i s = read_separator (CHR ''.'') i (read_number 10 3 False 255) s"

definition read_ipv4_addr :: "string \<Rightarrow> ((u8 \<times> u8 \<times> u8 \<times> u8) \<times> string) option" where
  "read_ipv4_addr s =
     (case read_octet 0 s of None \<Rightarrow> None | Some (a, s) \<Rightarrow>
      (case read_octet 1 s of None \<Rightarrow> None | Some (b, s) \<Rightarrow>
       (case read_octet 2 s of None \<Rightarrow> None | Some (c, s) \<Rightarrow>
        (case read_octet 3 s of None \<Rightarrow> None | Some (d, s) \<Rightarrow>
           Some ((word_of_nat a, word_of_nat b, word_of_nat c, word_of_nat d), s)))))"

definition be_pair :: "u8 \<Rightarrow> u8 \<Rightarrow> u16" where
  "be_pair a b = word_of_nat (256 * unat a + unat b)"

text \<open>
  \<open>read_groups\<close>: \<open>left\<close> groups are still wanted and \<open>i\<close> are read; the results are the groups, whether
  they end in an embedded IPv4 address, and the rest.
\<close>

fun read_groups :: "nat \<Rightarrow> nat \<Rightarrow> string \<Rightarrow> u16 list \<times> bool \<times> string" where
  "read_groups 0 i s = ([], False, s)"
| "read_groups (Suc left) i s =
     (case (if left > 0 then read_separator (CHR '':'') i read_ipv4_addr s else None) of
        Some ((a, b, c, d), r) \<Rightarrow> ([be_pair a b, be_pair c d], True, r)
      | None \<Rightarrow>
          (case read_separator (CHR '':'') i (read_number 16 4 True 65535) s of
             Some (g, r) \<Rightarrow>
               (case read_groups left (Suc i) r of
                  (gs, v4, r') \<Rightarrow> (word_of_nat g # gs, v4, r'))
           | None \<Rightarrow> ([], False, s)))"

definition read_ipv6_addr :: "string \<Rightarrow> (u16 list \<times> string) option" where
  "read_ipv6_addr s =
     (case read_groups 8 0 s of (head, head_ipv4, s) \<Rightarrow>
        if length head = 8 then Some (head, s)
        else if head_ipv4 then None
        else (case strip_prefix ''::'' s of
            None \<Rightarrow> None
          | Some s \<Rightarrow>
              (case read_groups (8 - (length head + 1)) 0 s of (tail, _, s) \<Rightarrow>
                 Some (head @ replicate (8 - length head - length tail) 0 @ tail, s))))"

definition read_ip_addr :: "string \<Rightarrow> (ip_addr \<times> string) option" where
  "read_ip_addr s =
     (case read_ipv4_addr s of
        Some ((a, b, c, d), r) \<Rightarrow> Some (V4 a b c d, r)
      | None \<Rightarrow> map_option (\<lambda>(gs, r). (V6 gs, r)) (read_ipv6_addr s))"

definition parse_ip :: "string \<Rightarrow> ip_addr option" where
  "parse_ip s = (case read_ip_addr s of Some (ip, []) \<Rightarrow> Some ip | _ \<Rightarrow> None)"

section \<open>The bytes of an address\<close>

definition ip_byte :: "char \<Rightarrow> bool" where
  "ip_byte c \<longleftrightarrow> is_hex_digit c \<or> c = CHR ''.'' \<or> c = CHR '':''"

text \<open>A reader that consumes only address bytes, and does not look at the case of letters.\<close>

definition ip_reader :: "(string \<Rightarrow> ('a \<times> string) option) \<Rightarrow> bool" where
  "ip_reader f \<longleftrightarrow>
     (\<forall>s v r. f s = Some (v, r) \<longrightarrow> (\<exists>p. s = p @ r \<and> list_all ip_byte p))
     \<and> (\<forall>s. f (to_ascii_lowercase s) = map_option (apsnd to_ascii_lowercase) (f s))"

lemma ip_reader_consumes: "ip_reader f \<Longrightarrow> f s = Some (v, r) \<Longrightarrow> \<exists>p. s = p @ r \<and> list_all ip_byte p"
  by (simp add: ip_reader_def)

lemma ip_reader_case: "ip_reader f \<Longrightarrow> f (to_ascii_lowercase s) = map_option (apsnd to_ascii_lowercase) (f s)"
  by (simp add: ip_reader_def)

lemma hex_lower: "is_hex_digit (lower_byte c) = is_hex_digit c"
  by (auto simp: is_hex_digit_def is_ascii_digit_def code_lower_byte is_ascii_uppercase_def)

lemma hex_val_lower: "is_hex_digit c \<Longrightarrow> hex_val (lower_byte c) = hex_val c"
  by (auto simp: is_hex_digit_def hex_val_def is_ascii_digit_def code_lower_byte is_ascii_uppercase_def)

lemma radix_lower: "is_radix_digit r (lower_byte c) = is_radix_digit r c"
  by (auto simp: is_radix_digit_def hex_lower hex_val_lower)

lemma radix_ip_byte: "is_radix_digit r c \<Longrightarrow> ip_byte c"
  by (simp add: is_radix_digit_def ip_byte_def)

lemma takeWhile_lower:
  "takeWhile (is_radix_digit r) (to_ascii_lowercase s) =
     to_ascii_lowercase (takeWhile (is_radix_digit r) s)"
  by (induction s) (auto simp: radix_lower)

lemma dropWhile_lower:
  "dropWhile (is_radix_digit r) (to_ascii_lowercase s) =
     to_ascii_lowercase (dropWhile (is_radix_digit r) s)"
  by (induction s) (auto simp: radix_lower)

lemma foldl_hex_lower:
  "list_all (is_radix_digit r) ds \<Longrightarrow>
     foldl (\<lambda>n c. r * n + hex_val c) m (to_ascii_lowercase ds) =
     foldl (\<lambda>n c. r * n + hex_val c) m ds"
  by (induction ds arbitrary: m) (auto simp: is_radix_digit_def hex_val_lower)

lemma lower_byte_zero: "lower_byte c = CHR ''0'' \<longleftrightarrow> c = CHR ''0''"
  by (rule lower_byte_eq_nonletter) (simp add: byte_class_defs)

lemma hd_to_ascii_lowercase: "s \<noteq> [] \<Longrightarrow> hd (to_ascii_lowercase s) = lower_byte (hd s)"
  by (cases s) auto

lemma ip_reader_number: "ip_reader (read_number radix k z mx)"
  unfolding ip_reader_def
proof (intro conjI allI impI)
  fix s v r
  assume "read_number radix k z mx s = Some (v, r)"
  then have "r = dropWhile (is_radix_digit radix) s"
    by (auto simp: read_number_def Let_def split: if_splits)
  then show "\<exists>p. s = p @ r \<and> list_all ip_byte p"
    by (intro exI [of _ "takeWhile (is_radix_digit radix) s"])
      (auto simp: list_all_iff intro: radix_ip_byte dest: set_takeWhileD)
next
  fix s
  let ?ds = "takeWhile (is_radix_digit radix) s"
  have "list_all (is_radix_digit radix) ?ds"
    by (auto simp: list_all_iff dest: set_takeWhileD)
  then show "read_number radix k z mx (to_ascii_lowercase s) =
      map_option (apsnd to_ascii_lowercase) (read_number radix k z mx s)"
    by (auto simp: read_number_def Let_def takeWhile_lower dropWhile_lower foldl_hex_lower
        hd_to_ascii_lowercase lower_byte_zero)
qed

lemma strip_prefix_lower:
  "list_all (\<lambda>c. \<not> is_ascii_alphabetic c) p \<Longrightarrow>
     strip_prefix p (to_ascii_lowercase s) = map_option to_ascii_lowercase (strip_prefix p s)"
  by (induction p s rule: strip_prefix.induct)
    (auto simp: lower_byte_eq_nonletter eq_commute [of _ "lower_byte _"])

lemma ip_reader_separator:
  assumes "ip_reader f" "sep = CHR ''.'' \<or> sep = CHR '':''"
  shows "ip_reader (read_separator sep i f)"
  unfolding ip_reader_def
proof (intro conjI allI impI)
  fix s v r
  assume h: "read_separator sep i f s = Some (v, r)"
  show "\<exists>p. s = p @ r \<and> list_all ip_byte p"
  proof (cases i)
    case 0
    with h show ?thesis
      using ip_reader_consumes [OF assms(1)] by (simp add: read_separator_def)
  next
    case (Suc j)
    then obtain t where t: "s = sep # t" "f t = Some (v, r)"
      using h by (auto simp: read_separator_def strip_prefix_Some_iff split: option.splits)
    then obtain p where "t = p @ r" "list_all ip_byte p"
      using ip_reader_consumes [OF assms(1)] by blast
    moreover have "ip_byte sep"
      using assms(2) by (auto simp: ip_byte_def)
    ultimately show ?thesis
      using t by (intro exI [of _ "sep # p"]) simp
  qed
next
  fix s
  have "list_all (\<lambda>c. \<not> is_ascii_alphabetic c) [sep]"
    using assms(2) by auto
  from strip_prefix_lower [OF this, of s]
  show "read_separator sep i f (to_ascii_lowercase s) =
      map_option (apsnd to_ascii_lowercase) (read_separator sep i f s)"
    using ip_reader_case [OF assms(1)] by (auto simp: read_separator_def split: option.splits)
qed

text \<open>Sequencing two readers, and mapping the value.\<close>

lemma ip_reader_bind:
  assumes "ip_reader f" "\<And>v. ip_reader (g v)"
  shows "ip_reader (\<lambda>s. case f s of None \<Rightarrow> None | Some (v, s) \<Rightarrow> g v s)"
  unfolding ip_reader_def
proof (intro conjI allI impI)
  fix s w r
  assume "(case f s of None \<Rightarrow> None | Some (v, s) \<Rightarrow> g v s) = Some (w, r)"
  then obtain v t where t: "f s = Some (v, t)" "g v t = Some (w, r)"
    by (auto split: option.splits)
  obtain p q where "s = p @ t" "list_all ip_byte p" "t = q @ r" "list_all ip_byte q"
    using ip_reader_consumes [OF assms(1) t(1)] ip_reader_consumes [OF assms(2) t(2)] by blast
  then show "\<exists>p. s = p @ r \<and> list_all ip_byte p"
    by (intro exI [of _ "p @ q"]) simp
next
  fix s
  show "(case f (to_ascii_lowercase s) of None \<Rightarrow> None | Some (v, s) \<Rightarrow> g v s) =
      map_option (apsnd to_ascii_lowercase) (case f s of None \<Rightarrow> None | Some (v, s) \<Rightarrow> g v s)"
    using ip_reader_case [OF assms(1)] ip_reader_case [OF assms(2)]
    by (auto split: option.splits)
qed

lemma ip_reader_return: "ip_reader (\<lambda>s. Some (v, s))"
  by (simp add: ip_reader_def)

lemma ip_reader_octet: "ip_reader (read_octet i)"
  unfolding read_octet_def by (rule ip_reader_separator) (simp_all add: ip_reader_number)

lemma ip_reader_ipv4: "ip_reader read_ipv4_addr"
  unfolding read_ipv4_addr_def
  by (intro ip_reader_bind ip_reader_octet ip_reader_return)

definition groups_reader :: "nat \<Rightarrow> nat \<Rightarrow> string \<Rightarrow> ((u16 list \<times> bool) \<times> string) option" where
  "groups_reader n i s = (case read_groups n i s of (gs, v4, r) \<Rightarrow> Some ((gs, v4), r))"

text \<open>Trying a second reader where the first fails.\<close>

lemma ip_reader_else:
  assumes "ip_reader f" "ip_reader g"
  shows "ip_reader (\<lambda>s. case f s of Some x \<Rightarrow> Some x | None \<Rightarrow> g s)"
  using ip_reader_consumes [OF assms(1)] ip_reader_consumes [OF assms(2)]
    ip_reader_case [OF assms(1)] ip_reader_case [OF assms(2)]
  unfolding ip_reader_def by (auto split: option.splits)

lemma ip_reader_map:
  assumes "ip_reader f"
  shows "ip_reader (\<lambda>s. map_option (\<lambda>(v, r). (h v, r)) (f s))"
proof -
  have "(\<lambda>s. map_option (\<lambda>(v, r). (h v, r)) (f s)) =
      (\<lambda>s. case f s of None \<Rightarrow> None | Some (v, s) \<Rightarrow> (\<lambda>v s. Some (h v, s)) v s)"
    by (auto simp: fun_eq_iff split: option.split)
  moreover have "ip_reader (\<lambda>s. case f s of None \<Rightarrow> None | Some (v, s) \<Rightarrow> (\<lambda>v s. Some (h v, s)) v s)"
    by (intro ip_reader_bind assms ip_reader_return)
  ultimately show ?thesis by simp
qed

lemma ip_reader_none: "ip_reader (\<lambda>s. None)"
  by (simp add: ip_reader_def)

lemma ip_reader_prefix:
  assumes "list_all (\<lambda>c. \<not> is_ascii_alphabetic c) p" "list_all ip_byte p"
  shows "ip_reader (\<lambda>s. map_option (\<lambda>r. ((), r)) (strip_prefix p s))"
  using strip_prefix_lower [OF assms(1)] assms(2)
  by (auto simp: ip_reader_def strip_prefix_Some_iff option.map_comp comp_def)

lemma ip_reader_groups: "ip_reader (groups_reader n i)"
proof (induction n arbitrary: i)
  case 0
  then show ?case
    by (simp add: groups_reader_def [abs_def] ip_reader_return)
next
  case (Suc n)
  let ?v4 = "if n > 0 then read_separator (CHR '':'') i read_ipv4_addr else (\<lambda>s. None)"
  let ?num = "read_separator (CHR '':'') i (read_number 16 4 True 65535)"
  let ?f = "\<lambda>s. map_option (\<lambda>(v, r). ((\<lambda>(a, b, c, d). ([be_pair a b, be_pair c d], True)) v, r)) (?v4 s)"
  let ?g = "\<lambda>s. case ?num s of None \<Rightarrow> None | Some (g, s) \<Rightarrow>
      map_option (\<lambda>(v, r). ((word_of_nat g # fst v, snd v), r)) (groups_reader n (Suc i) s)"
  have f: "ip_reader ?f"
    by (rule ip_reader_map) (auto intro: ip_reader_separator ip_reader_ipv4 ip_reader_none)
  have g: "ip_reader ?g"
    by (intro ip_reader_bind ip_reader_map Suc.IH ip_reader_separator ip_reader_number) simp
  have eq: "groups_reader (Suc n) i = (\<lambda>s. case ?f s of Some x \<Rightarrow> Some x
      | None \<Rightarrow> (case ?g s of Some x \<Rightarrow> Some x | None \<Rightarrow> Some (([], False), s)))"
    by (auto simp: groups_reader_def fun_eq_iff split: option.split prod.split)
  show ?case
    unfolding eq by (intro ip_reader_else f g ip_reader_return)
qed

lemma ip_reader_if: "ip_reader f \<Longrightarrow> ip_reader g \<Longrightarrow> ip_reader (\<lambda>s. if c then f s else g s)"
  by (cases c) simp_all

lemma ip_reader_ipv6: "ip_reader read_ipv6_addr"
proof -
  let ?tail = "\<lambda>head. \<lambda>s. map_option (\<lambda>(v, r).
      (head @ replicate (8 - length head - length (fst v)) 0 @ fst v, r))
      (groups_reader (8 - (length head + 1)) 0 s)"
  let ?skip = "\<lambda>s. map_option (\<lambda>r. ((), r)) (strip_prefix ''::'' s)"
  have eq: "read_ipv6_addr = (\<lambda>s. case groups_reader 8 0 s of None \<Rightarrow> None | Some (v, s) \<Rightarrow>
      (\<lambda>v s. if length (fst v) = 8 then Some (fst v, s)
         else (\<lambda>s. if snd v then None
           else (\<lambda>s. case ?skip s of None \<Rightarrow> None | Some (u, s) \<Rightarrow> ?tail (fst v) s) s) s) v s)"
    by (auto simp: fun_eq_iff read_ipv6_addr_def groups_reader_def split: option.split prod.split)
  have skip: "ip_reader ?skip"
    by (rule ip_reader_prefix) (simp_all add: ip_byte_def)
  show ?thesis
    unfolding eq
    by (intro ip_reader_bind ip_reader_groups ip_reader_if ip_reader_return ip_reader_none
        ip_reader_map skip)
qed

lemma ip_reader_ip: "ip_reader read_ip_addr"
proof -
  have eq: "read_ip_addr = (\<lambda>s.
      case map_option (\<lambda>(v, r). ((\<lambda>(a, b, c, d). V4 a b c d) v, r)) (read_ipv4_addr s) of
        Some x \<Rightarrow> Some x | None \<Rightarrow> map_option (\<lambda>(gs, r). (V6 gs, r)) (read_ipv6_addr s))"
    by (auto simp: fun_eq_iff read_ip_addr_def split: option.split prod.split)
  show ?thesis
    unfolding eq by (intro ip_reader_else ip_reader_map ip_reader_ipv4 ip_reader_ipv6)
qed

lemma parse_ip_bytes: "parse_ip s = Some ip \<Longrightarrow> list_all ip_byte s"
  using ip_reader_consumes [OF ip_reader_ip, of s ip "[]"]
  by (auto simp: parse_ip_def split: option.splits list.splits)

lemma parse_ip_lowercase: "parse_ip (to_ascii_lowercase s) = parse_ip s"
  using ip_reader_case [OF ip_reader_ip, of s]
  by (auto simp: parse_ip_def split: option.split list.split)

lemma parse_ip_not_Nil: "parse_ip [] = None"
  by code_simp

section \<open>The LAN scope as address blocks\<close>

text \<open>The address as a number, most significant octet first.\<close>

definition v4_num :: "u8 \<Rightarrow> u8 \<Rightarrow> u8 \<Rightarrow> u8 \<Rightarrow> nat" where
  "v4_num a b c d = ((unat a * 256 + unat b) * 256 + unat c) * 256 + unat d"

text \<open>Whether an address is in the block \<open>net/len\<close>.\<close>

definition in_block :: "nat \<Rightarrow> nat \<Rightarrow> nat \<Rightarrow> bool" where
  "in_block ip net len \<longleftrightarrow> ip div 2 ^ (32 - len) = net div 2 ^ (32 - len)"

lemma unat_u8_lt: "unat (x :: u8) < 256"
  using unsigned_less [of x] by simp

lemma u8_eq_iff: "(x :: u8) = y \<longleftrightarrow> unat x = unat y"
  by (metis unsigned_word_eqI)

lemma v4_num_divs:
  "v4_num a b c d div 16777216 = unat a"
  "v4_num a b c d div 65536 = unat a * 256 + unat b"
  "v4_num a b c d div 1048576 = unat a * 16 + unat b div 16"
  using unat_u8_lt [of b] unat_u8_lt [of c] unat_u8_lt [of d]
  by (simp_all add: v4_num_def)

lemma block_eq:
  assumes "x < k" "y < k"
  shows "n * k + x = m * k + y \<longleftrightarrow> n = m \<and> x = (y::nat)"
proof
  assume h: "n * k + x = m * k + y"
  then have "(n * k + x) div k = (m * k + y) div k" by simp
  with assms have "n = m" by simp
  with h show "n = m \<and> x = y" by simp
qed simp

lemma in_block_8: "in_block (v4_num a b c d) (v4_num e 0 0 0) 8 \<longleftrightarrow> a = e"
  by (simp add: in_block_def v4_num_divs u8_eq_iff)

lemma in_block_16: "in_block (v4_num a b c d) (v4_num e f 0 0) 16 \<longleftrightarrow> a = e \<and> b = f"
  using block_eq [OF unat_u8_lt unat_u8_lt, of "unat a" b "unat e" f]
  by (simp add: in_block_def v4_num_divs u8_eq_iff)

lemma in_block_12: "in_block (v4_num a b c d) (v4_num 172 16 0 0) 12 \<longleftrightarrow> a = 172 \<and> 16 \<le> b \<and> b \<le> 31"
proof -
  have k: "unat b div 16 < 16" using unat_u8_lt [of b] by simp
  have "in_block (v4_num a b c d) (v4_num 172 16 0 0) 12 \<longleftrightarrow>
      unat a * 16 + unat b div 16 = 172 * 16 + 1"
    by (simp add: in_block_def v4_num_divs)
  also have "\<dots> \<longleftrightarrow> unat a = 172 \<and> unat b div 16 = 1"
    using block_eq [OF k, of 1 "unat a" 172] by simp
  also have "\<dots> \<longleftrightarrow> a = 172 \<and> 16 \<le> b \<and> b \<le> 31"
    by (auto simp: u8_eq_iff word_le_nat_alt)
  finally show ?thesis .
qed

lemma unat_be_pair: "unat (be_pair a b) = 256 * unat a + unat b"
proof -
  have "256 * unat a + unat b < 2 ^ LENGTH(16)"
    using unat_u8_lt [of a] unat_u8_lt [of b] by simp
  then show ?thesis
    unfolding be_pair_def unsigned_of_nat by (simp add: take_bit_nat_eq_self)
qed

lemma be_pair_low: "ucast (be_pair a b) = b"
  using unat_u8_lt [of b]
  by (simp add: u8_eq_iff unsigned_ucast_eq unat_be_pair take_bit_eq_mod)

lemma be_pair_high: "ucast (drop_bit 8 (be_pair a b)) = a"
  using unat_u8_lt [of b] unat_u8_lt [of a]
  unfolding u8_eq_iff unsigned_ucast_eq unsigned_drop_bit_eq unat_be_pair
  by (simp add: take_bit_eq_mod drop_bit_eq_div)

text \<open>
  An IPv4 peer is in LAN scope exactly when its address lies in \<open>127.0.0.0/8\<close>, \<open>10.0.0.0/8\<close>,
  \<open>172.16.0.0/12\<close>, \<open>192.168.0.0/16\<close> or \<open>169.254.0.0/16\<close>; the IPv4-mapped IPv6 address of a peer is
  judged as the peer itself is.
\<close>

theorem is_lan_source_blocks:
  "is_lan_source (V4 a b c d) =
     (let n = v4_num a b c d
      in in_block n (v4_num 127 0 0 0) 8 \<or> in_block n (v4_num 10 0 0 0) 8
         \<or> in_block n (v4_num 172 16 0 0) 12 \<or> in_block n (v4_num 192 168 0 0) 16
         \<or> in_block n (v4_num 169 254 0 0) 16)
   \<and> is_lan_source (V6 [0, 0, 0, 0, 0, 0xFFFF, be_pair a b, be_pair c d])
       = is_lan_source (V4 a b c d)"
  by (auto simp: Let_def in_block_8 in_block_16 in_block_12 is_lan_source_v4_def be_pair_low
      be_pair_high v6_is_loopback_def)
end
