(* ===== verification/Unix_Path.thy ===== *)
theory Unix_Path
  imports Rust_Str
begin

text \<open>
  \<open>std::path::Path\<close> on Unix (the supported platforms are macOS and Linux): a path is its bytes;
  \<open>components\<close> drops repeated separators and inner \<open>.\<close> components; \<open>join\<close> replaces the base by an
  absolute argument; \<open>file_name\<close> and \<open>extension\<close> read the last component.
\<close>

type_synonym path = string

datatype component = RootDir | CurDir | ParentDir | Normal string

definition is_absolute :: "path \<Rightarrow> bool" where
  "is_absolute p \<longleftrightarrow> starts_with ''/'' p"

fun segment_components :: "string list \<Rightarrow> component list" where
  "segment_components [] = []"
| "segment_components (w # ws) =
     (if w = [] \<or> w = ''.'' then segment_components ws
      else (if w = ''..'' then ParentDir else Normal w) # segment_components ws)"

text \<open>A leading \<open>.\<close> of a relative path is the component \<open>CurDir\<close>; any other \<open>.\<close> is dropped.\<close>

definition path_components :: "path \<Rightarrow> component list" where
  "path_components p =
     (let ws = split_on (CHR ''/'') p
      in if is_absolute p then RootDir # segment_components ws
         else if hd ws = ''.'' then CurDir # segment_components (tl ws)
         else segment_components ws)"

definition path_join :: "path \<Rightarrow> path \<Rightarrow> path" where
  "path_join base p =
     (if is_absolute p then p
      else if base = [] then p
      else if ends_with ''/'' base then base @ p
      else base @ ''/'' @ p)"

definition file_name :: "path \<Rightarrow> string option" where
  "file_name p =
     (case rev (path_components p) of Normal w # _ \<Rightarrow> Some w | _ \<Rightarrow> None)"

text \<open>The extension is what follows the last dot, unless the name starts with its only dot.\<close>

definition path_extension :: "path \<Rightarrow> string option" where
  "path_extension p =
     (case file_name p of
        None \<Rightarrow> None
      | Some w \<Rightarrow>
          (case rsplit_once (CHR ''.'') w of
             None \<Rightarrow> None
           | Some (stem, ext) \<Rightarrow> if stem = [] then None else Some ext))"

text \<open>
  Whether one component list is below another: the reading of ``inside the directory'' that the
  containment theorems use.
\<close>

definition is_below :: "component list \<Rightarrow> component list \<Rightarrow> bool" where
  "is_below base cs \<longleftrightarrow>
     (\<exists>rest. cs = base @ rest \<and> RootDir \<notin> set rest \<and> ParentDir \<notin> set rest)"

lemma segment_components_append:
  "segment_components (a @ b) = segment_components a @ segment_components b"
  by (induction a) auto

lemma segment_components_shape:
  "c \<in> set (segment_components ws) \<Longrightarrow> c = ParentDir \<or> (\<exists>w. c = Normal w \<and> w \<in> set ws)"
  by (induction ws) (auto split: if_splits)

lemma is_absolute_append: "a \<noteq> [] \<Longrightarrow> is_absolute (a @ b) = is_absolute a"
  by (cases a) (auto simp: is_absolute_def starts_with_singleton)

lemma is_absolute_hd_split: "is_absolute p \<Longrightarrow> hd (split_on (CHR ''/'') p) = []"
  by (cases p) (auto simp: is_absolute_def starts_with_singleton)

text \<open>Joining a relative path appends its components, whatever the separator situation.\<close>

lemma path_components_snoc:
  assumes "base \<noteq> []"
  shows "path_components (base @ CHR ''/'' # p) =
    path_components base @ segment_components (split_on (CHR ''/'') p)"
proof -
  let ?s = "split_on (CHR ''/'')"
  have sp: "?s (base @ CHR ''/'' # p) = ?s base @ ?s p"
    by (rule split_on_append_general)
  obtain w ws where b: "?s base = w # ws"
    by (cases "?s base") auto
  show ?thesis
    using assms
    by (simp add: path_components_def Let_def sp b is_absolute_append segment_components_append)
qed

lemma ends_with_slash_split:
  assumes "ends_with ''/'' base"
  obtains b where "base = b @ ''/''"
  using assms by (auto simp: ends_with_iff)

lemma path_components_trailing_slash:
  assumes "b \<noteq> []"
  shows "path_components (b @ ''/'') = path_components b"
  using path_components_snoc [OF assms, of "[]"] by simp

lemma root_components: "path_components ''/'' = [RootDir]"
  by (simp add: path_components_def is_absolute_def starts_with_singleton)

lemma path_components_join_rel:
  assumes "base \<noteq> []" "\<not> is_absolute p"
  shows "path_components (path_join base p) =
    path_components base @ segment_components (split_on (CHR ''/'') p)"
proof (cases "ends_with ''/'' base")
  case False
  with assms show ?thesis
    by (simp add: path_join_def path_components_snoc)
next
  case True
  then obtain b where b: "base = b @ ''/''"
    by (rule ends_with_slash_split)
  have j: "path_join base p = b @ CHR ''/'' # p"
    using assms True b by (simp add: path_join_def)
  show ?thesis
  proof (cases "b = []")
    case True
    then show ?thesis
      using j b root_components
      by (simp add: path_components_def is_absolute_def starts_with_singleton)
  next
    case False
    then show ?thesis
      using j b path_components_snoc [OF False, of p] path_components_trailing_slash [OF False]
      by simp
  qed
qed

end
