(* ===== verification/Http_Request.thy ===== *)
theory Http_Request
  imports Net_Addr Unix_Path Rust_Str_More
begin

text \<open>
  Requests as the proxy sees them and what it derives from their headers: upgrade detection and
  hop-by-hop stripping (\<open>forward/upgrade.rs\<close>), the forwarding headers (\<open>forward/proxy.rs\<close>) and the
  CGI parameters (\<open>pure/cgi_params.rs\<close>). Header names are in lower case, as the \<open>http\<close> crate keeps
  them, and \<open>vis\<close> stands for the test that \<open>HeaderValue::to_str\<close> and \<open>from_str\<close> make.
\<close>

section \<open>Addresses in text\<close>

record socket_addr =
  sa_ip :: ip_addr
  sa_port :: nat

definition show_v4 :: "u8 \<Rightarrow> u8 \<Rightarrow> u8 \<Rightarrow> u8 \<Rightarrow> string" where
  "show_v4 a b c d =
     show_nat (unat a) @ ''.'' @ show_nat (unat b) @ ''.'' @ show_nat (unat c) @ ''.'' @ show_nat (unat d)"

definition hex_char :: "nat \<Rightarrow> char" where
  "hex_char n = (if n < 10 then char_of (48 + n) else char_of (87 + n))"

function show_hex :: "nat \<Rightarrow> string" where
  "show_hex n = (if n < 16 then [hex_char n] else show_hex (n div 16) @ [hex_char (n mod 16)])"
  by pat_completeness auto
termination
  by (relation "measure id") auto

declare show_hex.simps [simp del]

text \<open>The first longest run of zero groups: its start and its length.\<close>

fun zero_run :: "nat \<Rightarrow> nat \<times> nat \<Rightarrow> nat \<times> nat \<Rightarrow> u16 list \<Rightarrow> nat \<times> nat" where
  "zero_run i cur best [] = best"
| "zero_run i cur best (g # gs) =
     (if g = 0 then
        (let cur' = (if snd cur = 0 then (i, 1) else (fst cur, snd cur + 1))
         in zero_run (Suc i) cur' (if snd cur' > snd best then cur' else best) gs)
      else zero_run (Suc i) (0, 0) best gs)"

definition show_groups :: "u16 list \<Rightarrow> string" where
  "show_groups gs = join_with '':'' (map (\<lambda>g. show_hex (unat g)) gs)"

definition show_v6 :: "u16 list \<Rightarrow> string" where
  "show_v6 gs =
     (case to_ipv4_mapped gs of
        Some (a, b, c, d) \<Rightarrow> ''::ffff:'' @ show_v4 a b c d
      | None \<Rightarrow>
          (case zero_run 0 (0, 0) (0, 0) gs of (start, len) \<Rightarrow>
             if len > 1 then show_groups (take start gs) @ ''::'' @ show_groups (drop (start + len) gs)
             else show_groups gs))"

fun show_ip :: "ip_addr \<Rightarrow> string" where
  "show_ip (V4 a b c d) = show_v4 a b c d"
| "show_ip (V6 gs) = show_v6 gs"

definition show_socket_addr :: "socket_addr \<Rightarrow> string" where
  "show_socket_addr a =
     (case sa_ip a of
        V4 _ _ _ _ \<Rightarrow> show_ip (sa_ip a) @ '':'' @ show_nat (sa_port a)
      | V6 _ \<Rightarrow> ''['' @ show_ip (sa_ip a) @ '']:'' @ show_nat (sa_port a))"

section \<open>Requests\<close>

text \<open>What the sources read of an \<open>http::Uri\<close>: path, query, and both together.\<close>

record http_uri =
  uri_path :: string
  uri_query :: "string option"
  uri_pq :: "string option"

type_synonym headers = "(string \<times> string) list"

record http_request =
  rq_method :: string
  rq_uri :: http_uri
  rq_headers :: headers

definition hdr_get :: "headers \<Rightarrow> string \<Rightarrow> string option" where
  "hdr_get hs name = map_of hs name"

definition hdr_get_all :: "headers \<Rightarrow> string \<Rightarrow> string list" where
  "hdr_get_all hs name = map snd (filter (\<lambda>(k, _). k = name) hs)"

text \<open>\<open>HeaderMap::insert\<close> replaces all values of the name; \<open>remove\<close> drops them.\<close>

definition hdr_remove :: "string \<Rightarrow> headers \<Rightarrow> headers" where
  "hdr_remove name hs = filter (\<lambda>(k, _). k \<noteq> name) hs"

fun hdr_insert :: "string \<Rightarrow> string \<Rightarrow> headers \<Rightarrow> headers" where
  "hdr_insert name v [] = [(name, v)]"
| "hdr_insert name v ((k, x) # hs) =
     (if k = name then (name, v) # hdr_remove name hs else (k, x) # hdr_insert name v hs)"

text \<open>A header as text: the first value, if it is visible ASCII.\<close>

definition hdr_str :: "(string \<Rightarrow> bool) \<Rightarrow> headers \<Rightarrow> string \<Rightarrow> string option" where
  "hdr_str vis hs name =
     (case hdr_get hs name of Some v \<Rightarrow> (if vis v then Some v else None) | None \<Rightarrow> None)"

definition path_and_query_or_root :: "http_uri \<Rightarrow> string" where
  "path_and_query_or_root u = (case uri_pq u of Some pq \<Rightarrow> pq | None \<Rightarrow> ''/'')"

section \<open>Upgrades and hop-by-hop headers\<close>

definition is_upgrade :: "(string \<Rightarrow> bool) \<Rightarrow> headers \<Rightarrow> bool" where
  "is_upgrade vis hs \<longleftrightarrow>
     hdr_get hs ''upgrade'' \<noteq> None
     \<and> list_ex (\<lambda>v. vis v \<and> list_ex (\<lambda>tok. eq_ignore_ascii_case (trim tok) ''upgrade'') (split_on (CHR '','') v))
         (hdr_get_all hs ''connection'')"

definition HOP_BY_HOP_FIXED :: "string list" where
  "HOP_BY_HOP_FIXED = [''connection'', ''proxy-connection'', ''keep-alive'', ''te'', ''transfer-encoding'', ''trailer'']"

definition conn_tokens :: "(string \<Rightarrow> bool) \<Rightarrow> headers \<Rightarrow> string list" where
  "conn_tokens vis hs =
     concat (map (\<lambda>s. map trim (split_on (CHR '','') s)) (filter vis (hdr_get_all hs ''connection'')))"

definition strip_hop_by_hop_only :: "(string \<Rightarrow> bool) \<Rightarrow> headers \<Rightarrow> headers" where
  "strip_hop_by_hop_only vis hs =
     (let toks = conn_tokens vis hs;
          to_remove = filter (\<lambda>lower. lower = ''upgrade'' \<or> lower \<in> set HOP_BY_HOP_FIXED
            \<or> list_ex (\<lambda>t. eq_ignore_ascii_case t lower) toks) (map fst hs)
      in fold hdr_remove to_remove hs)"

definition strip_hop_by_hop :: "(string \<Rightarrow> bool) \<Rightarrow> headers \<Rightarrow> headers" where
  "strip_hop_by_hop vis hs =
     (let toks = conn_tokens vis hs;
          to_remove = filter (\<lambda>lower. lower \<noteq> ''upgrade'' \<and> (lower \<in> set HOP_BY_HOP_FIXED
            \<or> list_ex (\<lambda>t. eq_ignore_ascii_case t lower) toks)) (map fst hs)
      in hdr_insert ''connection'' ''upgrade'' (fold hdr_remove to_remove hs))"

section \<open>Forwarding headers\<close>

definition insert_if :: "(string \<Rightarrow> bool) \<Rightarrow> string \<Rightarrow> string \<Rightarrow> headers \<Rightarrow> headers" where
  "insert_if vis name v hs = (if vis v then hdr_insert name v hs else hs)"

definition add_forwarded_headers :: "(string \<Rightarrow> bool) \<Rightarrow> ip_addr \<Rightarrow> bool \<Rightarrow> string \<Rightarrow> headers \<Rightarrow> headers" where
  "add_forwarded_headers vis peer https client_host hs =
     (let h1 = insert_if vis ''x-forwarded-proto'' (if https then ''https'' else ''http'') hs;
          h2 = insert_if vis ''x-forwarded-host'' client_host h1;
          peer_str = show_ip peer
      in if vis peer_str then hdr_insert ''x-forwarded-for'' peer_str (hdr_insert ''x-real-ip'' peer_str h2) else h2)"

section \<open>CGI parameters\<close>

record auto_login_params =
  al_prepend_script :: path
  al_target_user :: string

definition split_path_query :: "string \<Rightarrow> string \<times> string" where
  "split_path_query pq = (case split_once (CHR ''?'') pq of Some (p, q) \<Rightarrow> (p, q) | None \<Rightarrow> (pq, []))"

definition http_param_name :: "string \<Rightarrow> string" where
  "http_param_name name = ''HTTP_'' @ map (\<lambda>b. if b = CHR ''-'' then CHR ''_'' else upper_byte b) name"

definition opt_param :: "string list \<Rightarrow> string option \<Rightarrow> (string \<times> string) list" where
  "opt_param names v = (case v of Some x \<Rightarrow> map (\<lambda>n. (n, x)) names | None \<Rightarrow> [])"

definition build_params ::
  "(string \<Rightarrow> bool) \<Rightarrow> string \<Rightarrow> string \<Rightarrow> headers \<Rightarrow> path \<Rightarrow> path option \<Rightarrow> string option \<Rightarrow> bool
     \<Rightarrow> socket_addr \<Rightarrow> socket_addr \<Rightarrow> auto_login_params option \<Rightarrow> (string \<times> string) list" where
  "build_params vis meth path_and_query hs doc_root script_rel path_info https remote_addr server_addr auto_login =
     (let (p, query) = split_path_query path_and_query;
          (script_filename, script_name) =
            (case script_rel of
               Some rel \<Rightarrow> (path_join doc_root rel,
                 ''/'' @ replace_byte (CHR 0x5C) ''/'' (from_utf8_lossy rel))
             | None \<Rightarrow> (path_join doc_root ''index.php'', ''/index.php''))
      in [(''GATEWAY_INTERFACE'', ''CGI/1.1''), (''SERVER_PROTOCOL'', ''HTTP/1.1''), (''REQUEST_METHOD'', meth),
          (''REQUEST_URI'', path_and_query), (''QUERY_STRING'', query), (''SCRIPT_NAME'', script_name),
          (''SCRIPT_FILENAME'', from_utf8_lossy script_filename), (''DOCUMENT_ROOT'', from_utf8_lossy doc_root),
          (''PATH_INFO'', case path_info of Some i \<Rightarrow> i | None \<Rightarrow> p),
          (''REMOTE_ADDR'', show_ip (sa_ip remote_addr)), (''REMOTE_PORT'', show_nat (sa_port remote_addr)),
          (''SERVER_ADDR'', show_ip (sa_ip server_addr)), (''SERVER_PORT'', show_nat (sa_port server_addr)),
          (''SERVER_SOFTWARE'', ''yerd (nginx-compatible)'')]
         @ (if https then [(''HTTPS'', ''on'')] else [])
         @ (case auto_login of
              Some login \<Rightarrow>
                [(''PHP_VALUE'', ''auto_prepend_file='' @ from_utf8_lossy (al_prepend_script login)),
                 (''YERD_LOGIN_USER'', al_target_user login)]
            | None \<Rightarrow> [])
         @ opt_param [''SERVER_NAME'', ''HTTP_HOST''] (hdr_str vis hs ''host'')
         @ opt_param [''CONTENT_TYPE''] (hdr_str vis hs ''content-type'')
         @ opt_param [''CONTENT_LENGTH''] (hdr_str vis hs ''content-length'')
         @ map (\<lambda>(name, v). (http_param_name name, v))
             (filter (\<lambda>(name, _). name \<notin> {''host'', ''content-type'', ''content-length''}) hs))"

section \<open>Properties\<close>

lemma hdr_get_remove: "hdr_get (hdr_remove n hs) k = (if k = n then None else hdr_get hs k)"
  by (induction hs) (auto simp: hdr_get_def hdr_remove_def)

lemma hdr_get_insert: "hdr_get (hdr_insert n v hs) k = (if k = n then Some v else hdr_get hs k)"
proof (induction hs)
  case (Cons h hs)
  then show ?case
    using hdr_get_remove [of n hs k] by (cases h) (auto simp: hdr_get_def)
qed (auto simp: hdr_get_def)

lemma hdr_get_all_remove: "hdr_get_all (hdr_remove n hs) k = (if k = n then [] else hdr_get_all hs k)"
  by (induction hs) (auto simp: hdr_get_all_def hdr_remove_def)

lemma hdr_get_all_insert: "hdr_get_all (hdr_insert n v hs) n = [v]"
proof (induction hs)
  case (Cons h hs)
  then show ?case
    using hdr_get_all_remove [of n hs n] by (cases h) (auto simp: hdr_get_all_def)
qed (simp add: hdr_get_all_def)

lemma hdr_get_all_insert_other: "k \<noteq> n \<Longrightarrow> hdr_get_all (hdr_insert n v hs) k = hdr_get_all hs k"
proof (induction hs)
  case (Cons h hs)
  then show ?case
    using hdr_get_all_remove [of n hs k] by (cases h) (auto simp: hdr_get_all_def)
qed (simp add: hdr_get_all_def)

text \<open>
  A client cannot choose the address, host or scheme that an upstream is told: what it sent under
  those names is replaced.
\<close>

lemma forwarded_not_spoofed:
  fixes hs :: headers and https :: bool
  assumes "\<And>s. s \<in> {show_ip peer, client_host, ''http'', ''https''} \<Longrightarrow> vis s"
  defines "hs' \<equiv> add_forwarded_headers vis peer https client_host hs"
  shows "hdr_get_all hs' ''x-forwarded-for'' = [show_ip peer]" "hdr_get_all hs' ''x-real-ip'' = [show_ip peer]"
    "hdr_get_all hs' ''x-forwarded-host'' = [client_host]"
    "hdr_get_all hs' ''x-forwarded-proto'' = [if https then ''https'' else ''http'']"
  using assms(1) unfolding hs'_def
  by (simp_all add: add_forwarded_headers_def insert_if_def hdr_get_all_insert hdr_get_all_insert_other Let_def)

lemma fold_hdr_remove: "fold hdr_remove ns hs = filter (\<lambda>(k, _). k \<notin> set ns) hs"
proof (induction ns arbitrary: hs)
  case Nil
  then show ?case by (induction hs) auto
next
  case (Cons n ns)
  have "filter (\<lambda>(k, _). k \<notin> set ns) (hdr_remove n hs) = filter (\<lambda>(k, _). k \<notin> set (n # ns)) hs"
    by (induction hs) (auto simp: hdr_remove_def)
  with Cons show ?case by simp
qed

text \<open>Stripping leaves exactly the end-to-end headers, in order.\<close>

lemma strip_hop_by_hop_only_spec:
  "strip_hop_by_hop_only vis hs =
     filter (\<lambda>(k, _). k \<noteq> ''upgrade'' \<and> k \<notin> set HOP_BY_HOP_FIXED
       \<and> \<not> list_ex (\<lambda>t. eq_ignore_ascii_case t k) (conn_tokens vis hs)) hs"
  unfolding strip_hop_by_hop_only_def Let_def fold_hdr_remove
  by (rule filter_cong) force+

end
