(* ===== verification/Service_Manager.thy ===== *)
theory Service_Manager
  imports Service_Init Http_Request
begin

text \<open>
  \<open>ServiceManager\<close> of \<open>crates/yerd-services/src/manager.rs\<close>: one instance per wire id, started, stopped
  and restarted through the driver. One \<open>drive_world\<close> answers for the whole life of the manager; the
  turn of the next drive is part of the state. What is checked and written before a start (the
  installed binary, the data directory, the port, the rendered files) is answered by
  \<open>prepare_world\<close>, in the order of the code.
\<close>

section \<open>Types\<close>

record service_def =
  sd_id :: string
  sd_server_binary :: "string option"
  sd_policy :: supervisor_policy

record running_instance =
  in_def :: service_def
  in_state :: pool_state
  in_since :: duration
  in_version :: "string option"
  in_listen :: socket_addr
  in_child :: "child option"

record service_manager =
  sm_instances :: "(string, running_instance) btree_map"
  sm_turn :: nat
  sm_effects :: "effect list"

datatype port_check = PortFree | PortTaken | PortError string

record prepare_world =
  pw_is_file :: bool
  pw_init :: init_world
  pw_datadir :: string
  pw_disk :: init_disk
  pw_bind :: port_check
  pw_files :: "(service_error, unit) result"

record ensure_request =
  er_def :: service_def
  er_wire_id :: string
  er_version :: "string option"
  er_port :: u16
  er_program_override :: bool
  er_world :: prepare_world

definition manager_new :: service_manager where
  "manager_new = \<lparr>sm_instances = bt_empty, sm_turn = 0, sm_effects = []\<rparr>"

section \<open>Operations\<close>

definition preflight_port :: "port_check \<Rightarrow> string \<Rightarrow> u16 \<Rightarrow> (service_error, unit) result" where
  "preflight_port bind wire_id port =
     (case bind of PortFree \<Rightarrow> Ok () | PortTaken \<Rightarrow> Err (SvPortInUse wire_id port) | PortError e \<Rightarrow> Err (SvBind wire_id port e))"

text \<open>Everything \<open>ensure\<close> does before it drives.\<close>

definition prepare :: "ensure_request \<Rightarrow> (service_error, unit) result" where
  "prepare q =
     (let w = er_world q; wire_id = er_wire_id q;
          versioned =
            (if er_program_override q then Ok False
             else (case er_version q of
                 None \<Rightarrow> Err (SvUnsupported wire_id ''a versioned service requires a version'')
               | Some v \<Rightarrow>
                   (case sd_server_binary (er_def q) of
                      None \<Rightarrow> Err (SvUnsupported wire_id ''type has no server binary'')
                    | Some bin \<Rightarrow> if \<not> pw_is_file w then Err (SvVersionNotInstalled wire_id v) else Ok True)))
      in and_then versioned (\<lambda>v.
         and_then (if v then fst (init_datadir_if_needed (pw_init w) wire_id (pw_datadir w) (pw_disk w)) else Ok ()) (\<lambda>_.
         and_then (preflight_port (pw_bind w) wire_id (er_port q)) (\<lambda>_. pw_files w))))"

text \<open>The fast path: an instance recorded as running whose child has not exited.\<close>

definition running_listen :: "drive_world \<Rightarrow> string \<Rightarrow> service_manager \<Rightarrow> (service_error, socket_addr option) result \<times> service_manager" where
  "running_listen w wire_id m =
     (case bt_get (sm_instances m) wire_id of
        None \<Rightarrow> (Ok None, m)
      | Some inst \<Rightarrow>
          (case in_state inst of
             Running _ \<Rightarrow>
               (case in_child inst of
                  None \<Rightarrow> (Ok None, m)
                | Some ch \<Rightarrow>
                    (case dw_try_wait w (sm_turn m) of
                       Err e \<Rightarrow> (Err (wait_failed wire_id e), m)
                     | Ok None \<Rightarrow> (Ok (Some (in_listen inst)), m\<lparr>sm_turn := Suc (sm_turn m)\<rparr>)
                     | Ok (Some _) \<Rightarrow> (Ok None, m\<lparr>sm_turn := Suc (sm_turn m), sm_effects := sm_effects m @ [EffReaped ch]\<rparr>)))
           | _ \<Rightarrow> (Ok None, m)))"

definition manager_drive :: "nat \<Rightarrow> drive_world \<Rightarrow> string \<Rightarrow> bool \<Rightarrow> supervisor_policy \<Rightarrow> pool_state \<Rightarrow> duration \<Rightarrow> child option
    \<Rightarrow> sup_event \<Rightarrow> service_manager \<Rightarrow> ((service_error, drive_outcome) result \<times> duration \<times> service_manager) option" where
  "manager_drive fuel w wire_id b p s since ch ev m =
     (case drive_loop fuel w wire_id b p (drive_start (sm_turn m) s since ch ev) of
        None \<Rightarrow> None
      | Some (r, d) \<Rightarrow> Some (r, dv_since d, m\<lparr>sm_turn := Suc (dv_turn d), sm_effects := sm_effects m @ dv_effects d\<rparr>))"

definition manager_ensure :: "nat \<Rightarrow> drive_world \<Rightarrow> ensure_request \<Rightarrow> service_manager
    \<Rightarrow> ((service_error, socket_addr) result \<times> service_manager) option" where
  "manager_ensure fuel w q m =
     (case running_listen w (er_wire_id q) m of
        (Err e, m1) \<Rightarrow> Some (Err e, m1)
      | (Ok (Some listen), m1) \<Rightarrow> Some (Ok listen, m1)
      | (Ok None, m1) \<Rightarrow>
          (case prepare q of
             Err e \<Rightarrow> Some (Err e, m1)
           | Ok _ \<Rightarrow>
               (let listen = \<lparr>sa_ip = V4 127 0 0 1, sa_port = unat (er_port q)\<rparr>
                in case manager_drive fuel w (er_wire_id q) True (sd_policy (er_def q)) Stopped (dw_now w (sm_turn m1)) None
                          EnsureRequested m1 of
                     None \<Rightarrow> None
                   | Some (Err e, _, m2) \<Rightarrow> Some (Err e, m2)
                   | Some (Ok DriveStopped, _, m2) \<Rightarrow> Some (Err (driver_error (er_wire_id q) ''ensure: drive returned Stopped''), m2)
                   | Some (Ok (DriveRunning ch pid), since, m2) \<Rightarrow>
                       Some (Ok listen, m2\<lparr>sm_instances := bt_insert (er_wire_id q)
                         \<lparr>in_def = er_def q, in_state = Running pid, in_since = since, in_version = er_version q,
                          in_listen = listen, in_child = Some ch\<rparr> (sm_instances m2)\<rparr>))))"

definition manager_stop :: "nat \<Rightarrow> drive_world \<Rightarrow> string \<Rightarrow> service_manager \<Rightarrow> ((service_error, unit) result \<times> service_manager) option" where
  "manager_stop fuel w wire_id m =
     (case bt_get (sm_instances m) wire_id of
        None \<Rightarrow> Some (Ok (), m)
      | Some inst \<Rightarrow>
          (let m1 = m\<lparr>sm_instances := bt_remove wire_id (sm_instances m)\<rparr>
           in case manager_drive fuel w wire_id False (sd_policy (in_def inst)) (in_state inst) (in_since inst) (in_child inst)
                     StopRequested m1 of
                None \<Rightarrow> None
              | Some (Err e, _, m2) \<Rightarrow> Some (Err e, m2)
              | Some (Ok _, _, m2) \<Rightarrow> Some (Ok (), m2)))"

definition manager_restart :: "nat \<Rightarrow> drive_world \<Rightarrow> ensure_request \<Rightarrow> service_manager
    \<Rightarrow> ((service_error, socket_addr) result \<times> service_manager) option" where
  "manager_restart fuel w q m =
     (case manager_stop fuel w (er_wire_id q) m of
        None \<Rightarrow> None | Some (_, m1) \<Rightarrow> manager_ensure fuel w q m1)"

fun stop_all :: "nat \<Rightarrow> drive_world \<Rightarrow> string list \<Rightarrow> service_error option \<Rightarrow> service_manager
    \<Rightarrow> (service_error option \<times> service_manager) option" where
  "stop_all fuel w [] first_err m = Some (first_err, m)"
| "stop_all fuel w (i # is) first_err m =
     (case manager_stop fuel w i m of
        None \<Rightarrow> None
      | Some (Err e, m1) \<Rightarrow> stop_all fuel w is (if first_err = None then Some e else first_err) m1
      | Some (Ok _, m1) \<Rightarrow> stop_all fuel w is first_err m1)"

definition manager_shutdown :: "nat \<Rightarrow> drive_world \<Rightarrow> service_manager \<Rightarrow> ((service_error, unit) result \<times> service_manager) option" where
  "manager_shutdown fuel w m =
     (case stop_all fuel w (map fst (sm_instances m)) None m of
        None \<Rightarrow> None
      | Some (Some e, m1) \<Rightarrow> Some (Err e, m1)
      | Some (None, m1) \<Rightarrow> Some (Ok (), m1))"

datatype service_run_state = ServiceRunning | ServiceFailed

text \<open>One line of the report: alive with its process id, or failed.\<close>

definition snapshot_of :: "(io_error, exit_reason option) result \<Rightarrow> running_instance \<Rightarrow> service_run_state \<times> u32 option" where
  "snapshot_of try_wait inst =
     (case (in_state inst, in_child inst) of
        (Running pid, Some _) \<Rightarrow> (case try_wait of Ok None \<Rightarrow> (ServiceRunning, Some pid) | _ \<Rightarrow> (ServiceFailed, None))
      | _ \<Rightarrow> (ServiceFailed, None))"

section \<open>Nothing is left behind\<close>

text \<open>The children spawned and never waited for.\<close>

definition live :: "effect list \<Rightarrow> child set" where
  "live es = set (spawned es) - set (reaped es)"

definition children :: "service_manager \<Rightarrow> child set" where
  "children m = {ch. \<exists>i inst. bt_get (sm_instances m) i = Some inst \<and> in_child inst = Some ch}"

text \<open>Each instance is recorded as running with its child, and every live child belongs to an instance.\<close>

definition manager_ok :: "service_manager \<Rightarrow> bool" where
  "manager_ok m \<longleftrightarrow> bt_inv (sm_instances m) \<and> fresh_children 0 (sm_turn m) (sm_effects m) \<and> live (sm_effects m) \<subseteq> children m
     \<and> (\<forall>i inst. bt_get (sm_instances m) i = Some inst \<longrightarrow> (\<exists>pid ch. in_state inst = Running pid \<and> in_child inst = Some ch \<and> ch_pid ch = pid))"

inductive manager_step :: "drive_world \<Rightarrow> service_manager \<Rightarrow> service_manager \<Rightarrow> bool" for w where
  ensure: "manager_ensure fuel w q m = Some (r, m') \<Longrightarrow> manager_step w m m'"
| stop: "manager_stop fuel w i m = Some (r, m') \<Longrightarrow> manager_step w m m'"
| restart: "manager_restart fuel w q m = Some (r, m') \<Longrightarrow> manager_step w m m'"
| shutdown: "manager_shutdown fuel w m = Some (r, m') \<Longrightarrow> manager_step w m m'"

inductive manager_reachable :: "drive_world \<Rightarrow> service_manager \<Rightarrow> bool" for w where
  new: "manager_reachable w manager_new"
| step: "manager_reachable w m \<Longrightarrow> manager_step w m m' \<Longrightarrow> manager_reachable w m'"

lemma live_owner:
  assumes "manager_ok m" "c \<in> live (sm_effects m)"
  obtains i inst where "bt_get (sm_instances m) i = Some inst" "in_child inst = Some c"
proof -
  have "c \<in> children m" using assms by (auto simp: manager_ok_def)
  with that show thesis by (auto simp: children_def)
qed

lemma live_append: "live (a @ b) \<subseteq> live a \<union> (set (spawned b) - set (reaped b))"
  by (auto simp: live_def)

text \<open>The invariant after effects, an instance added, an instance removed.\<close>

lemma manager_ok_effects:
  assumes "manager_ok m" "set (spawned es) \<subseteq> set (reaped es)" "sm_turn m \<le> t" "fresh_children (sm_turn m) t es"
  shows "manager_ok (m\<lparr>sm_turn := t, sm_effects := sm_effects m @ es\<rparr>)"
proof -
  have "live (sm_effects m @ es) \<subseteq> live (sm_effects m)"
    using live_append [of "sm_effects m" es] assms(2) by blast
  moreover have "fresh_children 0 t (sm_effects m @ es)"
    using assms by (intro fresh_children_append [of 0 "sm_turn m"]) (simp_all add: manager_ok_def)
  ultimately show ?thesis
    using assms(1) unfolding manager_ok_def children_def by simp blast
qed

lemma manager_ok_insert:
  assumes "manager_ok m" "set (spawned es) \<subseteq> insert ch (set (reaped es))" "sm_turn m \<le> t" "fresh_children (sm_turn m) t es"
    "\<And>old c. bt_get (sm_instances m) i = Some old \<Longrightarrow> in_child old = Some c \<Longrightarrow> c \<notin> live (sm_effects m)"
    "in_state inst = Running (ch_pid ch)" "in_child inst = Some ch"
  shows "manager_ok (m\<lparr>sm_instances := bt_insert i inst (sm_instances m), sm_turn := t, sm_effects := sm_effects m @ es\<rparr>)"
proof -
  let ?m = "m\<lparr>sm_instances := bt_insert i inst (sm_instances m), sm_turn := t, sm_effects := sm_effects m @ es\<rparr>"
  have "c \<in> children ?m" if c: "c \<in> live (sm_effects m)" for c
  proof -
    obtain j k where k: "bt_get (sm_instances m) j = Some k" "in_child k = Some c"
      using live_owner [OF assms(1) c] by metis
    with c assms(5) have "j \<noteq> i" by blast
    with k show ?thesis by (auto simp: children_def)
  qed
  moreover have "ch \<in> children ?m"
    unfolding children_def using assms(7) by (intro CollectI exI [of _ i] exI [of _ inst]) simp
  moreover have "live (sm_effects m @ es) \<subseteq> insert ch (live (sm_effects m))"
    using live_append [of "sm_effects m" es] assms(2) by blast
  ultimately have "live (sm_effects m @ es) \<subseteq> children ?m" by blast
  moreover have "fresh_children 0 t (sm_effects m @ es)"
    using assms by (intro fresh_children_append [of 0 "sm_turn m"]) (simp_all add: manager_ok_def)
  ultimately show ?thesis
    using assms(1,6,7) unfolding manager_ok_def by simp
qed

lemma manager_ok_remove:
  assumes "manager_ok m" "bt_get (sm_instances m) i = Some inst" "in_child inst = Some ch"
    "spawned es = []" "ch \<in> set (reaped es)" "sm_turn m \<le> t"
  shows "manager_ok (m\<lparr>sm_instances := bt_remove i (sm_instances m), sm_turn := t, sm_effects := sm_effects m @ es\<rparr>)"
proof -
  let ?m = "m\<lparr>sm_instances := bt_remove i (sm_instances m), sm_turn := t, sm_effects := sm_effects m @ es\<rparr>"
  have "c \<in> children ?m" if "c \<in> live (sm_effects m @ es)" for c
  proof -
    have c: "c \<in> live (sm_effects m)" "c \<noteq> ch" using that assms(4,5) by (auto simp: live_def)
    obtain j k where k: "bt_get (sm_instances m) j = Some k" "in_child k = Some c"
      using live_owner [OF assms(1) c(1)] by metis
    with c(2) assms(2,3) have "j \<noteq> i" by auto
    with k show ?thesis by (auto simp: children_def)
  qed
  moreover have "fresh_children 0 t (sm_effects m @ es)"
    using assms(4) assms(1,6) by (intro fresh_children_append [of 0 "sm_turn m"]) (simp_all add: manager_ok_def fresh_children_def)
  ultimately show ?thesis
    using assms(1) unfolding manager_ok_def by (simp add: subset_iff)
qed

lemma manager_ok_instance:
  "manager_ok m \<Longrightarrow> bt_get (sm_instances m) i = Some inst \<Longrightarrow>
     \<exists>pid ch. in_state inst = Running pid \<and> in_child inst = Some ch \<and> ch_pid ch = pid"
  unfolding manager_ok_def by blast

lemma os_works_not_failed: "os_works w \<Longrightarrow> \<not> os_failed w i e"
  by (metis is_ok.simps(2) os_failed.cases os_works_def)

lemma running_listen_cases:
  assumes "manager_ok m" "running_listen w i m = (r, m1)"
  obtains (none) "bt_get (sm_instances m) i = None" "r = Ok None" "m1 = m"
  | (lost) e where "r = Err e" "m1 = m"
  | (alive) listen where "r = Ok (Some listen)" "m1 = m\<lparr>sm_turn := Suc (sm_turn m)\<rparr>"
  | (exited) inst ch where "bt_get (sm_instances m) i = Some inst" "in_child inst = Some ch" "r = Ok None"
      "m1 = m\<lparr>sm_turn := Suc (sm_turn m), sm_effects := sm_effects m @ [EffReaped ch]\<rparr>"
proof (cases "bt_get (sm_instances m) i")
  case None
  with assms(2) show ?thesis by (intro none) (simp_all add: running_listen_def)
next
  case (Some inst)
  then obtain pid ch where inst: "in_state inst = Running pid" "in_child inst = Some ch"
    using manager_ok_instance [OF assms(1)] by metis
  show ?thesis
  proof (cases "dw_try_wait w (sm_turn m)")
    case (Err e)
    with assms(2) Some inst show ?thesis by (intro lost [of "wait_failed i e"]) (simp_all add: running_listen_def)
  next
    case (Ok x)
    show ?thesis
    proof (cases x)
      case None
      with assms(2) Some inst Ok show ?thesis by (intro alive [of "in_listen inst"]) (simp_all add: running_listen_def)
    next
      case (Some y)
      with assms(2) \<open>bt_get (sm_instances m) i = Some inst\<close> inst Ok show ?thesis
        by (intro exited) (auto simp: running_listen_def)
    qed
  qed
qed

lemma live_reaped: "live (es @ [EffReaped c]) = live es - {c}"
  by (auto simp: live_def)

lemma running_listen_ok:
  assumes "manager_ok m" "running_listen w i m = (r, m1)"
  shows "manager_ok m1 \<and> sm_instances m1 = sm_instances m
    \<and> (r = Ok None \<longrightarrow> (\<forall>inst ch. bt_get (sm_instances m) i = Some inst \<longrightarrow> in_child inst = Some ch \<longrightarrow> ch \<notin> live (sm_effects m1)))"
  using assms
proof (cases rule: running_listen_cases)
  case (exited inst ch)
  with manager_ok_effects [OF assms(1), of "[EffReaped ch]" "Suc (sm_turn m)"] show ?thesis
    by (simp add: fresh_children_def live_reaped)
next
  case (alive listen)
  with manager_ok_effects [OF assms(1), of "[]" "Suc (sm_turn m)"] show ?thesis
    by (simp add: fresh_children_def)
qed (simp_all add: assms(1))

lemma ensure_ok:
  assumes "manager_ok m" "os_works w" "clock_runs w" "manager_ensure fuel w q m = Some (r, m')"
  shows "manager_ok m'"
proof -
  obtain l m1 where rl: "running_listen w (er_wire_id q) m = (l, m1)" by fastforce
  have m1: "manager_ok m1" "sm_instances m1 = sm_instances m"
    "\<And>inst ch. l = Ok None \<Longrightarrow> bt_get (sm_instances m) (er_wire_id q) = Some inst \<Longrightarrow> in_child inst = Some ch \<Longrightarrow> ch \<notin> live (sm_effects m1)"
    using running_listen_ok [OF assms(1) rl] by simp_all
  show ?thesis
  proof (cases "l = Ok None \<and> prepare q = Ok ()")
    case False
    then have "m' = m1"
      using assms(4) rl by (auto simp: manager_ensure_def split: result.splits option.splits)
    with m1(1) show ?thesis by simp
  next
    case True
    let ?start = "drive_start (sm_turn m1) Stopped (dw_now w (sm_turn m1)) None EnsureRequested"
    obtain res d where d: "drive_loop fuel w (er_wire_id q) True (sd_policy (er_def q)) ?start = Some (res, d)"
      using assms(4) rl True by (auto simp: manager_ensure_def manager_drive_def Let_def split: option.splits)
    have acc: "accounted w (er_wire_id q) (sd_policy (er_def q)) True [] res d"
      by (rule drive_loop_accounted [OF start_ok assms(3) d])
    have fr: "fresh_children (sm_turn m1) (Suc (dv_turn d)) (dv_effects d)" "sm_turn m1 \<le> Suc (dv_turn d)"
      using drive_loop_fresh [OF d, of "sm_turn m1"] by (simp_all add: fresh_children_def)
    show ?thesis
    proof (cases res)
      case (Err e)
      then have "m' = m1\<lparr>sm_turn := Suc (dv_turn d), sm_effects := sm_effects m1 @ dv_effects d\<rparr>"
        using assms(4) rl True d by (simp add: manager_ensure_def manager_drive_def Let_def)
      moreover have "spawned (dv_effects d) = reaped (dv_effects d)"
        using acc Err os_works_not_failed [OF assms(2)] by (simp add: accounted_def)
      ultimately show ?thesis
        using manager_ok_effects [OF m1(1) _ fr(2,1)] by simp
    next
      case (Ok out)
      then obtain ch where out: "out = DriveRunning ch (ch_pid ch)" "spawned (dv_effects d) = reaped (dv_effects d) @ [ch]"
        using acc by (cases out) (auto simp: accounted_def)
      define inst where "inst = \<lparr>in_def = er_def q, in_state = Running (ch_pid ch), in_since = dv_since d, in_version = er_version q,
        in_listen = \<lparr>sa_ip = V4 127 0 0 1, sa_port = unat (er_port q)\<rparr>, in_child = Some ch\<rparr>"
      have m': "m' = m1\<lparr>sm_instances := bt_insert (er_wire_id q) inst (sm_instances m1),
            sm_turn := Suc (dv_turn d), sm_effects := sm_effects m1 @ dv_effects d\<rparr>"
        using assms(4) rl True d Ok out by (auto simp: manager_ensure_def manager_drive_def Let_def inst_def)
      show ?thesis
        unfolding m' using out m1(3) True
        by (intro manager_ok_insert [OF m1(1) _ fr(2,1)]) (auto simp: m1(2) inst_def)
    qed
  qed
qed

lemma stop_ok:
  assumes "manager_ok m" "os_works w" "manager_stop fuel w i m = Some (r, m')"
  shows "manager_ok m' \<and> r = Ok () \<and> sm_instances m' = bt_remove i (sm_instances m)"
proof (cases "bt_get (sm_instances m) i")
  case None
  have "bt_remove i (sm_instances m) = sm_instances m"
    using None assms(1) by (intro bt_ext) (auto simp: manager_ok_def)
  with None assms(1,3) show ?thesis by (simp add: manager_stop_def)
next
  case (Some inst)
  then obtain pid ch where inst: "in_state inst = Running pid" "in_child inst = Some ch"
    using manager_ok_instance [OF assms(1)] by metis
  let ?p = "sd_policy (in_def inst)" let ?start = "drive_start (sm_turn m) (Running pid) (in_since inst) (Some ch) StopRequested"
  obtain d where d: "drive_loop 3 w i False ?p ?start = Some (Ok DriveStopped, d)"
      and e: "spawned (dv_effects d) = []" "reaped (dv_effects d) = [ch]"
    using stop_turns [OF assms(2), of i ?p "sm_turn m" pid "in_since inst" ch] by (auto split: if_splits)
  have t: "sm_turn m \<le> Suc (dv_turn d)"
    using drive_loop_fresh [OF d, of "sm_turn m"] by (simp add: fresh_children_def)
  obtain x where x: "drive_loop fuel w i False ?p ?start = Some x"
    using assms(3) Some inst by (auto simp: manager_stop_def manager_drive_def Let_def split: option.splits)
  with drive_loop_det [OF d] have "x = (Ok DriveStopped, d)" by simp
  with x assms(3) Some inst manager_ok_remove [OF assms(1) Some inst(2) e(1) _ t] e(2) show ?thesis
    by (auto simp: manager_stop_def manager_drive_def Let_def)
qed

lemma stop_all_ok:
  "manager_ok m \<Longrightarrow> os_works w \<Longrightarrow> stop_all fuel w is e m = Some (e', m') \<Longrightarrow>
     manager_ok m' \<and> e' = e \<and> (\<forall>i. bt_get (sm_instances m') i = (if i \<in> set is then None else bt_get (sm_instances m) i))"
proof (induction "is" arbitrary: m e)
  case (Cons i "is")
  then obtain r m1 where m1: "manager_stop fuel w i m = Some (r, m1)"
    by (auto split: option.splits)
  note s = stop_ok [OF Cons.prems(1,2) m1]
  with Cons.prems(3) m1 have "stop_all fuel w is e m1 = Some (e', m')" by simp
  from Cons.IH [OF _ Cons.prems(2) this] s show ?case by simp
qed simp

lemma shutdown_ok:
  assumes "manager_ok m" "os_works w" "manager_shutdown fuel w m = Some (r, m')"
  shows "manager_ok m' \<and> r = Ok () \<and> sm_instances m' = bt_empty"
proof -
  obtain e' where s: "stop_all fuel w (map fst (sm_instances m)) None m = Some (e', m')"
    using assms(3) by (auto simp: manager_shutdown_def split: option.splits)
  note a = stop_all_ok [OF assms(1,2) s]
  have "bt_get (sm_instances m') i = None" for i
    using a by (auto simp: bt_get_def map_of_eq_None_iff)
  then have "sm_instances m' = bt_empty"
    using a by (intro bt_ext) (auto simp: manager_ok_def)
  with a s assms(3) show ?thesis by (simp add: manager_shutdown_def)
qed

lemma manager_new_ok: "manager_ok manager_new"
  by (simp add: manager_ok_def manager_new_def live_def fresh_children_def)

lemma manager_reachable_ok:
  assumes "manager_reachable w m" "os_works w" "clock_runs w"
  shows "manager_ok m"
  using assms(1)
proof induction
  case (step m m')
  from step.hyps(2) step.IH show ?case
  proof cases
    case (restart fuel q r)
    then obtain s m1 where "manager_stop fuel w (er_wire_id q) m = Some (s, m1)" "manager_ensure fuel w q m1 = Some (r, m')"
      by (auto simp: manager_restart_def split: option.splits)
    with step.IH assms(2,3) show ?thesis by (metis ensure_ok stop_ok)
  qed (use assms(2,3) ensure_ok stop_ok shutdown_ok in blast)+
qed (rule manager_new_ok)

section \<open>Every operation returns\<close>

lemma stop_returns:
  assumes "manager_ok m" "os_works w" "3 \<le> fuel"
  shows "\<exists>m'. manager_stop fuel w i m = Some (Ok (), m')"
proof (cases "bt_get (sm_instances m) i")
  case None
  then show ?thesis by (simp add: manager_stop_def)
next
  case (Some inst)
  then obtain pid ch where inst: "in_state inst = Running pid" "in_child inst = Some ch"
    using manager_ok_instance [OF assms(1)] by metis
  obtain d where "drive_loop 3 w i False (sd_policy (in_def inst)) (drive_start (sm_turn m) (Running pid) (in_since inst) (Some ch) StopRequested)
      = Some (Ok DriveStopped, d)"
    using stop_turns [OF assms(2)] by metis
  from drive_loop_mono [OF this assms(3)] Some inst show ?thesis
    by (simp add: manager_stop_def manager_drive_def Let_def)
qed

lemma stop_all_returns:
  "manager_ok m \<Longrightarrow> os_works w \<Longrightarrow> 3 \<le> fuel \<Longrightarrow> \<exists>e' m'. stop_all fuel w is e m = Some (e', m')"
proof (induction "is" arbitrary: m e)
  case (Cons i "is")
  obtain m1 where m1: "manager_stop fuel w i m = Some (Ok (), m1)"
    using stop_returns [OF Cons.prems] by blast
  with stop_ok [OF Cons.prems(1,2) m1] Cons.IH [of m1 e] Cons.prems(2,3) show ?case by simp
qed simp

lemma shutdown_returns:
  assumes "manager_ok m" "os_works w" "3 \<le> fuel"
  shows "\<exists>m'. manager_shutdown fuel w m = Some (Ok (), m')"
proof -
  obtain e' m' where s: "stop_all fuel w (map fst (sm_instances m)) None m = Some (e', m')"
    using stop_all_returns [OF assms] by blast
  with stop_all_ok [OF assms(1,2) s] show ?thesis by (simp add: manager_shutdown_def)
qed

lemma ensure_returns:
  assumes "clock_runs w"
  shows "\<exists>fuel r m'. manager_ensure fuel w q m = Some (r, m')"
proof -
  obtain l m1 where rl: "running_listen w (er_wire_id q) m = (l, m1)" by fastforce
  obtain fuel r d where "drive_loop fuel w (er_wire_id q) True (sd_policy (er_def q))
      (drive_start (sm_turn m1) Stopped (dw_now w (sm_turn m1)) None EnsureRequested) = Some (r, d)"
    using drive_returns [OF start_ok assms] by metis
  with rl show ?thesis
    by (intro exI [of _ fuel])
      (auto simp: manager_ensure_def manager_drive_def Let_def split: result.splits option.splits drive_outcome.splits)
qed


text \<open>A start of Redis in that world; its data directory needs no tool.\<close>

definition redis_init :: init_world where
  "redis_init = \<lparr>iw_needs_init = False, iw_is_initialized = False, iw_major_scope = False, iw_pg_version = None, iw_version_major = ''7'',
     iw_log_dir_error = None, iw_install_dir = ''/i/redis'', iw_init_binary = None, iw_binary_is_file = False, iw_cleared = True, iw_create_error = None,
     iw_init_args = [], iw_spawn_error = None, iw_waited = Ok (Code 0), iw_wipe_error = None, iw_parent_error = None,
     iw_rename_error = None, iw_discarded = True\<rparr>"

definition redis_request :: ensure_request where
  "redis_request = \<lparr>er_def = \<lparr>sd_id = ''redis'', sd_server_binary = Some ''redis-server'', sd_policy = policy_database\<rparr>, er_wire_id = ''redis'',
     er_version = Some ''7.2'', er_port = 6379, er_program_override = False,
     er_world = \<lparr>pw_is_file = True, pw_init = redis_init, pw_datadir = ''/d/redis'', pw_disk = \<lparr>id_staging = NoDir, id_datadir = NoDir\<rparr>, pw_bind = PortFree, pw_files = Ok ()\<rparr>\<rparr>"

definition redis_started :: service_manager where
  "redis_started = (case manager_ensure 9 flaky_world redis_request manager_new of Some (_, m) \<Rightarrow> m | None \<Rightarrow> manager_new)"

lemma redis_started_run:
  "manager_ensure 9 flaky_world redis_request manager_new = Some (Ok \<lparr>sa_ip = V4 127 0 0 1, sa_port = 6379\<rparr>, redis_started)"
  "spawned (sm_effects redis_started) = [\<lparr>ch_serial = 0, ch_pid = 100\<rparr>, \<lparr>ch_serial = 3, ch_pid = 103\<rparr>]"
  "reaped (sm_effects redis_started) = [\<lparr>ch_serial = 0, ch_pid = 100\<rparr>]"
  by code_simp+


end
