(* ===== verification/Smtp.thy ===== *)
theory Smtp
  imports Rust_Str_More
begin

text \<open>
  \<open>crates/yerd-mail/src/pure/smtp.rs\<close>: the SMTP receiver of the mail capture. A session builds up
  the envelope from command lines, and the payload of \<open>DATA\<close> is freed of its dot stuffing. Command
  lines reach the session through \<open>String::from_utf8_lossy\<close>.
\<close>

section \<open>Messages, replies and sessions\<close>

record raw_message =
  envelope_from :: string
  msg_recipients :: "string list"
  msg_raw :: string

datatype smtp_reply = Line string | StartData string | Close string

record smtp_session =
  sess_from :: "string option"
  sess_recipients :: "string list"

definition session_new :: smtp_session where
  "session_new = \<lparr>sess_from = None, sess_recipients = []\<rparr>"

abbreviation CRLF :: string where "CRLF \<equiv> [CR, LF]"

definition greeting :: string where
  "greeting = ''220 yerd mail capture ready'' @ CRLF"

definition extract_bare :: "string \<Rightarrow> string" where
  "extract_bare line = (case split_once (CHR '':'') line of Some (_, rest) \<Rightarrow> trim rest | None \<Rightarrow> [])"

definition extract_address :: "string \<Rightarrow> string" where
  "extract_address line =
     (case (find_byte (CHR ''<'') line, rfind_byte (CHR ''>'') line) of
        (Some start, Some stop) \<Rightarrow>
          (case get_range (start + 1) stop line of
             Some inner \<Rightarrow> trim inner
           | None \<Rightarrow> extract_bare line)
      | _ \<Rightarrow> extract_bare line)"

definition trim_end_eol :: "string \<Rightarrow> string" where
  "trim_end_eol s = rev (dropWhile (\<lambda>c. c = CR \<or> c = LF) (rev s))"

definition smtp_command :: "string \<Rightarrow> smtp_session \<Rightarrow> smtp_reply \<times> smtp_session" where
  "smtp_command line s =
     (let trimmed = trim_end_eol line; verb = to_ascii_uppercase (first_word trimmed)
      in if verb = ''HELO'' \<or> verb = ''EHLO'' then (Line (''250 yerd'' @ CRLF), s)
         else if verb = ''MAIL'' then
           (Line (''250 OK'' @ CRLF), s\<lparr>sess_recipients := [], sess_from := Some (extract_address trimmed)\<rparr>)
         else if verb = ''RCPT'' then
           (Line (''250 OK'' @ CRLF), s\<lparr>sess_recipients := sess_recipients s @ [extract_address trimmed]\<rparr>)
         else if verb = ''DATA'' then
           (if sess_recipients s = [] then (Line (''503 RCPT first'' @ CRLF), s)
            else (StartData (''354 End data with <CR><LF>.<CR><LF>'' @ CRLF), s))
         else if verb = ''RSET'' then
           (Line (''250 OK'' @ CRLF), s\<lparr>sess_from := None, sess_recipients := []\<rparr>)
         else if verb = ''NOOP'' then (Line (''250 OK'' @ CRLF), s)
         else if verb = ''QUIT'' then (Close (''221 Bye'' @ CRLF), s)
         else if verb = [] then (Line (''500 Syntax error'' @ CRLF), s)
         else (Line (''250 OK'' @ CRLF), s))"

text \<open>The loop of \<open>unstuff\<close>: \<open>start\<close> is \<open>at_line_start\<close>.\<close>

fun unstuff_from :: "bool \<Rightarrow> string \<Rightarrow> string" where
  "unstuff_from start [] = []"
| "unstuff_from start (b # bs) =
     (if start \<and> b = CHR ''.'' then unstuff_from False bs else b # unstuff_from (b = LF) bs)"

definition unstuff :: "string \<Rightarrow> string" where
  "unstuff data = unstuff_from True data"

definition finish_data :: "string \<Rightarrow> smtp_session \<Rightarrow> raw_message \<times> smtp_session" where
  "finish_data data s =
     (\<lparr>envelope_from = (case sess_from s of Some f \<Rightarrow> f | None \<Rightarrow> []),
       msg_recipients = sess_recipients s, msg_raw = unstuff data\<rparr>,
      s\<lparr>sess_from := None, sess_recipients := []\<rparr>)"

section \<open>Dot stuffing\<close>

text \<open>The sender's side of RFC 5321, section 4.5.2: a line that begins with a dot gets another.\<close>

definition stuff_line :: "string \<Rightarrow> string" where
  "stuff_line l = (case l of c # _ \<Rightarrow> (if c = CHR ''.'' then CHR ''.'' # l else l) | [] \<Rightarrow> [])"

definition lines_of :: "string list \<Rightarrow> string" where
  "lines_of ls = concat (map (\<lambda>l. l @ CRLF) ls)"

lemma lines_of_simps [simp]:
  "lines_of [] = []" "lines_of (l # ls) = l @ CRLF @ lines_of ls"
  by (simp_all add: lines_of_def)

lemma unstuff_from_plain: "LF \<notin> set l \<Longrightarrow> l \<noteq> [] \<Longrightarrow> unstuff_from False (l @ CRLF @ r) = l @ CRLF @ unstuff_from True r"
proof (induction l)
  case (Cons c l)
  then show ?case by (cases "l = []") auto
qed simp

lemma unstuff_stuff_line:
  assumes "LF \<notin> set l"
  shows "unstuff_from True (stuff_line l @ CRLF @ r) = l @ CRLF @ unstuff_from True r"
proof (cases l)
  case (Cons c l')
  show ?thesis
  proof (cases "c = CHR ''.''")
    case True
    with Cons assms show ?thesis
      using unstuff_from_plain [of l r] by (simp add: stuff_line_def)
  next
    case False
    with Cons assms unstuff_from_plain [of l' r] show ?thesis
      by (cases "l' = []") (auto simp: stuff_line_def)
  qed
qed (simp add: stuff_line_def)

lemma unstuff_stuffed:
  "\<forall>l \<in> set ls. LF \<notin> set l \<Longrightarrow> unstuff (lines_of (map stuff_line ls)) = lines_of ls"
proof (induction ls)
  case (Cons l ls)
  then show ?case
    using unstuff_stuff_line [of l "lines_of (map stuff_line ls)"] by (simp add: unstuff_def)
qed (simp add: unstuff_def)

end
