(* ===== verification/Mail_Mime.thy ===== *)
theory Mail_Mime
  imports Smtp
begin

unbundle bit_operations_syntax

text \<open>
  \<open>crates/yerd-mail/src/pure/mime.rs\<close> and the mail types of \<open>crates/yerd-ipc/src/status.rs\<close>: the
  summary and the decoded detail of a captured message, with inline images rewritten to \<open>data:\<close>
  URLs. The \<open>mail-parser\<close> crate is the parameter \<open>parse\<close>; \<open>parsed_mail\<close> holds what the code reads
  of its result.
\<close>

section \<open>Types\<close>

record mail_summary =
  sum_id :: string
  sum_from :: string
  sum_to :: "string list"
  sum_subject :: string
  sum_date_epoch :: nat
  sum_read :: bool

record mail_header =
  mh_name :: string
  mh_value :: string

record mail_attachment =
  att_filename :: string
  att_content_type :: string
  att_size :: nat
  att_data :: string

record mail_detail =
  det_id :: string
  det_from :: string
  det_to :: "string list"
  det_subject :: string
  det_date_epoch :: nat
  det_headers :: "mail_header list"
  det_html_body :: "string option"
  det_text_body :: "string option"
  det_attachments :: "mail_attachment list"

text \<open>What the parser returns: mailboxes, parts, and headers as ranges of the raw message.\<close>

record parsed_addr =
  pa_name :: "string option"
  pa_address :: "string option"

record parsed_part =
  pp_content_type :: "(string \<times> string option) option"
  pp_content_id :: "string option"
  pp_attachment_name :: "string option"
  pp_contents :: string

record parsed_header =
  ph_name :: string
  ph_start :: nat
  ph_end :: nat

record parsed_mail =
  pm_from :: "parsed_addr list option"
  pm_to :: "parsed_addr list option"
  pm_subject :: "string option"
  pm_date :: "int option"
  pm_headers :: "parsed_header list"
  pm_text :: "string option"
  pm_html :: "string option"
  pm_parts :: "parsed_part list"
  pm_attachments :: "parsed_part list"

definition parsed_default :: parsed_mail where
  "parsed_default = \<lparr>pm_from = None, pm_to = None, pm_subject = None, pm_date = None, pm_headers = [],
     pm_text = None, pm_html = None, pm_parts = [], pm_attachments = []\<rparr>"

type_synonym mail_parser = "string \<Rightarrow> parsed_mail option"

definition parse_or_default :: "mail_parser \<Rightarrow> string \<Rightarrow> parsed_mail" where
  "parse_or_default parse raw = (case parse raw of Some m \<Rightarrow> m | None \<Rightarrow> parsed_default)"

definition or_empty :: "string option \<Rightarrow> string" where
  "or_empty x = (case x of Some s \<Rightarrow> s | None \<Rightarrow> [])"

section \<open>Addresses and dates\<close>

definition render_addr :: "parsed_addr \<Rightarrow> string" where
  "render_addr a =
     (case (pa_name a, pa_address a) of
        (Some name, Some email) \<Rightarrow> name @ '' <'' @ email @ ''>''
      | (None, Some email) \<Rightarrow> email
      | (Some name, None) \<Rightarrow> name
      | (None, None) \<Rightarrow> [])"

definition render_addresses :: "parsed_addr list option \<Rightarrow> string list" where
  "render_addresses addr =
     (case addr of None \<Rightarrow> [] | Some as \<Rightarrow> filter (\<lambda>s. s \<noteq> []) (map render_addr as))"

definition render_from :: "parsed_mail \<Rightarrow> string" where
  "render_from m = (case render_addresses (pm_from m) of [] \<Rightarrow> [] | s # _ \<Rightarrow> s)"

definition render_to :: "parsed_mail \<Rightarrow> string list" where
  "render_to m = render_addresses (pm_to m)"

text \<open>\<open>u64::try_from\<close> of the \<open>i64\<close> timestamp: a date before the epoch counts as none.\<close>

definition date_epoch :: "parsed_mail \<Rightarrow> nat" where
  "date_epoch m = (case pm_date m of Some t \<Rightarrow> (if 0 \<le> t then nat t else 0) | None \<Rightarrow> 0)"

definition summary :: "mail_parser \<Rightarrow> string \<Rightarrow> string \<Rightarrow> mail_summary" where
  "summary parse mid raw =
     (let m = parse_or_default parse raw
      in \<lparr>sum_id = mid, sum_from = render_from m, sum_to = render_to m,
          sum_subject = or_empty (pm_subject m), sum_date_epoch = date_epoch m, sum_read = False\<rparr>)"

section \<open>Base64\<close>

definition ALPHABET :: string where
  "ALPHABET = ''ABCDEFGHIJKLMNOPQRSTUVWXYZabcdefghijklmnopqrstuvwxyz0123456789+/''"

definition sextet :: "u32 \<Rightarrow> char" where
  "sextet v = (let i = unat (v AND 0x3f) in if i < length ALPHABET then ALPHABET ! i else CHR ''A'')"

text \<open>One chunk of at most three bytes; a missing byte is zero.\<close>

definition chunk_word :: "string \<Rightarrow> u32" where
  "chunk_word chunk =
     (let b0 = word_of_nat (code (byte_at 0 chunk)); b1 = word_of_nat (code (byte_at 1 chunk));
          b2 = word_of_nat (code (byte_at 2 chunk))
      in push_bit 16 b0 OR push_bit 8 b1 OR b2)"

definition encode_chunk :: "string \<Rightarrow> string" where
  "encode_chunk chunk =
     (let n = chunk_word chunk
      in [sextet (drop_bit 18 n), sextet (drop_bit 12 n),
          if length chunk > 1 then sextet (drop_bit 6 n) else CHR ''='',
          if length chunk > 2 then sextet n else CHR ''=''])"

fun chunks3 :: "string \<Rightarrow> string list" where
  "chunks3 [] = []"
| "chunks3 [a] = [[a]]"
| "chunks3 [a, b] = [[a, b]]"
| "chunks3 (a # b # c # rest) = [a, b, c] # chunks3 rest"

definition base64_encode :: "string \<Rightarrow> string" where
  "base64_encode input = concat (map encode_chunk (chunks3 input))"

section \<open>Bodies and attachments\<close>

definition is_html_part :: "parsed_part \<Rightarrow> bool" where
  "is_html_part p =
     (case pp_content_type p of
        Some (_, Some sub) \<Rightarrow> eq_ignore_ascii_case sub ''html''
      | _ \<Rightarrow> False)"

definition part_type :: "parsed_part \<Rightarrow> string" where
  "part_type p =
     (case pp_content_type p of
        None \<Rightarrow> ''application/octet-stream''
      | Some (t, Some sub) \<Rightarrow> t @ ''/'' @ sub
      | Some (t, None) \<Rightarrow> t)"

definition to_attachment :: "parsed_part \<Rightarrow> mail_attachment" where
  "to_attachment p =
     \<lparr>att_filename = (case pp_attachment_name p of
          Some n \<Rightarrow> (if n \<noteq> [] then n else ''attachment'') | None \<Rightarrow> ''attachment''),
      att_content_type = part_type p, att_size = length (pp_contents p),
      att_data = base64_encode (pp_contents p)\<rparr>"

definition collect_attachments :: "parsed_mail \<Rightarrow> mail_attachment list" where
  "collect_attachments m =
     map to_attachment (filter (\<lambda>p. pp_content_id p = None) (pm_attachments m))"

definition trim_angles :: "string \<Rightarrow> string" where
  "trim_angles s =
     (let angle = (\<lambda>c. c = CHR ''<'' \<or> c = CHR ''>'')
      in rev (dropWhile angle (rev (dropWhile angle s))))"

definition rewrite_cid :: "parsed_part \<Rightarrow> string \<Rightarrow> string" where
  "rewrite_cid p html =
     (case pp_content_id p of
        None \<Rightarrow> html
      | Some raw_cid \<Rightarrow>
          (let cid = trim_angles raw_cid
           in if cid = [] then html
              else (let data_url = ''data:'' @ part_type p @ '';base64,'' @ base64_encode (pp_contents p)
                    in str_replace (''CID:'' @ cid) data_url (str_replace (''cid:'' @ cid) data_url html))))"

definition rewrite_cids :: "parsed_mail \<Rightarrow> string \<Rightarrow> string" where
  "rewrite_cids m html = fold rewrite_cid (pm_attachments m) html"

definition to_header :: "string \<Rightarrow> parsed_header \<Rightarrow> mail_header" where
  "to_header raw h =
     \<lparr>mh_name = ph_name h,
      mh_value = (case get_range (ph_start h) (ph_end h) raw of
          Some b \<Rightarrow> trim (from_utf8_lossy b) | None \<Rightarrow> [])\<rparr>"

definition detail :: "mail_parser \<Rightarrow> string \<Rightarrow> string \<Rightarrow> mail_detail" where
  "detail parse mid raw =
     (let m = parse_or_default parse raw
      in \<lparr>det_id = mid, det_from = render_from m, det_to = render_to m,
          det_subject = or_empty (pm_subject m), det_date_epoch = date_epoch m,
          det_headers = map (to_header raw) (pm_headers m),
          det_html_body = (if list_ex is_html_part (pm_parts m)
            then map_option (rewrite_cids m) (pm_html m) else None),
          det_text_body = pm_text m, det_attachments = collect_attachments m\<rparr>)"

section \<open>Decoding\<close>

text \<open>A decoder as RFC 4648 gives it, on the alphabet of the encoder.\<close>

definition sextet_val :: "char \<Rightarrow> nat" where
  "sextet_val c = (case position (\<lambda>x. x = c) ALPHABET of Some i \<Rightarrow> i | None \<Rightarrow> 0)"

fun base64_decode :: "string \<Rightarrow> string" where
  "base64_decode (a # b # c # d # rest) =
     (let x = sextet_val a; y = sextet_val b; z = sextet_val c; w = sextet_val d
      in char_of (4 * x + y div 16)
         # (if c = CHR ''='' then []
            else char_of (16 * (y mod 16) + z div 4)
              # (if d = CHR ''='' then [] else [char_of (64 * (z mod 4) + w)])))
     @ base64_decode rest"
| "base64_decode _ = []"

lemma length_ALPHABET [simp]: "length ALPHABET = 64"
  by (simp add: ALPHABET_def)

lemma position_distinct: "distinct xs \<Longrightarrow> i < length xs \<Longrightarrow> position (\<lambda>x. x = xs ! i) xs = Some i"
proof (induction xs arbitrary: i)
  case (Cons x xs)
  then show ?case by (cases i) auto
qed simp

lemma distinct_ALPHABET: "distinct ALPHABET"
  by (simp add: ALPHABET_def)

lemma sextet_val_nth [simp]: "i < 64 \<Longrightarrow> sextet_val (ALPHABET ! i) = i"
  by (simp add: sextet_val_def position_distinct distinct_ALPHABET)

lemma alphabet_no_pad: "i < 64 \<Longrightarrow> ALPHABET ! i \<noteq> CHR ''=''"
proof -
  have "CHR ''='' \<notin> set ALPHABET" by (simp add: ALPHABET_def)
  then show "i < 64 \<Longrightarrow> ALPHABET ! i \<noteq> CHR ''=''"
    by (metis length_ALPHABET nth_mem)
qed

lemma unat_take_bit: "unat (take_bit k v) = unat v mod 2 ^ k" for v :: u32
proof -
  have "unat (take_bit k v) = take_bit k (unat v)"
    by (rule unsigned_take_bit_eq)
  then show ?thesis by (simp only: take_bit_eq_mod)
qed

lemma unat_drop_bit: "unat (drop_bit k v) = unat v div 2 ^ k" for v :: u32
proof -
  have "take_bit 32 (unat v) = unat v"
    by (rule take_bit_nat_eq_self) (use unsigned_less [of v] in simp)
  then have "unat (drop_bit k v) = drop_bit k (unat v)"
    by (simp add: unsigned_drop_bit_eq)
  then show ?thesis by (simp only: drop_bit_eq_div)
qed

lemma sextet_nth: "sextet v = ALPHABET ! (unat v mod 64)"
proof -
  have "unat (v AND 0x3f) = unat (take_bit 6 v)"
    by (simp add: take_bit_eq_mask mask_eq_exp_minus_1)
  also have "\<dots> = unat v mod 64"
    using unat_take_bit [of 6 v] by simp
  finally show ?thesis by (simp add: sextet_def)
qed

lemma or_push_bit:
  fixes a b :: nat
  assumes "b < 2 ^ n"
  shows "push_bit n a OR b = 2 ^ n * a + b"
proof -
  have "take_bit n b = b"
    using assms by (simp add: take_bit_nat_eq_self_iff)
  then have "\<not> bit (push_bit n a) k \<or> \<not> bit b k" for k
    by (metis bit_push_bit_iff bit_take_bit_iff linorder_not_less)
  then show ?thesis
    by (simp add: disjunctive_add [symmetric] push_bit_eq_mult)
qed

lemma code_less: "code c < 256"
  by (metis of_char_def nat_of_char_less_256)

lemma unat_push_bit_small:
  assumes "a * 2 ^ k < 2 ^ 32"
  shows "unat (push_bit k (word_of_nat a :: u32)) = push_bit k a"
proof -
  have "a * 1 \<le> a * 2 ^ k"
    by (rule mult_le_mono2) simp
  with assms have "a < 2 ^ 32" by linarith
  then have "unat (word_of_nat a :: u32) = a"
    by (simp add: unat_of_nat)
  moreover have "unat (push_bit k (word_of_nat a :: u32)) = take_bit 32 (push_bit k (unat (word_of_nat a :: u32)))"
    by (simp only: unsigned_push_bit_eq) simp
  ultimately show ?thesis
    using assms by (simp add: push_bit_eq_mult take_bit_eq_mod)
qed

lemma unat_three_bytes:
  assumes "a < 256" "b < 256" "c < 256"
  shows "unat (push_bit 16 (word_of_nat a) OR push_bit 8 (word_of_nat b) OR word_of_nat c :: u32)
    = 65536 * a + 256 * b + c"
proof -
  have "unat (push_bit 16 (word_of_nat a :: u32)) = push_bit 16 a"
      "unat (push_bit 8 (word_of_nat b :: u32)) = push_bit 8 b" "unat (word_of_nat c :: u32) = c"
    using assms by (simp_all add: unat_push_bit_small unat_of_nat)
  then have "unat (push_bit 16 (word_of_nat a) OR push_bit 8 (word_of_nat b) OR word_of_nat c :: u32)
      = push_bit 16 a OR (push_bit 8 b OR c)"
    by (simp add: unsigned_or_eq or.assoc)
  also have "\<dots> = 65536 * a + (256 * b + c)"
    using or_push_bit [of c 8 b] or_push_bit [of "256 * b + c" 16 a] assms by simp
  finally show ?thesis by simp
qed

lemma chunk_word_val:
  "unat (chunk_word s) = 65536 * code (byte_at 0 s) + 256 * code (byte_at 1 s) + code (byte_at 2 s)"
  unfolding chunk_word_def Let_def by (intro unat_three_bytes code_less)

lemma sextet_drop: "sextet (drop_bit k v) = ALPHABET ! (unat v div 2 ^ k mod 64)"
  by (simp add: sextet_nth unat_drop_bit)

lemma regroup:
  fixes a b c :: nat
  assumes "a < 256" "b < 256" "c < 256"
  defines "n \<equiv> 65536 * a + 256 * b + c"
  shows "4 * (n div 262144 mod 64) + (n div 4096 mod 64) div 16 = a"
    "16 * (n div 4096 mod 64 mod 16) + (n div 64 mod 64) div 4 = b"
    "64 * (n div 64 mod 64 mod 4) + n mod 64 = c"
proof -
  obtain a1 a0 where a: "a = 4 * a1 + a0" "a0 < 4"
    by (metis mod_less_divisor mult_div_mod_eq zero_less_numeral)
  obtain b1 b0 where b: "b = 16 * b1 + b0" "b0 < 16"
    by (metis mod_less_divisor mult_div_mod_eq zero_less_numeral)
  obtain c1 c0 where c: "c = 64 * c1 + c0" "c0 < 64"
    by (metis mod_less_divisor mult_div_mod_eq zero_less_numeral)
  have l: "a1 < 64" "b1 < 16" "c1 < 4"
    using assms a b c by linarith+
  have n: "n = 64 * (4096 * a1 + 1024 * a0 + 64 * b1 + 4 * b0 + c1) + c0"
    using a b c by (simp add: n_def)
  have "n div 262144 = a1" "n div 4096 = 64 * a1 + (16 * a0 + b1)"
      "n div 64 = 64 * (64 * a1 + 16 * a0 + b1) + (4 * b0 + c1)"
    by (rule div_nat_eqI; use n a b c l in simp)+
  moreover have "(64 * q + r) mod 64 = r" if "r < 64" for q r :: nat
    using that by simp
  moreover have "16 * a0 + b1 < 64" "4 * b0 + c1 < 64"
    using a b l by linarith+
  ultimately have "n div 262144 mod 64 = a1" "n div 4096 mod 64 = 16 * a0 + b1"
      "n div 64 mod 64 = 4 * b0 + c1" "n mod 64 = c0"
    using n l(1) c(2) by (simp_all only: mod_less)
  then show "4 * (n div 262144 mod 64) + (n div 4096 mod 64) div 16 = a"
      "16 * (n div 4096 mod 64 mod 16) + (n div 64 mod 64) div 4 = b"
      "64 * (n div 64 mod 64 mod 4) + n mod 64 = c"
    using a b c l by simp_all
qed

lemma decode_quad:
  assumes "i < 64" "j < 64" "k < 64" "l < 64"
  defines "A \<equiv> (!) ALPHABET"
  shows "base64_decode (A i # A j # A k # A l # rest) = char_of (4 * i + j div 16)
      # char_of (16 * (j mod 16) + k div 4) # char_of (64 * (k mod 4) + l) # base64_decode rest"
    "base64_decode (A i # A j # A k # CHR ''='' # rest) = char_of (4 * i + j div 16)
      # char_of (16 * (j mod 16) + k div 4) # base64_decode rest"
    "base64_decode (A i # A j # CHR ''='' # CHR ''='' # rest) = char_of (4 * i + j div 16) # base64_decode rest"
  unfolding A_def using assms(1-4) by (simp_all add: alphabet_no_pad Let_def)

lemma encode_chunk_word:
  "encode_chunk s = (let n = 65536 * code (byte_at 0 s) + 256 * code (byte_at 1 s) + code (byte_at 2 s)
     in [ALPHABET ! (n div 262144 mod 64), ALPHABET ! (n div 4096 mod 64),
         if length s > 1 then ALPHABET ! (n div 64 mod 64) else CHR ''='',
         if length s > 2 then ALPHABET ! (n mod 64) else CHR ''=''])"
  using sextet_drop [of 18] sextet_drop [of 12] sextet_drop [of 6]
  by (simp only: encode_chunk_def Let_def sextet_nth [of "chunk_word s"] chunk_word_val) simp

lemma decode_chunk:
  "base64_decode (encode_chunk [a, b, c] @ rest) = a # b # c # base64_decode rest"
  "base64_decode (encode_chunk [a, b] @ rest) = a # b # base64_decode rest"
  "base64_decode (encode_chunk [a] @ rest) = a # base64_decode rest"
proof -
  have e: "encode_chunk [a, b, c] @ rest =
      (let n = 65536 * code a + 256 * code b + code c
       in ALPHABET ! (n div 262144 mod 64) # ALPHABET ! (n div 4096 mod 64) # ALPHABET ! (n div 64 mod 64)
         # ALPHABET ! (n mod 64) # rest)"
    "encode_chunk [a, b] @ rest =
      (let n = 65536 * code a + 256 * code b + 0
       in ALPHABET ! (n div 262144 mod 64) # ALPHABET ! (n div 4096 mod 64) # ALPHABET ! (n div 64 mod 64)
         # CHR ''='' # rest)"
    "encode_chunk [a] @ rest =
      (let n = 65536 * code a + 256 * 0 + 0
       in ALPHABET ! (n div 262144 mod 64) # ALPHABET ! (n div 4096 mod 64) # CHR ''='' # CHR ''='' # rest)"
    by (simp_all add: encode_chunk_word byte_at_def Let_def)
  note q = decode_quad [OF mod_less_divisor mod_less_divisor mod_less_divisor mod_less_divisor,
      OF zero_less_numeral zero_less_numeral zero_less_numeral zero_less_numeral]
  show "base64_decode (encode_chunk [a, b, c] @ rest) = a # b # c # base64_decode rest"
    by (simp only: e Let_def q regroup [OF code_less code_less code_less] char_of_char)
  show "base64_decode (encode_chunk [a, b] @ rest) = a # b # base64_decode rest"
    by (simp only: e Let_def q regroup [OF code_less code_less zero_less_numeral] char_of_char)
  show "base64_decode (encode_chunk [a] @ rest) = a # base64_decode rest"
    by (simp only: e Let_def q regroup [OF code_less zero_less_numeral zero_less_numeral] char_of_char)
qed

lemma base64_decode_encode: "base64_decode (base64_encode s) = s"
  by (induction s rule: chunks3.induct)
    (use decode_chunk [where rest = "[]"] in \<open>simp_all add: base64_encode_def decode_chunk\<close>)

text \<open>
  C37: The attachments shown for a message are the parts without a content id, in order, and the
  base64 text of each decodes to exactly the bytes of its part, whose number is the size reported.
\<close>

theorem attachments_faithful:
  "map (\<lambda>a. base64_decode (att_data a)) (collect_attachments m) =
     map pp_contents (filter (\<lambda>p. pp_content_id p = None) (pm_attachments m))
   \<and> map att_size (collect_attachments m) =
     map (\<lambda>a. length (base64_decode (att_data a))) (collect_attachments m)"
  by (simp add: collect_attachments_def to_attachment_def base64_decode_encode)

end
