(* ===== verification/Mail_Store.thy ===== *)
theory Mail_Store
  imports Mail_Mime Rust_Map
begin

text \<open>
  \<open>crates/yerd-mail/src/io/store.rs\<close> and \<open>pure/retention.rs\<close>: the store of captured messages. Its
  directory is a map from file names to contents. Every file operation can fail: \<open>faults\<close> says
  which calls do, and what a failed write leaves in the file. A restart opens the directory again.
  \<open>serde_json\<close> is the pair of parameters \<open>enc\<close> and \<open>dec\<close>.
\<close>

section \<open>The directory\<close>

type_synonym mail_files = "(string, string) btree_map"

datatype mail_error = MailBind nat | MailIo string | MailIndex

datatype fs_call = FsCreateDir | FsReadDir | FsDirEntry string | FsRead string | FsWrite string
  | FsRemove string | FsRename string string

type_synonym faults = "fs_call \<Rightarrow> string option option"

definition no_faults :: faults where
  "no_faults = (\<lambda>_. None)"

definition put_content :: "string \<Rightarrow> string option \<Rightarrow> mail_files \<Rightarrow> mail_files" where
  "put_content p v m = (case v of Some x \<Rightarrow> bt_insert p x m | None \<Rightarrow> bt_remove p m)"

definition fs_write :: "faults \<Rightarrow> string \<Rightarrow> string \<Rightarrow> mail_files \<Rightarrow> (mail_error, unit) result \<times> mail_files" where
  "fs_write fl p v m =
     (case fl (FsWrite p) of
        None \<Rightarrow> (Ok (), bt_insert p v m)
      | Some left \<Rightarrow> (Err (MailIo p), put_content p left m))"

definition fs_rename :: "faults \<Rightarrow> string \<Rightarrow> string \<Rightarrow> mail_files \<Rightarrow> (mail_error, unit) result \<times> mail_files" where
  "fs_rename fl p q m =
     (case (fl (FsRename p q), bt_get m p) of
        (None, Some v) \<Rightarrow> (Ok (), bt_insert q v (bt_remove p m))
      | _ \<Rightarrow> (Err (MailIo q), m))"

definition fs_remove :: "faults \<Rightarrow> string \<Rightarrow> mail_files \<Rightarrow> mail_files" where
  "fs_remove fl p m = (if fl (FsRemove p) = None then bt_remove p m else m)"

definition fs_read :: "faults \<Rightarrow> string \<Rightarrow> mail_files \<Rightarrow> (mail_error, string) result" where
  "fs_read fl p m =
     (case (fl (FsRead p), bt_get m p) of
        (None, Some v) \<Rightarrow> Ok v
      | _ \<Rightarrow> Err (MailIo p))"

section \<open>The store\<close>

definition DEFAULT_CAP :: nat where
  "DEFAULT_CAP = 200"

definition evict_count :: "nat \<Rightarrow> nat \<Rightarrow> nat" where
  "evict_count current_len cap = current_len - cap"

record mail_store =
  ms_files :: mail_files
  ms_cap :: nat
  ms_entries :: "mail_summary list"
  ms_next_id :: nat

abbreviation u64_max :: nat where "u64_max \<equiv> 18446744073709551615"

text \<open>\<open>next_id += 1\<close> on \<open>u64\<close>, which wraps around in a release build.\<close>

definition u64_inc :: "nat \<Rightarrow> nat" where
  "u64_inc n = (n + 1) mod (u64_max + 1)"

text \<open>\<open>format!("{:06}", n)\<close>.\<close>

definition show_id :: "nat \<Rightarrow> string" where
  "show_id n = replicate (6 - length (show_nat n)) (CHR ''0'') @ show_nat n"

definition eml_path :: "string \<Rightarrow> string" where
  "eml_path mid = mid @ ''.eml''"

definition index_path :: string where
  "index_path = ''index.json''"

definition index_tmp :: string where
  "index_tmp = ''index.json.tmp''"

type_synonym index_encoder = "mail_summary list \<Rightarrow> string option"
type_synonym index_decoder = "string \<Rightarrow> mail_summary list option"

definition write_index :: "faults \<Rightarrow> index_encoder \<Rightarrow> mail_store \<Rightarrow> (mail_error, unit) result \<times> mail_store" where
  "write_index fl enc st =
     (case enc (ms_entries st) of
        None \<Rightarrow> (Err MailIndex, st)
      | Some json \<Rightarrow>
          (case fs_write fl index_tmp json (ms_files st) of
             (Err e, m) \<Rightarrow> (Err e, st\<lparr>ms_files := m\<rparr>)
           | (Ok _, m) \<Rightarrow>
               (case fs_rename fl index_tmp index_path m of (r, m') \<Rightarrow> (r, st\<lparr>ms_files := m'\<rparr>))))"

definition remove_emls :: "faults \<Rightarrow> mail_summary list \<Rightarrow> mail_files \<Rightarrow> mail_files" where
  "remove_emls fl es m = fold (\<lambda>e. fs_remove fl (eml_path (sum_id e))) es m"

definition store_append ::
  "faults \<Rightarrow> index_encoder \<Rightarrow> mail_parser \<Rightarrow> string \<Rightarrow> mail_store \<Rightarrow> (mail_error, unit) result \<times> mail_store" where
  "store_append fl enc parse raw st =
     (let mid = show_id (ms_next_id st); st1 = st\<lparr>ms_next_id := u64_inc (ms_next_id st)\<rparr>
      in case fs_write fl (eml_path mid) raw (ms_files st1) of
           (Err e, m) \<Rightarrow> (Err e, st1\<lparr>ms_files := m\<rparr>)
         | (Ok _, m) \<Rightarrow>
             (let es = ms_entries st1 @ [summary parse mid raw];
                  evict = evict_count (length es) (ms_cap st1)
              in write_index fl enc
                   (st1\<lparr>ms_entries := drop evict es, ms_files := remove_emls fl (take evict es) m\<rparr>)))"

definition store_list :: "mail_store \<Rightarrow> mail_summary list" where
  "store_list st = rev (ms_entries st)"

definition to_u32 :: "nat \<Rightarrow> nat" where
  "to_u32 n = (if n \<le> u32_max then n else u32_max)"

definition store_count :: "mail_store \<Rightarrow> nat" where
  "store_count st = to_u32 (length (ms_entries st))"

definition store_counts :: "mail_store \<Rightarrow> nat \<times> nat" where
  "store_counts st =
     (to_u32 (length (ms_entries st)), to_u32 (length (filter (\<lambda>e. \<not> sum_read e) (ms_entries st))))"

definition store_get ::
  "faults \<Rightarrow> mail_parser \<Rightarrow> string \<Rightarrow> mail_store \<Rightarrow> (mail_error, mail_detail option) result" where
  "store_get fl parse mid st =
     (if \<not> list_ex (\<lambda>e. sum_id e = mid) (ms_entries st) then Ok None
      else (case fs_read fl (eml_path mid) (ms_files st) of
              Err e \<Rightarrow> Err e
            | Ok raw \<Rightarrow> Ok (Some (detail parse mid raw))))"

definition delete_many ::
  "faults \<Rightarrow> index_encoder \<Rightarrow> string list \<Rightarrow> mail_store \<Rightarrow> (mail_error, unit) result \<times> mail_store" where
  "delete_many fl enc ids st =
     (case partition (\<lambda>e. sum_id e \<in> set ids) (ms_entries st) of
        (dropped, kept) \<Rightarrow>
          write_index fl enc (st\<lparr>ms_entries := kept, ms_files := remove_emls fl dropped (ms_files st)\<rparr>))"

definition mark_entry :: "string list \<Rightarrow> mail_summary \<Rightarrow> mail_summary" where
  "mark_entry ids e = (if \<not> sum_read e \<and> sum_id e \<in> set ids then e\<lparr>sum_read := True\<rparr> else e)"

definition mark_read ::
  "faults \<Rightarrow> index_encoder \<Rightarrow> string list \<Rightarrow> mail_store \<Rightarrow> (mail_error, unit) result \<times> mail_store" where
  "mark_read fl enc ids st =
     (let changed = list_ex (\<lambda>e. \<not> sum_read e \<and> sum_id e \<in> set ids) (ms_entries st);
          st' = st\<lparr>ms_entries := map (mark_entry ids) (ms_entries st)\<rparr>
      in if \<not> changed then (Ok (), st') else write_index fl enc st')"

definition store_clear ::
  "faults \<Rightarrow> index_encoder \<Rightarrow> mail_store \<Rightarrow> (mail_error, unit) result \<times> mail_store" where
  "store_clear fl enc st =
     write_index fl enc (st\<lparr>ms_entries := [], ms_files := remove_emls fl (ms_entries st) (ms_files st)\<rparr>)"

section \<open>Opening\<close>

definition parse_u64 :: "string \<Rightarrow> nat option" where
  "parse_u64 s = parse_uint u64_max s"

text \<open>\<open>filter_map\<close> and \<open>max\<close> of an iterator, and \<open>max\<close> of two options, \<open>None\<close> the least.\<close>

fun max_opt :: "nat option \<Rightarrow> nat option \<Rightarrow> nat option" where
  "max_opt None y = y"
| "max_opt (Some x) None = Some x"
| "max_opt (Some x) (Some y) = Some (max x y)"

definition max_of :: "('a \<Rightarrow> nat option) \<Rightarrow> 'a list \<Rightarrow> nat option" where
  "max_of f xs = fold (\<lambda>x acc. max_opt acc (f x)) xs None"

definition eml_id :: "string \<Rightarrow> nat option" where
  "eml_id name =
     (if valid_utf8 name
      then (case strip_suffix ''.eml'' name of None \<Rightarrow> None | Some s \<Rightarrow> parse_u64 s)
      else None)"

definition max_eml_id :: "faults \<Rightarrow> mail_files \<Rightarrow> nat option" where
  "max_eml_id fl m =
     (if fl FsReadDir \<noteq> None then None
      else max_of eml_id (filter (\<lambda>p. fl (FsDirEntry p) = None) (map fst m)))"

definition load_index :: "faults \<Rightarrow> index_decoder \<Rightarrow> mail_files \<Rightarrow> (mail_error, mail_summary list) result" where
  "load_index fl dec m =
     (if fl (FsRead index_path) \<noteq> None then Err (MailIo index_path)
      else (case bt_get m index_path of
              None \<Rightarrow> Ok []
            | Some bytes \<Rightarrow> Ok (case dec bytes of Some es \<Rightarrow> es | None \<Rightarrow> [])))"

definition open_with_cap ::
  "faults \<Rightarrow> index_decoder \<Rightarrow> nat \<Rightarrow> mail_files \<Rightarrow> (mail_error, mail_store) result" where
  "open_with_cap fl dec cap m =
     (if fl FsCreateDir \<noteq> None then Err (MailIo [])
      else (case load_index fl dec m of
              Err e \<Rightarrow> Err e
            | Ok es \<Rightarrow>
                (let max_index = max_of (\<lambda>e. parse_u64 (sum_id e)) es; max_disk = max_eml_id fl m
                 in Ok \<lparr>ms_files = m, ms_cap = cap, ms_entries = es,
                        ms_next_id = (case max_opt max_index max_disk of
                                        Some n \<Rightarrow> u64_inc n | None \<Rightarrow> 0)\<rparr>)))"

definition store_open :: "faults \<Rightarrow> index_decoder \<Rightarrow> mail_files \<Rightarrow> (mail_error, mail_store) result" where
  "store_open fl dec m = open_with_cap fl dec DEFAULT_CAP m"

section \<open>Identifiers\<close>

lemma digits_val_zeros: "digits_val (replicate k (CHR ''0'') @ s) = digits_val s"
  by (induction k) (simp_all add: digits_val_def digit_val_def)

lemma parse_show_id [simp]:
  assumes "n \<le> u64_max"
  shows "parse_u64 (show_id n) = Some n"
proof -
  have "list_all is_ascii_digit (show_id n)"
    by (simp add: show_id_def show_nat_digits list_all_iff [of _ "replicate _ _"] is_ascii_digit_def)
  moreover have "digits_val (show_id n) = n"
    by (simp add: show_id_def digits_val_zeros)
  ultimately show ?thesis
    using assms by (simp add: parse_u64_def parse_uint_digits parse_digits_def) (simp add: show_id_def)
qed

lemma show_id_inj: "n \<le> u64_max \<Longrightarrow> k \<le> u64_max \<Longrightarrow> show_id n = show_id k \<longleftrightarrow> n = k"
  by (metis option.inject parse_show_id)

lemma eml_path_inj [simp]: "eml_path a = eml_path b \<longleftrightarrow> a = b"
  by (simp add: eml_path_def)

lemma eml_path_not_index [simp]: "eml_path a \<noteq> index_path" "eml_path a \<noteq> index_tmp"
proof -
  have "last (eml_path a) \<noteq> last index_path" "last (eml_path a) \<noteq> last index_tmp"
    by (simp_all add: eml_path_def index_path_def index_tmp_def)
  then show "eml_path a \<noteq> index_path" "eml_path a \<noteq> index_tmp" by auto
qed

lemma eml_id_index [simp]: "eml_id index_path = None" "eml_id index_tmp = None"
  by (simp_all add: eml_id_def index_path_def index_tmp_def strip_suffix_def)

lemma show_id_ascii: "c \<in> set (show_id n) \<Longrightarrow> is_ascii c"
proof -
  have "list_all is_ascii_digit (show_nat n)" by (rule show_nat_digits)
  then show "c \<in> set (show_id n) \<Longrightarrow> is_ascii c"
    by (auto simp: show_id_def list_all_iff is_ascii_def is_ascii_digit_def)
qed

lemma eml_id_show [simp]:
  assumes "n \<le> u64_max"
  shows "eml_id (eml_path (show_id n)) = Some n"
proof -
  have "valid_utf8 (eml_path (show_id n))"
    by (rule valid_utf8_ascii) (auto simp: eml_path_def is_ascii_def dest: show_id_ascii)
  with assms show ?thesis
    by (simp add: eml_id_def eml_path_def)
qed

section \<open>What the operations touch\<close>

lemma bt_get_put_content: "bt_get (put_content p v m) q = (if q = p then v else bt_get m q)"
  by (simp add: put_content_def split: option.split)

lemma fs_write_get: "fs_write fl p v m = (r, m') \<Longrightarrow> q \<noteq> p \<Longrightarrow> bt_get m' q = bt_get m q"
  by (auto simp: fs_write_def bt_get_put_content split: option.splits)

lemma fs_write_Ok: "fs_write fl p v m = (Ok u, m') \<Longrightarrow> bt_get m' p = Some v"
  by (auto simp: fs_write_def split: option.splits)

text \<open>\<open>write_index\<close> replaces the index or leaves it, and otherwise only uses the temporary file.\<close>

lemma write_index_cases:
  assumes "write_index fl enc st = (r, st')"
  obtains m where "st' = st\<lparr>ms_files := m\<rparr>"
    "\<And>p. p \<noteq> index_path \<Longrightarrow> p \<noteq> index_tmp \<Longrightarrow> bt_get m p = bt_get (ms_files st) p"
    "bt_get m index_path = bt_get (ms_files st) index_path
     \<or> (bt_get m index_path = enc (ms_entries st) \<and> enc (ms_entries st) \<noteq> None)"
proof -
  have ne: "index_path \<noteq> index_tmp" by (simp add: index_path_def index_tmp_def)
  show thesis
  proof (cases "enc (ms_entries st)")
    case None
    with assms show ?thesis by (intro that [of "ms_files st"]) (simp_all add: write_index_def)
  next
    case (Some j)
    obtain w m1 where w: "fs_write fl index_tmp j (ms_files st) = (w, m1)" by fastforce
    note g = fs_write_get [OF w]
    show ?thesis
    proof (cases w)
      case (Err e)
      with assms Some w g ne show ?thesis
        by (intro that [of m1]) (simp_all add: write_index_def)
    next
      case (Ok u)
      obtain r2 m2 where m2: "fs_rename fl index_tmp index_path m1 = (r2, m2)" by fastforce
      with assms Some w Ok have "st' = st\<lparr>ms_files := m2\<rparr>" by (simp add: write_index_def)
      moreover have "m2 = m1 \<or> m2 = bt_insert index_path j (bt_remove index_tmp m1)"
        using m2 fs_write_Ok [of fl index_tmp j "ms_files st" u m1] w Ok
        by (auto simp: fs_rename_def split: option.splits)
      ultimately show ?thesis
        using g ne Some by (intro that [of m2]) auto
    qed
  qed
qed

lemma remove_emls_get:
  "bt_get (remove_emls fl es m) p = bt_get m p
   \<or> (bt_get (remove_emls fl es m) p = None \<and> (\<exists>e \<in> set es. p = eml_path (sum_id e)))"
  unfolding remove_emls_def
  by (induction es arbitrary: m) (auto simp: fs_remove_def split: if_splits, metis bt_get_remove)

section \<open>The invariant\<close>

text \<open>Identifiers in an index: printed numbers, ascending, all below the next one.\<close>

definition id_num :: "mail_summary \<Rightarrow> nat" where
  "id_num e = (case parse_u64 (sum_id e) of Some n \<Rightarrow> n | None \<Rightarrow> 0)"

definition ids_ok :: "nat \<Rightarrow> mail_summary list \<Rightarrow> bool" where
  "ids_ok nxt es \<longleftrightarrow>
     (\<forall>e \<in> set es. id_num e < nxt \<and> sum_id e = show_id (id_num e))
     \<and> sorted_wrt (\<lambda>a b. id_num a < id_num b) es"

text \<open>What \<open>serde_json\<close> promises: an index that was written is read back.\<close>

definition codec_law :: "index_encoder \<Rightarrow> index_decoder \<Rightarrow> bool" where
  "codec_law enc dec \<longleftrightarrow> (\<forall>es j. enc es = Some j \<longrightarrow> dec j = Some es)"

definition store_ok :: "index_decoder \<Rightarrow> nat \<Rightarrow> mail_store \<Rightarrow> bool" where
  "store_ok dec cap st \<longleftrightarrow>
     ms_cap st = cap \<and> ms_next_id st \<le> u64_max
     \<and> (\<forall>p n. bt_get (ms_files st) p \<noteq> None \<longrightarrow> eml_id p = Some n \<longrightarrow> n < ms_next_id st)
     \<and> ids_ok (ms_next_id st) (ms_entries st) \<and> length (ms_entries st) \<le> cap
     \<and> (\<forall>j es. bt_get (ms_files st) index_path = Some j \<longrightarrow> dec j = Some es \<longrightarrow>
          ids_ok (ms_next_id st) es \<and> length es \<le> cap)"

text \<open>Every entry stands for a message that was handed in, whose bytes are its file.\<close>

definition entries_backed :: "mail_parser \<Rightarrow> (string \<times> string) list \<Rightarrow> mail_store \<Rightarrow> bool" where
  "entries_backed parse log st \<longleftrightarrow>
     (\<forall>e \<in> set (ms_entries st). \<exists>raw. (sum_id e, raw) \<in> set log
        \<and> bt_get (ms_files st) (eml_path (sum_id e)) = Some raw
        \<and> e = (summary parse (sum_id e) raw)\<lparr>sum_read := sum_read e\<rparr>)"

text \<open>The index on disk is the one in memory.\<close>

definition index_current :: "index_decoder \<Rightarrow> mail_store \<Rightarrow> bool" where
  "index_current dec st \<longleftrightarrow> load_index no_faults dec (ms_files st) = Ok (ms_entries st)"

text \<open>
  The stores that can arise, with the log of the messages handed in. Each operation runs with its
  own faults; a crash is an operation whose remaining calls all fail, followed by a restart. The
  flag records whether every restart found the index that was last in memory.
\<close>

inductive mail_reach :: "mail_parser \<Rightarrow> index_encoder \<Rightarrow> index_decoder \<Rightarrow> nat \<Rightarrow> bool
    \<Rightarrow> (string \<times> string) list \<Rightarrow> mail_store \<Rightarrow> bool"
  for parse enc dec cap where
  start: "open_with_cap fl dec cap [] = Ok st \<Longrightarrow> mail_reach parse enc dec cap True [] st"
| append: "mail_reach parse enc dec cap c log st \<Longrightarrow> ms_next_id st < u64_max \<Longrightarrow>
     store_append fl enc parse raw st = (r, st') \<Longrightarrow>
     mail_reach parse enc dec cap c (log @ [(show_id (ms_next_id st), raw)]) st'"
| delete: "mail_reach parse enc dec cap c log st \<Longrightarrow> delete_many fl enc ids st = (r, st') \<Longrightarrow>
     mail_reach parse enc dec cap c log st'"
| mark: "mail_reach parse enc dec cap c log st \<Longrightarrow> mark_read fl enc ids st = (r, st') \<Longrightarrow>
     mail_reach parse enc dec cap c log st'"
| clear: "mail_reach parse enc dec cap c log st \<Longrightarrow> store_clear fl enc st = (r, st') \<Longrightarrow>
     mail_reach parse enc dec cap c log st'"
| restart: "mail_reach parse enc dec cap c log st \<Longrightarrow> fl FsReadDir = None \<Longrightarrow>
     (\<And>p. fl (FsDirEntry p) = None) \<Longrightarrow> open_with_cap fl dec cap (ms_files st) = Ok st' \<Longrightarrow>
     mail_reach parse enc dec cap (c \<and> index_current dec st) log st'"

lemma ids_ok_Nil [simp]: "ids_ok nxt []"
  by (simp add: ids_ok_def)

lemma ids_ok_mono: "ids_ok nxt es \<Longrightarrow> nxt \<le> nxt' \<Longrightarrow> ids_ok nxt' es"
  by (auto simp: ids_ok_def intro: less_le_trans)

lemma ids_ok_filter: "ids_ok nxt es \<Longrightarrow> ids_ok nxt (filter P es)"
  by (auto simp: ids_ok_def sorted_wrt_filter)

lemma ids_ok_drop: "ids_ok nxt es \<Longrightarrow> ids_ok nxt (drop k es)"
  by (auto simp: ids_ok_def sorted_wrt_drop dest: in_set_dropD)

lemma mark_entry_simps [simp]: "sum_id (mark_entry ids e) = sum_id e" "id_num (mark_entry ids e) = id_num e"
  by (simp_all add: mark_entry_def id_num_def)

lemma ids_ok_mark: "ids_ok nxt es \<Longrightarrow> ids_ok nxt (map (mark_entry ids) es)"
  by (simp add: ids_ok_def sorted_wrt_map)

lemma sum_id_summary [simp]: "sum_id (summary parse mid raw) = mid" "sum_read (summary parse mid raw) = False"
  by (simp_all add: summary_def Let_def)

lemma id_num_summary [simp]: "n \<le> u64_max \<Longrightarrow> id_num (summary parse (show_id n) raw) = n"
  by (simp add: id_num_def)

lemma ids_ok_append:
  "ids_ok n es \<Longrightarrow> n \<le> u64_max \<Longrightarrow> ids_ok (Suc n) (es @ [summary parse (show_id n) raw])"
  by (auto simp: ids_ok_def sorted_wrt_append less_Suc_eq)

lemma ids_ok_distinct:
  assumes "ids_ok nxt es"
  shows "distinct (map sum_id es)"
proof -
  let ?f = "\<lambda>s. case parse_u64 s of Some n \<Rightarrow> n | None \<Rightarrow> 0"
  have "sorted_wrt (<) (map id_num es)"
    using assms by (simp add: ids_ok_def sorted_wrt_map)
  then have "distinct (map id_num es)"
    using strict_sorted_iff by blast
  moreover have "map id_num es = map ?f (map sum_id es)"
    by (simp add: id_num_def)
  ultimately show ?thesis
    by (metis distinct_map)
qed

text \<open>
  One lemma serves every operation: a change of entries and of message files, followed by the
  writing of the index, keeps the invariant when the parts do.
\<close>

lemma store_ok_write_index:
  assumes "write_index fl enc st = (r, st')" "store_ok dec cap st"
    "codec_law enc dec"
  shows "store_ok dec cap st'"
proof -
  obtain m where st': "st' = st\<lparr>ms_files := m\<rparr>"
      and g: "\<And>p. p \<noteq> index_path \<Longrightarrow> p \<noteq> index_tmp \<Longrightarrow> bt_get m p = bt_get (ms_files st) p"
      and i: "bt_get m index_path = bt_get (ms_files st) index_path
        \<or> (bt_get m index_path = enc (ms_entries st) \<and> enc (ms_entries st) \<noteq> None)"
    using write_index_cases [OF assms(1)] by metis
  have "n < ms_next_id st" if "bt_get m p \<noteq> None" "eml_id p = Some n" for p n
    using that assms(2) g [of p] by (cases "p = index_path \<or> p = index_tmp") (auto simp: store_ok_def)
  moreover have "ids_ok (ms_next_id st) es \<and> length es \<le> cap"
    if "bt_get m index_path = Some j" "dec j = Some es" for j es
    using that i assms(2,3) by (fastforce simp: store_ok_def codec_law_def)
  ultimately show ?thesis
    using assms(2) unfolding store_ok_def st' by simp
qed

lemma backed_write_index:
  assumes "write_index fl enc st = (r, st')" "entries_backed parse log st"
  shows "entries_backed parse log st'"
proof -
  obtain m where "st' = st\<lparr>ms_files := m\<rparr>"
      "\<And>mid. bt_get m (eml_path mid) = bt_get (ms_files st) (eml_path mid)"
    using write_index_cases [OF assms(1)] eml_path_not_index by metis
  with assms(2) show ?thesis
    unfolding entries_backed_def by simp
qed

lemma store_ok_remove:
  assumes "store_ok dec cap st" "ids_ok (ms_next_id st) es'" "length es' \<le> cap"
  shows "store_ok dec cap (st\<lparr>ms_entries := es', ms_files := remove_emls fl es (ms_files st)\<rparr>)"
  using assms remove_emls_get [of fl es "ms_files st"] unfolding store_ok_def
  by (simp, metis eml_path_not_index(1))

lemma backed_remove:
  assumes "entries_backed parse log st" "set es' \<subseteq> set (ms_entries st)"
    "sum_id ` set es \<inter> sum_id ` set es' = {}"
  shows "entries_backed parse log (st\<lparr>ms_entries := es', ms_files := remove_emls fl es (ms_files st)\<rparr>)"
proof -
  have "bt_get (remove_emls fl es (ms_files st)) (eml_path (sum_id e)) = bt_get (ms_files st) (eml_path (sum_id e))"
    if "e \<in> set es'" for e
    using remove_emls_get [of fl es "ms_files st" "eml_path (sum_id e)"] that assms(3) by auto
  with assms(1,2) show ?thesis
    unfolding entries_backed_def by (simp add: subset_iff)
qed

lemma max_opt_ge: "max_opt x y = Some n \<Longrightarrow> (x = Some a \<longrightarrow> a \<le> n) \<and> (y = Some b \<longrightarrow> b \<le> n)"
  by (cases x; cases y) auto

lemma max_opt_cases: "max_opt x y = Some n \<Longrightarrow> x = Some n \<or> y = Some n"
  by (cases x; cases y) (auto simp: max_def split: if_splits)

lemma max_opt_None [simp]: "max_opt x y = None \<longleftrightarrow> x = None \<and> y = None"
  by (cases x; cases y) auto

lemma fold_max_opt:
  "fold (\<lambda>x acc. max_opt acc (f x)) xs acc = max_opt acc (max_of f xs)"
proof (induction xs arbitrary: acc)
  case Nil
  then show ?case by (cases acc) (simp_all add: max_of_def)
next
  case (Cons x xs)
  have assoc: "max_opt (max_opt a b) c = max_opt a (max_opt b c)" for a b c
    by (cases a; cases b; cases c) auto
  show ?case
    using Cons [of "max_opt acc (f x)"] Cons [of "f x"] by (simp add: max_of_def assoc)
qed

lemma max_of_Cons [simp]: "max_of f (x # xs) = max_opt (f x) (max_of f xs)"
  unfolding max_of_def using fold_max_opt [of f xs "f x"] by (simp add: max_of_def)

lemma max_of_Nil [simp]: "max_of f [] = None"
  by (simp add: max_of_def)

lemma max_of_mem: "max_of f xs = Some n \<Longrightarrow> \<exists>x \<in> set xs. f x = Some n"
  by (induction xs) (auto dest: max_opt_cases)

lemma max_of_ge: "x \<in> set xs \<Longrightarrow> f x = Some k \<Longrightarrow> \<exists>n. max_of f xs = Some n \<and> k \<le> n"
proof (induction xs)
  case (Cons y ys)
  then show ?case
    by (cases "max_of f ys"; cases "f y") auto
qed simp

lemma bt_get_keys: "bt_get m p \<noteq> None \<longleftrightarrow> p \<in> set (map fst m)"
  by (simp add: bt_get_def map_of_eq_None_iff)

text \<open>Opening a directory: the next identifier is above every one on disk and in the index.\<close>

lemma open_next_id:
  assumes "open_with_cap fl dec cap m = Ok st" "fl FsReadDir = None" "\<And>p. fl (FsDirEntry p) = None"
    "\<forall>p n. bt_get m p \<noteq> None \<longrightarrow> eml_id p = Some n \<longrightarrow> n < u64_max"
    "\<forall>e \<in> set (ms_entries st). \<forall>n. parse_u64 (sum_id e) = Some n \<longrightarrow> n < u64_max"
  shows "ms_next_id st \<le> u64_max"
    "bt_get m p \<noteq> None \<Longrightarrow> eml_id p = Some n \<Longrightarrow> n < ms_next_id st"
    "e \<in> set (ms_entries st) \<Longrightarrow> parse_u64 (sum_id e) = Some k \<Longrightarrow> k < ms_next_id st"
proof -
  let ?i = "max_of (\<lambda>e. parse_u64 (sum_id e)) (ms_entries st)" and ?d = "max_of eml_id (map fst m)"
  have nx: "ms_next_id st = (case max_opt ?i ?d of Some n \<Rightarrow> u64_inc n | None \<Rightarrow> 0)"
    using assms(1-3) by (auto simp: open_with_cap_def max_eml_id_def Let_def split: if_splits result.splits)
  have lt: "n < u64_max" if "max_opt ?i ?d = Some n" for n
    using max_opt_cases [OF that] max_of_mem assms(4,5) bt_get_keys by metis
  then show "ms_next_id st \<le> u64_max"
    by (auto simp: nx u64_inc_def split: option.split)
  have up: "k < ms_next_id st" if h: "?i = Some n \<or> ?d = Some n" "k \<le> n" for k n
  proof -
    obtain t where t: "max_opt ?i ?d = Some t"
      using h(1) by (cases "max_opt ?i ?d") auto
    with h have "k \<le> t"
      using max_opt_ge [OF t, of n n] by auto
    with t lt [OF t] show ?thesis by (simp add: nx u64_inc_def)
  qed
  show "n < ms_next_id st" if f: "bt_get m p \<noteq> None" "eml_id p = Some n"
  proof -
    obtain t where "?d = Some t" "n \<le> t"
      using max_of_ge [of p "map fst m" eml_id n] f unfolding bt_get_keys by blast
    then show ?thesis by (intro up) simp_all
  qed
  show "k < ms_next_id st" if f: "e \<in> set (ms_entries st)" "parse_u64 (sum_id e) = Some k"
  proof -
    obtain t where "?i = Some t" "k \<le> t"
      using max_of_ge [of e _ "\<lambda>e. parse_u64 (sum_id e)", OF f] by blast
    then show ?thesis by (intro up) simp_all
  qed
qed

lemma open_fields:
  assumes "open_with_cap fl dec cap m = Ok st"
  shows "ms_files st = m" "ms_cap st = cap" "load_index no_faults dec m = Ok (ms_entries st)"
  using assms by (auto simp: open_with_cap_def load_index_def no_faults_def Let_def
      split: if_splits result.splits option.splits)

lemma ids_ok_parse:
  "ids_ok nxt es \<Longrightarrow> nxt \<le> Suc u64_max \<Longrightarrow> e \<in> set es \<Longrightarrow> parse_u64 (sum_id e) = Some (id_num e)"
proof -
  assume a: "ids_ok nxt es" "nxt \<le> Suc u64_max" "e \<in> set es"
  then have "id_num e \<le> u64_max" "sum_id e = show_id (id_num e)"
    by (auto simp: ids_ok_def)
  then show ?thesis by (metis parse_show_id)
qed

lemma store_ok_restart:
  assumes "store_ok dec cap st" "fl FsReadDir = None" "\<And>p. fl (FsDirEntry p) = None"
    "open_with_cap fl dec cap (ms_files st) = Ok st'"
  shows "store_ok dec cap st'"
proof -
  note o = open_fields [OF assms(4)]
  have "ms_next_id st \<le> u64_max" using assms(1) by (simp add: store_ok_def)
  have es: "ids_ok (ms_next_id st) (ms_entries st') \<and> length (ms_entries st') \<le> cap"
    using o(3) assms(1)
    by (auto simp: store_ok_def load_index_def no_faults_def split: option.splits)
  note p = ids_ok_parse [OF conjunct1 [OF es] le_SucI [OF \<open>ms_next_id st \<le> u64_max\<close>]]
  have l: "\<forall>p n. bt_get (ms_files st) p \<noteq> None \<longrightarrow> eml_id p = Some n \<longrightarrow> n < u64_max"
    using assms(1) unfolding store_ok_def by (meson order_less_le_trans)
  have l': "\<forall>e \<in> set (ms_entries st'). \<forall>n. parse_u64 (sum_id e) = Some n \<longrightarrow> n < u64_max"
    using p es \<open>ms_next_id st \<le> u64_max\<close> by (force simp: ids_ok_def)
  note nx = open_next_id [OF assms(4,2,3) l l']
  have "ids_ok (ms_next_id st') (ms_entries st')"
    using es nx(3) [OF _ p] by (simp add: ids_ok_def)
  moreover have "es = ms_entries st'" if "bt_get (ms_files st) index_path = Some j" "dec j = Some es" for j es
    using that o(3) by (simp add: load_index_def no_faults_def)
  ultimately show ?thesis
    using o es nx(1,2) unfolding store_ok_def by auto
qed

section \<open>Every operation keeps the invariant\<close>

lemma delete_many_keeps:
  assumes "delete_many fl enc ids st = (r, st')" "codec_law enc dec"
  shows "store_ok dec cap st \<Longrightarrow> store_ok dec cap st'"
    "entries_backed parse log st \<Longrightarrow> entries_backed parse log st'"
proof -
  let ?d = "filter (\<lambda>e. sum_id e \<in> set ids) (ms_entries st)"
    and ?k = "filter (\<lambda>e. sum_id e \<notin> set ids) (ms_entries st)"
  let ?m = "st\<lparr>ms_entries := ?k, ms_files := remove_emls fl ?d (ms_files st)\<rparr>"
  have w: "write_index fl enc ?m = (r, st')"
    using assms(1) by (simp add: delete_many_def comp_def)
  show "store_ok dec cap st'" if "store_ok dec cap st"
  proof -
    have "length ?k \<le> cap" "ids_ok (ms_next_id st) ?k"
      using that length_filter_le [of _ "ms_entries st"] unfolding store_ok_def
      by (blast intro: le_trans ids_ok_filter)+
    with that show ?thesis
      by (intro store_ok_write_index [OF w _ assms(2)] store_ok_remove)
  qed
  show "entries_backed parse log st'" if "entries_backed parse log st"
    by (rule backed_write_index [OF w], rule backed_remove [OF that]) auto
qed

lemma store_clear_keeps:
  assumes "store_clear fl enc st = (r, st')" "codec_law enc dec"
  shows "store_ok dec cap st \<Longrightarrow> store_ok dec cap st'"
    "entries_backed parse log st \<Longrightarrow> entries_backed parse log st'"
proof -
  let ?m = "st\<lparr>ms_entries := [], ms_files := remove_emls fl (ms_entries st) (ms_files st)\<rparr>"
  have w: "write_index fl enc ?m = (r, st')"
    using assms(1) by (simp add: store_clear_def)
  show "store_ok dec cap st'" if "store_ok dec cap st"
    using that by (intro store_ok_write_index [OF w _ assms(2)] store_ok_remove) simp_all
  show "entries_backed parse log st'" if "entries_backed parse log st"
    by (rule backed_write_index [OF w], rule backed_remove [OF that]) auto
qed

lemma mark_entry_backed:
  "e = (summary parse (sum_id e) raw)\<lparr>sum_read := sum_read e\<rparr> \<Longrightarrow>
   mark_entry ids e = (summary parse (sum_id e) raw)\<lparr>sum_read := sum_read (mark_entry ids e)\<rparr>"
  by (cases e) (auto simp: mark_entry_def summary_def Let_def)

lemma mark_read_keeps:
  assumes "mark_read fl enc ids st = (r, st')" "codec_law enc dec"
  shows "store_ok dec cap st \<Longrightarrow> store_ok dec cap st'"
    "entries_backed parse log st \<Longrightarrow> entries_backed parse log st'"
proof -
  let ?m = "st\<lparr>ms_entries := map (mark_entry ids) (ms_entries st)\<rparr>"
  have w: "st' = ?m \<or> write_index fl enc ?m = (r, st')"
    using assms(1) by (auto simp: mark_read_def Let_def split: if_splits)
  show "store_ok dec cap st'" if "store_ok dec cap st"
  proof -
    have "store_ok dec cap ?m"
      using that ids_ok_mark unfolding store_ok_def by simp
    with w store_ok_write_index assms(2) show ?thesis by metis
  qed
  show "entries_backed parse log st'" if "entries_backed parse log st"
  proof -
    have "entries_backed parse log ?m"
      using that mark_entry_backed unfolding entries_backed_def by fastforce
    with w backed_write_index show ?thesis by metis
  qed
qed

lemma store_ok_new_eml:
  assumes "store_ok dec cap st" "ms_next_id st < u64_max"
    "\<And>q. q \<noteq> eml_path (show_id (ms_next_id st)) \<Longrightarrow> bt_get m q = bt_get (ms_files st) q"
  shows "store_ok dec cap (st\<lparr>ms_next_id := Suc (ms_next_id st), ms_files := m\<rparr>)"
proof -
  have "n < Suc (ms_next_id st)" if "bt_get m p \<noteq> None" "eml_id p = Some n" for p n
  proof (cases "p = eml_path (show_id (ms_next_id st))")
    case True
    with that assms(2) show ?thesis by simp
  next
    case False
    with that assms(1,3) show ?thesis unfolding store_ok_def by (metis less_SucI)
  qed
  moreover have "bt_get m index_path = bt_get (ms_files st) index_path"
    by (intro assms(3)) (metis eml_path_not_index(1))
  ultimately show ?thesis
    using assms(1,2) ids_ok_mono [of "ms_next_id st" _ "Suc (ms_next_id st)"]
    unfolding store_ok_def by auto
qed

lemma entry_id_old:
  assumes "store_ok dec cap st" "e \<in> set (ms_entries st)"
  shows "sum_id e \<noteq> show_id (ms_next_id st)"
proof -
  have "id_num e < ms_next_id st" "sum_id e = show_id (id_num e)" "ms_next_id st \<le> u64_max"
    using assms by (auto simp: store_ok_def ids_ok_def)
  then show ?thesis
    using show_id_inj [of "id_num e" "ms_next_id st"] by simp
qed

lemma backed_new_eml:
  assumes "entries_backed parse log st" "store_ok dec cap st"
    "\<And>q. q \<noteq> eml_path (show_id (ms_next_id st)) \<Longrightarrow> bt_get m q = bt_get (ms_files st) q"
  shows "entries_backed parse (log @ l) (st\<lparr>ms_next_id := n, ms_files := m\<rparr>)"
proof -
  have "bt_get m (eml_path (sum_id e)) = bt_get (ms_files st) (eml_path (sum_id e))"
    if "e \<in> set (ms_entries st)" for e
    using entry_id_old [OF assms(2) that] by (intro assms(3)) simp
  with assms(1) show ?thesis
    unfolding entries_backed_def by (simp, blast)
qed

lemma take_drop_ids_disjoint:
  "distinct (map sum_id es) \<Longrightarrow> sum_id ` set (take k es) \<inter> sum_id ` set (drop k es) = {}"
  using set_take_disj_set_drop_if_distinct [of "map sum_id es" k k] by (simp add: take_map drop_map)

lemma store_append_keeps:
  assumes ap: "store_append fl enc parse raw st = (r, st')" and ok: "store_ok dec cap st"
    and nx: "ms_next_id st < u64_max" and codec: "codec_law enc dec"
  shows "store_ok dec cap st'"
    "entries_backed parse log st \<Longrightarrow> entries_backed parse (log @ [(show_id (ms_next_id st), raw)]) st'"
proof -
  let ?n = "ms_next_id st" let ?id = "show_id ?n" let ?log = "log @ [(?id, raw)]"
  obtain w m where w: "fs_write fl (eml_path ?id) raw (ms_files st) = (w, m)" by fastforce
  define st1 where "st1 = st\<lparr>ms_next_id := Suc ?n, ms_files := m\<rparr>"
  note g = fs_write_get [OF w]
  have ok1: "store_ok dec cap st1"
    unfolding st1_def by (rule store_ok_new_eml [OF ok nx g])
  have b1: "entries_backed parse ?log st1" if "entries_backed parse log st"
    unfolding st1_def by (rule backed_new_eml [OF that ok g])
  have inc: "u64_inc ?n = Suc ?n" using nx by (simp add: u64_inc_def)
  have "store_ok dec cap st' \<and> (entries_backed parse log st \<longrightarrow> entries_backed parse ?log st')"
  proof (cases w)
    case (Err e)
    with ap w inc have "st' = st1" by (simp add: store_append_def Let_def st1_def)
    with ok1 b1 show ?thesis by simp
  next
    case (Ok u)
    define es where "es = ms_entries st @ [summary parse ?id raw]"
    define k where "k = evict_count (length es) (ms_cap st)"
    let ?st2 = "st1\<lparr>ms_entries := drop k es, ms_files := remove_emls fl (take k es) (ms_files st1)\<rparr>"
    have wi: "write_index fl enc ?st2 = (r, st')"
      using ap w inc Ok by (simp add: store_append_def Let_def st1_def es_def k_def)
    have ids: "ids_ok (Suc ?n) es"
      using ok nx ids_ok_append unfolding es_def store_ok_def by auto
    have "store_ok dec cap ?st2"
    proof (rule store_ok_remove [OF ok1])
      show "ids_ok (ms_next_id st1) (drop k es)"
        using ids ids_ok_drop by (simp add: st1_def)
      show "length (drop k es) \<le> cap"
        using ok by (simp add: k_def evict_count_def store_ok_def)
    qed
    moreover have "entries_backed parse ?log ?st2" if "entries_backed parse log st"
    proof -
      have "entries_backed parse ?log (st1\<lparr>ms_entries := es\<rparr>)"
        using b1 [OF that] fs_write_Ok [OF w [unfolded Ok]]
        unfolding entries_backed_def by (auto simp: es_def st1_def)
      then show ?thesis
        using backed_remove [of parse ?log "st1\<lparr>ms_entries := es\<rparr>" "drop k es" "take k es" fl]
          take_drop_ids_disjoint [OF ids_ok_distinct [OF ids]] set_drop_subset [of k es] by simp
    qed
    ultimately show ?thesis
      using store_ok_write_index [OF wi _ codec] backed_write_index [OF wi] by blast
  qed
  then show "store_ok dec cap st'" "entries_backed parse log st \<Longrightarrow> entries_backed parse ?log st'"
    by simp_all
qed

lemma mail_reach_ok:
  assumes "mail_reach parse enc dec cap c log st" "codec_law enc dec"
  shows "store_ok dec cap st \<and> (c \<longrightarrow> entries_backed parse log st)"
  using assms(1)
proof induction
  case (start fl st)
  then show ?case
    by (auto simp: open_with_cap_def load_index_def max_eml_id_def store_ok_def entries_backed_def bt_get_def
        Let_def split: if_splits)
next
  case (append c log st fl raw r st')
  then show ?case using store_append_keeps [OF append.hyps(3) _ append.hyps(2) assms(2)] by blast
next
  case (delete c log st fl ids r st')
  then show ?case using delete_many_keeps [OF delete.hyps(2) assms(2)] by blast
next
  case (mark c log st fl ids r st')
  then show ?case using mark_read_keeps [OF mark.hyps(2) assms(2)] by blast
next
  case (clear c log st fl r st')
  then show ?case using store_clear_keeps [OF clear.hyps(2) assms(2)] by blast
next
  case (restart c log st fl st')
  have "ms_entries st' = ms_entries st" if "index_current dec st"
    using that open_fields(3) [OF restart.hyps(4)] by (simp add: index_current_def)
  with restart open_fields(1) [OF restart.hyps(4)] store_ok_restart [OF _ restart.hyps(2-4)]
  show ?case unfolding entries_backed_def by auto
qed


text \<open>A store with one message, on a codec that knows the indices it needs.\<close>

definition demo_entry :: mail_summary where
  "demo_entry = summary (\<lambda>_. None) ''000000'' ''Hi''"

definition demo_enc :: index_encoder where
  "demo_enc es = (if es = [] then Some ''[]'' else if es = [demo_entry] then Some ''[1]'' else None)"

definition demo_dec :: index_decoder where
  "demo_dec j = (if j = ''[]'' then Some [] else if j = ''[1]'' then Some [demo_entry] else None)"

definition demo_empty :: mail_store where
  "demo_empty = \<lparr>ms_files = [], ms_cap = 2, ms_entries = [], ms_next_id = 0\<rparr>"

lemma demo_codec: "codec_law demo_enc demo_dec"
  by (auto simp: codec_law_def demo_enc_def demo_dec_def split: if_splits)

lemma demo_start: "mail_reach (\<lambda>_. None) demo_enc demo_dec 2 True [] demo_empty"
  by (rule mail_reach.start [of no_faults])
    (simp add: open_with_cap_def load_index_def max_eml_id_def no_faults_def bt_get_def demo_empty_def)

lemma show_id_0: "show_id 0 = ''000000''" "show_id (Suc 0) = ''000001''"
  by code_simp+

lemma write_index_fields:
  "ms_entries (snd (write_index fl enc st)) = ms_entries st"
  "ms_next_id (snd (write_index fl enc st)) = ms_next_id st"
  using write_index_cases [of fl enc st "fst (write_index fl enc st)" "snd (write_index fl enc st)"]
  by (metis mail_store.select_convs(3,4) mail_store.surjective mail_store.update_convs(1) prod.collapse)+


text \<open>
  The counter restarts with the daemon: a message captured after a clearing and a restart gets the
  identifier of the message that was cleared.
\<close>

lemma cleared_id_reused:
  "map_option ms_next_id (ok (open_with_cap no_faults demo_dec 2 (ms_files (snd (store_clear no_faults demo_enc
     (snd (store_append no_faults demo_enc (\<lambda>_. None) ''Hi'' demo_empty)))))))
   = Some (ms_next_id demo_empty)"
  by code_simp

end
