(* ===== verification/Mail_Server.thy ===== *)
theory Mail_Server
  imports Mail_Store
begin

text \<open>
  \<open>crates/yerd-mail/src/io/server.rs\<close>: the loop that drives one SMTP connection and hands each
  message to the store. A connection is the bytes the client has sent, whether they end in a read
  error or an end of file, the replies written so far, and which writes succeed. The store appears
  through the locale \<open>mail_sink\<close>, as the one operation the loop calls.
\<close>

section \<open>The connection\<close>

datatype conn_error = ReadError | WriteError

record mail_conn =
  conn_in :: string
  conn_in_err :: bool
  conn_sent :: "string list"
  conn_wok :: "nat \<Rightarrow> bool"

definition MAX_MESSAGE_BYTES :: nat where
  "MAX_MESSAGE_BYTES = 25 * 1024 * 1024"

text \<open>\<open>read_until(b'\n')\<close>: an unfinished line is returned at the end of the stream.\<close>

definition read_line :: "mail_conn \<Rightarrow> (conn_error, string) result \<times> mail_conn" where
  "read_line c =
     (case split_once LF (conn_in c) of
        Some (l, rest) \<Rightarrow> (Ok (l @ [LF]), c\<lparr>conn_in := rest\<rparr>)
      | None \<Rightarrow>
          if conn_in_err c then (Err ReadError, c\<lparr>conn_in := []\<rparr>)
          else (Ok (conn_in c), c\<lparr>conn_in := []\<rparr>))"

text \<open>\<open>write_all\<close>; \<open>conn_wok n\<close> says whether write number \<open>n\<close> succeeds.\<close>

definition write_reply :: "string \<Rightarrow> mail_conn \<Rightarrow> (conn_error, unit) result \<times> mail_conn" where
  "write_reply s c =
     (if conn_wok c (length (conn_sent c)) then (Ok (), c\<lparr>conn_sent := conn_sent c @ [s]\<rparr>)
      else (Err WriteError, c))"

lemma write_reply_in [simp]: "write_reply s c = (r, c') \<Longrightarrow> conn_in c' = conn_in c"
  by (auto simp: write_reply_def split: if_splits)

lemma read_line_shorter:
  "read_line c = (Ok l, c') \<Longrightarrow> l \<noteq> [] \<Longrightarrow> length (conn_in c') < length (conn_in c)"
  by (auto simp: read_line_def split_once_Some_iff split: option.splits if_splits)

lemma read_line_le: "read_line c = (r, c') \<Longrightarrow> length (conn_in c') \<le> length (conn_in c)"
  by (auto simp: read_line_def split_once_Some_iff split: option.splits if_splits)

section \<open>Reading the payload\<close>

function read_data_loop :: "string \<Rightarrow> bool \<Rightarrow> mail_conn \<Rightarrow> (conn_error, string) result \<times> mail_conn" where
  "read_data_loop data capped c =
     (case read_line c of
        (Err e, c') \<Rightarrow> (Err e, c')
      | (Ok line, c') \<Rightarrow>
          if line = [] then (Ok data, c')
          else if line = [CHR ''.'', CR, LF] \<or> line = [CHR ''.'', LF] then (Ok data, c')
          else if capped then read_data_loop data capped c'
          else if length data + length line > MAX_MESSAGE_BYTES then
            read_data_loop (data @ take (MAX_MESSAGE_BYTES - length data) line) True c'
          else read_data_loop (data @ line) capped c')"
  by pat_completeness auto
termination
  by (relation "measure (\<lambda>(d, b, c). length (conn_in c))") (auto dest: read_line_shorter [OF sym])

declare read_data_loop.simps [simp del]

definition read_data :: "mail_conn \<Rightarrow> (conn_error, string) result \<times> mail_conn" where
  "read_data c = read_data_loop [] False c"

lemma read_data_loop_le:
  "read_data_loop d b c = (r, c') \<Longrightarrow> length (conn_in c') \<le> length (conn_in c)"
proof (induction d b c rule: read_data_loop.induct)
  case (1 d b c)
  obtain l c1 where rl: "read_line c = (l, c1)" by fastforce
  note le = read_line_le [OF rl]
  show ?case
  proof (cases l)
    case (Err e)
    with 1 rl le show ?thesis by (simp add: read_data_loop.simps [of d b c])
  next
    case (Ok line)
    note rl' = rl [unfolded Ok]
    show ?thesis
      using "1.prems" "1.IH" [OF rl' [symmetric] refl] le
      unfolding read_data_loop.simps [of d b c] rl' by (auto split: if_splits intro: le_trans)
  qed
qed

lemma read_data_le: "read_data c = (r, c') \<Longrightarrow> length (conn_in c') \<le> length (conn_in c)"
  unfolding read_data_def by (rule read_data_loop_le)

section \<open>The connection handler\<close>

type_synonym 'st sink = "string \<Rightarrow> 'st \<Rightarrow> (mail_error, unit) result \<times> 'st"

text \<open>The branch for \<open>StartData\<close>: the payload, the store, and the reply.\<close>

definition receive_message ::
  "'st sink \<Rightarrow> smtp_session \<Rightarrow> mail_conn \<Rightarrow> 'st
     \<Rightarrow> (conn_error, unit) result \<times> smtp_session \<times> mail_conn \<times> 'st" where
  "receive_message ap s c st =
     (case read_data c of
        (Err e, c1) \<Rightarrow> (Err e, s, c1, st)
      | (Ok data, c1) \<Rightarrow>
          (case finish_data data s of (msg, s1) \<Rightarrow>
             (case ap (msg_raw msg) st of
                (Ok _, st1) \<Rightarrow>
                  (case write_reply (''250 OK: queued'' @ CRLF) c1 of (r, c2) \<Rightarrow> (r, s1, c2, st1))
              | (Err _, st1) \<Rightarrow>
                  (case write_reply (''451 storage error'' @ CRLF) c1 of (r, c2) \<Rightarrow> (r, s1, c2, st1)))))"

text \<open>One round of the loop: \<open>None\<close> goes on, \<open>Some r\<close> ends the connection with \<open>r\<close>.\<close>

definition handle_line ::
  "'st sink \<Rightarrow> string \<Rightarrow> smtp_session \<Rightarrow> mail_conn \<Rightarrow> 'st
     \<Rightarrow> (conn_error, unit) result option \<times> smtp_session \<times> mail_conn \<times> 'st" where
  "handle_line ap line s c st =
     (case smtp_command (from_utf8_lossy line) s of
        (Line r, s1) \<Rightarrow>
          (case write_reply r c of
             (Ok _, c1) \<Rightarrow> (None, s1, c1, st) | (Err e, c1) \<Rightarrow> (Some (Err e), s1, c1, st))
      | (Close r, s1) \<Rightarrow> (case write_reply r c of (w, c1) \<Rightarrow> (Some w, s1, c1, st))
      | (StartData r, s1) \<Rightarrow>
          (case write_reply r c of
             (Err e, c1) \<Rightarrow> (Some (Err e), s1, c1, st)
           | (Ok _, c1) \<Rightarrow>
               (case receive_message ap s1 c1 st of
                  (Ok _, s2, c2, st2) \<Rightarrow> (None, s2, c2, st2)
                | (Err e, s2, c2, st2) \<Rightarrow> (Some (Err e), s2, c2, st2))))"

lemma receive_message_le:
  "receive_message ap s c st = (r, s', c', st') \<Longrightarrow> length (conn_in c') \<le> length (conn_in c)"
  by (auto simp: receive_message_def dest!: read_data_le split: prod.splits result.splits)

lemma handle_line_le:
  "handle_line ap line s c st = (r, s', c', st') \<Longrightarrow> length (conn_in c') \<le> length (conn_in c)"
  by (auto simp: handle_line_def dest!: receive_message_le split: prod.splits result.splits smtp_reply.splits)

function handle_loop ::
  "'st sink \<Rightarrow> smtp_session \<Rightarrow> mail_conn \<Rightarrow> 'st \<Rightarrow> (conn_error, unit) result \<times> mail_conn \<times> 'st" where
  "handle_loop ap s c st =
     (case read_line c of
        (Err e, c1) \<Rightarrow> (Err e, c1, st)
      | (Ok line, c1) \<Rightarrow>
          if line = [] then (Ok (), c1, st)
          else (case handle_line ap line s c1 st of
                  (Some r, _, c2, st2) \<Rightarrow> (r, c2, st2)
                | (None, s2, c2, st2) \<Rightarrow> handle_loop ap s2 c2 st2))"
  by pat_completeness auto
termination
  by (relation "measure (\<lambda>(ap, s, c, st). length (conn_in c))")
    (auto dest!: read_line_shorter [OF sym] handle_line_le [OF sym])

declare handle_loop.simps [simp del]

definition handle_conn :: "'st sink \<Rightarrow> mail_conn \<Rightarrow> 'st \<Rightarrow> (conn_error, unit) result \<times> mail_conn \<times> 'st" where
  "handle_conn ap c st =
     (case write_reply greeting c of
        (Err e, c1) \<Rightarrow> (Err e, c1, st)
      | (Ok _, c1) \<Rightarrow> handle_loop ap session_new c1 st)"

section \<open>What the loop needs of the store\<close>

text \<open>
  The loop relies on one operation. \<open>R n st\<close> is what the provider keeps as long as at most \<open>n\<close> more
  messages are handed over; each message costs the client at least one byte of input.
\<close>

locale mail_sink =
  fixes ap :: "'st sink" and R :: "nat \<Rightarrow> 'st \<Rightarrow> bool"
  assumes hand_over: "R (Suc n) st \<Longrightarrow> R n (snd (ap raw st))"
    and fewer: "R (Suc n) st \<Longrightarrow> R n st"
begin

lemma weaken: "R n st \<Longrightarrow> m \<le> n \<Longrightarrow> R m st"
  by (rule inc_induct [of m n "\<lambda>k. R k st"]) (auto intro: fewer)

lemma receive_message_keeps:
  "R (Suc n) st \<Longrightarrow> receive_message ap s c st = (r, s', c', st') \<Longrightarrow> R n st'"
  using hand_over [of n st] fewer [of n st]
  by (auto simp: receive_message_def split: prod.splits result.splits) (metis snd_conv)+

lemma handle_line_keeps:
  "R (Suc n) st \<Longrightarrow> handle_line ap line s c st = (r, s', c', st') \<Longrightarrow> R n st'"
  using fewer [of n st] receive_message_keeps [of n st]
  by (auto simp: handle_line_def split: prod.splits result.splits smtp_reply.splits)

lemma handle_loop_keeps:
  "R (length (conn_in c)) st \<Longrightarrow> handle_loop ap s c st = (r, c', st') \<Longrightarrow> R (length (conn_in c')) st'"
proof (induction "length (conn_in c)" arbitrary: s c st rule: less_induct)
  case less
  obtain l c1 where rl: "read_line c = (l, c1)" by fastforce
  have stay: "R (length (conn_in c1)) st"
    using less.prems(1) read_line_le [OF rl] weaken by blast
  show ?case
  proof (cases "\<exists>line. l = Ok line \<and> line \<noteq> []")
    case False
    with less.prems(2) rl stay show ?thesis
      by (auto simp: handle_loop.simps [of ap s c st] split: result.splits if_splits)
  next
    case True
    then obtain line where l: "l = Ok line" "line \<noteq> []" by blast
    obtain x s2 c2 st2 where hl: "handle_line ap line s c1 st = (x, s2, c2, st2)"
      by (metis prod_cases4)
    have lt: "length (conn_in c1) < length (conn_in c)"
      using read_line_shorter rl l by blast
    then have "R (Suc (length (conn_in c1))) st"
      using less.prems(1) weaken by (meson Suc_leI)
    then have "R (length (conn_in c2)) st2"
      using handle_line_keeps [OF _ hl] handle_line_le [OF hl] weaken by blast
    moreover have "length (conn_in c2) < length (conn_in c)"
      using handle_line_le [OF hl] lt by linarith
    ultimately show ?thesis
      using less.hyps [of c2 st2 s2] less.prems(2) rl l hl
      by (auto simp: handle_loop.simps [of ap s c st] split: option.splits)
  qed
qed

lemma handle_conn_keeps:
  "R (length (conn_in c)) st \<Longrightarrow> handle_conn ap c st = (r, c', st') \<Longrightarrow> R (length (conn_in c')) st'"
  by (auto simp: handle_conn_def split: prod.splits result.splits)
    (metis handle_loop_keeps write_reply_in)

end

text \<open>The store of the previous theory is such a sink, on the states it can reach.\<close>

definition store_live :: "mail_parser \<Rightarrow> index_encoder \<Rightarrow> index_decoder \<Rightarrow> nat \<Rightarrow> nat \<Rightarrow> mail_store \<Rightarrow> bool" where
  "store_live parse enc dec cap n st \<longleftrightarrow>
     (\<exists>c log. mail_reach parse enc dec cap c log st) \<and> ms_next_id st + n \<le> u64_max"

lemma store_append_next:
  "store_append fl enc parse raw st = (r, st') \<Longrightarrow> ms_next_id st' = u64_inc (ms_next_id st)"
  by (auto simp: store_append_def Let_def elim: write_index_cases split: prod.splits result.splits)

interpretation capture: mail_sink "store_append fl enc parse" "store_live parse enc dec cap"
proof
  fix n st raw
  assume a: "store_live parse enc dec cap (Suc n) st"
  obtain r st' where ap: "store_append fl enc parse raw st = (r, st')" by fastforce
  from a obtain c log where "mail_reach parse enc dec cap c log st" "ms_next_id st < u64_max"
    by (auto simp: store_live_def)
  from mail_reach.append [OF this ap] store_append_next [OF ap] a
  show "store_live parse enc dec cap n (snd (store_append fl enc parse raw st))"
    by (auto simp: store_live_def ap u64_inc_def)
qed (simp add: store_live_def)

section \<open>A message from end to end\<close>

text \<open>What a mailer sends for one message whose body is given line by line.\<close>

definition mail_line :: "string \<Rightarrow> string" where
  "mail_line a = ''MAIL FROM:<'' @ a @ [CHR ''>'', CR]"

definition rcpt_line :: "string \<Rightarrow> string" where
  "rcpt_line a = ''RCPT TO:<'' @ a @ [CHR ''>'', CR]"

definition data_line :: string where
  "data_line = ''DATA'' @ [CR]"

definition quit_line :: string where
  "quit_line = ''QUIT'' @ [CR]"

definition mail_script :: "string \<Rightarrow> string list \<Rightarrow> string list \<Rightarrow> string" where
  "mail_script frm rcpts body =
     mail_line frm @ LF # concat (map (\<lambda>a. rcpt_line a @ [LF]) rcpts) @ data_line @ LF
     # lines_of (map stuff_line body) @ ''.'' @ CRLF @ quit_line @ [LF]"

lemma read_line_LF:
  "conn_in c = l @ LF # rest \<Longrightarrow> LF \<notin> set l \<Longrightarrow> read_line c = (Ok (l @ [LF]), c\<lparr>conn_in := rest\<rparr>)"
  by (simp add: read_line_def split_once_append)

lemma handle_loop_Line:
  assumes "conn_in c = l @ LF # rest" "LF \<notin> set l" "\<And>n. conn_wok c n"
    "smtp_command (from_utf8_lossy (l @ [LF])) s = (Line r, s1)"
  shows "handle_loop ap s c st =
     handle_loop ap s1 (c\<lparr>conn_in := rest, conn_sent := conn_sent c @ [r]\<rparr>) st"
  by (subst handle_loop.simps) (simp add: read_line_LF [OF assms(1,2)] handle_line_def assms(3,4) write_reply_def)

text \<open>The verb of a line is read off its first word.\<close>

lemma trim_end_eol_append: "x \<noteq> [] \<Longrightarrow> last x \<noteq> CR \<Longrightarrow> last x \<noteq> LF \<Longrightarrow> trim_end_eol (x @ y) = x @ trim_end_eol y"
  by (cases x rule: rev_cases)
    (auto simp: trim_end_eol_def dropWhile_append3 dropWhile_append split: if_splits)

lemma from_utf8_lossy_ascii: "\<forall>b \<in> set x. is_ascii b \<Longrightarrow> from_utf8_lossy (x @ y) = x @ from_utf8_lossy y"
  by (induction x) (simp_all add: from_utf8_lossy_ascii_Cons)

lemma first_word_space:
  assumes "\<forall>b \<in> set x. is_ascii b \<and> \<not> is_whitespace [b]" "x \<noteq> []"
  shows "first_word (x @ CHR '' '' # y) = x"
proof -
  have "utf8_chars (x @ CHR '' '' # y) = map (\<lambda>c. [c]) x @ [CHR '' ''] # utf8_chars y"
    using assms(1) utf8_chars_ascii_append [of "x @ '' ''" y] by (simp add: is_ascii_def)
  moreover have "dropWhile is_whitespace (map (\<lambda>c. [c]) x @ z) = map (\<lambda>c. [c]) x @ z" for z
    using assms by (cases x) auto
  moreover have "takeWhile (\<lambda>w. \<not> is_whitespace w) (map (\<lambda>c. [c]) x @ [CHR '' ''] # z) = map (\<lambda>c. [c]) x" for z
    using assms(1) by (subst takeWhile_append2) auto
  moreover have "concat (map (\<lambda>c. [c]) x) = x" by (induction x) auto
  ultimately show ?thesis by (simp add: first_word_def)
qed

lemma verb_then_space:
  assumes "\<forall>b \<in> set v. is_ascii b \<and> \<not> is_whitespace [b]" "v \<noteq> []"
  obtains y where "trim_end_eol (from_utf8_lossy (v @ CHR '' '' # r)) = v @ CHR '' '' # y"
    "first_word (v @ CHR '' '' # y) = v"
proof -
  have "from_utf8_lossy ((v @ '' '') @ r) = (v @ '' '') @ from_utf8_lossy r"
    using assms(1) by (intro from_utf8_lossy_ascii) (auto simp: is_ascii_def)
  moreover have "trim_end_eol ((v @ '' '') @ from_utf8_lossy r) = (v @ '' '') @ trim_end_eol (from_utf8_lossy r)"
    by (rule trim_end_eol_append) simp_all
  ultimately show ?thesis
    using first_word_space [OF assms] by (intro that [of "trim_end_eol (from_utf8_lossy r)"]) simp_all
qed

lemmas verb_eval = smtp_command_def Let_def to_ascii_uppercase_def upper_byte_def byte_class_defs

lemma command_MAIL:
  obtains a where "smtp_command (from_utf8_lossy (mail_line frm @ [LF])) s =
    (Line (''250 OK'' @ CRLF), s\<lparr>sess_recipients := [], sess_from := Some a\<rparr>)"
proof -
  obtain y where "trim_end_eol (from_utf8_lossy (mail_line frm @ [LF])) = ''MAIL'' @ CHR '' '' # y"
      "first_word (''MAIL'' @ CHR '' '' # y) = ''MAIL''"
    by (rule verb_then_space [of "''MAIL''" "''FROM:<'' @ frm @ [CHR ''>'', CR, LF]"])
      (simp_all add: mail_line_def is_ascii_def)
  then show ?thesis by (intro that) (simp add: verb_eval)
qed

lemma command_RCPT:
  obtains a where "smtp_command (from_utf8_lossy (rcpt_line t @ [LF])) s =
    (Line (''250 OK'' @ CRLF), s\<lparr>sess_recipients := sess_recipients s @ [a]\<rparr>)"
proof -
  obtain y where "trim_end_eol (from_utf8_lossy (rcpt_line t @ [LF])) = ''RCPT'' @ CHR '' '' # y"
      "first_word (''RCPT'' @ CHR '' '' # y) = ''RCPT''"
    by (rule verb_then_space [of "''RCPT''" "''TO:<'' @ t @ [CHR ''>'', CR, LF]"])
      (simp_all add: rcpt_line_def is_ascii_def)
  then show ?thesis by (intro that) (simp add: verb_eval)
qed

lemma lossy_plain: "\<forall>b \<in> set x. is_ascii b \<Longrightarrow> from_utf8_lossy x = x"
  using from_utf8_lossy_ascii [of x "[]"] by simp

lemma command_DATA:
  "sess_recipients s \<noteq> [] \<Longrightarrow> smtp_command (from_utf8_lossy (data_line @ [LF])) s =
    (StartData (''354 End data with <CR><LF>.<CR><LF>'' @ CRLF), s)"
proof -
  have "from_utf8_lossy (data_line @ [LF]) = ''DATA'' @ CRLF"
    by (simp add: data_line_def lossy_plain is_ascii_def)
  moreover have "first_word ''DATA'' = ''DATA''" "trim_end_eol (''DATA'' @ CRLF) = ''DATA''"
    by (simp_all add: first_word_def is_ascii_def trim_end_eol_def)
  ultimately show "sess_recipients s \<noteq> [] \<Longrightarrow> ?thesis" by (simp add: verb_eval)
qed

lemma command_QUIT:
  "smtp_command (from_utf8_lossy (quit_line @ [LF])) s = (Close (''221 Bye'' @ CRLF), s)"
proof -
  have "from_utf8_lossy (quit_line @ [LF]) = ''QUIT'' @ CRLF"
    by (simp add: quit_line_def lossy_plain is_ascii_def)
  moreover have "first_word ''QUIT'' = ''QUIT''" "trim_end_eol (''QUIT'' @ CRLF) = ''QUIT''"
    by (simp_all add: first_word_def is_ascii_def trim_end_eol_def)
  ultimately show ?thesis by (simp add: verb_eval)
qed

text \<open>The recipients, one line each.\<close>

lemma handle_loop_rcpts:
  assumes "\<forall>t \<in> set ts. LF \<notin> set t" "\<And>n. conn_wok c n"
    "conn_in c = concat (map (\<lambda>a. rcpt_line a @ [LF]) ts) @ rest"
  shows "\<exists>as. length as = length ts \<and> handle_loop ap s c st =
    handle_loop ap (s\<lparr>sess_recipients := sess_recipients s @ as\<rparr>)
      (c\<lparr>conn_in := rest, conn_sent := conn_sent c @ replicate (length ts) (''250 OK'' @ CRLF)\<rparr>) st"
  using assms
proof (induction ts arbitrary: s c)
  case Nil
  then have "c\<lparr>conn_in := rest\<rparr> = c" by (cases c) simp
  then show ?case by simp
next
  case (Cons t ts)
  obtain a where a: "smtp_command (from_utf8_lossy (rcpt_line t @ [LF])) s =
      (Line (''250 OK'' @ CRLF), s\<lparr>sess_recipients := sess_recipients s @ [a]\<rparr>)"
    by (rule command_RCPT)
  let ?s1 = "s\<lparr>sess_recipients := sess_recipients s @ [a]\<rparr>"
    and ?rest = "concat (map (\<lambda>a. rcpt_line a @ [LF]) ts) @ rest"
  let ?c1 = "c\<lparr>conn_in := ?rest, conn_sent := conn_sent c @ [''250 OK'' @ CRLF]\<rparr>"
  have "handle_loop ap s c st = handle_loop ap ?s1 ?c1 st"
    using Cons.prems by (intro handle_loop_Line [OF _ _ _ a]) (auto simp: rcpt_line_def)
  moreover obtain as where "length as = length ts" "handle_loop ap ?s1 ?c1 st =
      handle_loop ap (?s1\<lparr>sess_recipients := sess_recipients ?s1 @ as\<rparr>)
        (?c1\<lparr>conn_in := rest, conn_sent := conn_sent ?c1 @ replicate (length ts) (''250 OK'' @ CRLF)\<rparr>) st"
    using Cons.IH [of ?c1 ?s1] Cons.prems by auto
  ultimately show ?case
    by (intro exI [of _ "a # as"]) simp
qed

lemma read_data_lines:
  assumes "\<forall>l \<in> set ls. LF \<notin> set l \<and> l \<noteq> ''.''" "length d + length (lines_of ls) \<le> MAX_MESSAGE_BYTES"
    "conn_in c = lines_of ls @ ''.'' @ CRLF @ rest"
  shows "read_data_loop d False c = (Ok (d @ lines_of ls), c\<lparr>conn_in := rest\<rparr>)"
  using assms
proof (induction ls arbitrary: d c)
  case Nil
  then have "read_line c = (Ok ((''.'' @ [CR]) @ [LF]), c\<lparr>conn_in := rest\<rparr>)"
    by (intro read_line_LF) simp_all
  then show ?case by (subst read_data_loop.simps) simp
next
  case (Cons l ls)
  have "read_line c = (Ok ((l @ [CR]) @ [LF]), c\<lparr>conn_in := lines_of ls @ ''.'' @ CRLF @ rest\<rparr>)"
    using Cons.prems by (intro read_line_LF) simp_all
  moreover have "l @ CRLF \<noteq> [CHR ''.'', CR, LF]" "l @ CRLF \<noteq> [CHR ''.'', LF]"
    using Cons.prems by (auto simp: append_eq_Cons_conv)
  ultimately show ?case
    using Cons.IH [of "d @ l @ CRLF" "c\<lparr>conn_in := lines_of ls @ ''.'' @ CRLF @ rest\<rparr>"] Cons.prems
    by (subst read_data_loop.simps) simp
qed

text \<open>A message that was stored is the newest one listed, and reading it gives its bytes.\<close>

lemma store_append_listed:
  assumes "store_append fl enc parse raw st = (Ok u, st')" "store_ok dec cap st" "0 < cap"
  defines "mid \<equiv> show_id (ms_next_id st)"
  shows "hd (store_list st') = summary parse mid raw"
    "store_get no_faults parse mid st' = Ok (Some (detail parse mid raw))"
proof -
  let ?es = "ms_entries st @ [summary parse mid raw]"
  let ?k = "evict_count (length ?es) (ms_cap st)"
  have k: "?k \<le> length (ms_entries st)"
    using assms(2,3) by (simp add: evict_count_def store_ok_def)
  obtain m where w: "fs_write fl (eml_path mid) raw (ms_files st) = (Ok (), m)"
      and i: "write_index fl enc (st\<lparr>ms_next_id := u64_inc (ms_next_id st), ms_entries := drop ?k ?es,
        ms_files := remove_emls fl (take ?k ?es) m\<rparr>) = (Ok u, st')"
    using assms(1) by (auto simp: store_append_def mid_def Let_def split: prod.splits result.splits)
  have "\<forall>e \<in> set (take ?k ?es). sum_id e \<noteq> mid"
    using entry_id_old [OF assms(2)] k unfolding mid_def by (auto dest!: in_set_takeD)
  then have "bt_get (remove_emls fl (take ?k ?es) m) (eml_path mid) = Some raw"
    using remove_emls_get [of fl "take ?k ?es" m "eml_path mid"] fs_write_Ok [OF w] by force
  moreover obtain m' where "st' = st\<lparr>ms_next_id := u64_inc (ms_next_id st), ms_entries := drop ?k ?es, ms_files := m'\<rparr>"
      "bt_get m' (eml_path mid) = bt_get (remove_emls fl (take ?k ?es) m) (eml_path mid)"
    using write_index_cases [OF i] eml_path_not_index by (metis (no_types, lifting) mail_store.select_convs(1)
        mail_store.surjective mail_store.update_convs(1))
  ultimately have e: "ms_entries st' = drop ?k (ms_entries st) @ [summary parse mid raw]"
      and g: "bt_get (ms_files st') (eml_path mid) = Some raw"
    using k by simp_all
  show "hd (store_list st') = summary parse mid raw"
    by (simp add: store_list_def e)
  show "store_get no_faults parse mid st' = Ok (Some (detail parse mid raw))"
    by (simp add: store_get_def e g fs_read_def no_faults_def)
qed

lemma stuff_line_props: "LF \<notin> set l \<Longrightarrow> LF \<notin> set (stuff_line l)" "stuff_line l \<noteq> ''.''"
  by (auto simp: stuff_line_def split: list.split)

abbreviation reply_ok :: string where "reply_ok \<equiv> ''250 OK'' @ CRLF"

lemma handle_loop_message:
  assumes "conn_in c = data_line @ LF # lines_of (map stuff_line body) @ ''.'' @ CRLF @ quit_line @ [LF]"
    "\<forall>l \<in> set body. LF \<notin> set l" "length (lines_of (map stuff_line body)) \<le> MAX_MESSAGE_BYTES"
    "\<And>n. conn_wok c n" "sess_recipients s \<noteq> []" "ap (lines_of body) st = (r, st')"
  shows "handle_loop ap s c st = (Ok (), c\<lparr>conn_in := [], conn_sent := conn_sent c @
    [''354 End data with <CR><LF>.<CR><LF>'' @ CRLF,
     (if is_ok r then ''250 OK: queued'' else ''451 storage error'') @ CRLF, ''221 Bye'' @ CRLF]\<rparr>, st')"
proof -
  define q where "q = quit_line @ [LF]"
  define p where "p = lines_of (map stuff_line body)"
  define r0 where "r0 = ''354 End data with <CR><LF>.<CR><LF>'' @ CRLF"
  define c1 where "c1 = c\<lparr>conn_in := p @ ''.'' @ CRLF @ q, conn_sent := conn_sent c @ [r0]\<rparr>"
  define r1 where "r1 = (if is_ok r then ''250 OK: queued'' else ''451 storage error'') @ CRLF"
  define r2 where "r2 = ''221 Bye'' @ CRLF"
  have wok: "write_reply x c' = (Ok (), c'\<lparr>conn_sent := conn_sent c' @ [x]\<rparr>)" if "conn_wok c' = conn_wok c" for x c'
    using that assms(4) by (simp add: write_reply_def)
  have rl: "read_line c = (Ok (data_line @ [LF]), c\<lparr>conn_in := p @ ''.'' @ CRLF @ q\<rparr>)"
    using assms(1) by (intro read_line_LF) (simp_all add: data_line_def q_def p_def)
  have rd: "read_data c1 = (Ok p, c1\<lparr>conn_in := q\<rparr>)"
    unfolding read_data_def p_def using assms(2,3) stuff_line_props
      read_data_lines [of "map stuff_line body" "[]" c1 q] by (simp add: c1_def p_def)
  have up: "unstuff p = lines_of body" and wc1: "conn_wok c1 = conn_wok c"
    using unstuff_stuffed [OF assms(2)] by (simp_all add: p_def c1_def)
  have rm: "receive_message ap s c1 st = (Ok (), s\<lparr>sess_from := None, sess_recipients := []\<rparr>,
      c1\<lparr>conn_in := q, conn_sent := conn_sent c1 @ [r1]\<rparr>, st')"
    using up wc1 assms(6) by (cases r) (simp_all add: receive_message_def rd finish_data_def wok r1_def)
  have hl: "handle_line ap (data_line @ [LF]) s (c\<lparr>conn_in := p @ ''.'' @ CRLF @ q\<rparr>) st =
      (None, s\<lparr>sess_from := None, sess_recipients := []\<rparr>, c1\<lparr>conn_in := q, conn_sent := conn_sent c1 @ [r1]\<rparr>, st')"
    using rm wok [of "c\<lparr>conn_in := p @ ''.'' @ CRLF @ q\<rparr>" r0, simplified, folded c1_def]
    by (simp add: handle_line_def command_DATA [OF assms(5), folded r0_def] c1_def)
  have "handle_loop ap s' c' st' = (Ok (), c'\<lparr>conn_in := [], conn_sent := conn_sent c' @ [r2]\<rparr>, st')"
    if "conn_in c' = q" "conn_wok c' = conn_wok c" for s' c'
  proof -
    have "read_line c' = (Ok (quit_line @ [LF]), c'\<lparr>conn_in := []\<rparr>)"
      using that(1) by (intro read_line_LF) (simp_all add: q_def quit_line_def)
    with that show ?thesis
      by (subst handle_loop.simps) (simp add: handle_line_def command_QUIT [folded r2_def] wok)
  qed
  with rl hl show ?thesis
    unfolding r1_def [symmetric] r0_def [symmetric] r2_def [symmetric]
    by (subst handle_loop.simps) (simp add: c1_def)
qed

lemma handle_conn_captures:
  assumes "conn_in c = mail_script frm rcpts body" "LF \<notin> set frm" "\<forall>a \<in> set rcpts. LF \<notin> set a" "rcpts \<noteq> []"
    "\<forall>l \<in> set body. LF \<notin> set l" "length (lines_of (map stuff_line body)) \<le> MAX_MESSAGE_BYTES"
    "\<And>n. conn_wok c n" "ap (lines_of body) st = (r, st')"
  shows "handle_conn ap c st = (Ok (), c\<lparr>conn_in := [], conn_sent := conn_sent c @
    greeting # replicate (Suc (length rcpts)) reply_ok @
    [''354 End data with <CR><LF>.<CR><LF>'' @ CRLF,
     (if is_ok r then ''250 OK: queued'' else ''451 storage error'') @ CRLF, ''221 Bye'' @ CRLF]\<rparr>, st')"
proof -
  define R2 where "R2 = data_line @ LF # lines_of (map stuff_line body) @ ''.'' @ CRLF @ quit_line @ [LF]"
  define R1 where "R1 = concat (map (\<lambda>a. rcpt_line a @ [LF]) rcpts) @ R2"
  define T where "T = [''354 End data with <CR><LF>.<CR><LF>'' @ CRLF,
     (if is_ok r then ''250 OK: queued'' else ''451 storage error'') @ CRLF, ''221 Bye'' @ CRLF]"
  define g where "g = greeting" define k where "k = reply_ok"
  define c1 where "c1 = c\<lparr>conn_sent := conn_sent c @ [g]\<rparr>"
  obtain a where m: "smtp_command (from_utf8_lossy (mail_line frm @ [LF])) session_new =
      (Line k, session_new\<lparr>sess_recipients := [], sess_from := Some a\<rparr>)" (is "_ = (_, ?s1)")
    unfolding k_def by (rule command_MAIL)
  let ?c2 = "c1\<lparr>conn_in := R1, conn_sent := conn_sent c1 @ [k]\<rparr>"
  have l1: "handle_loop ap session_new c1 st = handle_loop ap ?s1 ?c2 st"
    using assms(1,2,7) by (intro handle_loop_Line [OF _ _ _ m])
      (simp_all add: c1_def R1_def R2_def mail_script_def mail_line_def)
  let ?c3 = "?c2\<lparr>conn_in := R2, conn_sent := conn_sent ?c2 @ replicate (length rcpts) k\<rparr>"
  obtain as where as: "length as = length rcpts"
      and l2: "handle_loop ap ?s1 ?c2 st = handle_loop ap (?s1\<lparr>sess_recipients := sess_recipients ?s1 @ as\<rparr>) ?c3 st"
    using handle_loop_rcpts [OF assms(3), of ?c2 R2 ap ?s1 st] assms(7)
    by (auto simp: c1_def R1_def k_def)
  have "handle_loop ap (?s1\<lparr>sess_recipients := sess_recipients ?s1 @ as\<rparr>) ?c3 st =
      (Ok (), ?c3\<lparr>conn_in := [], conn_sent := conn_sent ?c3 @ T\<rparr>, st')"
    unfolding T_def using assms(4,7) as
    by (intro handle_loop_message [where body = body and ap = ap and st = st and r = r, OF _ assms(5,6) _ _ assms(8)])
      (auto simp: R2_def c1_def)
  moreover have "handle_conn ap c st = handle_loop ap session_new c1 st"
    using assms(7) by (simp add: handle_conn_def write_reply_def c1_def g_def)
  ultimately show ?thesis
    unfolding T_def [symmetric] g_def [symmetric] k_def [symmetric] using l1 l2 by (simp add: c1_def)
qed

text \<open>
  C26: A mailer that sends one message over a connection whose writes succeed gets the standard
  replies, and exactly the bytes of its message, with the dot stuffing undone, are handed to the
  store. When the store accepts them, the message is the newest one listed and reading it back
  decodes those bytes; when it does not, the mailer is told of a storage error.
\<close>

theorem smtp_captures_message:
  assumes "conn_in c = mail_script frm rcpts body" "LF \<notin> set frm" "\<forall>a \<in> set rcpts. LF \<notin> set a" "rcpts \<noteq> []"
    "\<forall>l \<in> set body. LF \<notin> set l" "length (lines_of (map stuff_line body)) \<le> MAX_MESSAGE_BYTES"
    "\<forall>n. conn_wok c n" "mail_reach parse enc dec cap b log st" "codec_law enc dec" "0 < cap"
  defines "mid \<equiv> show_id (ms_next_id st)" and "raw \<equiv> lines_of body"
  shows "\<exists>r st'. store_append fl enc parse raw st = (r, st')
    \<and> handle_conn (store_append fl enc parse) c st = (Ok (), c\<lparr>conn_in := [], conn_sent := conn_sent c @
        greeting # replicate (Suc (length rcpts)) reply_ok @
        [''354 End data with <CR><LF>.<CR><LF>'' @ CRLF,
         (if is_ok r then ''250 OK: queued'' else ''451 storage error'') @ CRLF, ''221 Bye'' @ CRLF]\<rparr>, st')
    \<and> (is_ok r \<longrightarrow> hd (store_list st') = summary parse mid raw
        \<and> store_get no_faults parse mid st' = Ok (Some (detail parse mid raw)))"
proof -
  obtain r st' where ap: "store_append fl enc parse raw st = (r, st')" by fastforce
  have "store_ok dec cap st"
    using mail_reach_ok [OF assms(8,9)] by simp
  then have "is_ok r \<longrightarrow> hd (store_list st') = summary parse mid raw
      \<and> store_get no_faults parse mid st' = Ok (Some (detail parse mid raw))"
    using store_append_listed [OF _ _ assms(10)] ap unfolding mid_def is_ok_iff by blast
  with ap handle_conn_captures [where ap = "store_append fl enc parse", OF assms(1-6) _ ap [unfolded raw_def]] assms(7) show ?thesis by blast
qed

theorem smtp_captures_message_witness:
  "\<exists>r st'. store_append no_faults demo_enc (\<lambda>_. None) (''Hi'' @ CRLF @ ''.x'' @ CRLF) demo_empty = (r, st')
    \<and> fst (handle_conn (store_append no_faults demo_enc (\<lambda>_. None))
        \<lparr>conn_in = mail_script ''a@b'' [''c@d''] [''Hi'', ''.x''], conn_in_err = False, conn_sent = [], conn_wok = (\<lambda>_. True)\<rparr>
        demo_empty) = Ok ()"
  using smtp_captures_message [of "\<lparr>conn_in = mail_script ''a@b'' [''c@d''] [''Hi'', ''.x''], conn_in_err = False,
      conn_sent = [], conn_wok = (\<lambda>_. True)\<rparr>" "''a@b''" "[''c@d'']" "[''Hi'', ''.x'']", OF _ _ _ _ _ _ _ demo_start demo_codec,
      of no_faults]
  by (auto simp: MAX_MESSAGE_BYTES_def stuff_line_def)



end
