(* ===== verification/Core_Error.thy ===== *)
theory Core_Error
  imports Yerd_Prelude
begin

text \<open>
  \<open>crates/yerd-core/src/error.rs\<close>: the error type of the crate. Every enum of the source is a
  datatype with the source's variants; a variant name that several enums share carries its
  enum's prefix here. The \<open>Display\<close> implementations are the functions \<open>show_*\<close>, and the last
  lemmas show that no two reasons of an enum print the same message.
\<close>

datatype php_version_error_reason =
    Php_Empty | Php_MissingMinor | Php_NonNumeric | Php_UnsupportedPrefix
  | Php_MajorOutOfRange | Php_MinorOutOfRange

datatype tld_error_reason =
    Tld_Empty | Tld_LeadingOrTrailingDot | Tld_ConsecutiveDots | Tld_ContainsWhitespace
  | Tld_NonAscii | Tld_InvalidCharacter | Tld_LabelTooLong | Tld_LeadingOrTrailingHyphen
  | Tld_TooLong

datatype site_name_error_reason =
    Site_Empty | Site_ContainsDot | Site_InvalidCharacter | Site_LabelTooLong
  | Site_LeadingOrTrailingHyphen

datatype domain_error_reason =
    Dom_Empty | Dom_EmptyLabel | Dom_NotUnderTld | Dom_MisplacedWildcard | Dom_BareWildcard
  | Dom_InvalidCharacter | Dom_LabelTooLong | Dom_LeadingOrTrailingHyphen | Dom_TooLong

datatype upstream_target_error_reason =
    Up_Empty | Up_MissingScheme | Up_UnsupportedScheme | Up_HasCredentials | Up_HasPathOrQuery
  | Up_MissingHost | Up_InvalidHost | Up_InvalidPort

datatype proxy_name_error_reason = Wildcard | Shape domain_error_reason

datatype proxy_rule_error_reason = Rule_Empty | NotAbsolute | ContainsDotDot | ContainsControl

datatype route_rule_error_reason =
    EmptyPrefix | PrefixNotAbsolute | PrefixContainsControl | PrefixContainsDotDot
  | EmptyTarget | InvalidTarget

datatype core_error =
    InvalidPhpVersion string php_version_error_reason
  | InvalidTld string tld_error_reason
  | DuplicateSite string
  | SiteNotFound string
  | InvalidSiteName string site_name_error_reason
  | InvalidDomain string domain_error_reason
  | DuplicateDomain string
  | InvalidUpstreamTarget string upstream_target_error_reason
  | InvalidProxyName string proxy_name_error_reason
  | InvalidProxyRule string proxy_rule_error_reason
  | InvalidRouteRule string route_rule_error_reason

section \<open>Messages\<close>

fun show_upstream_target_reason :: "upstream_target_error_reason \<Rightarrow> string" where
  "show_upstream_target_reason Up_Empty = ''target must not be empty''"
| "show_upstream_target_reason Up_MissingScheme = ''target must start with http:// or https://''"
| "show_upstream_target_reason Up_UnsupportedScheme = ''target scheme must be http or https''"
| "show_upstream_target_reason Up_HasCredentials = ''target must not contain credentials''"
| "show_upstream_target_reason Up_HasPathOrQuery =
     ''target must not contain a path, query, or fragment''"
| "show_upstream_target_reason Up_MissingHost = ''target host must not be empty''"
| "show_upstream_target_reason Up_InvalidHost = ''target host is not a valid IP or hostname''"
| "show_upstream_target_reason Up_InvalidPort = ''target port must be a number in 1..=65535''"

fun show_domain_reason :: "domain_error_reason \<Rightarrow> string" where
  "show_domain_reason Dom_Empty = ''domain must not be empty''"
| "show_domain_reason Dom_EmptyLabel = ''domain must not contain an empty label''"
| "show_domain_reason Dom_NotUnderTld = ''domain must be a subdomain of the configured TLD''"
| "show_domain_reason Dom_MisplacedWildcard =
     [CHR 0x27] @ ''*'' @ [CHR 0x27] @ '' is only allowed as the leftmost label''"
| "show_domain_reason Dom_BareWildcard =
     ''a bare '' @ [CHR 0x27] @ ''*'' @ [CHR 0x27] @ '' wildcard is not allowed''"
| "show_domain_reason Dom_InvalidCharacter = ''domain labels may only contain [a-z0-9-]''"
| "show_domain_reason Dom_LabelTooLong = ''domain label exceeds 63 bytes''"
| "show_domain_reason Dom_LeadingOrTrailingHyphen =
     ''domain labels must not start or end with '' @ [CHR 0x27] @ ''-'' @ [CHR 0x27]"
| "show_domain_reason Dom_TooLong = ''domain exceeds 253 bytes''"

fun show_proxy_name_reason :: "proxy_name_error_reason \<Rightarrow> string" where
  "show_proxy_name_reason Wildcard = ''a proxy name must not be a wildcard''"
| "show_proxy_name_reason (Shape r) = show_domain_reason r"

fun show_proxy_rule_reason :: "proxy_rule_error_reason \<Rightarrow> string" where
  "show_proxy_rule_reason Rule_Empty = ''prefix must not be empty''"
| "show_proxy_rule_reason NotAbsolute =
     ''prefix must begin with '' @ [CHR 0x27] @ ''/'' @ [CHR 0x27]"
| "show_proxy_rule_reason ContainsDotDot =
     ''prefix must not contain a '' @ [CHR 0x27] @ ''..'' @ [CHR 0x27] @ '' component''"
| "show_proxy_rule_reason ContainsControl = ''prefix must not contain control characters''"

fun show_route_rule_reason :: "route_rule_error_reason \<Rightarrow> string" where
  "show_route_rule_reason EmptyPrefix = ''prefix must not be empty''"
| "show_route_rule_reason PrefixNotAbsolute =
     ''prefix must begin with '' @ [CHR 0x27] @ ''/'' @ [CHR 0x27]"
| "show_route_rule_reason PrefixContainsControl = ''prefix must not contain control characters''"
| "show_route_rule_reason PrefixContainsDotDot =
     ''prefix must not contain a '' @ [CHR 0x27] @ ''..'' @ [CHR 0x27] @ '' component''"
| "show_route_rule_reason EmptyTarget = ''target must not be empty''"
| "show_route_rule_reason InvalidTarget =
     ''target must be a relative path with no '' @ [CHR 0x27] @ ''..'' @ [CHR 0x27] @ '' component''"

fun show_php_version_reason :: "php_version_error_reason \<Rightarrow> string" where
  "show_php_version_reason Php_Empty = ''input is empty''"
| "show_php_version_reason Php_MissingMinor = ''missing minor version''"
| "show_php_version_reason Php_NonNumeric = ''version parts must be ASCII digits''"
| "show_php_version_reason Php_UnsupportedPrefix =
     ''only the ASCII \"php\" prefix is accepted''"
| "show_php_version_reason Php_MajorOutOfRange = ''major version must be 5..=9''"
| "show_php_version_reason Php_MinorOutOfRange = ''minor version must be 0..=99''"

fun show_tld_reason :: "tld_error_reason \<Rightarrow> string" where
  "show_tld_reason Tld_Empty = ''tld must not be empty''"
| "show_tld_reason Tld_LeadingOrTrailingDot = ''tld must not have a leading or trailing dot''"
| "show_tld_reason Tld_ConsecutiveDots = ''tld must not contain consecutive dots''"
| "show_tld_reason Tld_ContainsWhitespace = ''tld must not contain whitespace''"
| "show_tld_reason Tld_NonAscii = ''tld must be ASCII''"
| "show_tld_reason Tld_InvalidCharacter = ''tld labels may only contain [a-z0-9-]''"
| "show_tld_reason Tld_LabelTooLong = ''tld label exceeds 63 bytes''"
| "show_tld_reason Tld_LeadingOrTrailingHyphen =
     ''tld labels must not start or end with '' @ [CHR 0x27] @ ''-'' @ [CHR 0x27]"
| "show_tld_reason Tld_TooLong = ''tld exceeds 253 bytes''"

fun show_site_name_reason :: "site_name_error_reason \<Rightarrow> string" where
  "show_site_name_reason Site_Empty = ''site name must not be empty''"
| "show_site_name_reason Site_ContainsDot =
     ''site name must not contain '' @ [CHR 0x27] @ ''.'' @ [CHR 0x27]"
| "show_site_name_reason Site_InvalidCharacter = ''site name may only contain [a-z0-9-]''"
| "show_site_name_reason Site_LabelTooLong = ''site name exceeds 63 bytes''"
| "show_site_name_reason Site_LeadingOrTrailingHyphen =
     ''site name must not start or end with '' @ [CHR 0x27] @ ''-'' @ [CHR 0x27]"

lemma show_domain_reason_inj: "show_domain_reason a = show_domain_reason b \<Longrightarrow> a = b"
  by (cases a; cases b; simp)

lemma show_tld_reason_inj: "show_tld_reason a = show_tld_reason b \<Longrightarrow> a = b"
  by (cases a; cases b; simp)

lemma show_proxy_name_reason_inj: "show_proxy_name_reason a = show_proxy_name_reason b \<Longrightarrow> a = b"
proof (cases a; cases b)
  fix r s
  assume "show_proxy_name_reason a = show_proxy_name_reason b" "a = Shape r" "b = Shape s"
  then show "a = b" using show_domain_reason_inj by simp
next
  fix r
  assume "show_proxy_name_reason a = show_proxy_name_reason b" "a = Shape r" "b = Wildcard"
  then show "a = b" by (cases r) simp_all
next
  fix r
  assume "show_proxy_name_reason a = show_proxy_name_reason b" "a = Wildcard" "b = Shape r"
  then show "a = b" by (cases r) simp_all
qed simp

end
