(* ===== verification/Dns_Label.thy ===== *)
theory Dns_Label
  imports Rust_Str Core_Error
begin

text \<open>
  The shape of a DNS label, the specification the four name validators of \<open>yerd-core\<close> (TLD, site
  name, domain sub-part, proxy name) are proved against, and the contract \<open>canonical_name\<close> they
  share: a validator returns a canonical form, and accepts each canonical form unchanged. Stored
  names are therefore stable under re-validation.
\<close>

section \<open>Labels\<close>

definition is_ldh :: "char \<Rightarrow> bool" where
  "is_ldh c \<longleftrightarrow> is_ascii_lowercase c \<or> is_ascii_digit c \<or> c = CHR ''-''"

definition dns_label :: "string \<Rightarrow> bool" where
  "dns_label l \<longleftrightarrow>
     l \<noteq> [] \<and> length l \<le> 63 \<and> list_all is_ldh l \<and> hd l \<noteq> CHR ''-'' \<and> last l \<noteq> CHR ''-''"

lemma is_ldh_ascii: "is_ldh c \<Longrightarrow> is_ascii c"
  by (auto simp: is_ldh_def byte_class_defs)

lemma is_ldh_not_upper: "is_ldh c \<Longrightarrow> \<not> is_ascii_uppercase c"
  by (auto simp: is_ldh_def byte_class_defs)

lemma is_ldh_not_space: "is_ldh c \<Longrightarrow> \<not> is_ascii_whitespace c"
  by (auto simp: is_ldh_def byte_class_defs is_ascii_whitespace_def)

lemma is_ldh_specials [simp]:
  "\<not> is_ldh (CHR ''.'')" "\<not> is_ldh (CHR ''*'')" "\<not> is_ldh (CHR '':'')" "\<not> is_ldh (CHR ''['')"
  by (simp_all add: is_ldh_def byte_class_defs)

lemma is_ldh_lower_byte: "is_ldh c \<Longrightarrow> lower_byte c = c"
  by (rule lower_byte_id) (rule is_ldh_not_upper)

lemma list_all_lowercase_id: "list_all is_ldh l \<Longrightarrow> to_ascii_lowercase l = l"
  by (rule to_ascii_lowercase_id) (auto simp: list_all_iff is_ldh_not_upper)

lemma dns_label_lowercase: "dns_label l \<Longrightarrow> to_ascii_lowercase l = l"
  by (simp add: dns_label_def list_all_lowercase_id)

lemma dns_label_no_dot: "dns_label l \<Longrightarrow> CHR ''.'' \<notin> set l"
  by (auto simp: dns_label_def list_all_iff)

lemma dns_label_no_star: "dns_label l \<Longrightarrow> CHR ''*'' \<notin> set l"
  by (auto simp: dns_label_def list_all_iff)

section \<open>Dotted names\<close>

definition dns_name :: "string \<Rightarrow> bool" where
  "dns_name s \<longleftrightarrow> (\<forall>l \<in> set (split_on (CHR ''.'') s). dns_label l)"

lemma dns_name_byte: "dns_name s \<Longrightarrow> c \<in> set s \<Longrightarrow> c = CHR ''.'' \<or> is_ldh c"
  using set_split_on [of c s "CHR ''.''"] by (force simp: dns_name_def dns_label_def list_all_iff)

lemma dns_name_not_Nil: "dns_name s \<Longrightarrow> s \<noteq> []"
  by (auto simp: dns_name_def dns_label_def)

lemma dns_name_lowercase: "dns_name s \<Longrightarrow> to_ascii_lowercase s = s"
  by (rule to_ascii_lowercase_id)
    (auto dest!: dns_name_byte simp: is_ldh_not_upper is_ascii_uppercase_def [of "CHR ''.''"])

lemma dns_name_ascii: "dns_name s \<Longrightarrow> c \<in> set s \<Longrightarrow> is_ascii c"
  by (auto dest!: dns_name_byte simp: is_ldh_ascii is_ascii_def [of "CHR ''.''"])

lemma dns_name_no_star: "dns_name s \<Longrightarrow> CHR ''*'' \<notin> set s"
  by (auto dest!: dns_name_byte)

lemma dns_label_dns_name: "dns_label l \<Longrightarrow> dns_name l"
  by (simp add: dns_name_def split_on_notin dns_label_no_dot)

lemma split_on_hd_sep: "s \<noteq> [] \<Longrightarrow> hd s = c \<Longrightarrow> [] \<in> set (split_on c s)"
  by (cases s) auto

lemma split_on_last_sep: "s \<noteq> [] \<Longrightarrow> last s = c \<Longrightarrow> [] \<in> set (split_on c s)"
  by (cases s rule: rev_cases) (auto simp: split_on_append_general)

lemma dns_name_edges:
  "dns_name s \<Longrightarrow> hd s \<noteq> CHR ''.'' \<and> last s \<noteq> CHR ''.''"
  using split_on_hd_sep [of s "CHR ''.''"] split_on_last_sep [of s "CHR ''.''"]
    dns_name_not_Nil [of s]
  by (auto simp: dns_name_def dns_label_def)

section \<open>The validator contract\<close>

locale canonical_name =
  fixes validate :: "string \<Rightarrow> (core_error, string) result"
    and shape :: "string \<Rightarrow> bool"
  assumes sound: "validate s = Ok t \<Longrightarrow> shape t"
    and accepts: "shape t \<Longrightarrow> validate t = Ok t"
    and folds_case: "validate s = Ok t \<Longrightarrow> to_ascii_lowercase t = t"
begin

lemma revalidates: "validate s = Ok t \<Longrightarrow> validate t = Ok t"
  by (rule accepts) (rule sound)

lemma range_iff: "(\<exists>s. validate s = Ok t) \<longleftrightarrow> shape t"
  using sound accepts by blast

lemma canonical_unique: "validate s = Ok t \<Longrightarrow> validate t = Ok u \<Longrightarrow> u = t"
  using revalidates by (metis result.inject(2))

end

end
