(* ===== verification/Php_Version.thy ===== *)
theory Php_Version
  imports Rust_Str Core_Error "HOL-Library.Word"
begin

text \<open>
  \<open>crates/yerd-core/src/php.rs\<close>: a PHP \<open>major.minor\<close> pair of \<open>u8\<close> fields, its parser
  (\<open>FromStr\<close>), its \<open>Display\<close>, its derived order and the legacy predicate every guardrail keys on.
\<close>

datatype php_version = PhpVersion (major: u8) (minor: u8)

text \<open>The source derives \<open>Ord\<close>: lexicographic in the order of the fields.\<close>

instantiation php_version :: linorder
begin

definition less_eq_php_version :: "php_version \<Rightarrow> php_version \<Rightarrow> bool" where
  "less_eq_php_version a b \<longleftrightarrow> major a < major b \<or> (major a = major b \<and> minor a \<le> minor b)"

definition less_php_version :: "php_version \<Rightarrow> php_version \<Rightarrow> bool" where
  "less_php_version a b \<longleftrightarrow> major a < major b \<or> (major a = major b \<and> minor a < minor b)"

instance
  by intro_classes (auto simp: less_eq_php_version_def less_php_version_def php_version.expand)

end

definition FIRST_SUPPORTED_MINOR :: php_version where
  "FIRST_SUPPORTED_MINOR = PhpVersion 8 2"

definition is_legacy :: "php_version \<Rightarrow> bool" where
  "is_legacy v \<longleftrightarrow>
     major v < major FIRST_SUPPORTED_MINOR
     \<or> (major v = major FIRST_SUPPORTED_MINOR \<and> minor v < minor FIRST_SUPPORTED_MINOR)"

definition show_php_version :: "php_version \<Rightarrow> string" where
  "show_php_version v = show_nat (unat (major v)) @ ''.'' @ show_nat (unat (minor v))"

section \<open>Parsing\<close>

text \<open>The part after an optional, case-insensitive \<open>php\<close> prefix.\<close>

definition php_version_rest :: "string \<Rightarrow> (php_version_error_reason, string) result" where
  "php_version_rest input =
     (case input of
        [] \<Rightarrow> Err Php_Empty
      | b # _ \<Rightarrow>
          if \<not> is_ascii b then Err Php_UnsupportedPrefix
          else if is_ascii_alphabetic b then
            (if length input \<ge> 3 \<and> eq_ignore_ascii_case (take 3 input) ''php'' then
               (case drop 3 input of
                  c # _ \<Rightarrow> if is_ascii_alphabetic c then Err Php_UnsupportedPrefix
                          else Ok (drop 3 input)
                | [] \<Rightarrow> Ok [])
             else Err Php_UnsupportedPrefix)
          else Ok input)"

definition php_version_numbers :: "string \<Rightarrow> (php_version_error_reason, php_version) result" where
  "php_version_numbers rest =
     (case split_once (CHR ''.'') rest of
        None \<Rightarrow> Err Php_MissingMinor
      | Some (major_str, minor_str) \<Rightarrow>
          if major_str = [] \<or> minor_str = [] \<or> \<not> list_all is_ascii_digit major_str
             \<or> \<not> list_all is_ascii_digit minor_str
          then Err Php_NonNumeric
          else (case parse_uint u16_max major_str of
              None \<Rightarrow> Err Php_NonNumeric
            | Some mj \<Rightarrow>
                (case parse_uint u16_max minor_str of
                   None \<Rightarrow> Err Php_NonNumeric
                 | Some mn \<Rightarrow>
                     if \<not> (5 \<le> mj \<and> mj \<le> 9) then Err Php_MajorOutOfRange
                     else if mn > 99 then Err Php_MinorOutOfRange
                     else Ok (PhpVersion (word_of_nat mj) (word_of_nat mn)))))"

definition php_version_from_str :: "string \<Rightarrow> (core_error, php_version) result" where
  "php_version_from_str input =
     map_err (InvalidPhpVersion input) (and_then (php_version_rest input) php_version_numbers)"

section \<open>Correctness\<close>

definition php_version_in_range :: "php_version \<Rightarrow> bool" where
  "php_version_in_range v \<longleftrightarrow> 5 \<le> unat (major v) \<and> unat (major v) \<le> 9 \<and> unat (minor v) \<le> 99"

lemma unat_word_of_nat_u8: "n < 256 \<Longrightarrow> unat (word_of_nat n :: u8) = n"
  by (simp add: unat_of_nat take_bit_eq_mod)

lemma is_ascii_digit_not_alphabetic: "is_ascii_digit c \<Longrightarrow> is_ascii c \<and> \<not> is_ascii_alphabetic c"
  by (auto simp: byte_class_defs)

lemma digits_no_dot: "list_all is_ascii_digit s \<Longrightarrow> CHR ''.'' \<notin> set s"
  by (auto simp: list_all_iff is_ascii_digit_def)

lemma php_version_numbers_show:
  assumes "php_version_in_range v"
  shows "php_version_numbers (show_php_version v) = Ok v"
proof -
  let ?mj = "unat (major v)" and ?mn = "unat (minor v)"
  have "split_once (CHR ''.'') (show_php_version v) = Some (show_nat ?mj, show_nat ?mn)"
    by (simp add: show_php_version_def split_once_Some_iff digits_no_dot show_nat_digits)
  then show ?thesis
    using assms
    by (simp add: php_version_numbers_def show_nat_digits parse_uint_show_nat
        php_version_in_range_def)
qed

lemma php_version_rest_digit:
  assumes "s \<noteq> []" "is_ascii_digit (hd s)"
  shows "php_version_rest s = Ok s"
  using assms is_ascii_digit_not_alphabetic [of "hd s"]
  by (cases s) (auto simp: php_version_rest_def)

lemma hd_show_nat_digit: "is_ascii_digit (hd (show_nat n))"
  using show_nat_digits [of n] show_nat_not_Nil [of n] by (cases "show_nat n") auto

lemma show_php_version_hd: "show_php_version v \<noteq> [] \<and> is_ascii_digit (hd (show_php_version v))"
  by (simp add: show_php_version_def hd_show_nat_digit)

lemma php_prefix_rest:
  assumes "eq_ignore_ascii_case p ''php''" "r = [] \<or> \<not> is_ascii_alphabetic (hd r)"
  shows "php_version_rest (p @ r) = Ok r"
proof -
  have len: "length p = 3"
    using arg_cong [OF assms(1) [unfolded eq_ignore_ascii_case_def], of length] by simp
  then obtain a b c where p: "p = [a, b, c]"
    by (auto simp: numeral_3_eq_3 length_Suc_conv)
  have "lower_byte a = lower_byte (CHR ''p'')"
    using assms(1) p by (simp add: eq_ignore_ascii_case_def)
  moreover have "is_ascii_lowercase (lower_byte (CHR ''p''))"
    by code_simp
  ultimately have "is_ascii_alphabetic a"
    by (simp add: lower_byte_letter)
  then have "is_ascii a" "is_ascii_alphabetic a"
    by (simp_all add: is_ascii_alphabetic_ascii)
  with p assms show ?thesis
    by (auto simp: php_version_rest_def split: list.splits)
qed

text \<open>
  An in-range version prints to a string that parses back to it, with or without a \<open>php\<close> prefix
  in any letter case.
\<close>

theorem php_version_roundtrip:
  assumes "php_version_in_range v"
  shows "php_version_from_str (show_php_version v) = Ok v
    \<and> (\<forall>p. eq_ignore_ascii_case p ''php'' \<longrightarrow> php_version_from_str (p @ show_php_version v) = Ok v)"
  using php_version_numbers_show [OF assms] show_php_version_hd [of v]
    is_ascii_digit_not_alphabetic [of "hd (show_php_version v)"]
  by (simp add: php_version_from_str_def php_version_rest_digit php_prefix_rest)

theorem php_version_roundtrip_witness:
  "php_version_from_str (''PhP'' @ show_php_version (PhpVersion 8 3)) = Ok (PhpVersion 8 3)"
proof -
  have r: "php_version_in_range (PhpVersion 8 3)" by code_simp
  have e: "eq_ignore_ascii_case ''PhP'' ''php''" by code_simp
  from php_version_roundtrip [OF r] e show ?thesis by blast
qed

lemma php_version_numbers_range:
  assumes "php_version_numbers r = Ok v"
  shows "php_version_in_range v"
  using assms
  by (auto simp: php_version_numbers_def php_version_in_range_def unat_word_of_nat_u8
      split: option.splits if_splits)

text \<open>Whatever parses is in range: the casts to \<open>u8\<close> never truncate.\<close>

theorem php_version_from_str_range:
  assumes "php_version_from_str s = Ok v"
  shows "php_version_in_range v"
  using assms php_version_numbers_range by (auto simp: php_version_from_str_def and_then_Ok_iff)

theorem php_version_from_str_range_witness: "php_version_in_range (PhpVersion 8 10)"
proof -
  have "php_version_from_str ''8.10'' = Ok (PhpVersion 8 10)" by code_simp
  then show ?thesis by (rule php_version_from_str_range)
qed

text \<open>The legacy predicate is the derived order: exactly the versions below 8.2.\<close>

theorem is_legacy_iff_less: "is_legacy v \<longleftrightarrow> v < FIRST_SUPPORTED_MINOR"
  by (simp add: is_legacy_def less_php_version_def)

end
