(* ===== verification/Site.thy ===== *)
theory Site
  imports Dns_Label Unix_Path Php_Version
begin

text \<open>
  \<open>crates/yerd-core/src/site.rs\<close>: the site record, its constructors and setters, the site-name
  validator and slugger, the containment of the served root, and the \<open>serde\<close> form of a site.
\<close>

section \<open>The record\<close>

datatype site_kind = Parked | Linked

record site =
  site_name :: string
  document_root :: path
  web_subpath :: path
  site_php :: php_version
  site_secure :: bool
  kind :: site_kind
  wp_auto_login :: bool
  wp_auto_login_user :: "string option"
  front_controller :: "bool option"

definition validate_and_lowercase_name :: "string \<Rightarrow> (core_error, string) result" where
  "validate_and_lowercase_name raw =
     (if raw = [] then Err (InvalidSiteName raw Site_Empty)
      else if CHR ''.'' \<in> set raw then Err (InvalidSiteName raw Site_ContainsDot)
      else if \<exists>b \<in> set raw. \<not> is_ascii b \<or> \<not> (is_ascii_alphanumeric b \<or> b = CHR ''-'')
        then Err (InvalidSiteName raw Site_InvalidCharacter)
      else
        let lowered = to_ascii_lowercase raw
        in if starts_with ''-'' lowered \<or> ends_with ''-'' lowered
             then Err (InvalidSiteName raw Site_LeadingOrTrailingHyphen)
           else if length lowered > 63 then Err (InvalidSiteName raw Site_LabelTooLong)
           else Ok lowered)"

definition new_site :: "site_kind \<Rightarrow> string \<Rightarrow> path \<Rightarrow> php_version \<Rightarrow> site" where
  "new_site k name root php =
     \<lparr>site_name = name, document_root = root, web_subpath = [], site_php = php,
      site_secure = False, kind = k, wp_auto_login = False, wp_auto_login_user = None,
      front_controller = None\<rparr>"

definition site_parked :: "string \<Rightarrow> path \<Rightarrow> php_version \<Rightarrow> (core_error, site) result" where
  "site_parked name root php =
     (case validate_and_lowercase_name name of
        Err e \<Rightarrow> Err e | Ok n \<Rightarrow> Ok (new_site Parked n root php))"

definition site_linked :: "string \<Rightarrow> path \<Rightarrow> php_version \<Rightarrow> (core_error, site) result" where
  "site_linked name root php =
     (case validate_and_lowercase_name name of
        Err e \<Rightarrow> Err e | Ok n \<Rightarrow> Ok (new_site Linked n root php))"

text \<open>
  Every component of the path is plain: no root, no \<open>..\<close>. On Unix there is no drive prefix.
\<close>

definition is_safe_relative :: "path \<Rightarrow> bool" where
  "is_safe_relative p \<longleftrightarrow>
     list_all (\<lambda>c. case c of Normal _ \<Rightarrow> True | CurDir \<Rightarrow> True | _ \<Rightarrow> False) (path_components p)"

definition served_root :: "site \<Rightarrow> path" where
  "served_root s =
     (if web_subpath s = [] \<or> \<not> is_safe_relative (web_subpath s) then document_root s
      else path_join (document_root s) (web_subpath s))"

definition uses_front_controller :: "site \<Rightarrow> bool \<Rightarrow> bool" where
  "uses_front_controller s is_wordpress =
     (case front_controller s of
        Some b \<Rightarrow> b | None \<Rightarrow> \<not> is_wordpress \<and> web_subpath s \<noteq> [])"

definition set_document_root :: "path \<Rightarrow> site \<Rightarrow> site" where
  "set_document_root p s = s\<lparr>document_root := p\<rparr>"

definition set_web_subpath :: "path \<Rightarrow> site \<Rightarrow> site" where
  "set_web_subpath p s = s\<lparr>web_subpath := p\<rparr>"

definition set_php :: "php_version \<Rightarrow> site \<Rightarrow> site" where
  "set_php v s = s\<lparr>site_php := v\<rparr>"

definition set_site_secure :: "bool \<Rightarrow> site \<Rightarrow> site" where
  "set_site_secure b s = s\<lparr>site_secure := b\<rparr>"

definition set_kind :: "site_kind \<Rightarrow> site \<Rightarrow> site" where
  "set_kind k s = s\<lparr>kind := k\<rparr>"

definition set_wp_auto_login :: "bool \<Rightarrow> site \<Rightarrow> site" where
  "set_wp_auto_login b s = s\<lparr>wp_auto_login := b\<rparr>"

definition set_wp_auto_login_user :: "string option \<Rightarrow> site \<Rightarrow> site" where
  "set_wp_auto_login_user u s = s\<lparr>wp_auto_login_user := u\<rparr>"

definition set_front_controller :: "bool option \<Rightarrow> site \<Rightarrow> site" where
  "set_front_controller b s = s\<lparr>front_controller := b\<rparr>"

section \<open>Names from arbitrary strings\<close>

text \<open>The loop over \<open>raw.chars()\<close>; a character is the list of its bytes.\<close>

fun slug_chars :: "string \<Rightarrow> string list \<Rightarrow> string" where
  "slug_chars out [] = out"
| "slug_chars out (ch # rest) =
     (case ch of
        [b] \<Rightarrow>
          if is_ascii_alphanumeric b then slug_chars (out @ [lower_byte b]) rest
          else if out \<noteq> [] \<and> \<not> ends_with ''-'' out then slug_chars (out @ ''-'') rest
          else slug_chars out rest
      | _ \<Rightarrow>
          if out \<noteq> [] \<and> \<not> ends_with ''-'' out then slug_chars (out @ ''-'') rest
          else slug_chars out rest)"

text \<open>\<open>while out.ends_with('-') { out.pop(); }\<close>\<close>

definition pop_hyphens :: "string \<Rightarrow> string" where
  "pop_hyphens out = rev (dropWhile (\<lambda>c. c = CHR ''-'') (rev out))"

definition slugify_site_name :: "string \<Rightarrow> string option" where
  "slugify_site_name raw =
     (let out = pop_hyphens (slug_chars [] (utf8_chars raw))
      in if out = [] then None
         else
           let out = (if length (utf8_chars out) > 63
                      then pop_hyphens (concat (take 63 (utf8_chars out))) else out)
           in if out = [] then None else Some out)"

definition normalize_site_name :: "string \<Rightarrow> string option" where
  "normalize_site_name raw =
     (case validate_and_lowercase_name raw of Ok name \<Rightarrow> Some name | Err _ \<Rightarrow> slugify_site_name raw)"

section \<open>The serialised form\<close>

text \<open>
  The fields \<open>Serialize\<close> emits and the \<open>Wire\<close> struct of \<open>Deserialize\<close> reads: the fields with
  \<open>#[serde(default)]\<close> are \<open>None\<close> when absent. The data format itself is \<open>serde\<close>'s.
\<close>

record site_wire =
  wire_name :: string
  wire_document_root :: path
  wire_web_subpath :: "path option"
  wire_php :: php_version
  wire_secure :: bool
  wire_kind :: site_kind
  wire_wp_auto_login :: "bool option"
  wire_wp_auto_login_user :: "string option"
  wire_front_controller :: "bool option"

definition site_serialize :: "site \<Rightarrow> site_wire" where
  "site_serialize s =
     \<lparr>wire_name = site_name s,
      wire_document_root = document_root s,
      wire_web_subpath = (if web_subpath s \<noteq> [] then Some (web_subpath s) else None),
      wire_php = site_php s,
      wire_secure = site_secure s,
      wire_kind = kind s,
      wire_wp_auto_login = (if wp_auto_login s then Some (wp_auto_login s) else None),
      wire_wp_auto_login_user = wp_auto_login_user s,
      wire_front_controller = front_controller s\<rparr>"

definition site_deserialize :: "site_wire \<Rightarrow> (core_error, site) result" where
  "site_deserialize w =
     (case validate_and_lowercase_name (wire_name w) of
        Err e \<Rightarrow> Err e
      | Ok name \<Rightarrow> Ok
          \<lparr>site_name = name,
           document_root = wire_document_root w,
           web_subpath = (case wire_web_subpath w of Some p \<Rightarrow> p | None \<Rightarrow> []),
           site_php = wire_php w,
           site_secure = wire_secure w,
           kind = wire_kind w,
           wp_auto_login = (case wire_wp_auto_login w of Some b \<Rightarrow> b | None \<Rightarrow> False),
           wp_auto_login_user = wire_wp_auto_login_user w,
           front_controller = wire_front_controller w\<rparr>)"

section \<open>Site names\<close>

lemma alnum_hyphen_ldh:
  "is_ascii_alphanumeric b \<or> b = CHR ''-'' \<Longrightarrow> is_ldh (lower_byte b)"
  using lower_byte_alnum [of b] by (auto simp: is_ldh_def lower_byte_eq_nonletter)

lemma is_ldh_name_byte: "is_ldh b \<Longrightarrow> is_ascii_alphanumeric b \<or> b = CHR ''-''"
  by (auto simp: is_ldh_def is_ascii_alphanumeric_def is_ascii_alphabetic_def)

lemma validate_name_sound:
  assumes "validate_and_lowercase_name s = Ok t"
  shows "dns_label t \<and> t = to_ascii_lowercase s"
proof -
  have t: "t = to_ascii_lowercase s" and ne: "s \<noteq> []" and len: "length t \<le> 63"
    and bytes: "\<forall>b \<in> set s. is_ascii_alphanumeric b \<or> b = CHR ''-''"
    and edges: "\<not> starts_with ''-'' t" "\<not> ends_with ''-'' t"
    using assms by (auto simp: validate_and_lowercase_name_def Let_def split: if_splits)
  have "list_all is_ldh t"
    using t bytes by (auto simp: to_ascii_lowercase_def list_all_iff intro: alnum_hyphen_ldh)
  then show ?thesis
    using t ne len edges
    by (auto simp: dns_label_def starts_with_singleton ends_with_singleton)
qed

lemma validate_name_accepts: "dns_label t \<Longrightarrow> validate_and_lowercase_name t = Ok t"
  using dns_label_no_dot [of t] dns_label_lowercase [of t]
  by (auto simp: validate_and_lowercase_name_def Let_def dns_label_def list_all_iff
      starts_with_singleton ends_with_singleton is_ldh_ascii dest: is_ldh_name_byte)

interpretation site_name: canonical_name validate_and_lowercase_name dns_label
proof unfold_locales
  fix s t
  assume "validate_and_lowercase_name s = Ok t"
  then show "dns_label t"
    using validate_name_sound by blast
  then show "to_ascii_lowercase t = t"
    by (rule dns_label_lowercase)
qed (rule validate_name_accepts)

section \<open>Slugs\<close>

text \<open>What the loop builds: label bytes, no hyphen first, no two hyphens in a row.\<close>

definition slug_ok :: "string \<Rightarrow> bool" where
  "slug_ok out \<longleftrightarrow> list_all is_ldh out \<and> \<not> starts_with ''-'' out
     \<and> successively (\<lambda>a b. \<not> (a = CHR ''-'' \<and> b = CHR ''-'')) out"

lemma slug_ok_Nil [simp]: "slug_ok []"
  by (simp add: slug_ok_def starts_with_singleton)

lemma slug_ok_snoc:
  "slug_ok out \<Longrightarrow> is_ldh c \<Longrightarrow> c \<noteq> CHR ''-'' \<or> (out \<noteq> [] \<and> last out \<noteq> CHR ''-'')
     \<Longrightarrow> slug_ok (out @ [c])"
  by (auto simp: slug_ok_def starts_with_singleton successively_append_iff hd_append)

lemma lower_byte_alnum_not_hyphen: "is_ascii_alphanumeric b \<Longrightarrow> lower_byte b \<noteq> CHR ''-''"
  by (auto simp: lower_byte_eq_nonletter is_ascii_alphanumeric_def is_ascii_digit_def)

lemma slug_ok_snoc_alnum:
  "slug_ok out \<Longrightarrow> is_ascii_alphanumeric b \<Longrightarrow> slug_ok (out @ [lower_byte b])"
  by (simp add: slug_ok_snoc alnum_hyphen_ldh lower_byte_alnum_not_hyphen)

lemma slug_ok_snoc_hyphen:
  "slug_ok out \<Longrightarrow> out \<noteq> [] \<Longrightarrow> \<not> ends_with ''-'' out \<Longrightarrow> slug_ok (out @ ''-'')"
  by (simp add: slug_ok_snoc ends_with_singleton is_ldh_def)

lemma slug_chars_ok: "slug_ok out \<Longrightarrow> slug_ok (slug_chars out cs)"
proof (induction out cs rule: slug_chars.induct)
  case (2 out ch rest)
  then show ?case
    by (auto simp: slug_ok_snoc_alnum slug_ok_snoc_hyphen split: list.splits)
qed simp

lemma slug_ok_prefix: "slug_ok (a @ b) \<Longrightarrow> slug_ok a"
  by (auto simp: slug_ok_def starts_with_singleton successively_append_iff)

lemma pop_hyphens_prefix: "\<exists>r. out = pop_hyphens out @ r"
proof -
  have "rev out = takeWhile (\<lambda>c. c = CHR ''-'') (rev out) @ dropWhile (\<lambda>c. c = CHR ''-'') (rev out)"
    by simp
  then have "out = pop_hyphens out @ rev (takeWhile (\<lambda>c. c = CHR ''-'') (rev out))"
    by (metis pop_hyphens_def rev_append rev_rev_ident)
  then show ?thesis by blast
qed

lemma pop_hyphens_ok: "slug_ok out \<Longrightarrow> slug_ok (pop_hyphens out)"
  using pop_hyphens_prefix [of out] slug_ok_prefix by metis

lemma pop_hyphens_last: "pop_hyphens out \<noteq> [] \<Longrightarrow> last (pop_hyphens out) \<noteq> CHR ''-''"
  using hd_dropWhile [of "\<lambda>c. c = CHR ''-''" "rev out"] by (simp add: pop_hyphens_def last_rev)

lemma length_pop_hyphens: "length (pop_hyphens out) \<le> length out"
  by (simp add: pop_hyphens_def) (metis length_dropWhile_le length_rev)

lemma slug_ok_ascii: "slug_ok out \<Longrightarrow> utf8_chars out = map (\<lambda>c. [c]) out"
  by (rule utf8_chars_ascii) (auto simp: slug_ok_def list_all_iff is_ldh_ascii)

lemma slug_ok_label:
  "slug_ok out \<Longrightarrow> out \<noteq> [] \<Longrightarrow> last out \<noteq> CHR ''-'' \<Longrightarrow> length out \<le> 63 \<Longrightarrow> dns_label out"
  by (auto simp: slug_ok_def dns_label_def starts_with_singleton)

lemma concat_singletons: "concat (map (\<lambda>c. [c]) s) = s"
  by (induction s) auto

lemma pop_hyphens_Nil_iff: "slug_ok out \<Longrightarrow> pop_hyphens out = [] \<longleftrightarrow> out = []"
proof (cases out)
  case (Cons c cs)
  assume "slug_ok out"
  then have "c \<noteq> CHR ''-''"
    using Cons by (simp add: slug_ok_def starts_with_singleton)
  then show ?thesis
    using Cons by (auto simp: pop_hyphens_def)
qed (simp add: pop_hyphens_def)

lemma slug_chars_step:
  "slug_chars out (ch # rest) =
     (if length ch = 1 \<and> is_ascii_alphanumeric (hd ch) then slug_chars (out @ [lower_byte (hd ch)]) rest
      else if out \<noteq> [] \<and> \<not> ends_with ''-'' out then slug_chars (out @ ''-'') rest
      else slug_chars out rest)"
  by (auto split: list.split)

lemma slug_chars_keeps: "out \<noteq> [] \<Longrightarrow> slug_chars out cs \<noteq> []"
  by (induction cs arbitrary: out) (simp_all add: slug_chars_step del: slug_chars.simps(2))

lemma slug_chars_Nil_iff:
  "slug_chars [] cs = [] \<longleftrightarrow> (\<forall>b. [b] \<in> set cs \<longrightarrow> \<not> is_ascii_alphanumeric b)"
proof (induction cs)
  case (Cons ch cs)
  have "(\<exists>b. ch = [b] \<and> is_ascii_alphanumeric b) \<longleftrightarrow> length ch = 1 \<and> is_ascii_alphanumeric (hd ch)"
    by (cases ch) auto
  with Cons show ?case
    by (auto simp: slug_chars_step slug_chars_keeps simp del: slug_chars.simps(2))
qed simp

lemma singleton_char_iff:
  "is_ascii_alphanumeric b \<Longrightarrow> [b] \<in> set (utf8_chars raw) \<longleftrightarrow> b \<in> set raw"
proof
  assume "[b] \<in> set (utf8_chars raw)"
  then have "b \<in> set (concat (utf8_chars raw))"
    unfolding set_concat by force
  then show "b \<in> set raw" by simp
next
  assume "is_ascii_alphanumeric b" "b \<in> set raw"
  then show "[b] \<in> set (utf8_chars raw)"
    by (intro utf8_chars_ascii_byte) (auto simp: byte_class_defs)
qed

definition slug_stem :: "string \<Rightarrow> string" where
  "slug_stem raw = pop_hyphens (slug_chars [] (utf8_chars raw))"

lemma slug_stem_ok: "slug_ok (slug_stem raw)"
  by (simp add: slug_stem_def pop_hyphens_ok slug_chars_ok)

lemma slug_stem_Nil_iff: "slug_stem raw = [] \<longleftrightarrow> (\<forall>b \<in> set raw. \<not> is_ascii_alphanumeric b)"
  using singleton_char_iff [of _ raw]
  by (auto simp: slug_stem_def pop_hyphens_Nil_iff slug_chars_ok slug_chars_Nil_iff)

lemma slugify_stem:
  "slugify_site_name raw =
     (if slug_stem raw = [] then None
      else Some (if length (slug_stem raw) > 63 then pop_hyphens (take 63 (slug_stem raw))
                 else slug_stem raw))"
proof -
  let ?s = "slug_stem raw"
  have "slug_ok (take 63 ?s)"
    using slug_ok_prefix [of "take 63 ?s" "drop 63 ?s"] slug_stem_ok by simp
  then have ne: "?s \<noteq> [] \<Longrightarrow> pop_hyphens (take 63 ?s) \<noteq> []"
    by (simp add: pop_hyphens_Nil_iff)
  have ch: "utf8_chars ?s = map (\<lambda>c. [c]) ?s"
    by (rule slug_ok_ascii) (rule slug_stem_ok)
  have sl: "slugify_site_name raw =
      (if ?s = [] then None
       else let out = (if length (utf8_chars ?s) > 63
                       then pop_hyphens (concat (take 63 (utf8_chars ?s))) else ?s)
            in if out = [] then None else Some out)"
    by (simp only: slugify_site_name_def slug_stem_def Let_def)
  have len: "length (utf8_chars ?s) = length ?s"
    and cut: "concat (take 63 (utf8_chars ?s)) = take 63 ?s"
    unfolding ch by (simp_all add: take_map concat_singletons)
  show ?thesis
    unfolding sl len cut Let_def using ne by auto
qed

lemma slugify_facts:
  assumes "slugify_site_name raw = Some n"
  shows "dns_label n \<and> slug_ok n"
proof -
  let ?s = "slug_stem raw"
  have pre: "slug_ok (take 63 ?s)"
    using slug_ok_prefix [of "take 63 ?s" "drop 63 ?s"] slug_stem_ok by simp
  have "last ?s \<noteq> CHR ''-''" if "?s \<noteq> []"
    using that pop_hyphens_last unfolding slug_stem_def by blast
  moreover have "length (pop_hyphens (take 63 ?s)) \<le> 63"
    using length_pop_hyphens [of "take 63 ?s"] by simp
  ultimately show ?thesis
    using assms slug_stem_ok [of raw] pre
    by (auto simp: slugify_stem pop_hyphens_ok pop_hyphens_Nil_iff pop_hyphens_last intro!: slug_ok_label
        split: if_splits)
qed

lemma slugify_None_iff:
  "slugify_site_name raw = None \<longleftrightarrow> (\<forall>b \<in> set raw. \<not> is_ascii_alphanumeric b)"
  by (simp add: slugify_stem slug_stem_Nil_iff)

lemma normalize_facts:
  "normalize_site_name raw = Some n \<Longrightarrow> dns_label n"
  by (auto simp: normalize_site_name_def dest: validate_name_sound slugify_facts split: result.splits)

lemma dns_label_has_alnum: "dns_label n \<Longrightarrow> is_ascii_alphanumeric (hd n)"
  using is_ldh_name_byte [of "hd n"] by (cases n) (auto simp: dns_label_def)

lemma validate_name_alnum:
  assumes "validate_and_lowercase_name raw = Ok n"
  shows "\<exists>b \<in> set raw. is_ascii_alphanumeric b"
proof -
  have n: "dns_label n" "n = to_ascii_lowercase raw"
    using validate_name_sound [OF assms] by auto
  then obtain c cs where raw: "raw = c # cs"
    by (cases raw) (auto simp: dns_label_def)
  have "c \<noteq> CHR ''-''"
    using n raw by (auto simp: dns_label_def lower_byte_eq_nonletter)
  moreover have "is_ascii_alphanumeric c \<or> c = CHR ''-''"
    using assms raw by (auto simp: validate_and_lowercase_name_def Let_def split: if_splits)
  ultimately show ?thesis using raw by simp
qed

text \<open>
  Any directory name that has an ASCII letter or digit yields a site name, the yielded name is
  a valid DNS label that the site-name validator accepts unchanged, and a name with no letter and
  no digit yields none.
\<close>

theorem normalize_site_name_valid:
  "(case normalize_site_name raw of
      Some n \<Rightarrow> dns_label n \<and> validate_and_lowercase_name n = Ok n
    | None \<Rightarrow> \<not> (\<exists>b \<in> set raw. is_ascii_alphanumeric b))
   \<and> ((\<exists>b \<in> set raw. is_ascii_alphanumeric b) = is_some (normalize_site_name raw))"
proof (cases "normalize_site_name raw")
  case None
  then show ?thesis
    by (auto simp: normalize_site_name_def slugify_None_iff split: result.splits)
next
  case (Some n)
  have "\<exists>b \<in> set raw. is_ascii_alphanumeric b"
    using Some validate_name_alnum [of raw n] slugify_None_iff [of raw]
    by (auto simp: normalize_site_name_def split: result.splits)
  then show ?thesis
    using Some normalize_facts [OF Some] site_name.accepts by simp
qed

section \<open>Containment of the served root\<close>

lemma safe_relative_segments:
  assumes "is_safe_relative p"
  shows "\<not> is_absolute p \<and> ParentDir \<notin> set (segment_components (split_on (CHR ''/'') p))"
proof -
  let ?ws = "split_on (CHR ''/'') p"
  have safe: "list_all (\<lambda>c. case c of Normal _ \<Rightarrow> True | CurDir \<Rightarrow> True | _ \<Rightarrow> False)
      (path_components p)"
    using assms by (simp add: is_safe_relative_def)
  have rel: "\<not> is_absolute p"
    using safe by (auto simp: path_components_def Let_def)
  have "ParentDir \<notin> set (path_components p)"
    using safe by (auto simp: list_all_iff)
  moreover have "ParentDir \<in> set (segment_components ?ws) \<Longrightarrow> ParentDir \<in> set (path_components p)"
    using rel by (cases ?ws) (auto simp: path_components_def Let_def split: if_splits)
  ultimately show ?thesis using rel by blast
qed

lemma segment_components_no_root: "RootDir \<notin> set (segment_components ws)"
  using segment_components_shape by blast

lemma is_below_refl [simp]: "is_below cs cs"
  by (simp add: is_below_def)

lemma is_below_Nil: "RootDir \<notin> set cs \<Longrightarrow> ParentDir \<notin> set cs \<Longrightarrow> is_below [] cs"
  by (simp add: is_below_def)

lemma safe_join_below:
  assumes "is_safe_relative p"
  shows "is_below (path_components base) (path_components (path_join base p))"
proof (cases "base = []")
  case True
  have "path_components ([]::string) = []"
    by (simp add: path_components_def is_absolute_def starts_with_singleton)
  moreover have "path_join base p = p"
    using True by (simp add: path_join_def)
  moreover have "RootDir \<notin> set (path_components p)" "ParentDir \<notin> set (path_components p)"
    using assms by (auto simp: is_safe_relative_def list_all_iff)
  ultimately show ?thesis using True by (simp add: is_below_Nil)
next
  case False
  then show ?thesis
    using safe_relative_segments [OF assms] segment_components_no_root
    by (auto simp: path_components_join_rel is_below_def)
qed

text \<open>
  Whatever the stored web subpath is (absolute, with parent components, empty), the directory a
  site is served from is its document root or lies below it, component by component, with no
  parent component added.
\<close>

theorem served_root_contained:
  "is_below (path_components (document_root s)) (path_components (served_root s))"
  by (simp add: served_root_def safe_join_below)

section \<open>Round trip of the serialised form\<close>

text \<open>The invariant the constructors establish and every setter keeps: the name is canonical.\<close>

definition site_inv :: "site \<Rightarrow> bool" where
  "site_inv s \<longleftrightarrow> dns_label (site_name s)"

lemma site_parked_inv: "site_parked n r v = Ok s \<Longrightarrow> site_inv s"
  by (auto simp: site_parked_def site_inv_def new_site_def dest: validate_name_sound split: result.splits)

lemma site_linked_inv: "site_linked n r v = Ok s \<Longrightarrow> site_inv s"
  by (auto simp: site_linked_def site_inv_def new_site_def dest: validate_name_sound split: result.splits)

lemma site_setters_inv:
  "site_inv s \<Longrightarrow> site_inv (set_document_root p s)" "site_inv s \<Longrightarrow> site_inv (set_web_subpath p s)"
  "site_inv s \<Longrightarrow> site_inv (set_php v s)" "site_inv s \<Longrightarrow> site_inv (set_site_secure b s)"
  "site_inv s \<Longrightarrow> site_inv (set_kind k s)" "site_inv s \<Longrightarrow> site_inv (set_wp_auto_login b s)"
  "site_inv s \<Longrightarrow> site_inv (set_wp_auto_login_user u s)"
  "site_inv s \<Longrightarrow> site_inv (set_front_controller f s)"
  by (simp_all add: site_inv_def set_document_root_def set_web_subpath_def set_php_def
      set_site_secure_def set_kind_def set_wp_auto_login_def set_wp_auto_login_user_def
      set_front_controller_def)

text \<open>
  A site with a canonical name, as the constructors and the setters keep it, deserialises from
  its serialised form to itself: every optional field that is left out is restored by its default.
\<close>

theorem site_serde_roundtrip:
  "site_inv s \<Longrightarrow> site_deserialize (site_serialize s) = Ok s"
  by (simp add: site_inv_def site_deserialize_def site_serialize_def validate_name_accepts)

theorem site_serde_roundtrip_witness:
  "\<exists>s. site_parked ''Blog'' ''/srv/blog'' (PhpVersion 8 3) = Ok s \<and>
     site_deserialize (site_serialize (set_wp_auto_login True s)) = Ok (set_wp_auto_login True s)"
proof -
  let ?s = "new_site Parked ''blog'' ''/srv/blog'' (PhpVersion 8 3)"
  have "site_parked ''Blog'' ''/srv/blog'' (PhpVersion 8 3) = Ok ?s"
    by code_simp
  then show ?thesis
    using site_serde_roundtrip [OF site_setters_inv(6)] site_parked_inv by blast
qed

end
