(* ===== verification/Tld.thy ===== *)
theory Tld
  imports Dns_Label
begin

text \<open>
  \<open>crates/yerd-core/src/tld.rs\<close>: the validated DNS suffix. \<open>tld_new\<close> is \<open>Tld::new\<close>; the steps
  run in the source's pinned order. The interpretation \<open>tld\<close> shows that the accepted values are
  exactly the dotted names of at most 253 bytes.
\<close>

fun tld_charset_ok :: "string \<Rightarrow> (tld_error_reason, unit) result" where
  "tld_charset_ok [] = Ok ()"
| "tld_charset_ok (b # bs) =
     (if \<not> is_ascii b then Err Tld_NonAscii
      else if is_ascii_whitespace b then Err Tld_ContainsWhitespace
      else tld_charset_ok bs)"

definition tld_validate_label :: "string \<Rightarrow> (tld_error_reason, unit) result" where
  "tld_validate_label label =
     (if label = [] then Err Tld_ConsecutiveDots
      else if length label > 63 then Err Tld_LabelTooLong
      else if \<not> list_all (\<lambda>b. is_ascii_lowercase b \<or> is_ascii_digit b \<or> b = CHR ''-'') label
        then Err Tld_InvalidCharacter
      else if starts_with ''-'' label \<or> ends_with ''-'' label then Err Tld_LeadingOrTrailingHyphen
      else Ok ())"

definition tld_validate_steps :: "string \<Rightarrow> (tld_error_reason, string) result" where
  "tld_validate_steps raw =
     (if raw = [] then Err Tld_Empty
      else
        let stripped = (case strip_suffix ''.'' raw of Some r \<Rightarrow> r | None \<Rightarrow> raw)
        in if stripped = [] \<or> ends_with ''.'' stripped \<or> starts_with ''.'' stripped
             then Err Tld_LeadingOrTrailingDot
           else if length stripped > 253 then Err Tld_TooLong
           else (case tld_charset_ok stripped of
               Err e \<Rightarrow> Err e
             | Ok _ \<Rightarrow>
                 (let lowered = to_ascii_lowercase stripped
                  in case check_all tld_validate_label (split_on (CHR ''.'') lowered) of
                       Err e \<Rightarrow> Err e
                     | Ok _ \<Rightarrow> Ok lowered)))"

definition tld_new :: "string \<Rightarrow> (core_error, string) result" where
  "tld_new raw = map_err (InvalidTld raw) (tld_validate_steps raw)"

definition tld_default :: string where
  "tld_default = ''test''"

section \<open>Which suffixes are accepted\<close>

definition tld_shape :: "string \<Rightarrow> bool" where
  "tld_shape t \<longleftrightarrow> dns_name t \<and> length t \<le> 253"

lemma tld_charset_ok_iff:
  "tld_charset_ok s = Ok () \<longleftrightarrow> (\<forall>b \<in> set s. is_ascii b \<and> \<not> is_ascii_whitespace b)"
  by (induction s rule: tld_charset_ok.induct) auto

lemma tld_validate_label_Ok_iff: "tld_validate_label l = Ok () \<longleftrightarrow> dns_label l"
proof -
  have "(list_all (\<lambda>b. is_ascii_lowercase b \<or> is_ascii_digit b \<or> b = CHR ''-'') l) = list_all is_ldh l"
    by (simp add: list_all_iff is_ldh_def)
  then show ?thesis
    by (auto simp: tld_validate_label_def dns_label_def starts_with_singleton ends_with_singleton)
qed

lemma tld_validate_steps_sound:
  assumes "tld_validate_steps raw = Ok t"
  shows "tld_shape t"
proof -
  define s where "s = (case strip_suffix ''.'' raw of Some r \<Rightarrow> r | None \<Rightarrow> raw)"
  have t: "t = to_ascii_lowercase s" and len: "length s \<le> 253"
    and labels: "check_all tld_validate_label (split_on (CHR ''.'') t) = Ok ()"
    using assms by (auto simp: tld_validate_steps_def Let_def s_def split: if_splits result.splits)
  show ?thesis
    using labels len t
    by (simp add: tld_shape_def dns_name_def check_all_Ok_iff tld_validate_label_Ok_iff)
qed

lemma dns_name_strip_dot: "dns_name t \<Longrightarrow> strip_suffix ''.'' t = None"
  using dns_name_edges [of t] by (auto simp: strip_suffix_None_iff)

lemma tld_validate_steps_accepts:
  assumes "tld_shape t"
  shows "tld_validate_steps t = Ok t"
proof -
  have d: "dns_name t" "length t \<le> 253"
    using assms by (auto simp: tld_shape_def)
  have cs: "tld_charset_ok t = Ok ()"
    unfolding tld_charset_ok_iff
    using dns_name_byte [OF d(1)] dns_name_ascii [OF d(1)]
    by (fastforce simp: is_ascii_whitespace_def dest: is_ldh_not_space)
  have labels: "check_all tld_validate_label (split_on (CHR ''.'') t) = Ok ()"
    using d(1) by (simp add: check_all_Ok_iff tld_validate_label_Ok_iff dns_name_def)
  show ?thesis
    using d dns_name_edges [OF d(1)] dns_name_not_Nil [OF d(1)] cs labels
    by (simp add: tld_validate_steps_def Let_def dns_name_strip_dot dns_name_lowercase
        starts_with_singleton ends_with_singleton)
qed

interpretation tld: canonical_name tld_new tld_shape
proof unfold_locales
  fix s t
  assume "tld_new s = Ok t"
  then have "tld_validate_steps s = Ok t" by (simp add: tld_new_def)
  then show "tld_shape t" by (rule tld_validate_steps_sound)
  then show "to_ascii_lowercase t = t" by (simp add: tld_shape_def dns_name_lowercase)
next
  fix t
  assume "tld_shape t"
  then show "tld_new t = Ok t" by (simp add: tld_new_def tld_validate_steps_accepts)
qed

text \<open>
  C36: every accepted TLD is a dotted sequence of DNS labels of at most 253 bytes, and validating
  the stored value again returns it unchanged.
\<close>

theorem tld_new_canonical:
  "tld_new s = Ok t \<Longrightarrow> dns_name t \<and> length t \<le> 253 \<and> tld_new t = Ok t"
  using tld.sound [of s t] tld.revalidates [of s t] by (simp add: tld_shape_def)

theorem tld_new_canonical_witness:
  "dns_name ''dev.local'' \<and> length ''dev.local'' \<le> 253 \<and> tld_new ''dev.local'' = Ok ''dev.local''"
proof -
  have "tld_new ''Dev.LOCAL.'' = Ok ''dev.local''" by code_simp
  then show ?thesis by (rule tld_new_canonical)
qed

end
