(* ===== verification/Domain.thy ===== *)
theory Domain
  imports Tld
begin

text \<open>
  \<open>crates/yerd-core/src/domain.rs\<close>: a routable domain sub-part (what is left of the TLD), its
  validation, and the algebra of a site's effective domain set. \<open>Domain\<close> is a one-field record of
  the source, here a datatype with the selector \<open>sub\<close>; \<open>as_str\<close> is \<open>sub\<close>.
\<close>

section \<open>The type\<close>

datatype domain = Domain (sub: string)

text \<open>The source derives \<open>Ord\<close>: domains compare as their sub-parts.\<close>

instantiation domain :: linorder
begin

definition less_eq_domain :: "domain \<Rightarrow> domain \<Rightarrow> bool" where
  "less_eq_domain a b \<longleftrightarrow> sub a \<le> sub b"

definition less_domain :: "domain \<Rightarrow> domain \<Rightarrow> bool" where
  "less_domain a b \<longleftrightarrow> sub a < sub b"

instance
  by intro_classes (auto simp: less_eq_domain_def less_domain_def domain.expand)

end

definition max_name_bytes :: nat where
  "max_name_bytes = 253"

definition max_label_bytes :: nat where
  "max_label_bytes = 63"

definition apex :: "string \<Rightarrow> domain" where
  "apex name = Domain (to_ascii_lowercase name)"

definition is_wildcard :: "domain \<Rightarrow> bool" where
  "is_wildcard d \<longleftrightarrow> starts_with ''*.'' (sub d)"

definition to_fqdn :: "domain \<Rightarrow> string \<Rightarrow> string" where
  "to_fqdn d tld = sub d @ ''.'' @ tld"

section \<open>Validation\<close>

definition domain_validate_label :: "string \<Rightarrow> (domain_error_reason, unit) result" where
  "domain_validate_label label =
     (if length label > max_label_bytes then Err Dom_LabelTooLong
      else if \<not> list_all (\<lambda>b. is_ascii_lowercase b \<or> is_ascii_digit b \<or> b = CHR ''-'') label
        then Err Dom_InvalidCharacter
      else if starts_with ''-'' label \<or> ends_with ''-'' label then Err Dom_LeadingOrTrailingHyphen
      else Ok ())"

text \<open>The loop over \<open>labels.iter().enumerate()\<close>: \<open>n\<close> is \<open>labels.len()\<close>, \<open>i\<close> the index.\<close>

fun validate_labels :: "nat \<Rightarrow> nat \<Rightarrow> string list \<Rightarrow> (domain_error_reason, unit) result" where
  "validate_labels n i [] = Ok ()"
| "validate_labels n i (label # rest) =
     (if label = [] then Err Dom_EmptyLabel
      else if CHR ''*'' \<in> set label then
        (if label \<noteq> ''*'' then Err Dom_MisplacedWildcard
         else if i \<noteq> 0 then Err Dom_MisplacedWildcard
         else if n = 1 then Err Dom_BareWildcard
         else validate_labels n (Suc i) rest)
      else (case domain_validate_label label of
          Err e \<Rightarrow> Err e
        | Ok _ \<Rightarrow> validate_labels n (Suc i) rest))"

definition domain_validate_steps :: "string \<Rightarrow> (domain_error_reason, string) result" where
  "domain_validate_steps raw =
     (if raw = [] then Err Dom_Empty
      else if \<exists>b \<in> set raw. \<not> is_ascii b then Err Dom_InvalidCharacter
      else if length raw > max_name_bytes then Err Dom_TooLong
      else
        let lowered = to_ascii_lowercase raw;
            labels = split_on (CHR ''.'') lowered
        in case validate_labels (length labels) 0 labels of
             Err e \<Rightarrow> Err e
           | Ok _ \<Rightarrow> Ok lowered)"

definition validate_subpart :: "string \<Rightarrow> (core_error, string) result" where
  "validate_subpart raw = map_err (InvalidDomain raw) (domain_validate_steps raw)"

definition parse_subpart :: "string \<Rightarrow> (core_error, domain) result" where
  "parse_subpart s = (case validate_subpart s of Err e \<Rightarrow> Err e | Ok t \<Rightarrow> Ok (Domain t))"

definition domain_parse :: "string \<Rightarrow> string \<Rightarrow> (core_error, domain) result" where
  "domain_parse fqdn tld0 =
     (let lowered = to_ascii_lowercase fqdn;
          trimmed = (case strip_suffix ''.'' lowered of Some t \<Rightarrow> t | None \<Rightarrow> lowered);
          tld = to_ascii_lowercase tld0
      in if trimmed = [] then Err (InvalidDomain fqdn Dom_Empty)
         else if length trimmed > max_name_bytes then Err (InvalidDomain fqdn Dom_TooLong)
         else if trimmed = tld then Err (InvalidDomain fqdn Dom_NotUnderTld)
         else (case strip_suffix (CHR ''.'' # tld) trimmed of
             None \<Rightarrow> Err (InvalidDomain fqdn Dom_NotUnderTld)
           | Some s \<Rightarrow>
               map_err (\<lambda>e. case e of InvalidDomain _ reason \<Rightarrow> InvalidDomain fqdn reason | e \<Rightarrow> e)
                 (parse_subpart s)))"

section \<open>Effective domains\<close>

text \<open>The loop \<open>for d in added\<close>: append what is not there yet.\<close>

fun push_added :: "domain list \<Rightarrow> domain list \<Rightarrow> domain list" where
  "push_added out [] = out"
| "push_added out (d # ds) = push_added (if d \<in> set out then out else out @ [d]) ds"

definition effective_domains :: "string \<Rightarrow> domain list \<Rightarrow> domain list \<Rightarrow> domain list" where
  "effective_domains name added suppressed =
     (let a = apex name;
          out = push_added (if a \<in> set suppressed then [] else [a]) added
      in if \<not> (\<exists>d \<in> set out. \<not> is_wildcard d) then a # out else out)"

definition choose_primary :: "string \<Rightarrow> domain list \<Rightarrow> domain option \<Rightarrow> domain" where
  "choose_primary name effective stored =
     (let a = apex name;
          fallback =
            (if a \<in> set effective then a
             else (case find (\<lambda>d. \<not> is_wildcard d) effective of Some d \<Rightarrow> d | None \<Rightarrow> a))
      in case stored of
           Some p \<Rightarrow> if \<not> is_wildcard p \<and> p \<in> set effective then p else fallback
         | None \<Rightarrow> fallback)"

section \<open>Which sub-parts are accepted\<close>

definition subpart_shape :: "string \<Rightarrow> bool" where
  "subpart_shape s \<longleftrightarrow> length s \<le> 253 \<and> (dns_name s \<or> (\<exists>r. s = ''*.'' @ r \<and> dns_name r))"

lemma domain_validate_label_Ok_iff:
  "l \<noteq> [] \<Longrightarrow> domain_validate_label l = Ok () \<longleftrightarrow> dns_label l"
proof -
  have "(list_all (\<lambda>b. is_ascii_lowercase b \<or> is_ascii_digit b \<or> b = CHR ''-'') l) = list_all is_ldh l"
    by (simp add: list_all_iff is_ldh_def)
  then show "l \<noteq> [] \<Longrightarrow> ?thesis"
    by (auto simp: domain_validate_label_def dns_label_def starts_with_singleton
        ends_with_singleton max_label_bytes_def)
qed

lemma dns_label_specials: "\<not> dns_label []" "\<not> dns_label ''*''"
  by (simp_all add: dns_label_def)

lemma validate_labels_tail:
  "validate_labels n (Suc i) ls = Ok () \<longleftrightarrow> (\<forall>l \<in> set ls. dns_label l)"
proof (induction ls arbitrary: i)
  case (Cons l ls)
  show ?case
  proof (cases "l = [] \<or> CHR ''*'' \<in> set l")
    case True
    then show ?thesis
      using dns_label_no_star [of l] by (auto simp: dns_label_specials)
  next
    case False
    then show ?thesis
      using Cons domain_validate_label_Ok_iff [of l] by (auto split: result.splits)
  qed
qed simp

lemma validate_labels_head:
  assumes "ls \<noteq> []"
  shows "validate_labels (length ls) 0 ls = Ok () \<longleftrightarrow>
    (\<forall>l \<in> set ls. dns_label l) \<or> (\<exists>r. ls = ''*'' # r \<and> r \<noteq> [] \<and> (\<forall>l \<in> set r. dns_label l))"
proof -
  obtain l r where ls: "ls = l # r"
    using assms by (cases ls) auto
  show ?thesis
  proof (cases "l = [] \<or> CHR ''*'' \<in> set l")
    case True
    then show ?thesis
      using ls dns_label_no_star [of l] by (auto simp: dns_label_specials validate_labels_tail)
  next
    case False
    then show ?thesis
      using ls domain_validate_label_Ok_iff [of l]
      by (auto simp: validate_labels_tail split: result.splits)
  qed
qed

lemma split_star: "split_on (CHR ''.'') (''*.'' @ r) = ''*'' # split_on (CHR ''.'') r"
  by simp

lemma split_on_star_iff:
  "(\<exists>r. split_on (CHR ''.'') s = ''*'' # r \<and> r \<noteq> [] \<and> (\<forall>l \<in> set r. dns_label l))
     \<longleftrightarrow> (\<exists>r. s = ''*.'' @ r \<and> dns_name r)" (is "?L = ?R")
proof
  assume ?L
  then obtain r where r: "split_on (CHR ''.'') s = ''*'' # r" "r \<noteq> []" "\<forall>l \<in> set r. dns_label l"
    by blast
  have "s = join_with ''.'' (''*'' # r)"
    using r(1) join_split_on [of "CHR ''.''" s] by simp
  then have "s = ''*.'' @ join_with ''.'' r"
    using r(2) by (simp add: join_with_Cons)
  moreover have "split_on (CHR ''.'') (join_with ''.'' r) = r"
    using r dns_label_no_dot by (intro split_on_join) auto
  ultimately show ?R
    using r(3) by (auto simp: dns_name_def)
next
  assume ?R
  then show ?L
    by (force simp: dns_name_def)
qed

lemma domain_validate_steps_Ok:
  "domain_validate_steps raw = Ok t \<longleftrightarrow>
     t = to_ascii_lowercase raw \<and> (\<forall>b \<in> set raw. is_ascii b) \<and> raw \<noteq> [] \<and> subpart_shape t"
proof -
  define l where "l = to_ascii_lowercase raw"
  have len: "length l = length raw"
    by (simp add: l_def)
  have "validate_labels (length (split_on (CHR ''.'') l)) 0 (split_on (CHR ''.'') l) = Ok () \<longleftrightarrow>
      dns_name l \<or> (\<exists>r. l = ''*.'' @ r \<and> dns_name r)"
    by (simp only: validate_labels_head split_on_not_Nil split_on_star_iff dns_name_def not_False_eq_True)
  then have "subpart_shape l \<longleftrightarrow> length raw \<le> 253 \<and>
      validate_labels (length (split_on (CHR ''.'') l)) 0 (split_on (CHR ''.'') l) = Ok ()"
    by (simp only: subpart_shape_def len)
  then show ?thesis
    unfolding domain_validate_steps_def Let_def l_def [symmetric]
    by (auto simp: max_name_bytes_def split: result.splits)
qed

lemma subpart_shape_facts:
  assumes "subpart_shape s"
  shows "to_ascii_lowercase s = s" "s \<noteq> []" "c \<in> set s \<Longrightarrow> is_ascii c"
proof -
  have "to_ascii_lowercase s = s \<and> s \<noteq> [] \<and> (c \<in> set s \<longrightarrow> is_ascii c)"
    using assms
    by (auto simp: subpart_shape_def dns_name_lowercase dns_name_ascii lower_byte_eq_nonletter
        is_ascii_def [of "CHR ''*''"] is_ascii_def [of "CHR ''.''"] dest: dns_name_not_Nil)
  then show "to_ascii_lowercase s = s" "s \<noteq> []" "c \<in> set s \<Longrightarrow> is_ascii c" by auto
qed

interpretation subpart: canonical_name validate_subpart subpart_shape
  by unfold_locales (auto simp: validate_subpart_def domain_validate_steps_Ok subpart_shape_facts)

lemma parse_subpart_Ok_iff:
  "parse_subpart s = Ok d \<longleftrightarrow>
     sub d = to_ascii_lowercase s \<and> (\<forall>b \<in> set s. is_ascii b) \<and> s \<noteq> [] \<and> subpart_shape (sub d)"
proof -
  have "parse_subpart s = Ok d \<longleftrightarrow> domain_validate_steps s = Ok (sub d)"
    by (cases d; cases "domain_validate_steps s") (auto simp: parse_subpart_def validate_subpart_def)
  then show ?thesis by (simp only: domain_validate_steps_Ok)
qed

lemma parse_subpart_accepts: "subpart_shape (sub d) \<Longrightarrow> parse_subpart (sub d) = Ok d"
  by (auto simp: parse_subpart_Ok_iff subpart_shape_facts)

text \<open>
  Parsing the fully qualified form of a stored domain under its TLD returns the domain, and an
  accepted name prints back to the lowercased input without its root dot.
\<close>

theorem domain_fqdn_roundtrip:
  assumes "parse_subpart s = Ok d" "tld_new t0 = Ok t" "length (to_fqdn d t) \<le> 253"
  shows "domain_parse (to_fqdn d t) t = Ok d"
proof -
  have d: "subpart_shape (sub d)"
    using assms(1) parse_subpart_Ok_iff by blast
  have t: "dns_name t"
    using tld.sound [OF assms(2)] by (simp add: tld_shape_def)
  have low: "to_ascii_lowercase (to_fqdn d t) = to_fqdn d t" "to_ascii_lowercase t = t"
    using d t by (simp_all add: to_fqdn_def subpart_shape_facts dns_name_lowercase
        lower_byte_eq_nonletter)
  have nodot: "strip_suffix ''.'' (to_fqdn d t) = None"
    using dns_name_edges [OF t] dns_name_not_Nil [OF t]
    by (auto simp: strip_suffix_None_iff to_fqdn_def append_eq_append_conv2 append_eq_Cons_conv
        Cons_eq_append_conv)
  have "strip_suffix (CHR ''.'' # t) (to_fqdn d t) = Some (sub d)"
    by (simp add: to_fqdn_def strip_suffix_Some_iff)
  moreover have "to_fqdn d t \<noteq> t" "to_fqdn d t \<noteq> []"
    by (simp_all add: to_fqdn_def)
  ultimately show ?thesis
    using d low nodot assms(3)
    by (simp add: domain_parse_def Let_def max_name_bytes_def parse_subpart_accepts)
qed

theorem domain_fqdn_roundtrip_witness:
  "domain_parse (to_fqdn (Domain ''*.foo'') ''test'') ''test'' = Ok (Domain ''*.foo'')"
proof -
  have 1: "parse_subpart ''*.Foo'' = Ok (Domain ''*.foo'')" by code_simp
  have 2: "tld_new ''test'' = Ok ''test''" by code_simp
  have 3: "length (to_fqdn (Domain ''*.foo'') ''test'') \<le> 253" by code_simp
  show ?thesis by (rule domain_fqdn_roundtrip [OF 1 2 3])
qed

section \<open>The effective set\<close>

lemma push_added_append:
  "\<exists>xs. push_added out ds = out @ xs \<and> set (push_added out ds) = set out \<union> set ds"
proof (induction ds arbitrary: out)
  case (Cons d ds)
  then show ?case
    using Cons.IH [of out] Cons.IH [of "out @ [d]"] by auto
qed simp

lemma set_push_added [simp]: "set (push_added out ds) = set out \<union> set ds"
  using push_added_append by blast

lemma distinct_push_added: "distinct out \<Longrightarrow> distinct (push_added out ds)"
  by (induction ds arbitrary: out) auto

lemma subpart_name_exact: "dns_name (to_ascii_lowercase name) \<Longrightarrow> \<not> is_wildcard (apex name)"
  using dns_name_no_star [of "to_ascii_lowercase name"]
  by (auto simp: is_wildcard_def apex_def starts_with_iff)

lemma effective_domains_facts:
  assumes "\<not> is_wildcard (apex name)"
  shows "distinct (effective_domains name added suppressed)
   \<and> set (effective_domains name added suppressed) =
       set added \<union> (if apex name \<in> set suppressed \<and> (\<exists>d \<in> set added. \<not> is_wildcard d)
                    then {} else {apex name})
   \<and> (apex name \<notin> set suppressed \<longrightarrow> hd (effective_domains name added suppressed) = apex name)
   \<and> (\<exists>d \<in> set (effective_domains name added suppressed). \<not> is_wildcard d)"
proof -
  define out where "out = push_added (if apex name \<in> set suppressed then [] else [apex name]) added"
  have out: "set out = (if apex name \<in> set suppressed then {} else {apex name}) \<union> set added"
    "distinct out"
    by (simp_all add: out_def distinct_push_added)
  have hd: "apex name \<notin> set suppressed \<Longrightarrow> hd out = apex name"
    using push_added_append [of "[apex name]" added] by (auto simp: out_def)
  show ?thesis
  proof (cases "\<exists>d \<in> set out. \<not> is_wildcard d")
    case True
    then have "effective_domains name added suppressed = out"
      by (simp add: effective_domains_def out_def Let_def)
    with True out hd show ?thesis by auto
  next
    case False
    then have "effective_domains name added suppressed = apex name # out"
      by (simp add: effective_domains_def out_def Let_def)
    with False assms out show ?thesis by auto
  qed
qed

text \<open>
  The effective set of a site has no duplicates, is the added domains plus the apex unless the
  apex is suppressed and another exact domain remains, starts with an unsuppressed apex, and
  always holds an exact domain, so the site is reachable under a concrete host.
\<close>

theorem effective_domains_spec:
  assumes "\<not> is_wildcard (apex name)"
  shows "distinct (effective_domains name added suppressed)
   \<and> set (effective_domains name added suppressed) =
       set added \<union> (if apex name \<in> set suppressed \<and> (\<exists>d \<in> set added. \<not> is_wildcard d)
                    then {} else {apex name})
   \<and> (apex name \<notin> set suppressed \<longrightarrow> hd (effective_domains name added suppressed) = apex name)
   \<and> (\<exists>d \<in> set (effective_domains name added suppressed). \<not> is_wildcard d)"
  using assms by (rule effective_domains_facts)

theorem effective_domains_spec_witness:
  "distinct (effective_domains ''Foo'' [Domain ''*.foo''] [Domain ''foo''])
   \<and> (\<exists>d \<in> set (effective_domains ''Foo'' [Domain ''*.foo''] [Domain ''foo'']). \<not> is_wildcard d)"
proof -
  have "\<not> is_wildcard (apex ''Foo'')" by code_simp
  from effective_domains_spec [OF this, of "[Domain ''*.foo'']" "[Domain ''foo'']"]
  show ?thesis by blast
qed

lemma choose_primary_exact:
  assumes "\<exists>d \<in> set ds. \<not> is_wildcard d" "\<not> is_wildcard (apex name)"
  shows "choose_primary name ds stored \<in> set ds \<and> \<not> is_wildcard (choose_primary name ds stored)"
proof -
  obtain d where d: "find (\<lambda>d. \<not> is_wildcard d) ds = Some d"
    using assms(1) by (metis find_None_iff option.exhaust)
  then have "d \<in> set ds" "\<not> is_wildcard d"
    by (auto simp: find_Some_iff)
  with d assms(2) show ?thesis
    by (auto simp: choose_primary_def Let_def split: option.splits)
qed

lemma choose_primary_stored:
  "\<not> is_wildcard p \<Longrightarrow> p \<in> set ds \<Longrightarrow> choose_primary name ds (Some p) = p"
  by (simp add: choose_primary_def Let_def)

text \<open>
  The displayed domain of a site is a concrete host of its effective set: the stored primary when
  it is still usable, else the apex, else another exact domain.
\<close>

theorem choose_primary_effective:
  assumes "dns_name (to_ascii_lowercase name)"
  shows "choose_primary name (effective_domains name added suppressed) stored
           \<in> set (effective_domains name added suppressed)
         \<and> \<not> is_wildcard (choose_primary name (effective_domains name added suppressed) stored)
         \<and> (\<forall>p. stored = Some p \<and> \<not> is_wildcard p \<and> p \<in> set (effective_domains name added suppressed)
              \<longrightarrow> choose_primary name (effective_domains name added suppressed) stored = p)"
proof -
  let ?ds = "effective_domains name added suppressed"
  have w: "\<not> is_wildcard (apex name)"
    using assms by (rule subpart_name_exact)
  then have "\<exists>d \<in> set ?ds. \<not> is_wildcard d"
    using effective_domains_facts by blast
  then have "choose_primary name ?ds stored \<in> set ?ds \<and> \<not> is_wildcard (choose_primary name ?ds stored)"
    using w by (rule choose_primary_exact)
  then show ?thesis
    by (auto simp: choose_primary_stored)
qed

theorem choose_primary_effective_witness:
  "choose_primary ''foo'' (effective_domains ''foo'' [Domain ''api.foo''] []) (Some (Domain ''api.foo''))
     \<in> set (effective_domains ''foo'' [Domain ''api.foo''] [])"
proof -
  have "dns_name (to_ascii_lowercase ''foo'')" by code_simp
  from choose_primary_effective [OF this] show ?thesis by blast
qed

end
