(* ===== verification/Prefix_Rules.thy ===== *)
theory Prefix_Rules
  imports Rust_Str "HOL-Library.Sublist"
begin

text \<open>
  What the two path-prefix rule types of \<open>yerd-core\<close> share: \<open>Iterator::max_by_key\<close>, the loop that
  drops trailing slashes, the segment-wise meaning of ``a path is under a prefix'', and the
  interface \<open>prefix_rules\<close> with the facts about longest-prefix selection proved once in it.
\<close>

section \<open>The iterator method and the loop\<close>

text \<open>\<open>max_by_key\<close> returns the last of several maximal elements.\<close>

definition max_by_key :: "('a \<Rightarrow> nat) \<Rightarrow> 'a list \<Rightarrow> 'a option" where
  "max_by_key f xs =
     foldl (\<lambda>best x. case best of None \<Rightarrow> Some x | Some b \<Rightarrow> if f b \<le> f x then Some x else Some b)
       None xs"

lemma max_by_key_Nil [simp]: "max_by_key f [] = None"
  by (simp add: max_by_key_def)

lemma max_by_key_snoc:
  "max_by_key f (xs @ [x]) =
     (case max_by_key f xs of None \<Rightarrow> Some x | Some b \<Rightarrow> if f b \<le> f x then Some x else Some b)"
  by (simp add: max_by_key_def)

lemma max_by_key_None_iff [simp]: "max_by_key f xs = None \<longleftrightarrow> xs = []"
  by (cases xs rule: rev_cases) (auto simp: max_by_key_snoc split: option.split)

lemma max_by_key_Some:
  "max_by_key f xs = Some m \<Longrightarrow> m \<in> set xs \<and> (\<forall>x \<in> set xs. f x \<le> f m)"
proof (induction xs arbitrary: m rule: rev_induct)
  case (snoc x xs)
  then show ?case
    by (cases "max_by_key f xs") (auto simp: max_by_key_snoc split: if_splits)
qed simp

text \<open>\<open>while normalized.len() > 1 && normalized.ends_with('/') { normalized.pop(); }\<close>\<close>

function pop_slashes :: "string \<Rightarrow> string" where
  "pop_slashes s = (if length s > 1 \<and> ends_with ''/'' s then pop_slashes (butlast s) else s)"
  by pat_completeness auto
termination
  by (relation "measure length") auto

declare pop_slashes.simps [simp del]

lemma pop_slashes_hd: "s \<noteq> [] \<Longrightarrow> pop_slashes s \<noteq> [] \<and> hd (pop_slashes s) = hd s"
proof (induction s rule: pop_slashes.induct)
  case (1 s)
  show ?case
  proof (cases "length s > 1 \<and> ends_with ''/'' s")
    case True
    then have "butlast s \<noteq> []" "hd (butlast s) = hd s"
      by (cases s; cases "tl s"; simp)+
    with 1 True show ?thesis by (simp add: pop_slashes.simps [of s])
  next
    case False
    with 1 show ?thesis by (auto simp: pop_slashes.simps [of s])
  qed
qed

lemma pop_slashes_last:
  "length (pop_slashes s) > 1 \<Longrightarrow> last (pop_slashes s) \<noteq> CHR ''/''"
proof (induction s rule: pop_slashes.induct)
  case (1 s)
  show ?case
  proof (cases "length s > 1 \<and> ends_with ''/'' s")
    case True
    with 1 show ?thesis by (simp add: pop_slashes.simps [of s])
  next
    case False
    then have "pop_slashes s = s"
      by (auto simp: pop_slashes.simps [of s])
    with 1 False show ?thesis
      by (auto simp: ends_with_singleton)
  qed
qed

lemma pop_slashes_decomp: "\<exists>k. s = pop_slashes s @ replicate k (CHR ''/'')"
proof (induction s rule: pop_slashes.induct)
  case (1 s)
  show ?case
  proof (cases "length s > 1 \<and> ends_with ''/'' s")
    case True
    then obtain k where k: "butlast s = pop_slashes (butlast s) @ replicate k (CHR ''/'')"
      using 1 by blast
    have "s = butlast s @ ''/''"
      using True by (cases s rule: rev_cases) (auto simp: ends_with_singleton)
    with k have "s = pop_slashes (butlast s) @ replicate (Suc k) (CHR ''/'')"
      by (metis append_assoc replicate_append_same replicate_Suc)
    with True show ?thesis
      by (metis pop_slashes.simps)
  next
    case False
    then show ?thesis
      by (auto simp: pop_slashes.simps [of s] intro: exI [of _ 0])
  qed
qed

lemma pop_slashes_subset: "set (pop_slashes s) \<subseteq> set s"
proof -
  obtain k where "s = pop_slashes s @ replicate k (CHR ''/'')"
    using pop_slashes_decomp by blast
  from arg_cong [OF this, of set] show ?thesis
    unfolding set_append by blast
qed

section \<open>Segments\<close>

text \<open>
  A path is under a prefix when the prefix's segments are the first segments of the path; the
  root prefix covers every absolute path.
\<close>

definition under_prefix :: "string \<Rightarrow> string \<Rightarrow> bool" where
  "under_prefix pre path \<longleftrightarrow>
     (if pre = ''/'' then starts_with ''/'' path
      else prefix (split_on (CHR ''/'') pre) (split_on (CHR ''/'') path))"

lemma join_with_append:
  "as \<noteq> [] \<Longrightarrow> bs \<noteq> [] \<Longrightarrow> join_with sep (as @ bs) = join_with sep as @ sep @ join_with sep bs"
proof (induction as)
  case (Cons a as)
  then show ?case
    by (cases as) (auto simp: join_with_Cons)
qed simp

lemma split_prefix_iff:
  "prefix (split_on c p) (split_on c s) \<longleftrightarrow> s = p \<or> (\<exists>r. s = p @ c # r)"
proof
  assume "prefix (split_on c p) (split_on c s)"
  then obtain ws where ws: "split_on c s = split_on c p @ ws"
    by (auto simp: prefix_def)
  show "s = p \<or> (\<exists>r. s = p @ c # r)"
  proof (cases "ws = []")
    case True
    then show ?thesis
      using ws by (metis append_Nil2 join_split_on)
  next
    case False
    then have "s = p @ [c] @ join_with [c] ws"
      using ws by (metis join_split_on join_with_append split_on_not_Nil)
    then show ?thesis by auto
  qed
qed (auto simp: split_on_append_general)

section \<open>The interface\<close>

locale prefix_rules =
  fixes rule_prefix :: "'r \<Rightarrow> string"
    and matches :: "'r \<Rightarrow> string \<Rightarrow> bool"
    and select :: "'r list \<Rightarrow> string \<Rightarrow> 'r option"
  assumes matches_under: "matches r path \<longleftrightarrow> under_prefix (rule_prefix r) path"
    and select_longest:
      "select rs path = max_by_key (\<lambda>r. length (rule_prefix r)) (filter (\<lambda>r. matches r path) rs)"
begin

lemma select_None_iff: "select rs path = None \<longleftrightarrow> (\<forall>r \<in> set rs. \<not> under_prefix (rule_prefix r) path)"
  by (simp add: select_longest filter_empty_conv matches_under)

lemma select_Some:
  "select rs path = Some r \<Longrightarrow>
     r \<in> set rs \<and> under_prefix (rule_prefix r) path
     \<and> (\<forall>r' \<in> set rs. under_prefix (rule_prefix r') path \<longrightarrow>
          length (rule_prefix r') \<le> length (rule_prefix r))"
  using max_by_key_Some [of "\<lambda>r. length (rule_prefix r)" "filter (\<lambda>r. matches r path) rs" r]
  by (auto simp: select_longest matches_under)

lemma under_prefix_is_prefix: "under_prefix p path \<Longrightarrow> prefix p path"
  by (auto simp: under_prefix_def split_prefix_iff starts_with_iff split: if_splits)

text \<open>Two prefixes of one path that have the same length are equal, so the winner is unique.\<close>

lemma same_length_same_prefix:
  "under_prefix p path \<Longrightarrow> under_prefix q path \<Longrightarrow> length p = length q \<Longrightarrow> p = q"
  using under_prefix_is_prefix [of p path] under_prefix_is_prefix [of q path]
  by (auto simp: prefix_def append_eq_append_conv)

lemma select_unique:
  assumes "inj_on rule_prefix (set rs)" "r \<in> set rs" "under_prefix (rule_prefix r) path"
    "\<forall>r' \<in> set rs. under_prefix (rule_prefix r') path \<longrightarrow>
        length (rule_prefix r') \<le> length (rule_prefix r)"
  shows "select rs path = Some r"
proof -
  obtain m where m: "select rs path = Some m"
    using assms(2,3) select_None_iff by fastforce
  have "length (rule_prefix m) = length (rule_prefix r)"
    using select_Some [OF m] assms(2-4) by (meson le_antisym)
  then have "rule_prefix m = rule_prefix r"
    using select_Some [OF m] assms(3) same_length_same_prefix by blast
  then show ?thesis
    using m select_Some [OF m] assms(1,2) by (metis inj_onD)
qed

text \<open>With distinct prefixes the order of the rules does not matter.\<close>

lemma select_order_irrelevant:
  assumes "inj_on rule_prefix (set rs)" "set rs = set rs'"
  shows "select rs path = select rs' path"
proof (cases "select rs path")
  case None
  then show ?thesis
    using select_None_iff assms(2) by metis
next
  case (Some r)
  have "select rs' path = Some r"
    by (rule select_unique) (use select_Some [OF Some] assms in auto)
  with Some show ?thesis by simp
qed

end

end
