(* ===== verification/Upstream.thy ===== *)
theory Upstream
  imports Domain Net_Addr Prefix_Rules
begin

text \<open>
  \<open>crates/yerd-core/src/proxy.rs\<close>: the upstream target and its URL form, the path-prefix proxy
  rule, the whole-host proxy. The port is a \<open>u16\<close>; it is a natural number here and the parser's
  bound is part of \<open>upstream_inv\<close>.
\<close>

section \<open>Targets\<close>

record upstream_target =
  up_secure :: bool
  up_host :: string
  up_port :: nat

definition is_valid_host :: "string \<Rightarrow> bool" where
  "is_valid_host host \<longleftrightarrow>
     (if is_some (parse_ip host) then True
      else if host = [] \<or> starts_with ''.'' host \<or> ends_with ''.'' host then False
      else list_all (\<lambda>b. is_ascii_alphanumeric b \<or> b = CHR ''-'' \<or> b = CHR ''.'' \<or> b = CHR ''_'') host)"

definition split_host_port :: "string \<Rightarrow> nat \<Rightarrow> (string \<times> nat) option" where
  "split_host_port rest default_port =
     (case strip_prefix ''['' rest of
        Some inner \<Rightarrow>
          (case split_once (CHR '']'') inner of
             None \<Rightarrow> None
           | Some (host, after) \<Rightarrow>
               if after = [] then Some (host, default_port)
               else (case strip_prefix '':'' after of
                   None \<Rightarrow> None
                 | Some p \<Rightarrow> map_option (\<lambda>port. (host, port)) (parse_uint u16_max p)))
      | None \<Rightarrow>
          (case length (filter (\<lambda>c. c = CHR '':'') rest) of
             0 \<Rightarrow> Some (rest, default_port)
           | Suc 0 \<Rightarrow>
               (case rsplit_once (CHR '':'') rest of
                  None \<Rightarrow> None
                | Some (host, p) \<Rightarrow> map_option (\<lambda>port. (host, port)) (parse_uint u16_max p))
           | _ \<Rightarrow> None))"

definition from_url_str :: "string \<Rightarrow> (core_error, upstream_target) result" where
  "from_url_str input =
     (let raw = trim input; reason = (\<lambda>r. Err (InvalidUpstreamTarget input r))
      in if raw = [] then reason Up_Empty
         else (case split_once_str ''://'' raw of
             None \<Rightarrow> reason Up_MissingScheme
           | Some (scheme, rest) \<Rightarrow>
               (let scheme = to_ascii_lowercase scheme
                in if scheme \<noteq> ''http'' \<and> scheme \<noteq> ''https'' then reason Up_UnsupportedScheme
                   else
                     let secure = (scheme = ''https'')
                     in if CHR ''@'' \<in> set rest then reason Up_HasCredentials
                        else if CHR ''/'' \<in> set rest \<or> CHR ''?'' \<in> set rest \<or> CHR ''#'' \<in> set rest
                          then reason Up_HasPathOrQuery
                        else (case split_host_port rest (if secure then 443 else 80) of
                            None \<Rightarrow> reason Up_InvalidPort
                          | Some (host, port) \<Rightarrow>
                              if host = [] then reason Up_MissingHost
                              else if \<not> is_valid_host host then reason Up_InvalidHost
                              else if port = 0 then reason Up_InvalidPort
                              else Ok \<lparr>up_secure = secure, up_host = to_ascii_lowercase host,
                                       up_port = port\<rparr>))))"

definition show_upstream :: "upstream_target \<Rightarrow> string" where
  "show_upstream t =
     (let scheme = (if up_secure t then ''https'' else ''http'')
      in if CHR '':'' \<in> set (up_host t)
         then scheme @ ''://['' @ up_host t @ '']:'' @ show_nat (up_port t)
         else scheme @ ''://'' @ up_host t @ '':'' @ show_nat (up_port t))"

definition is_local :: "string \<Rightarrow> upstream_target \<Rightarrow> bool" where
  "is_local tld t =
     (if up_host t = ''localhost'' then True
      else if up_host t = tld
        \<or> (case strip_suffix tld (up_host t) of Some pre \<Rightarrow> ends_with ''.'' pre | None \<Rightarrow> False)
        then True
      else (case parse_ip (up_host t) of
          Some (V4 a b c d) \<Rightarrow>
            v4_is_loopback a b c d \<or> v4_is_private a b c d \<or> v4_is_link_local a b c d
        | Some (V6 gs) \<Rightarrow>
            if v6_is_loopback gs then True
            else
              let seg0 = (case gs of g # _ \<Rightarrow> g | [] \<Rightarrow> 0);
                  unique_local = (seg0 AND 0xfe00 = 0xfc00);
                  link_local = (seg0 AND 0xffc0 = 0xfe80)
              in unique_local \<or> link_local
        | None \<Rightarrow> False))"

section \<open>Rules and proxies\<close>

record proxy_rule =
  pr_prefix :: string
  pr_target :: upstream_target

definition proxy_rule_new :: "string \<Rightarrow> upstream_target \<Rightarrow> (core_error, proxy_rule) result" where
  "proxy_rule_new pre target =
     (let reason = (\<lambda>r. Err (InvalidProxyRule pre r))
      in if pre = [] then reason Rule_Empty
         else if \<not> starts_with ''/'' pre then reason NotAbsolute
         else if list_ex (\<lambda>c. is_control c \<or> c = '' '' \<or> c = ''?'' \<or> c = ''#'') (utf8_chars pre)
           then reason ContainsControl
         else if ''..'' \<in> set (split_on (CHR ''/'') pre) then reason ContainsDotDot
         else Ok \<lparr>pr_prefix = pop_slashes pre, pr_target = target\<rparr>)"

definition proxy_matches_path :: "proxy_rule \<Rightarrow> string \<Rightarrow> bool" where
  "proxy_matches_path r path =
     (if pr_prefix r = ''/'' then starts_with ''/'' path
      else path = pr_prefix r
        \<or> (case strip_prefix (pr_prefix r) path of Some rest \<Rightarrow> starts_with ''/'' rest | None \<Rightarrow> False))"

definition match_rule :: "proxy_rule list \<Rightarrow> string \<Rightarrow> proxy_rule option" where
  "match_rule rules path =
     max_by_key (\<lambda>r. length (pr_prefix r)) (filter (\<lambda>r. proxy_matches_path r path) rules)"

definition validate_proxy_name :: "string \<Rightarrow> (core_error, string) result" where
  "validate_proxy_name raw =
     (case map_err (\<lambda>e. case e of InvalidDomain _ reason \<Rightarrow> InvalidProxyName raw (Shape reason) | e \<Rightarrow> e)
             (parse_subpart raw) of
        Err e \<Rightarrow> Err e
      | Ok parsed \<Rightarrow>
          if is_wildcard parsed then Err (InvalidProxyName raw Wildcard) else Ok (sub parsed))"

record proxy_site =
  ps_name :: string
  ps_target :: upstream_target
  ps_secure :: bool

definition proxy_site_new :: "string \<Rightarrow> upstream_target \<Rightarrow> (core_error, proxy_site) result" where
  "proxy_site_new name target =
     (case validate_proxy_name name of
        Err e \<Rightarrow> Err e
      | Ok n \<Rightarrow> Ok \<lparr>ps_name = n, ps_target = target, ps_secure = False\<rparr>)"

definition proxy_set_secure :: "bool \<Rightarrow> proxy_site \<Rightarrow> proxy_site" where
  "proxy_set_secure b p = p\<lparr>ps_secure := b\<rparr>"

section \<open>Longest-prefix selection\<close>

lemma boundary_under_prefix:
  "(if p = ''/'' then starts_with ''/'' path
    else path = p \<or> (case strip_prefix p path of Some rest \<Rightarrow> starts_with ''/'' rest | None \<Rightarrow> False))
   \<longleftrightarrow> under_prefix p path"
  by (auto simp: under_prefix_def split_prefix_iff strip_prefix_Some_iff starts_with_iff
      split: option.splits)

interpretation proxy_rules: prefix_rules pr_prefix proxy_matches_path match_rule
  by unfold_locales (simp_all only: proxy_matches_path_def boundary_under_prefix match_rule_def)

section \<open>Proxy names\<close>

definition proxy_name_shape :: "string \<Rightarrow> bool" where
  "proxy_name_shape s \<longleftrightarrow> dns_name s \<and> length s \<le> 253"

lemma dns_name_not_star: "dns_name s \<Longrightarrow> \<not> starts_with ''*.'' s"
  using dns_name_no_star [of s] by (auto simp: starts_with_iff)

lemma validate_proxy_name_Ok_iff:
  "validate_proxy_name raw = Ok n \<longleftrightarrow>
     n = to_ascii_lowercase raw \<and> (\<forall>b \<in> set raw. is_ascii b) \<and> proxy_name_shape n"
proof -
  have "validate_proxy_name raw = Ok n \<longleftrightarrow> parse_subpart raw = Ok (Domain n) \<and> \<not> is_wildcard (Domain n)"
    by (auto simp: validate_proxy_name_def is_wildcard_def split: result.splits)
  also have "\<dots> \<longleftrightarrow> n = to_ascii_lowercase raw \<and> (\<forall>b \<in> set raw. is_ascii b) \<and> proxy_name_shape n"
    using dns_name_not_star [of n] dns_name_not_Nil [of n]
    by (auto simp: parse_subpart_Ok_iff subpart_shape_def proxy_name_shape_def is_wildcard_def
        starts_with_iff)
  finally show ?thesis .
qed

interpretation proxy_name: canonical_name validate_proxy_name proxy_name_shape
  by unfold_locales
    (auto simp: validate_proxy_name_Ok_iff proxy_name_shape_def dns_name_lowercase dns_name_ascii)

section \<open>The URL form\<close>

definition upstream_inv :: "upstream_target \<Rightarrow> bool" where
  "upstream_inv t \<longleftrightarrow> is_valid_host (up_host t) \<and> up_host t \<noteq> []
     \<and> to_ascii_lowercase (up_host t) = up_host t \<and> 0 < up_port t \<and> up_port t \<le> u16_max"

definition host_byte :: "char \<Rightarrow> bool" where
  "host_byte c \<longleftrightarrow> is_ascii_alphanumeric c \<or> c = CHR ''-'' \<or> c = CHR ''.'' \<or> c = CHR ''_'' \<or> c = CHR '':''"

lemma ip_byte_host_byte: "ip_byte c \<Longrightarrow> host_byte c"
  by (auto simp: ip_byte_def host_byte_def is_hex_digit_def byte_class_defs)

lemma host_byte_ascii: "host_byte c \<Longrightarrow> is_ascii c"
  by (auto simp: host_byte_def byte_class_defs)

lemma host_byte_specials [simp]:
  "\<not> host_byte (CHR ''@'')" "\<not> host_byte (CHR ''/'')" "\<not> host_byte (CHR ''?'')"
  "\<not> host_byte (CHR ''#'')" "\<not> host_byte (CHR ''['')" "\<not> host_byte (CHR '']'')"
  by (simp_all add: host_byte_def byte_class_defs)

lemma valid_host_bytes: "is_valid_host h \<Longrightarrow> c \<in> set h \<Longrightarrow> host_byte c"
  using parse_ip_bytes [of h] ip_byte_host_byte
  by (fastforce simp: is_valid_host_def is_some_def list_all_iff host_byte_def split: if_splits)

lemma digit_host_byte: "is_ascii_digit c \<Longrightarrow> host_byte c"
  by (simp add: host_byte_def is_ascii_alphanumeric_def)

lemma show_nat_host_byte: "c \<in> set (show_nat n) \<Longrightarrow> host_byte c"
  using show_nat_digits [of n] digit_host_byte by (auto simp: list_all_iff)

lemma show_nat_no_colon: "CHR '':'' \<notin> set (show_nat n)"
  using show_nat_digits [of n] by (auto simp: list_all_iff is_ascii_digit_def)

lemma is_valid_host_lowercase: "is_valid_host h \<Longrightarrow> is_valid_host (to_ascii_lowercase h)"
proof -
  have e: "is_some (parse_ip (to_ascii_lowercase h)) = is_some (parse_ip h)"
    by (simp add: parse_ip_lowercase)
  have b: "is_ascii_alphanumeric (lower_byte c) \<or> lower_byte c = CHR ''-'' \<or> lower_byte c = CHR ''.''
      \<or> lower_byte c = CHR ''_''"
    if "is_ascii_alphanumeric c \<or> c = CHR ''-'' \<or> c = CHR ''.'' \<or> c = CHR ''_''" for c
  proof (cases "is_ascii_alphanumeric c")
    case True
    then show ?thesis
      using lower_byte_alnum [of c] by (auto simp: is_ascii_alphanumeric_def is_ascii_alphabetic_def)
  next
    case False
    then have "lower_byte c = c"
      by (intro lower_byte_id) (auto simp: is_ascii_alphanumeric_def is_ascii_alphabetic_def)
    with that show ?thesis by simp
  qed
  assume "is_valid_host h"
  then show ?thesis
    using b unfolding is_valid_host_def e
    by (auto simp: list_all_iff to_ascii_lowercase_def starts_with_singleton ends_with_singleton
        lower_byte_eq_nonletter hd_map last_map split: if_splits)
qed

lemma split_host_port_le: "split_host_port r d = Some (h, p) \<Longrightarrow> d \<le> u16_max \<Longrightarrow> p \<le> u16_max"
  using parse_uint_le [of u16_max]
  by (auto simp: split_host_port_def split: option.splits if_splits nat.splits)

lemma from_url_str_inv: "from_url_str input = Ok t \<Longrightarrow> upstream_inv t"
  by (auto simp: from_url_str_def upstream_inv_def Let_def is_valid_host_lowercase
      dest!: split_host_port_le split: option.splits if_splits prod.splits)

lemma split_scheme:
  "split_once_str ''://'' (''http://'' @ r) = Some (''http'', r)"
  "split_once_str ''://'' (''https://'' @ r) = Some (''https'', r)"
  using split_once_str_hit [of "''://''" r] by (simp_all add: split_once_str_skip)

lemma split_host_port_plain:
  assumes "CHR '':'' \<notin> set h" "CHR ''['' \<notin> set h" "h \<noteq> []" "n \<le> u16_max"
  shows "split_host_port (h @ '':'' @ show_nat n) d = Some (h, n)"
proof -
  have "strip_prefix ''['' (h @ '':'' @ show_nat n) = None"
    using assms(2,3) by (cases h) auto
  moreover have "length (filter (\<lambda>c. c = CHR '':'') (h @ '':'' @ show_nat n)) = Suc 0"
    using assms(1) show_nat_no_colon [of n] by (auto simp: filter_empty_conv)
  moreover have "rsplit_once (CHR '':'') (h @ '':'' @ show_nat n) = Some (h, show_nat n)"
    using show_nat_no_colon [of n] by (simp add: rsplit_once_Some_iff)
  ultimately show ?thesis
    using assms(4) by (simp add: split_host_port_def parse_uint_show_nat)
qed

lemma split_host_port_bracketed:
  assumes "CHR '']'' \<notin> set h" "n \<le> u16_max"
  shows "split_host_port (''['' @ h @ '']:'' @ show_nat n) d = Some (h, n)"
  using assms split_once_append [of "CHR '']''" h]
  by (simp add: split_host_port_def parse_uint_show_nat)

lemma show_upstream_trim:
  assumes "upstream_inv t"
  shows "trim (show_upstream t) = show_upstream t"
proof (rule trim_nonspace_ascii)
  have h: "c \<in> set (up_host t) \<Longrightarrow> is_ascii c" for c
    using assms valid_host_bytes host_byte_ascii by (auto simp: upstream_inv_def)
  have p: "c \<in> set (show_nat n) \<Longrightarrow> is_ascii c" for c n
    using show_nat_host_byte host_byte_ascii by blast
  show "\<forall>c \<in> set (show_upstream t). is_ascii c"
    using h p by (auto simp: show_upstream_def Let_def is_ascii_def)
  show "show_upstream t \<noteq> []" "\<not> is_whitespace [hd (show_upstream t)]"
    by (auto simp: show_upstream_def Let_def)
  have "last (show_upstream t) = last (show_nat (up_port t))"
    by (simp add: show_upstream_def Let_def last_append)
  moreover have "is_ascii_digit (last (show_nat (up_port t)))"
    using show_nat_digits [of "up_port t"] by (simp add: list_all_iff)
  ultimately show "\<not> is_whitespace [last (show_upstream t)]"
    by (simp add: is_ascii_digit_def)
qed

lemma from_url_show:
  assumes "upstream_inv t"
  shows "from_url_str (show_upstream t) = Ok t"
proof -
  let ?h = "up_host t" and ?p = "show_nat (up_port t)"
  define rest where "rest = (if CHR '':'' \<in> set ?h then ''['' @ ?h @ '']:'' @ ?p else ?h @ '':'' @ ?p)"
  have inv: "is_valid_host ?h" "?h \<noteq> []" "to_ascii_lowercase ?h = ?h" "0 < up_port t"
    "up_port t \<le> u16_max"
    using assms by (simp_all add: upstream_inv_def)
  have hb: "c \<in> set ?h \<Longrightarrow> host_byte c" for c
    using inv(1) by (rule valid_host_bytes)
  have no: "c \<notin> set ?h" "c \<notin> set ?p" if "\<not> host_byte c" for c
    using hb show_nat_host_byte that by blast+
  have rest: "c \<notin> set rest" if "c = CHR ''@'' \<or> c = CHR ''/'' \<or> c = CHR ''?'' \<or> c = CHR ''#''" for c
    using that no [of c] by (auto simp: rest_def)
  have hp: "split_host_port rest d = Some (?h, up_port t)" for d
    using split_host_port_plain [of ?h "up_port t" d] split_host_port_bracketed [of ?h "up_port t" d]
      no inv by (auto simp: rest_def)
  have url: "show_upstream t = (if up_secure t then ''https://'' @ rest else ''http://'' @ rest)"
    by (simp add: show_upstream_def rest_def)
  have tr: "trim (show_upstream t) = show_upstream t"
    using assms by (rule show_upstream_trim)
  have low: "lower_byte (CHR ''h'') = CHR ''h''" "lower_byte (CHR ''t'') = CHR ''t''"
    "lower_byte (CHR ''p'') = CHR ''p''" "lower_byte (CHR ''s'') = CHR ''s''"
    by code_simp+
  have sp: "split_once_str ''://'' (show_upstream t) = Some (if up_secure t then ''https'' else ''http'', rest)"
    using url split_scheme [of rest] by simp
  have ne: "show_upstream t \<noteq> []"
    using url by auto
  show ?thesis
    using rest inv
    by (simp add: from_url_str_def Let_def tr ne sp low hp)
qed

text \<open>
  C35: the printed form of an upstream that the parser produced parses back to the same upstream,
  for bracketed IPv6 hosts, IPv4 hosts and names, with and without TLS; and the port of an
  accepted upstream is between 1 and 65535.
\<close>

theorem upstream_roundtrip:
  assumes "from_url_str input = Ok t"
  shows "from_url_str (show_upstream t) = Ok t \<and> 1 \<le> up_port t \<and> up_port t \<le> 65535"
  using from_url_show [OF from_url_str_inv [OF assms]] from_url_str_inv [OF assms]
  by (simp add: upstream_inv_def)

theorem upstream_roundtrip_witness:
  "from_url_str (show_upstream \<lparr>up_secure = True, up_host = ''::1'', up_port = 8443\<rparr>)
     = Ok \<lparr>up_secure = True, up_host = ''::1'', up_port = 8443\<rparr>"
proof -
  have "from_url_str '' HTTPS://[::1]:8443'' = Ok \<lparr>up_secure = True, up_host = ''::1'', up_port = 8443\<rparr>"
    by code_simp
  from upstream_roundtrip [OF this] show ?thesis by blast
qed

section \<open>Rules\<close>

text \<open>A normalised prefix: absolute, without a trailing slash unless it is the root.\<close>

definition rule_prefix_ok :: "string \<Rightarrow> bool" where
  "rule_prefix_ok p \<longleftrightarrow> starts_with ''/'' p \<and> (p = ''/'' \<or> \<not> ends_with ''/'' p)
     \<and> ''..'' \<notin> set (split_on (CHR ''/'') p) \<and> (\<forall>c \<in> set p. 32 < code c \<and> code c \<noteq> 127 \<and> c \<noteq> CHR ''?'' \<and> c \<noteq> CHR ''#'')"

lemma split_on_slashes: "split_on c (s @ replicate k c) = split_on c s @ replicate k []"
proof (induction k arbitrary: s)
  case (Suc k)
  show ?case
    using Suc.IH [of "s @ [c]"] split_on_append_general [of c s "[]"] by simp
qed simp

lemma pop_slashes_prefix_ok:
  assumes "starts_with ''/'' p"
    "\<not> list_ex (\<lambda>c. is_control c \<or> c = '' '' \<or> c = ''?'' \<or> c = ''#'') (utf8_chars p)"
    "''..'' \<notin> set (split_on (CHR ''/'') p)"
  shows "rule_prefix_ok (pop_slashes p)"
proof -
  obtain k where k: "p = pop_slashes p @ replicate k (CHR ''/'')"
    using pop_slashes_decomp by blast
  have hd: "pop_slashes p \<noteq> []" "hd (pop_slashes p) = CHR ''/''"
    using assms(1) pop_slashes_hd [of p] by (auto simp: starts_with_singleton)
  have "pop_slashes p = ''/'' \<or> \<not> ends_with ''/'' (pop_slashes p)"
    using hd pop_slashes_last [of p] by (cases "pop_slashes p") (auto simp: ends_with_singleton)
  moreover have "''..'' \<notin> set (split_on (CHR ''/'') (pop_slashes p))"
    using assms(3) split_on_slashes [of "CHR ''/''" "pop_slashes p" k] unfolding k [symmetric]
    by simp
  moreover have "32 < code c \<and> code c \<noteq> 127 \<and> c \<noteq> CHR ''?'' \<and> c \<noteq> CHR ''#''" if "c \<in> set p" for c
  proof -
    have "\<not> any_control p"
      using assms(2) by (auto simp: any_control_def list_ex_iff)
    then have "32 \<le> code c \<and> code c \<noteq> 127"
      using that by (rule no_control_byte)
    moreover have "c \<noteq> d" if "[d] \<notin> set (utf8_chars p)" "is_ascii d" for d
      using that \<open>c \<in> set p\<close> utf8_chars_ascii_byte [of d p] by blast
    moreover have "'' '' \<notin> set (utf8_chars p)" "''?'' \<notin> set (utf8_chars p)" "''#'' \<notin> set (utf8_chars p)"
      using assms(2) unfolding list_ex_iff by blast+
    moreover have "is_ascii (CHR '' '')" "is_ascii (CHR ''?'')" "is_ascii (CHR ''#'')"
      by (simp_all add: is_ascii_def)
    moreover have "code c = 32 \<Longrightarrow> c = CHR '' ''"
      using code_eq_iff [of c "CHR '' ''"] by simp
    ultimately show ?thesis
      by (metis le_neq_implies_less)
  qed
  ultimately show ?thesis
    using hd pop_slashes_subset [of p] by (auto simp: rule_prefix_ok_def starts_with_singleton)
qed

lemma proxy_rule_new_ok: "proxy_rule_new p t = Ok r \<Longrightarrow> rule_prefix_ok (pr_prefix r) \<and> pr_target r = t"
  by (auto simp: proxy_rule_new_def Let_def intro!: pop_slashes_prefix_ok split: if_splits)

text \<open>
  The rule chosen for a request path is one of the rules, its prefix covers the path segment by
  segment (so \<open>/app\<close> never takes \<open>/apple\<close>), and no covering rule has a longer prefix; no rule is
  chosen only when none covers the path.
\<close>

theorem match_rule_longest:
  "case match_rule rules path of
     None \<Rightarrow> \<not> (\<exists>r \<in> set rules. under_prefix (pr_prefix r) path)
   | Some r \<Rightarrow> r \<in> set rules \<and> under_prefix (pr_prefix r) path
       \<and> Max ((\<lambda>r. length (pr_prefix r)) ` {r \<in> set rules. under_prefix (pr_prefix r) path})
           = length (pr_prefix r)"
proof (cases "match_rule rules path")
  case None
  with proxy_rules.select_None_iff [of rules path] show ?thesis
    by simp
next
  case (Some r)
  then show ?thesis
    using proxy_rules.select_Some [OF Some] by (auto intro!: Max_eqI)
qed

end
