(* ===== verification/Route_Rule.thy ===== *)
theory Route_Rule
  imports Site Upstream
begin

text \<open>
  \<open>crates/yerd-core/src/route_rule.rs\<close> and \<open>crates/yerd-proxy/src/pure/route_rules.rs\<close>: a rule that
  maps a path prefix to a file under the site's served root. The prefix checks repeat those of the
  proxy rule; both types satisfy the interface \<open>prefix_rules\<close>.
\<close>

record route_rule =
  rr_prefix :: string
  rr_target :: string

definition route_rule_new :: "string \<Rightarrow> string \<Rightarrow> (core_error, route_rule) result" where
  "route_rule_new pre target =
     (let prefix_err = (\<lambda>r. Err (InvalidRouteRule pre r));
          target_err = (\<lambda>r. Err (InvalidRouteRule target r))
      in if pre = [] then prefix_err EmptyPrefix
         else if \<not> starts_with ''/'' pre then prefix_err PrefixNotAbsolute
         else if list_ex (\<lambda>c. is_control c \<or> c = '' '' \<or> c = ''?'' \<or> c = ''#'') (utf8_chars pre)
           then prefix_err PrefixContainsControl
         else if ''..'' \<in> set (split_on (CHR ''/'') pre) then prefix_err PrefixContainsDotDot
         else if target = [] then target_err EmptyTarget
         else if any_control target \<or> \<not> is_safe_relative target then target_err InvalidTarget
         else Ok \<lparr>rr_prefix = pop_slashes pre, rr_target = target\<rparr>)"

definition route_matches_path :: "route_rule \<Rightarrow> string \<Rightarrow> bool" where
  "route_matches_path r path =
     (if rr_prefix r = ''/'' then starts_with ''/'' path
      else path = rr_prefix r
        \<or> (case strip_prefix (rr_prefix r) path of Some rest \<Rightarrow> starts_with ''/'' rest | None \<Rightarrow> False))"

definition match_route :: "route_rule list \<Rightarrow> string \<Rightarrow> route_rule option" where
  "match_route rules path =
     max_by_key (\<lambda>r. length (rr_prefix r)) (filter (\<lambda>r. route_matches_path r path) rules)"

interpretation route_rules: prefix_rules rr_prefix route_matches_path match_route
  by unfold_locales (simp_all only: route_matches_path_def boundary_under_prefix match_route_def)

lemma route_rule_new_ok:
  "route_rule_new p t = Ok r \<Longrightarrow>
     rule_prefix_ok (rr_prefix r) \<and> rr_target r = t \<and> is_safe_relative t \<and> t \<noteq> []"
  by (auto simp: route_rule_new_def Let_def intro!: pop_slashes_prefix_ok split: if_splits)

lemma route_rule_match_proxy_rule:
  "route_matches_path r path =
     proxy_matches_path \<lparr>pr_prefix = rr_prefix r, pr_target = t\<rparr> path"
  by (simp add: route_matches_path_def proxy_matches_path_def)

text \<open>
  An accepted routing rule can only send a request below the site's served root: joining its
  target to the root adds plain components only. Its prefix is absolute, normalised and free of
  parent components. When the prefixes of a site's rules are distinct, the order in which the rules
  are listed does not change which one a request takes.
\<close>

theorem route_rule_contained:
  assumes "route_rule_new p t = Ok r"
  shows "is_below (path_components (served_root s))
      (path_components (path_join (served_root s) (rr_target r)))
    \<and> rule_prefix_ok (rr_prefix r)
    \<and> (inj_on rr_prefix (set (r # rs)) \<and> set rs' = set (r # rs) \<longrightarrow>
         match_route rs' path = match_route (r # rs) path)"
  using route_rule_new_ok [OF assms] safe_join_below [of t "served_root s"]
    route_rules.select_order_irrelevant [of "r # rs" rs' path]
  by auto

theorem route_rule_contained_witness:
  "is_below (path_components ''/srv/app'') (path_components (path_join ''/srv/app'' ''api/index.php''))
   \<and> match_route [\<lparr>rr_prefix = ''/'', rr_target = ''index.html''\<rparr>,
                  \<lparr>rr_prefix = ''/api'', rr_target = ''api/index.php''\<rparr>] ''/api/x''
       = match_route [\<lparr>rr_prefix = ''/api'', rr_target = ''api/index.php''\<rparr>,
                  \<lparr>rr_prefix = ''/'', rr_target = ''index.html''\<rparr>] ''/api/x''"
proof -
  let ?r = "\<lparr>rr_prefix = ''/api'', rr_target = ''api/index.php''\<rparr>"
  let ?q = "\<lparr>rr_prefix = ''/'', rr_target = ''index.html''\<rparr>"
  let ?s = "new_site Linked ''app'' ''/srv/app'' (PhpVersion 8 3)"
  have n: "route_rule_new ''/api/'' ''api/index.php'' = Ok ?r"
    by code_simp
  have s: "served_root ?s = ''/srv/app''"
    by (simp add: served_root_def new_site_def)
  show ?thesis
    using route_rule_contained [OF n, of ?s "[?q]" "[?q, ?r]" "''/api/x''"]
    by (auto simp: s inj_on_def)
qed

end
