(* ===== verification/Host.thy ===== *)
theory Host
  imports Rust_Str
begin

text \<open>
  \<open>crates/yerd-core/src/host.rs\<close>: normalising a raw \<open>Host:\<close> header. \<open>normalise\<close> is the source's
  function; \<open>Hostname\<close> carries the lowercased host without port and trailing dot.
\<close>

datatype host_kind = Hostname string | Unroutable

text \<open>The \<open>match raw.rsplit_once(':')\<close> of the source; \<open>None\<close> is its \<open>return Unroutable\<close> arm.\<close>

definition strip_host_port :: "string \<Rightarrow> string option" where
  "strip_host_port raw =
     (case rsplit_once (CHR '':'') raw of
        None \<Rightarrow> Some raw
      | Some (head, tail) \<Rightarrow>
          if tail = [] \<or> list_all is_ascii_digit tail then Some head else None)"

definition strip_root_dot :: "string \<Rightarrow> string" where
  "strip_root_dot host = (case strip_suffix ''.'' host of Some h \<Rightarrow> h | None \<Rightarrow> host)"

definition normalise :: "string \<Rightarrow> host_kind" where
  "normalise raw =
     (if raw = [] then Unroutable
      else if starts_with ''['' raw then Unroutable
      else if \<exists>b \<in> set raw. \<not> is_ascii b then Unroutable
      else (case strip_host_port raw of
          None \<Rightarrow> Unroutable
        | Some host \<Rightarrow>
            if host = [] then Unroutable
            else
              let host = strip_root_dot host
              in if host = [] then Unroutable
                 else if starts_with ''.'' host then Unroutable
                 else if \<exists>b \<in> set host. is_ascii_uppercase b
                   then Hostname (to_ascii_lowercase host)
                   else Hostname host))"

lemma strip_host_port_subset: "strip_host_port raw = Some h \<Longrightarrow> set h \<subseteq> set raw"
  by (auto simp: strip_host_port_def rsplit_once_Some_iff split: option.splits if_splits)

lemma strip_root_dot_subset: "set (strip_root_dot h) \<subseteq> set h"
  by (auto simp: strip_root_dot_def strip_suffix_Some_iff split: option.splits)

lemma strip_root_dot_id: "h = [] \<or> last h \<noteq> CHR ''.'' \<Longrightarrow> strip_root_dot h = h"
  by (auto simp: strip_root_dot_def strip_suffix_Some_iff split: option.splits)

lemma strip_host_port_no_colon: "CHR '':'' \<notin> set h \<Longrightarrow> strip_host_port h = Some h"
  by (simp add: strip_host_port_def rsplit_once_None_iff [THEN iffD2])

lemma strip_host_port_digits:
  assumes "list_all is_ascii_digit p"
  shows "strip_host_port (h @ CHR '':'' # p) = Some h"
proof -
  have "CHR '':'' \<notin> set p"
    using assms by (auto simp: list_all_iff is_ascii_digit_def)
  then have "rsplit_once (CHR '':'') (h @ CHR '':'' # p) = Some (h, p)"
    by (simp add: rsplit_once_Some_iff)
  with assms show ?thesis by (simp add: strip_host_port_def)
qed

lemma to_ascii_lowercase_if_upper:
  "(if \<exists>b \<in> set h. is_ascii_uppercase b then Hostname (to_ascii_lowercase h) else Hostname h)
     = Hostname (to_ascii_lowercase h)"
  by (auto simp: to_ascii_lowercase_id)

text \<open>What a routable host looks like.\<close>

lemma normalise_Hostname:
  assumes "normalise raw = Hostname h"
  shows "h \<noteq> [] \<and> hd h \<noteq> CHR ''.'' \<and> to_ascii_lowercase h = h \<and> (\<forall>b \<in> set h. is_ascii b)"
proof -
  obtain host where port: "strip_host_port raw = Some host"
    and ne: "strip_root_dot host \<noteq> []" "\<not> starts_with ''.'' (strip_root_dot host)"
    and h: "h = to_ascii_lowercase (strip_root_dot host)" and asc: "\<forall>b \<in> set raw. is_ascii b"
    using assms
    by (auto simp: normalise_def Let_def to_ascii_lowercase_if_upper split: if_splits option.splits)
  have "hd h \<noteq> CHR ''.''"
    using ne h by (cases "strip_root_dot host")
      (auto simp: starts_with_singleton lower_byte_eq_nonletter)
  moreover have "\<forall>b \<in> set h. is_ascii b"
    using h asc strip_host_port_subset [OF port] strip_root_dot_subset [of host]
    by (auto simp: to_ascii_lowercase_def)
  ultimately show ?thesis using h ne by simp
qed

text \<open>A plain lowercase host, with or without a port, normalises to itself.\<close>

definition plain_host :: "string \<Rightarrow> bool" where
  "plain_host h \<longleftrightarrow> h \<noteq> [] \<and> (\<forall>b \<in> set h. is_ascii b) \<and> CHR '':'' \<notin> set h \<and> hd h \<noteq> CHR ''[''
     \<and> hd h \<noteq> CHR ''.'' \<and> last h \<noteq> CHR ''.'' \<and> to_ascii_lowercase h = h"

lemma normalise_plain:
  assumes "plain_host h"
  shows "normalise h = Hostname h"
  using assms
  by (auto simp: plain_host_def normalise_def strip_host_port_no_colon strip_root_dot_id
      starts_with_singleton to_ascii_lowercase_if_upper Let_def)

lemma normalise_port:
  assumes "plain_host h" "list_all is_ascii_digit p"
  shows "normalise (h @ CHR '':'' # p) = Hostname h"
proof -
  have asc: "\<forall>b \<in> set p. is_ascii b"
    using assms(2) by (auto simp: list_all_iff is_ascii_digit_def is_ascii_def)
  have "\<not> starts_with ''['' (h @ CHR '':'' # p)"
    using assms(1) by (cases h) (auto simp: plain_host_def starts_with_singleton)
  moreover have "is_ascii (CHR '':'')" by (simp add: is_ascii_def)
  ultimately show ?thesis
    using assms asc
    by (auto simp: plain_host_def normalise_def strip_host_port_digits strip_root_dot_id
      starts_with_singleton to_ascii_lowercase_if_upper Let_def)
qed

end
