(* ===== verification/Router.thy ===== *)
theory Router
  imports Route_Rule Host Rust_Map
begin

text \<open>
  \<open>crates/yerd-core/src/router.rs\<close>: the host-to-site router. A method that takes \<open>&mut self\<close> is a
  function that returns its result with the new router. The invariant \<open>router_inv\<close> ties the two
  domain indices to the per-claimant domain lists; the interface \<open>claim_ops\<close> states what inserting
  and removing a claimant promises and is interpreted for PHP sites and for whole-host proxies.
\<close>

section \<open>Configuration\<close>

record router_config =
  rc_tld :: string
  dotted_tld :: string

definition config_with_tld :: "string \<Rightarrow> router_config" where
  "config_with_tld tld = \<lparr>rc_tld = tld, dotted_tld = CHR ''.'' # tld\<rparr>"

definition config_new :: "string \<Rightarrow> (core_error, router_config) result" where
  "config_new tld = (case tld_new tld of Err e \<Rightarrow> Err e | Ok t \<Rightarrow> Ok (config_with_tld t))"

definition config_default :: router_config where
  "config_default = config_with_tld tld_default"

text \<open>The serialised form is the one field \<open>tld\<close>; reading it back goes through \<open>new\<close>.\<close>

definition config_serialize :: "router_config \<Rightarrow> string" where
  "config_serialize c = rc_tld c"

definition config_deserialize :: "string \<Rightarrow> (core_error, router_config) result" where
  "config_deserialize tld = config_new tld"

section \<open>The router\<close>

datatype route = Php site | Proxy proxy_site

record site_router =
  config :: router_config
  sites :: "(string, site) btree_map"
  domains :: "(string, domain list) btree_map"
  primaries :: "(string, domain) btree_map"
  exact :: "(string, string) hash_map"
  wildcards :: "(string, string) hash_map"
  proxy_sites :: "(string, proxy_site) btree_map"
  proxy_rules :: "(string, proxy_rule list) btree_map"
  route_rules :: "(string, route_rule list) btree_map"

definition router_new :: "router_config \<Rightarrow> site_router" where
  "router_new c =
     \<lparr>config = c, sites = bt_empty, domains = bt_empty, primaries = bt_empty, exact = hm_empty,
      wildcards = hm_empty, proxy_sites = bt_empty, proxy_rules = bt_empty, route_rules = bt_empty\<rparr>"

definition domain_owner :: "site_router \<Rightarrow> domain \<Rightarrow> string option" where
  "domain_owner r d = hm_get (if is_wildcard d then wildcards r else exact r) (sub d)"

text \<open>The loop that looks for a domain some claimant holds already.\<close>

definition taken_domain :: "site_router \<Rightarrow> domain list \<Rightarrow> domain option" where
  "taken_domain r effective =
     find (\<lambda>d. hm_contains_key (if is_wildcard d then wildcards r else exact r) (sub d)) effective"

text \<open>The loops that write and erase the index entries of a claimant.\<close>

definition index_domain :: "string \<Rightarrow> domain \<Rightarrow> site_router \<Rightarrow> site_router" where
  "index_domain name d r =
     (if is_wildcard d then r\<lparr>wildcards := hm_insert (sub d) name (wildcards r)\<rparr>
      else r\<lparr>exact := hm_insert (sub d) name (exact r)\<rparr>)"

definition unindex_domain :: "string \<Rightarrow> domain \<Rightarrow> site_router \<Rightarrow> site_router" where
  "unindex_domain name d r =
     (if is_wildcard d then
        (if hm_get (wildcards r) (sub d) = Some name
         then r\<lparr>wildcards := hm_remove (sub d) (wildcards r)\<rparr> else r)
      else
        (if hm_get (exact r) (sub d) = Some name
         then r\<lparr>exact := hm_remove (sub d) (exact r)\<rparr> else r))"

definition insert_with_domains ::
    "site \<Rightarrow> domain list \<Rightarrow> domain \<Rightarrow> site_router \<Rightarrow> (core_error, unit) result \<times> site_router" where
  "insert_with_domains s effective primary r =
     (let name = site_name s
      in if bt_contains_key (sites r) name \<or> bt_contains_key (proxy_sites r) name
         then (Err (DuplicateSite name), r)
         else (case taken_domain r effective of
             Some d \<Rightarrow> (Err (DuplicateDomain (sub d)), r)
           | None \<Rightarrow>
               (let r1 = fold (index_domain name) effective r;
                    r2 = r1\<lparr>primaries := bt_insert name primary (primaries r1)\<rparr>;
                    r3 = r2\<lparr>domains := bt_insert name effective (domains r2)\<rparr>
                in (Ok (), r3\<lparr>sites := bt_insert name s (sites r3)\<rparr>))))"

definition insert_site :: "site \<Rightarrow> site_router \<Rightarrow> (core_error, unit) result \<times> site_router" where
  "insert_site s r = (let a = apex (site_name s) in insert_with_domains s [a] a r)"

text \<open>The loop of \<open>from_sites\<close>: the first failure is returned.\<close>

fun insert_sites :: "site list \<Rightarrow> site_router \<Rightarrow> (core_error, site_router) result" where
  "insert_sites [] r = Ok r"
| "insert_sites (s # ss) r =
     (case insert_site s r of
        (Err e, _) \<Rightarrow> Err e
      | (Ok _, r') \<Rightarrow> insert_sites ss r')"

definition from_sites :: "router_config \<Rightarrow> site list \<Rightarrow> (core_error, site_router) result" where
  "from_sites c ss = insert_sites ss (router_new c)"

definition unindex_claimant :: "string \<Rightarrow> site_router \<Rightarrow> site_router" where
  "unindex_claimant name r =
     (case bt_get (domains r) name of
        None \<Rightarrow> r
      | Some ds \<Rightarrow> fold (unindex_domain name) ds (r\<lparr>domains := bt_remove name (domains r)\<rparr>))"

definition remove_site :: "string \<Rightarrow> site_router \<Rightarrow> (core_error, site) result \<times> site_router" where
  "remove_site name r =
     (case bt_get (sites r) name of
        None \<Rightarrow> (Err (SiteNotFound name), r)
      | Some s \<Rightarrow>
          (let r1 = unindex_claimant name (r\<lparr>sites := bt_remove name (sites r)\<rparr>)
           in (Ok s, r1\<lparr>primaries := bt_remove name (primaries r1),
                        proxy_rules := bt_remove name (proxy_rules r1),
                        route_rules := bt_remove name (route_rules r1)\<rparr>)))"

definition router_get :: "site_router \<Rightarrow> string \<Rightarrow> site option" where
  "router_get r name = bt_get (sites r) name"

text \<open>\<open>get_mut\<close> hands out the stored site; a caller's change to it is the function \<open>f\<close>.\<close>

definition router_get_mut :: "string \<Rightarrow> (site \<Rightarrow> site) \<Rightarrow> site_router \<Rightarrow> site_router" where
  "router_get_mut name f r =
     (case bt_get (sites r) name of
        None \<Rightarrow> r
      | Some s \<Rightarrow> r\<lparr>sites := bt_insert name (f s) (sites r)\<rparr>)"

definition router_proxy :: "site_router \<Rightarrow> string \<Rightarrow> proxy_site option" where
  "router_proxy r name = bt_get (proxy_sites r) name"

definition primary_domain :: "site_router \<Rightarrow> string \<Rightarrow> domain option" where
  "primary_domain r name = bt_get (primaries r) name"

definition primary_fqdn :: "site_router \<Rightarrow> string \<Rightarrow> string" where
  "primary_fqdn r name =
     (let tld = rc_tld (config r)
      in case primary_domain r name of None \<Rightarrow> name @ ''.'' @ tld | Some d \<Rightarrow> to_fqdn d tld)"

definition router_effective_domains :: "site_router \<Rightarrow> string \<Rightarrow> domain list option" where
  "router_effective_domains r name = bt_get (domains r) name"

definition apex_shadowed_by :: "site_router \<Rightarrow> string \<Rightarrow> string option" where
  "apex_shadowed_by r name =
     (case hm_get (exact r) name of
        Some owner \<Rightarrow> if owner \<noteq> name then Some owner else None
      | None \<Rightarrow> None)"

definition router_iter :: "site_router \<Rightarrow> site list" where
  "router_iter r = bt_values (sites r)"

definition router_len :: "site_router \<Rightarrow> nat" where
  "router_len r = length (sites r)"

definition router_is_empty :: "site_router \<Rightarrow> bool" where
  "router_is_empty r \<longleftrightarrow> sites r = []"

definition route_for :: "site_router \<Rightarrow> string \<Rightarrow> route option" where
  "route_for r name =
     (case bt_get (sites r) name of
        Some s \<Rightarrow> Some (Php s)
      | None \<Rightarrow> map_option Proxy (bt_get (proxy_sites r) name))"

definition resolve_route :: "site_router \<Rightarrow> string \<Rightarrow> route option" where
  "resolve_route r raw =
     (case normalise raw of
        Unroutable \<Rightarrow> None
      | Hostname host \<Rightarrow>
          if host = rc_tld (config r) then None
          else (case strip_suffix (dotted_tld (config r)) host of
              None \<Rightarrow> None
            | Some s \<Rightarrow>
                if s = [] then None
                else (case hm_get (exact r) s of
                    Some name \<Rightarrow> route_for r name
                  | None \<Rightarrow>
                      (case split_once (CHR ''.'') s of
                         Some (_, rest) \<Rightarrow>
                           (case hm_get (wildcards r) (''*.'' @ rest) of
                              Some name \<Rightarrow> route_for r name
                            | None \<Rightarrow> None)
                       | None \<Rightarrow> None))))"

definition resolve :: "site_router \<Rightarrow> string \<Rightarrow> site option" where
  "resolve r host =
     (case resolve_route r host of Some (Php s) \<Rightarrow> Some s | Some (Proxy _) \<Rightarrow> None | None \<Rightarrow> None)"

definition insert_proxy_with_domains ::
    "proxy_site \<Rightarrow> domain list \<Rightarrow> domain \<Rightarrow> site_router \<Rightarrow> (core_error, unit) result \<times> site_router" where
  "insert_proxy_with_domains p effective primary r =
     (let name = ps_name p
      in if bt_contains_key (sites r) name \<or> bt_contains_key (proxy_sites r) name
         then (Err (DuplicateSite name), r)
         else (case taken_domain r effective of
             Some d \<Rightarrow> (Err (DuplicateDomain (sub d)), r)
           | None \<Rightarrow>
               (let r1 = fold (index_domain name) effective r;
                    r2 = r1\<lparr>primaries := bt_insert name primary (primaries r1)\<rparr>;
                    r3 = r2\<lparr>domains := bt_insert name effective (domains r2)\<rparr>
                in (Ok (), r3\<lparr>proxy_sites := bt_insert name p (proxy_sites r3)\<rparr>))))"

definition insert_proxy :: "proxy_site \<Rightarrow> site_router \<Rightarrow> (core_error, unit) result \<times> site_router" where
  "insert_proxy p r = (let a = apex (ps_name p) in insert_proxy_with_domains p [a] a r)"

definition remove_proxy :: "string \<Rightarrow> site_router \<Rightarrow> (core_error, proxy_site) result \<times> site_router" where
  "remove_proxy name r =
     (case bt_get (proxy_sites r) name of
        None \<Rightarrow> (Err (SiteNotFound name), r)
      | Some p \<Rightarrow>
          (let r1 = unindex_claimant name (r\<lparr>proxy_sites := bt_remove name (proxy_sites r)\<rparr>)
           in (Ok p, r1\<lparr>primaries := bt_remove name (primaries r1)\<rparr>)))"

definition proxy_iter :: "site_router \<Rightarrow> proxy_site list" where
  "proxy_iter r = bt_values (proxy_sites r)"

definition rules_for :: "site_router \<Rightarrow> string \<Rightarrow> proxy_rule list" where
  "rules_for r s = (case bt_get (proxy_rules r) s of Some rs \<Rightarrow> rs | None \<Rightarrow> [])"

definition set_proxy_rules :: "string \<Rightarrow> proxy_rule list \<Rightarrow> site_router \<Rightarrow> site_router" where
  "set_proxy_rules s rules r =
     (if rules = [] then r\<lparr>proxy_rules := bt_remove s (proxy_rules r)\<rparr>
      else r\<lparr>proxy_rules := bt_insert s rules (proxy_rules r)\<rparr>)"

definition route_rules_for :: "site_router \<Rightarrow> string \<Rightarrow> route_rule list" where
  "route_rules_for r s = (case bt_get (route_rules r) s of Some rs \<Rightarrow> rs | None \<Rightarrow> [])"

definition set_route_rules :: "string \<Rightarrow> route_rule list \<Rightarrow> site_router \<Rightarrow> site_router" where
  "set_route_rules s rules r =
     (if rules = [] then r\<lparr>route_rules := bt_remove s (route_rules r)\<rparr>
      else r\<lparr>route_rules := bt_insert s rules (route_rules r)\<rparr>)"

section \<open>The invariant\<close>

text \<open>Whether a name is held, by a site or by a proxy.\<close>

definition holds_name :: "site_router \<Rightarrow> string \<Rightarrow> bool" where
  "holds_name r n \<longleftrightarrow> bt_get (sites r) n \<noteq> None \<or> bt_get (proxy_sites r) n \<noteq> None"

definition holds_domain :: "site_router \<Rightarrow> string \<Rightarrow> domain \<Rightarrow> bool" where
  "holds_domain r n d \<longleftrightarrow> (\<exists>ds. bt_get (domains r) n = Some ds \<and> d \<in> set ds)"

definition router_maps_sorted :: "site_router \<Rightarrow> bool" where
  "router_maps_sorted r \<longleftrightarrow> bt_inv (sites r) \<and> bt_inv (domains r) \<and> bt_inv (primaries r)
     \<and> bt_inv (proxy_sites r) \<and> bt_inv (proxy_rules r) \<and> bt_inv (route_rules r)"

text \<open>An index holds keys of its own kind only.\<close>

definition index_kinds :: "site_router \<Rightarrow> bool" where
  "index_kinds r \<longleftrightarrow>
     (\<forall>k. hm_get (exact r) k \<noteq> None \<longrightarrow> \<not> is_wildcard (Domain k))
     \<and> (\<forall>k. hm_get (wildcards r) k \<noteq> None \<longrightarrow> is_wildcard (Domain k))"

definition router_inv :: "site_router \<Rightarrow> bool" where
  "router_inv r \<longleftrightarrow>
     router_maps_sorted r \<and> index_kinds r
     \<and> dotted_tld (config r) = CHR ''.'' # rc_tld (config r)
     \<and> (\<forall>n s. bt_get (sites r) n = Some s \<longrightarrow> site_name s = n)
     \<and> (\<forall>n p. bt_get (proxy_sites r) n = Some p \<longrightarrow> ps_name p = n)
     \<and> (\<forall>n. bt_get (sites r) n = None \<or> bt_get (proxy_sites r) n = None)
     \<and> (\<forall>n. holds_name r n = is_some (bt_get (domains r) n))
     \<and> (\<forall>n. is_some (bt_get (primaries r) n) = is_some (bt_get (domains r) n))
     \<and> (\<forall>d n. domain_owner r d = Some n \<longleftrightarrow> holds_domain r n d)"

lemma router_new_inv: "router_inv (router_new (config_with_tld t))"
  by (simp add: router_inv_def router_maps_sorted_def index_kinds_def router_new_def
      config_with_tld_def holds_name_def holds_domain_def domain_owner_def)

section \<open>Index loops\<close>

lemma index_domain_selectors [simp]:
  "config (index_domain n d r) = config r" "sites (index_domain n d r) = sites r"
  "domains (index_domain n d r) = domains r" "primaries (index_domain n d r) = primaries r"
  "proxy_sites (index_domain n d r) = proxy_sites r"
  "proxy_rules (index_domain n d r) = proxy_rules r"
  "route_rules (index_domain n d r) = route_rules r"
  by (simp_all add: index_domain_def)

lemma unindex_domain_selectors [simp]:
  "config (unindex_domain n d r) = config r" "sites (unindex_domain n d r) = sites r"
  "domains (unindex_domain n d r) = domains r" "primaries (unindex_domain n d r) = primaries r"
  "proxy_sites (unindex_domain n d r) = proxy_sites r"
  "proxy_rules (unindex_domain n d r) = proxy_rules r"
  "route_rules (unindex_domain n d r) = route_rules r"
  by (simp_all add: unindex_domain_def)

lemma fold_index_selectors [simp]:
  "config (fold (index_domain n) ds r) = config r" "sites (fold (index_domain n) ds r) = sites r"
  "domains (fold (index_domain n) ds r) = domains r"
  "primaries (fold (index_domain n) ds r) = primaries r"
  "proxy_sites (fold (index_domain n) ds r) = proxy_sites r"
  "proxy_rules (fold (index_domain n) ds r) = proxy_rules r"
  "route_rules (fold (index_domain n) ds r) = route_rules r"
  by (induction ds arbitrary: r) simp_all

lemma fold_unindex_selectors [simp]:
  "config (fold (unindex_domain n) ds r) = config r"
  "sites (fold (unindex_domain n) ds r) = sites r"
  "domains (fold (unindex_domain n) ds r) = domains r"
  "primaries (fold (unindex_domain n) ds r) = primaries r"
  "proxy_sites (fold (unindex_domain n) ds r) = proxy_sites r"
  "proxy_rules (fold (unindex_domain n) ds r) = proxy_rules r"
  "route_rules (fold (unindex_domain n) ds r) = route_rules r"
  by (induction ds arbitrary: r) simp_all

lemma domain_eq_iff: "d = e \<longleftrightarrow> sub d = sub e"
  by (auto intro: domain.expand)

lemma is_wildcard_sub: "sub d = sub e \<Longrightarrow> is_wildcard d = is_wildcard e"
  by (simp add: is_wildcard_def)

lemma domain_owner_index:
  "domain_owner (index_domain n d r) e = (if e = d then Some n else domain_owner r e)"
  using is_wildcard_sub [of e d] by (auto simp: domain_owner_def index_domain_def domain_eq_iff)

lemma domain_owner_unindex:
  "domain_owner (unindex_domain n d r) e =
     (if e = d \<and> domain_owner r e = Some n then None else domain_owner r e)"
  using is_wildcard_sub [of e d] by (auto simp: domain_owner_def unindex_domain_def domain_eq_iff)

lemma domain_owner_fold_index:
  "domain_owner (fold (index_domain n) ds r) e =
     (if e \<in> set ds then Some n else domain_owner r e)"
  by (induction ds arbitrary: r) (auto simp: domain_owner_index)

lemma domain_owner_fold_unindex:
  "domain_owner (fold (unindex_domain n) ds r) e =
     (if e \<in> set ds \<and> domain_owner r e = Some n then None else domain_owner r e)"
  by (induction ds arbitrary: r) (auto simp: domain_owner_unindex)

lemma index_kinds_index: "index_kinds r \<Longrightarrow> index_kinds (index_domain n d r)"
  by (cases d) (auto simp: index_kinds_def index_domain_def)

lemma index_kinds_unindex: "index_kinds r \<Longrightarrow> index_kinds (unindex_domain n d r)"
  by (auto simp: index_kinds_def unindex_domain_def)

lemma index_kinds_fold_index: "index_kinds r \<Longrightarrow> index_kinds (fold (index_domain n) ds r)"
  by (induction ds arbitrary: r) (auto simp: index_kinds_index)

lemma index_kinds_fold_unindex: "index_kinds r \<Longrightarrow> index_kinds (fold (unindex_domain n) ds r)"
  by (induction ds arbitrary: r) (auto simp: index_kinds_unindex)

lemma index_kinds_cong: "exact r = exact r' \<Longrightarrow> wildcards r = wildcards r' \<Longrightarrow> index_kinds r = index_kinds r'"
  by (simp add: index_kinds_def)

lemma domain_owner_cong:
  "exact r = exact r' \<Longrightarrow> wildcards r = wildcards r' \<Longrightarrow> domain_owner r = domain_owner r'"
  by (rule ext) (simp add: domain_owner_def)

lemma taken_domain_None_iff:
  "taken_domain r ds = None \<longleftrightarrow> (\<forall>d \<in> set ds. domain_owner r d = None)"
  by (auto simp: taken_domain_def find_None_iff domain_owner_def hm_contains_key_def is_some_def)

lemma taken_domain_Some:
  "taken_domain r ds = Some d \<Longrightarrow> d \<in> set ds \<and> domain_owner r d \<noteq> None"
  by (auto simp: taken_domain_def find_Some_iff domain_owner_def hm_contains_key_def is_some_def)

section \<open>What an insertion does\<close>

text \<open>The state both insertions build before they store the claimant itself.\<close>

definition claim :: "string \<Rightarrow> domain list \<Rightarrow> domain \<Rightarrow> site_router \<Rightarrow> site_router" where
  "claim n ds p r =
     (fold (index_domain n) ds r)\<lparr>primaries := bt_insert n p (primaries r), domains := bt_insert n ds (domains r)\<rparr>"

lemma domain_owner_claim:
  "domain_owner (claim n ds p r) e = (if e \<in> set ds then Some n else domain_owner r e)"
proof -
  have "domain_owner (claim n ds p r) = domain_owner (fold (index_domain n) ds r)"
    by (rule domain_owner_cong) (simp_all add: claim_def)
  then show ?thesis by (simp add: domain_owner_fold_index)
qed

lemma claim_selectors [simp]:
  "config (claim n ds p r) = config r" "sites (claim n ds p r) = sites r"
  "proxy_sites (claim n ds p r) = proxy_sites r" "proxy_rules (claim n ds p r) = proxy_rules r"
  "route_rules (claim n ds p r) = route_rules r"
  "primaries (claim n ds p r) = bt_insert n p (primaries r)"
  "domains (claim n ds p r) = bt_insert n ds (domains r)"
  by (simp_all add: claim_def)

lemma index_kinds_claim: "index_kinds r \<Longrightarrow> index_kinds (claim n ds p r)"
  using index_kinds_fold_index [of r n ds] by (simp add: claim_def index_kinds_def)

lemma insert_with_domains_alt:
  "insert_with_domains s ds p r =
     (if holds_name r (site_name s) then (Err (DuplicateSite (site_name s)), r)
      else (case taken_domain r ds of
          Some d \<Rightarrow> (Err (DuplicateDomain (sub d)), r)
        | None \<Rightarrow> (Ok (), (claim (site_name s) ds p r)\<lparr>sites := bt_insert (site_name s) s (sites r)\<rparr>)))"
  by (auto simp: insert_with_domains_def holds_name_def bt_contains_key_def is_some_def Let_def
      claim_def split: option.split)

lemma insert_proxy_with_domains_alt:
  "insert_proxy_with_domains q ds p r =
     (if holds_name r (ps_name q) then (Err (DuplicateSite (ps_name q)), r)
      else (case taken_domain r ds of
          Some d \<Rightarrow> (Err (DuplicateDomain (sub d)), r)
        | None \<Rightarrow>
            (Ok (), (claim (ps_name q) ds p r)\<lparr>proxy_sites := bt_insert (ps_name q) q (proxy_sites r)\<rparr>)))"
  by (auto simp: insert_proxy_with_domains_def holds_name_def bt_contains_key_def is_some_def Let_def
      claim_def split: option.split)

lemma holds_domain_owner: "router_inv r \<Longrightarrow> domain_owner r d = Some n \<longleftrightarrow> holds_domain r n d"
  by (simp add: router_inv_def)

lemma holds_domain_name: "router_inv r \<Longrightarrow> holds_domain r n d \<Longrightarrow> holds_name r n"
  by (auto simp: router_inv_def holds_domain_def)

lemma router_inv_disjoint:
  "router_inv r \<Longrightarrow> bt_get (sites r) n = None \<or> bt_get (proxy_sites r) n = None"
  by (simp add: router_inv_def)

lemma site_not_proxy: "router_inv r \<Longrightarrow> bt_get (sites r) n = Some s \<Longrightarrow> bt_get (proxy_sites r) n = None"
  using router_inv_disjoint [of r n] by simp

lemma proxy_not_site: "router_inv r \<Longrightarrow> bt_get (proxy_sites r) n = Some s \<Longrightarrow> bt_get (sites r) n = None"
  using router_inv_disjoint [of r n] by simp

lemma claim_owner_iff:
  assumes "router_inv r" "\<not> holds_name r n" "taken_domain r ds = None"
  shows "domain_owner (claim n ds p r) e = Some m \<longleftrightarrow> holds_domain (claim n ds p r) m e"
proof -
  have "\<not> holds_domain r n e"
    using assms holds_domain_name by blast
  moreover have "e \<in> set ds \<Longrightarrow> \<not> holds_domain r m e"
    using assms by (auto simp: taken_domain_None_iff holds_domain_owner [symmetric])
  ultimately show ?thesis
    using holds_domain_owner [OF assms(1)]
    by (auto simp: domain_owner_claim holds_domain_def [of "claim n ds p r"] holds_domain_def [of r])
qed

lemma router_inv_claim_site:
  assumes "router_inv r" "\<not> holds_name r (site_name s)" "taken_domain r ds = None"
  shows "router_inv ((claim (site_name s) ds p r)\<lparr>sites := bt_insert (site_name s) s (sites r)\<rparr>)"
    (is "router_inv ?r")
proof -
  have o: "domain_owner ?r = domain_owner (claim (site_name s) ds p r)"
    by (rule domain_owner_cong) simp_all
  have "index_kinds ?r = index_kinds (claim (site_name s) ds p r)"
    by (rule index_kinds_cong) simp_all
  then have k: "index_kinds ?r"
    using index_kinds_claim [of r] assms(1) by (simp add: router_inv_def)
  have "domain_owner ?r e = Some m \<longleftrightarrow> holds_domain ?r m e" for e m
    using claim_owner_iff [OF assms] by (simp add: o holds_domain_def)
  then show ?thesis
    using assms k by (auto simp: router_inv_def router_maps_sorted_def holds_name_def)
qed

lemma router_inv_claim_proxy:
  assumes "router_inv r" "\<not> holds_name r (ps_name q)" "taken_domain r ds = None"
  shows "router_inv ((claim (ps_name q) ds p r)\<lparr>proxy_sites := bt_insert (ps_name q) q (proxy_sites r)\<rparr>)"
    (is "router_inv ?r")
proof -
  have o: "domain_owner ?r = domain_owner (claim (ps_name q) ds p r)"
    by (rule domain_owner_cong) simp_all
  have "index_kinds ?r = index_kinds (claim (ps_name q) ds p r)"
    by (rule index_kinds_cong) simp_all
  then have k: "index_kinds ?r"
    using index_kinds_claim [of r] assms(1) by (simp add: router_inv_def)
  have "domain_owner ?r e = Some m \<longleftrightarrow> holds_domain ?r m e" for e m
    using claim_owner_iff [OF assms] by (simp add: o holds_domain_def)
  then show ?thesis
    using assms k by (auto simp: router_inv_def router_maps_sorted_def holds_name_def)
qed

section \<open>What a removal does\<close>

lemma unindex_claimant_selectors [simp]:
  "config (unindex_claimant n r) = config r" "sites (unindex_claimant n r) = sites r"
  "proxy_sites (unindex_claimant n r) = proxy_sites r"
  "primaries (unindex_claimant n r) = primaries r"
  "proxy_rules (unindex_claimant n r) = proxy_rules r"
  "route_rules (unindex_claimant n r) = route_rules r"
  by (auto simp: unindex_claimant_def split: option.split)

lemma bt_get_domains_unindex:
  "bt_get (domains (unindex_claimant n r)) m = (if m = n then None else bt_get (domains r) m)"
  by (auto simp: unindex_claimant_def split: option.split)

lemma bt_inv_domains_unindex: "bt_inv (domains r) \<Longrightarrow> bt_inv (domains (unindex_claimant n r))"
  by (auto simp: unindex_claimant_def split: option.split)

lemma index_kinds_unindex_claimant: "index_kinds r \<Longrightarrow> index_kinds (unindex_claimant n r)"
  using index_kinds_fold_unindex [of "r\<lparr>domains := bt_remove n (domains r)\<rparr>" n]
  by (auto simp: unindex_claimant_def index_kinds_def split: option.split)

lemma domain_owner_unindex_claimant:
  assumes "\<And>d m. domain_owner r d = Some m \<longleftrightarrow> holds_domain r m d"
  shows "domain_owner (unindex_claimant n r) e =
    (if domain_owner r e = Some n then None else domain_owner r e)"
proof (cases "bt_get (domains r) n")
  case None
  then have "domain_owner r e \<noteq> Some n"
    using assms by (simp add: holds_domain_def)
  with None show ?thesis by (simp add: unindex_claimant_def)
next
  case (Some ds)
  have "domain_owner (r\<lparr>domains := bt_remove n (domains r)\<rparr>) = domain_owner r"
    by (rule domain_owner_cong) simp_all
  moreover have "domain_owner r e = Some n \<longleftrightarrow> e \<in> set ds"
    using assms Some by (simp add: holds_domain_def)
  ultimately show ?thesis
    using Some by (simp add: unindex_claimant_def domain_owner_fold_unindex)
qed

lemma unindex_owner_iff:
  assumes "\<And>d m. domain_owner r d = Some m \<longleftrightarrow> holds_domain r m d"
  shows "domain_owner (unindex_claimant n r) e = Some m \<longleftrightarrow> holds_domain (unindex_claimant n r) m e"
  using assms [of e m] assms [of e n]
  by (auto simp: domain_owner_unindex_claimant [OF assms] holds_domain_def bt_get_domains_unindex)

lemma remove_site_inv:
  assumes "router_inv r"
  shows "router_inv (snd (remove_site n r))"
proof (cases "bt_get (sites r) n")
  case None
  with assms show ?thesis by (simp add: remove_site_def)
next
  case (Some s)
  let ?base = "r\<lparr>sites := bt_remove n (sites r)\<rparr>"
  let ?r = "snd (remove_site n r)"
  have h0: "domain_owner ?base d = Some m \<longleftrightarrow> holds_domain ?base m d" for d m
    using holds_domain_owner [OF assms, of d m]
    by (simp add: domain_owner_def holds_domain_def split: if_splits)
  have r: "?r = (unindex_claimant n ?base)\<lparr>primaries := bt_remove n (primaries r),
      proxy_rules := bt_remove n (proxy_rules r), route_rules := bt_remove n (route_rules r)\<rparr>"
    using Some by (simp add: remove_site_def Let_def)
  have "domain_owner ?r = domain_owner (unindex_claimant n ?base)"
    unfolding r by (rule domain_owner_cong) simp_all
  then have "domain_owner ?r d = Some m \<longleftrightarrow> holds_domain ?r m d" for d m
    using unindex_owner_iff [OF h0, where n = n and e = d and m = m] by (simp add: r holds_domain_def)
  moreover have "index_kinds ?r = index_kinds (unindex_claimant n ?base)"
    unfolding r by (rule index_kinds_cong) simp_all
  moreover have "index_kinds ?base = index_kinds r"
    by (rule index_kinds_cong) simp_all
  moreover note index_kinds_unindex_claimant [of ?base n]
  moreover have "holds_name ?r m \<longleftrightarrow> m \<noteq> n \<and> holds_name r m" for m
    using site_not_proxy [OF assms, of n] proxy_not_site [OF assms, of n] Some
    by (auto simp: r holds_name_def)
  ultimately show ?thesis
    using assms by (auto simp: r router_inv_def router_maps_sorted_def bt_get_domains_unindex
      bt_inv_domains_unindex)
qed

lemma remove_proxy_inv:
  assumes "router_inv r"
  shows "router_inv (snd (remove_proxy n r))"
proof (cases "bt_get (proxy_sites r) n")
  case None
  with assms show ?thesis by (simp add: remove_proxy_def)
next
  case (Some q)
  let ?base = "r\<lparr>proxy_sites := bt_remove n (proxy_sites r)\<rparr>"
  let ?r = "snd (remove_proxy n r)"
  have h0: "domain_owner ?base d = Some m \<longleftrightarrow> holds_domain ?base m d" for d m
    using holds_domain_owner [OF assms, of d m]
    by (simp add: domain_owner_def holds_domain_def split: if_splits)
  have r: "?r = (unindex_claimant n ?base)\<lparr>primaries := bt_remove n (primaries r)\<rparr>"
    using Some by (simp add: remove_proxy_def Let_def)
  have "domain_owner ?r = domain_owner (unindex_claimant n ?base)"
    unfolding r by (rule domain_owner_cong) simp_all
  then have "domain_owner ?r d = Some m \<longleftrightarrow> holds_domain ?r m d" for d m
    using unindex_owner_iff [OF h0, where n = n and e = d and m = m] by (simp add: r holds_domain_def)
  moreover have "index_kinds ?r = index_kinds (unindex_claimant n ?base)"
    unfolding r by (rule index_kinds_cong) simp_all
  moreover have "index_kinds ?base = index_kinds r"
    by (rule index_kinds_cong) simp_all
  moreover note index_kinds_unindex_claimant [of ?base n]
  moreover have "holds_name ?r m \<longleftrightarrow> m \<noteq> n \<and> holds_name r m" for m
    using site_not_proxy [OF assms, of n] proxy_not_site [OF assms, of n] Some
    by (auto simp: r holds_name_def)
  ultimately show ?thesis
    using assms by (auto simp: r router_inv_def router_maps_sorted_def bt_get_domains_unindex
      bt_inv_domains_unindex)
qed

section \<open>The contract of a claimant kind\<close>

text \<open>
  \<open>nm\<close> is the name of a claimant, \<open>stored\<close> reads it back, \<open>ins\<close> and \<open>del\<close> insert and remove.
\<close>

locale claim_ops =
  fixes nm :: "'c \<Rightarrow> string"
    and stored :: "site_router \<Rightarrow> string \<Rightarrow> 'c option"
    and ins :: "'c \<Rightarrow> domain list \<Rightarrow> domain \<Rightarrow> site_router \<Rightarrow> (core_error, unit) result \<times> site_router"
    and del :: "string \<Rightarrow> site_router \<Rightarrow> (core_error, 'c) result \<times> site_router"
  assumes ins_result:
      "fst (ins c ds p r) =
         (if holds_name r (nm c) then Err (DuplicateSite (nm c))
          else (case taken_domain r ds of Some d \<Rightarrow> Err (DuplicateDomain (sub d)) | None \<Rightarrow> Ok ()))"
    and ins_err: "fst (ins c ds p r) = Err e \<Longrightarrow> snd (ins c ds p r) = r"
    and ins_inv: "router_inv r \<Longrightarrow> router_inv (snd (ins c ds p r))"
    and ins_stored: "fst (ins c ds p r) = Ok () \<Longrightarrow> stored (snd (ins c ds p r)) (nm c) = Some c"
    and ins_frame: "m \<noteq> nm c \<Longrightarrow> stored (snd (ins c ds p r)) m = stored r m"
    and ins_owner: "fst (ins c ds p r) = Ok () \<Longrightarrow>
      domain_owner (snd (ins c ds p r)) d = (if d \<in> set ds then Some (nm c) else domain_owner r d)"
    and ins_names: "fst (ins c ds p r) = Ok () \<Longrightarrow>
      holds_name (snd (ins c ds p r)) m \<longleftrightarrow> m = nm c \<or> holds_name r m"
    and del_result: "fst (del n r) =
      (case stored r n of Some c \<Rightarrow> Ok c | None \<Rightarrow> Err (SiteNotFound n))"
    and del_err: "fst (del n r) = Err e \<Longrightarrow> snd (del n r) = r"
    and del_inv: "router_inv r \<Longrightarrow> router_inv (snd (del n r))"
    and del_owner: "router_inv r \<Longrightarrow> fst (del n r) = Ok c \<Longrightarrow>
      domain_owner (snd (del n r)) d = (if domain_owner r d = Some n then None else domain_owner r d)"
    and del_names: "router_inv r \<Longrightarrow> fst (del n r) = Ok c \<Longrightarrow>
      holds_name (snd (del n r)) m \<longleftrightarrow> m \<noteq> n \<and> holds_name r m"
begin

lemma ins_Ok_iff:
  "fst (ins c ds p r) = Ok () \<longleftrightarrow> \<not> holds_name r (nm c) \<and> (\<forall>d \<in> set ds. domain_owner r d = None)"
  using taken_domain_None_iff [of r ds] by (auto simp: ins_result split: option.splits)

text \<open>
  Inserting a list of claimants whose names are new and distinct and whose domains are free and
  disjoint succeeds for each of them: all are stored, and each domain goes to its claimant.
\<close>

lemma ins_all:
  assumes "router_inv r" "distinct (map (\<lambda>(c, ds, p). nm c) xs)"
    "\<forall>(c, ds, p) \<in> set xs. \<not> holds_name r (nm c) \<and> (\<forall>d \<in> set ds. domain_owner r d = None)"
    "sorted_wrt (\<lambda>(c, ds, p) (c', ds', p'). set ds \<inter> set ds' = {}) xs"
  shows "let r' = fold (\<lambda>(c, ds, p) r. snd (ins c ds p r)) xs r in
    router_inv r'
    \<and> (\<forall>c ds p. (c, ds, p) \<in> set xs \<longrightarrow> stored r' (nm c) = Some c)
    \<and> (\<forall>m. m \<notin> (\<lambda>(c, ds, p). nm c) ` set xs \<longrightarrow> stored r' m = stored r m)
    \<and> (\<forall>m. holds_name r' m \<longleftrightarrow> m \<in> (\<lambda>(c, ds, p). nm c) ` set xs \<or> holds_name r m)
    \<and> (\<forall>d. domain_owner r' d =
          (case find (\<lambda>(c, ds, p). d \<in> set ds) xs of Some (c, ds, p) \<Rightarrow> Some (nm c) | None \<Rightarrow> domain_owner r d))"
  using assms
proof (induction xs arbitrary: r)
  case (Cons x xs)
  obtain c ds p where x: "x = (c, ds, p)" by (cases x)
  let ?r = "snd (ins c ds p r)"
  let ?names = "(\<lambda>(c, ds, p). nm c) ` set xs"
  have ok: "fst (ins c ds p r) = Ok ()"
    using Cons.prems(3) x by (simp add: ins_Ok_iff)
  have inv: "router_inv ?r" using Cons.prems(1) by (rule ins_inv)
  have new: "nm c \<notin> ?names"
    using Cons.prems(2) x by auto
  have free: "\<not> holds_name ?r (nm c') \<and> (\<forall>d \<in> set ds'. domain_owner ?r d = None)"
    if "(c', ds', p') \<in> set xs" for c' ds' p'
  proof -
    have "nm c' \<noteq> nm c" using new that by force
    moreover have "set ds \<inter> set ds' = {}" using Cons.prems(4) x that by auto
    moreover have "\<not> holds_name r (nm c')" "\<forall>d \<in> set ds'. domain_owner r d = None"
      using Cons.prems(3) that by auto
    ultimately show ?thesis by (auto simp: ins_names [OF ok] ins_owner [OF ok])
  qed
  have rest: "\<forall>(c', ds', p') \<in> set xs. \<not> holds_name ?r (nm c') \<and> (\<forall>d \<in> set ds'. domain_owner ?r d = None)"
    using free by blast
  have dis: "sorted_wrt (\<lambda>(c, ds, p) (c', ds', p'). set ds \<inter> set ds' = {}) xs"
    "distinct (map (\<lambda>(c, ds, p). nm c) xs)"
    using Cons.prems(2,4) unfolding list.map distinct.simps sorted_wrt.simps by blast+
  define r' where "r' = fold (\<lambda>(c, ds, p) r. snd (ins c ds p r)) xs ?r"
  note ih = Cons.IH [OF inv dis(2) rest dis(1), unfolded Let_def, folded r'_def]
  note ih2 = conjunct2 [OF ih]
  note ih3 = conjunct2 [OF ih2]
  note ih4 = conjunct2 [OF ih3]
  note IH1 = conjunct1 [OF ih]
    and IH2 = conjunct1 [OF ih2, rule_format]
    and IH3 = conjunct1 [OF ih3, rule_format]
    and IH4 = conjunct1 [OF ih4, rule_format]
    and IH5 = conjunct2 [OF ih4, rule_format]
  have f: "find (\<lambda>(c, ds, p). d \<in> set ds) xs = None" if "d \<in> set ds" for d
    using that Cons.prems(4) x by (fastforce simp: find_None_iff)
  have "stored r' (nm c) = Some c"
    using IH3 [OF new] ins_stored [OF ok] by simp
  moreover have "stored r' m = stored r m" if "m \<notin> (\<lambda>(c, ds, p). nm c) ` set (x # xs)" for m
    using that IH3 [of m] ins_frame [of m c ds p r] x by simp
  moreover have "holds_name r' m \<longleftrightarrow> m \<in> (\<lambda>(c, ds, p). nm c) ` set (x # xs) \<or> holds_name r m" for m
    using x by (auto simp: IH4 ins_names [OF ok])
  moreover have "domain_owner r' d =
      (case find (\<lambda>(c, ds, p). d \<in> set ds) (x # xs) of Some (c, ds, p) \<Rightarrow> Some (nm c)
       | None \<Rightarrow> domain_owner r d)" for d
    using x f [of d] by (auto simp: IH5 ins_owner [OF ok] split: option.split)
  ultimately show ?case
    using IH1 IH2 x unfolding Let_def by (auto simp: r'_def [symmetric])
qed simp

lemma ins_del_restores:
  assumes "router_inv r" "fst (ins c ds p r) = Ok ()"
  shows "fst (del (nm c) (snd (ins c ds p r))) = Ok c
    \<and> domain_owner (snd (del (nm c) (snd (ins c ds p r)))) = domain_owner r
    \<and> holds_name (snd (del (nm c) (snd (ins c ds p r)))) = holds_name r"
proof -
  let ?i = "snd (ins c ds p r)"
  have inv: "router_inv ?i" using assms(1) by (rule ins_inv)
  have d: "fst (del (nm c) ?i) = Ok c"
    by (simp add: del_result ins_stored [OF assms(2)])
  have free: "\<not> holds_name r (nm c)" "\<forall>d \<in> set ds. domain_owner r d = None"
    using assms(2) by (simp_all add: ins_Ok_iff)
  have "domain_owner r e \<noteq> Some (nm c)" for e
    using free(1) assms(1) holds_domain_owner holds_domain_name by blast
  then show ?thesis
    using d free
    by (auto simp: fun_eq_iff del_owner [OF inv d] del_names [OF inv d] ins_owner [OF assms(2)]
        ins_names [OF assms(2)])
qed

end

lemma insert_with_domains_fst:
  "fst (insert_with_domains s ds p r) =
     (if holds_name r (site_name s) then Err (DuplicateSite (site_name s))
      else (case taken_domain r ds of Some d \<Rightarrow> Err (DuplicateDomain (sub d)) | None \<Rightarrow> Ok ()))"
  by (simp add: insert_with_domains_alt split: option.split)

lemma insert_proxy_with_domains_fst:
  "fst (insert_proxy_with_domains s ds p r) =
     (if holds_name r (ps_name s) then Err (DuplicateSite (ps_name s))
      else (case taken_domain r ds of Some d \<Rightarrow> Err (DuplicateDomain (sub d)) | None \<Rightarrow> Ok ()))"
  by (simp add: insert_proxy_with_domains_alt split: option.split)

lemma domain_owner_sites_update [simp]: "domain_owner (r\<lparr>sites := x\<rparr>) = domain_owner r"
  by (rule domain_owner_cong) simp_all

lemma domain_owner_proxy_sites_update [simp]: "domain_owner (r\<lparr>proxy_sites := x\<rparr>) = domain_owner r"
  by (rule domain_owner_cong) simp_all

lemma domain_owner_other_updates [simp]:
  "domain_owner (r\<lparr>primaries := a\<rparr>) = domain_owner r"
  "domain_owner (r\<lparr>proxy_rules := b\<rparr>) = domain_owner r"
  "domain_owner (r\<lparr>route_rules := c\<rparr>) = domain_owner r"
  by (rule domain_owner_cong; simp)+

interpretation site_ops: claim_ops site_name router_get insert_with_domains remove_site
proof
  fix s ds p r d m
  assume "fst (insert_with_domains s ds p r) = Ok ()"
  then have r: "snd (insert_with_domains s ds p r) =
      (claim (site_name s) ds p r)\<lparr>sites := bt_insert (site_name s) s (sites r)\<rparr>"
    by (auto simp: insert_with_domains_alt split: if_splits option.splits)
  show "router_get (snd (insert_with_domains s ds p r)) (site_name s) = Some s"
    "domain_owner (snd (insert_with_domains s ds p r)) d =
       (if d \<in> set ds then Some (site_name s) else domain_owner r d)"
    "holds_name (snd (insert_with_domains s ds p r)) m \<longleftrightarrow> m = site_name s \<or> holds_name r m"
    by (auto simp: r router_get_def domain_owner_claim holds_name_def)
next
  fix n r c d m
  assume inv: "router_inv r" and ok: "fst (remove_site n r) = Ok c"
  then have s: "bt_get (sites r) n = Some c"
    by (auto simp: remove_site_def Let_def split: option.splits)
  have h: "domain_owner (r\<lparr>sites := bt_remove n (sites r)\<rparr>) d = Some m \<longleftrightarrow>
      holds_domain (r\<lparr>sites := bt_remove n (sites r)\<rparr>) m d" for d m
    using holds_domain_owner [OF inv] by (simp add: holds_domain_def)
  show "domain_owner (snd (remove_site n r)) d =
      (if domain_owner r d = Some n then None else domain_owner r d)"
    using s domain_owner_unindex_claimant [OF h, where n = n and e = d]
    by (simp add: remove_site_def Let_def)
  show "holds_name (snd (remove_site n r)) m \<longleftrightarrow> m \<noteq> n \<and> holds_name r m"
    using s site_not_proxy [OF inv s] by (auto simp: remove_site_def Let_def holds_name_def)
next
  fix n r
  show "fst (remove_site n r) = (case router_get r n of Some c \<Rightarrow> Ok c | None \<Rightarrow> Err (SiteNotFound n))"
    by (simp add: remove_site_def router_get_def Let_def split: option.split)
next
  fix n r e
  show "fst (remove_site n r) = Err e \<Longrightarrow> snd (remove_site n r) = r"
    by (simp add: remove_site_def Let_def split: option.splits)
next
  fix s ds p r e m
  show "m \<noteq> site_name s \<Longrightarrow> router_get (snd (insert_with_domains s ds p r)) m = router_get r m"
    by (auto simp: insert_with_domains_alt router_get_def split: option.split)
  show "fst (insert_with_domains s ds p r) = Err e \<Longrightarrow> snd (insert_with_domains s ds p r) = r"
    by (auto simp: insert_with_domains_alt split: if_splits option.splits)
  show "router_inv r \<Longrightarrow> router_inv (snd (insert_with_domains s ds p r))"
    by (auto simp: insert_with_domains_alt router_inv_claim_site split: option.split)
qed (simp_all add: insert_with_domains_fst remove_site_inv)

interpretation proxy_ops: claim_ops ps_name router_proxy insert_proxy_with_domains remove_proxy
proof
  fix s ds p r d m
  assume "fst (insert_proxy_with_domains s ds p r) = Ok ()"
  then have r: "snd (insert_proxy_with_domains s ds p r) =
      (claim (ps_name s) ds p r)\<lparr>proxy_sites := bt_insert (ps_name s) s (proxy_sites r)\<rparr>"
    by (auto simp: insert_proxy_with_domains_alt split: if_splits option.splits)
  show "router_proxy (snd (insert_proxy_with_domains s ds p r)) (ps_name s) = Some s"
    "domain_owner (snd (insert_proxy_with_domains s ds p r)) d =
       (if d \<in> set ds then Some (ps_name s) else domain_owner r d)"
    "holds_name (snd (insert_proxy_with_domains s ds p r)) m \<longleftrightarrow> m = ps_name s \<or> holds_name r m"
    by (auto simp: r router_proxy_def domain_owner_claim holds_name_def)
next
  fix n r c d m
  assume inv: "router_inv r" and ok: "fst (remove_proxy n r) = Ok c"
  then have s: "bt_get (proxy_sites r) n = Some c"
    by (auto simp: remove_proxy_def Let_def split: option.splits)
  have h: "domain_owner (r\<lparr>proxy_sites := bt_remove n (proxy_sites r)\<rparr>) d = Some m \<longleftrightarrow>
      holds_domain (r\<lparr>proxy_sites := bt_remove n (proxy_sites r)\<rparr>) m d" for d m
    using holds_domain_owner [OF inv] by (simp add: holds_domain_def)
  show "domain_owner (snd (remove_proxy n r)) d =
      (if domain_owner r d = Some n then None else domain_owner r d)"
    using s domain_owner_unindex_claimant [OF h, where n = n and e = d]
    by (simp add: remove_proxy_def Let_def)
  show "holds_name (snd (remove_proxy n r)) m \<longleftrightarrow> m \<noteq> n \<and> holds_name r m"
    using s proxy_not_site [OF inv s] by (auto simp: remove_proxy_def Let_def holds_name_def)
next
  fix n r
  show "fst (remove_proxy n r) = (case router_proxy r n of Some c \<Rightarrow> Ok c | None \<Rightarrow> Err (SiteNotFound n))"
    by (simp add: remove_proxy_def router_proxy_def Let_def split: option.split)
next
  fix n r e
  show "fst (remove_proxy n r) = Err e \<Longrightarrow> snd (remove_proxy n r) = r"
    by (simp add: remove_proxy_def Let_def split: option.splits)
next
  fix s ds p r e m
  show "m \<noteq> ps_name s \<Longrightarrow> router_proxy (snd (insert_proxy_with_domains s ds p r)) m = router_proxy r m"
    by (auto simp: insert_proxy_with_domains_alt router_proxy_def split: option.split)
  show "fst (insert_proxy_with_domains s ds p r) = Err e \<Longrightarrow> snd (insert_proxy_with_domains s ds p r) = r"
    by (auto simp: insert_proxy_with_domains_alt split: if_splits option.splits)
  show "router_inv r \<Longrightarrow> router_inv (snd (insert_proxy_with_domains s ds p r))"
    by (auto simp: insert_proxy_with_domains_alt router_inv_claim_proxy split: option.split)
qed (simp_all add: insert_proxy_with_domains_fst remove_proxy_inv)

section \<open>Resolution\<close>

text \<open>
  The routing model as a relation: a domain covers a host's sub-part when it is the same exact name,
  or when it is the single-label wildcard over the sub-part's parent.
\<close>

definition covers :: "domain \<Rightarrow> string \<Rightarrow> bool" where
  "covers d s \<longleftrightarrow>
     (if is_wildcard d then (\<exists>l rest. s = l @ CHR ''.'' # rest \<and> CHR ''.'' \<notin> set l \<and> sub d = ''*.'' @ rest)
      else sub d = s)"

fun route_name :: "route \<Rightarrow> string" where
  "route_name (Php s) = site_name s"
| "route_name (Proxy p) = ps_name p"

text \<open>
  The specification of routing: the claimant of the exact name, or, when nobody holds the exact
  name, the claimant of the wildcard above it.
\<close>

definition routed_to :: "site_router \<Rightarrow> string \<Rightarrow> string \<Rightarrow> bool" where
  "routed_to r s n \<longleftrightarrow>
     (\<exists>d. holds_domain r n d \<and> covers d s
        \<and> (is_wildcard d \<longrightarrow> \<not> (\<exists>m e. holds_domain r m e \<and> \<not> is_wildcard e \<and> covers e s)))"

lemma exact_owner: "index_kinds r \<Longrightarrow> hm_get (exact r) s = Some n \<Longrightarrow> domain_owner r (Domain s) = Some n"
  by (auto simp: index_kinds_def domain_owner_def)

lemma wildcard_owner: "index_kinds r \<Longrightarrow> hm_get (wildcards r) s = Some n \<Longrightarrow> domain_owner r (Domain s) = Some n"
  by (auto simp: index_kinds_def domain_owner_def)

text \<open>The two lookups of \<open>resolve_route\<close>.\<close>

definition lookup_name :: "site_router \<Rightarrow> string \<Rightarrow> string option" where
  "lookup_name r s =
     (case hm_get (exact r) s of
        Some name \<Rightarrow> Some name
      | None \<Rightarrow> (case split_once (CHR ''.'') s of
            Some (_, rest) \<Rightarrow> hm_get (wildcards r) (''*.'' @ rest)
          | None \<Rightarrow> None))"

lemma resolve_route_lookup:
  "resolve_route r raw =
     (case normalise raw of
        Unroutable \<Rightarrow> None
      | Hostname host \<Rightarrow>
          if host = rc_tld (config r) then None
          else (case strip_suffix (dotted_tld (config r)) host of
              None \<Rightarrow> None
            | Some s \<Rightarrow> if s = [] then None else Option.bind (lookup_name r s) (route_for r)))"
  by (auto simp: resolve_route_def lookup_name_def simp del: split_once_None_iff
      split: host_kind.split option.split prod.split)

lemma is_wildcard_star: "is_wildcard (Domain (''*.'' @ rest))"
  by (simp add: is_wildcard_def starts_with_iff)

lemma wildcard_covers_iff:
  "(\<exists>d. holds_domain r n d \<and> is_wildcard d \<and> covers d s) \<longleftrightarrow>
   (\<exists>l rest. s = l @ CHR ''.'' # rest \<and> CHR ''.'' \<notin> set l \<and> holds_domain r n (Domain (''*.'' @ rest)))"
  (is "?l \<longleftrightarrow> ?r")
proof
  assume ?l
  then obtain d l rest where d: "holds_domain r n d" "s = l @ CHR ''.'' # rest"
    "CHR ''.'' \<notin> set l" "sub d = ''*.'' @ rest"
    by (auto simp: covers_def)
  from d(4) have "d = Domain (''*.'' @ rest)"
    by (simp add: domain_eq_iff)
  with d show ?r by blast
next
  assume ?r
  then obtain l rest where "s = l @ CHR ''.'' # rest" "CHR ''.'' \<notin> set l"
    "holds_domain r n (Domain (''*.'' @ rest))"
    by blast
  then show ?l
    using is_wildcard_star [of rest]
    by (intro exI [of _ "Domain (''*.'' @ rest)"]) (auto simp: covers_def)
qed

lemma lookup_name_routed:
  assumes "router_inv r"
  shows "lookup_name r s = Some n \<longleftrightarrow> routed_to r s n"
proof -
  have kinds: "index_kinds r"
    using assms by (simp add: router_inv_def)
  note own = holds_domain_owner [OF assms, symmetric]
  have ex: "(\<exists>m e. holds_domain r m e \<and> \<not> is_wildcard e \<and> covers e s) \<longleftrightarrow> hm_get (exact r) s \<noteq> None"
    using kinds by (force simp: own covers_def domain_owner_def index_kinds_def)
  show ?thesis
  proof (cases "hm_get (exact r) s")
    case (Some m)
    then have o: "holds_domain r m (Domain s)" "\<not> is_wildcard (Domain s)"
      using exact_owner [OF kinds] kinds by (auto simp: index_kinds_def own)
    have "routed_to r s n \<longleftrightarrow> (\<exists>d. holds_domain r n d \<and> \<not> is_wildcard d \<and> covers d s)"
      using Some ex unfolding routed_to_def by blast
    also have "\<dots> \<longleftrightarrow> holds_domain r n (Domain s)"
      using o by (auto simp: covers_def)
    also have "\<dots> \<longleftrightarrow> n = m"
      using o(1) by (auto simp: own)
    finally show ?thesis
      using Some by (auto simp: lookup_name_def)
  next
    case None
    have "routed_to r s n \<longleftrightarrow> (\<exists>d. holds_domain r n d \<and> is_wildcard d \<and> covers d s)"
      using None ex by (auto simp: routed_to_def)
    also have "\<dots> \<longleftrightarrow> (\<exists>l rest. s = l @ CHR ''.'' # rest \<and> CHR ''.'' \<notin> set l
        \<and> holds_domain r n (Domain (''*.'' @ rest)))"
      by (rule wildcard_covers_iff)
    also have "\<dots> \<longleftrightarrow> (\<exists>l rest. split_once (CHR ''.'') s = Some (l, rest)
        \<and> hm_get (wildcards r) (''*.'' @ rest) = Some n)"
      using is_wildcard_star by (simp add: split_once_Some_iff own domain_owner_def)
    also have "\<dots> \<longleftrightarrow> lookup_name r s = Some n"
      using None by (cases "split_once (CHR ''.'') s") (auto simp: lookup_name_def simp del: split_once_None_iff)
    finally show ?thesis by blast
  qed
qed

lemma route_for_name:
  assumes "router_inv r"
  shows "holds_name r n \<longleftrightarrow> (\<exists>rt. route_for r n = Some rt \<and> route_name rt = n)"
proof -
  have "bt_get (sites r) n = Some s \<Longrightarrow> site_name s = n"
    "bt_get (proxy_sites r) n = Some p \<Longrightarrow> ps_name p = n" for s p
    using assms by (simp_all add: router_inv_def)
  then show ?thesis
    by (auto simp: holds_name_def route_for_def split: option.splits)
qed

lemma routed_to_name: "router_inv r \<Longrightarrow> routed_to r s n \<Longrightarrow> holds_name r n"
  by (auto simp: routed_to_def intro: holds_domain_name)

lemma resolve_route_iff:
  assumes "router_inv r"
  shows "(\<exists>rt. resolve_route r raw = Some rt \<and> route_name rt = n) \<longleftrightarrow>
    (\<exists>s. normalise raw = Hostname (s @ CHR ''.'' # rc_tld (config r)) \<and> s \<noteq> [] \<and> routed_to r s n)"
proof -
  have dot: "dotted_tld (config r) = CHR ''.'' # rc_tld (config r)"
    using assms by (simp add: router_inv_def)
  have bind: "(\<exists>rt. Option.bind (lookup_name r s) (route_for r) = Some rt \<and> route_name rt = n)
      \<longleftrightarrow> routed_to r s n" for s
  proof (cases "lookup_name r s")
    case None
    with lookup_name_routed [OF assms, of s n] show ?thesis by simp
  next
    case (Some a)
    have iff: "routed_to r s m \<longleftrightarrow> m = a" for m
      using lookup_name_routed [OF assms, of s m] Some by auto
    then obtain rt where "route_for r a = Some rt" "route_name rt = a"
      using routed_to_name [OF assms, of s a] route_for_name [OF assms, of a] by blast
    with Some iff [of n] show ?thesis by auto
  qed
  show ?thesis
  proof (cases "normalise raw")
    case (Hostname h)
    show ?thesis
    proof (cases "strip_suffix (dotted_tld (config r)) h")
      case None
      then have "h \<noteq> s @ CHR ''.'' # rc_tld (config r)" for s
        by (simp add: strip_suffix_None_iff dot)
      then show ?thesis
        using Hostname None by (simp add: resolve_route_lookup)
    next
      case (Some s)
      then have h: "h = s @ CHR ''.'' # rc_tld (config r)"
        by (simp add: strip_suffix_Some_iff dot)
      then have "h \<noteq> rc_tld (config r)" by auto
      then show ?thesis
        using Hostname Some h bind [of s] by (auto simp: resolve_route_lookup)
    qed
  qed (simp add: resolve_route_lookup)
qed

text \<open>
  C13: a request is routed exactly as the routing model says. The host header, normalised, must be a
  non-empty sub-part below the router's TLD; the answer is the claimant whose effective set has the
  sub-part itself or, when no claimant has it, the wildcard over its parent. There is no other
  match, so there is no implicit subdomain catch-all, and every held domain is reachable.
\<close>

theorem resolve_route_spec:
  assumes "router_inv r"
  shows "(\<exists>rt. resolve_route r raw = Some rt \<and> route_name rt = n) \<longleftrightarrow>
    (\<exists>s. normalise raw = Hostname (s @ CHR ''.'' # rc_tld (config r)) \<and> s \<noteq> [] \<and> routed_to r s n)"
  by (rule resolve_route_iff [OF assms])

theorem resolve_route_spec_witness:
  "let r = snd (insert_with_domains (new_site Parked ''foo'' ''/srv/foo'' (PhpVersion 8 3))
             [Domain ''foo'', Domain ''*.foo''] (Domain ''foo'') (router_new config_default))
   in (\<exists>rt. resolve_route r ''API.foo.test:8080'' = Some rt \<and> route_name rt = ''foo'')
      \<and> \<not> (\<exists>rt. resolve_route r ''a.b.foo.test'' = Some rt \<and> route_name rt = ''foo'')"
proof -
  let ?s = "new_site Parked ''foo'' ''/srv/foo'' (PhpVersion 8 3)"
  let ?r = "snd (insert_with_domains ?s [Domain ''foo'', Domain ''*.foo''] (Domain ''foo'')
    (router_new config_default))"
  have inv: "router_inv ?r"
    unfolding config_default_def by (intro site_ops.ins_inv router_new_inv)
  have tld: "rc_tld (config ?r) = ''test''"
    by code_simp
  have ok: "fst (insert_with_domains ?s [Domain ''foo'', Domain ''*.foo''] (Domain ''foo'')
      (router_new config_default)) = Ok ()"
    by code_simp
  have own: "holds_domain ?r ''foo'' (Domain ''*.foo'')" "domain_owner ?r (Domain ''api.foo'') = None"
    "domain_owner ?r (Domain ''a.b.foo'') = None" "domain_owner ?r (Domain ''*.b.foo'') = None"
    unfolding holds_domain_owner [OF inv, symmetric] by code_simp+
  have n1: "normalise ''API.foo.test:8080'' = Hostname (''api.foo'' @ CHR ''.'' # ''test'')"
    and n2: "normalise ''a.b.foo.test'' = Hostname (''a.b.foo'' @ CHR ''.'' # ''test'')"
    by code_simp+
  have l: "lookup_name ?r ''api.foo'' = Some ''foo''" "lookup_name ?r ''a.b.foo'' = None"
    by code_simp+
  have "\<exists>rt. resolve_route ?r ''API.foo.test:8080'' = Some rt \<and> route_name rt = ''foo''"
    unfolding resolve_route_spec [OF inv] tld n1
    using lookup_name_routed [OF inv, of "''api.foo''" "''foo''"] l by auto
  moreover have "\<not> (\<exists>rt. resolve_route ?r ''a.b.foo.test'' = Some rt \<and> route_name rt = ''foo'')"
    unfolding resolve_route_spec [OF inv] tld n2
    using lookup_name_routed [OF inv, of "''a.b.foo''" "''foo''"] l by auto
  ultimately show ?thesis
    unfolding Let_def by blast
qed

section \<open>Reachable routers\<close>

text \<open>
  Every router the crate's interface can build: an empty one under a validated TLD, then any
  sequence of the operations, failed ones included. A change through \<open>get_mut\<close> keeps the name,
  since the name has no setter.
\<close>

inductive reachable_router :: "site_router \<Rightarrow> bool" where
  reach_new: "config_new t = Ok c \<Longrightarrow> reachable_router (router_new c)"
| reach_insert: "reachable_router r \<Longrightarrow> reachable_router (snd (insert_with_domains s ds p r))"
| reach_insert_proxy: "reachable_router r \<Longrightarrow> reachable_router (snd (insert_proxy_with_domains q ds p r))"
| reach_remove: "reachable_router r \<Longrightarrow> reachable_router (snd (remove_site n r))"
| reach_remove_proxy: "reachable_router r \<Longrightarrow> reachable_router (snd (remove_proxy n r))"
| reach_get_mut: "reachable_router r \<Longrightarrow> \<forall>s. site_name (f s) = site_name s \<Longrightarrow>
    reachable_router (router_get_mut n f r)"
| reach_proxy_rules: "reachable_router r \<Longrightarrow> reachable_router (set_proxy_rules n rs r)"
| reach_route_rules: "reachable_router r \<Longrightarrow> reachable_router (set_route_rules n rrs r)"

lemma router_inv_cong:
  assumes "router_inv r" "router_maps_sorted r'" "config r' = config r"
    "bt_get (sites r') = bt_get (sites r)" "bt_get (proxy_sites r') = bt_get (proxy_sites r)"
    "bt_get (domains r') = bt_get (domains r)" "bt_get (primaries r') = bt_get (primaries r)"
    "exact r' = exact r" "wildcards r' = wildcards r"
  shows "router_inv r'"
proof -
  have "holds_name r' = holds_name r" "holds_domain r' = holds_domain r"
    using assms(4-6) by (auto simp: holds_name_def holds_domain_def fun_eq_iff)
  then show ?thesis
    using assms domain_owner_cong [of r' r] index_kinds_cong [of r' r]
    by (simp add: router_inv_def)
qed

lemma set_proxy_rules_inv: "router_inv r \<Longrightarrow> router_inv (set_proxy_rules n rs r)"
  by (rule router_inv_cong [where r = r]) (auto simp: set_proxy_rules_def router_inv_def router_maps_sorted_def)

lemma set_route_rules_inv: "router_inv r \<Longrightarrow> router_inv (set_route_rules n rs r)"
  by (rule router_inv_cong [where r = r]) (auto simp: set_route_rules_def router_inv_def router_maps_sorted_def)

lemma router_get_mut_inv:
  assumes "router_inv r" "\<forall>s. site_name (f s) = site_name s"
  shows "router_inv (router_get_mut n f r)"
proof (cases "bt_get (sites r) n")
  case (Some s)
  let ?r = "r\<lparr>sites := bt_insert n (f s) (sites r)\<rparr>"
  have nm: "site_name (f s) = n"
    using Some assms by (simp add: router_inv_def)
  have "holds_name ?r m = holds_name r m" for m
    using Some by (auto simp: holds_name_def)
  moreover have "bt_get (proxy_sites r) n = None"
    using assms(1) Some by (rule site_not_proxy)
  moreover have "index_kinds ?r = index_kinds r"
    by (rule index_kinds_cong) simp_all
  ultimately have "router_inv ?r"
    using assms(1) nm by (simp add: router_inv_def router_maps_sorted_def holds_domain_def)
  then show ?thesis
    using Some by (simp add: router_get_mut_def)
qed (use assms in \<open>simp add: router_get_mut_def\<close>)

lemma config_new_inv: "config_new t = Ok c \<Longrightarrow> router_inv (router_new c) \<and> tld_shape (rc_tld c)"
  using tld.sound [of t] router_new_inv
  by (auto simp: config_new_def split: result.splits) (simp add: config_with_tld_def)

lemma reachable_inv: "reachable_router r \<Longrightarrow> router_inv r"
  by (induction rule: reachable_router.induct)
    (auto simp: config_new_inv site_ops.ins_inv proxy_ops.ins_inv site_ops.del_inv proxy_ops.del_inv
      set_proxy_rules_inv set_route_rules_inv router_get_mut_inv)

lemma ops_config:
  "config (snd (insert_with_domains s ds p r)) = config r"
  "config (snd (insert_proxy_with_domains q ds p r)) = config r"
  "config (snd (remove_site n r)) = config r" "config (snd (remove_proxy n r)) = config r"
  "config (router_get_mut n f r) = config r" "config (set_proxy_rules n rs r) = config r"
  "config (set_route_rules n rrs r) = config r"
  by (auto simp: insert_with_domains_alt insert_proxy_with_domains_alt remove_site_def remove_proxy_def
      router_get_mut_def set_proxy_rules_def set_route_rules_def Let_def split: option.split)

lemma reachable_tld: "reachable_router r \<Longrightarrow> tld_shape (rc_tld (config r))"
  by (induction rule: reachable_router.induct) (auto simp: ops_config router_new_def dest: config_new_inv)

text \<open>
  C14: in every router that the operations can build, each domain a claimant lists is owned by that
  claimant in the indices and by no other, the indices hold nothing else, no name is both a site
  and a proxy, each stored claimant is filed under its own name, and iteration is in name order.
\<close>

theorem reachable_router_consistent:
  assumes "reachable_router r"
  shows "(domain_owner r d = Some n \<longleftrightarrow> holds_domain r n d)
    \<and> (holds_domain r n d \<and> holds_domain r m d \<longrightarrow> n = m)
    \<and> (bt_get (sites r) n = None \<or> bt_get (proxy_sites r) n = None)
    \<and> (router_get r n = Some s \<longrightarrow> site_name s = n)
    \<and> (holds_name r n \<longleftrightarrow> router_effective_domains r n \<noteq> None)
    \<and> sorted (map site_name (router_iter r))"
proof -
  have inv: "router_inv r" using assms by (rule reachable_inv)
  have own: "domain_owner r d = Some n \<longleftrightarrow> holds_domain r n d" for n
    by (rule holds_domain_owner [OF inv])
  have bt: "bt_inv (sites r)"
    using inv by (simp add: router_inv_def router_maps_sorted_def)
  have "map site_name (router_iter r) = map fst (sites r)"
    using inv bt_get_in_set [OF bt] by (force simp: router_iter_def bt_values_def router_inv_def)
  then have "sorted (map site_name (router_iter r))"
    using bt by (simp add: bt_inv_def strict_sorted_imp_sorted)
  moreover have "router_get r n = Some s \<longrightarrow> site_name s = n"
    "holds_name r n \<longleftrightarrow> router_effective_domains r n \<noteq> None"
    using inv by (auto simp: router_inv_def router_get_def router_effective_domains_def is_some_def)
  ultimately show ?thesis
    using own [of n] own [of m] router_inv_disjoint [OF inv] by auto
qed

theorem reachable_router_consistent_witness:
  "let r = snd (insert_proxy_with_domains
        \<lparr>ps_name = ''reverb'', ps_target = \<lparr>up_secure = False, up_host = ''localhost'', up_port = 8080\<rparr>, ps_secure = False\<rparr>
        [Domain ''reverb''] (Domain ''reverb'')
        (snd (insert_site (new_site Linked ''blog'' ''/srv/blog'' (PhpVersion 8 3)) (router_new config_default))))
   in domain_owner r (Domain ''reverb'') = Some ''reverb'' \<and> holds_domain r ''reverb'' (Domain ''reverb'')"
proof -
  let ?r = "snd (insert_proxy_with_domains
        \<lparr>ps_name = ''reverb'', ps_target = \<lparr>up_secure = False, up_host = ''localhost'', up_port = 8080\<rparr>, ps_secure = False\<rparr>
        [Domain ''reverb''] (Domain ''reverb'')
        (snd (insert_site (new_site Linked ''blog'' ''/srv/blog'' (PhpVersion 8 3)) (router_new config_default))))"
  have "config_new ''test'' = Ok config_default"
    by code_simp
  then have "reachable_router ?r"
    unfolding insert_site_def Let_def by (intro reach_insert_proxy reach_insert reach_new)
  moreover have "domain_owner ?r (Domain ''reverb'') = Some ''reverb''"
    by code_simp
  ultimately show ?thesis
    using reachable_router_consistent [of ?r "Domain ''reverb''" "''reverb''"] unfolding Let_def by blast
qed

section \<open>Insertion and removal\<close>

text \<open>
  C24: inserting a site fails exactly when its name is held by a site or a proxy, or one of its
  domains is claimed, with the matching error, and then leaves the router as it was; when it
  succeeds, removing the site returns it and restores every claim and every name.
\<close>

theorem insert_remove_atomic:
  assumes "reachable_router r"
  shows "case insert_with_domains s ds p r of
      (Err e, r') \<Rightarrow> r' = r \<and>
        ((e = DuplicateSite (site_name s) \<and> holds_name r (site_name s))
         \<or> (\<exists>d n. e = DuplicateDomain (sub d) \<and> d \<in> set ds \<and> holds_domain r n d))
    | (Ok _, r') \<Rightarrow>
        \<not> holds_name r (site_name s) \<and> (\<forall>d n. d \<in> set ds \<longrightarrow> \<not> holds_domain r n d)
        \<and> fst (remove_site (site_name s) r') = Ok s
        \<and> domain_owner (snd (remove_site (site_name s) r')) = domain_owner r
        \<and> holds_name (snd (remove_site (site_name s) r')) = holds_name r"
proof -
  have inv: "router_inv r" using assms by (rule reachable_inv)
  obtain x r' where i: "insert_with_domains s ds p r = (x, r')"
    by (cases "insert_with_domains s ds p r")
  show ?thesis
  proof (cases x)
    case (Err e)
    have "r' = r"
      using site_ops.ins_err [of s ds p r e] i Err by simp
    moreover have "(e = DuplicateSite (site_name s) \<and> holds_name r (site_name s))
         \<or> (\<exists>d n. e = DuplicateDomain (sub d) \<and> d \<in> set ds \<and> holds_domain r n d)"
      using i Err taken_domain_Some [of r ds]
      by (auto simp: insert_with_domains_alt holds_domain_owner [OF inv, symmetric]
          split: if_splits option.splits)
    ultimately show ?thesis using i Err by simp
  next
    case (Ok u)
    then have ok: "fst (insert_with_domains s ds p r) = Ok ()"
      using i by simp
    show ?thesis
      using site_ops.ins_del_restores [OF inv ok] site_ops.ins_Ok_iff [of s ds p r] ok i Ok
      by (auto simp: holds_domain_owner [OF inv, symmetric])
  qed
qed

theorem insert_remove_atomic_witness:
  "snd (insert_with_domains (new_site Parked ''b'' ''/b'' (PhpVersion 8 3)) [Domain ''b'', Domain ''a''] (Domain ''b'')
        (snd (insert_site (new_site Parked ''a'' ''/a'' (PhpVersion 8 3)) (router_new config_default))))
    = snd (insert_site (new_site Parked ''a'' ''/a'' (PhpVersion 8 3)) (router_new config_default))"
proof -
  let ?r = "snd (insert_site (new_site Parked ''a'' ''/a'' (PhpVersion 8 3)) (router_new config_default))"
  let ?b = "new_site Parked ''b'' ''/b'' (PhpVersion 8 3)"
  have "config_new ''test'' = Ok config_default"
    by code_simp
  then have "reachable_router ?r"
    unfolding insert_site_def Let_def by (intro reach_insert reach_new)
  note * = insert_remove_atomic [OF this, of ?b "[Domain ''b'', Domain ''a'']" "Domain ''b''"]
  have "fst (insert_with_domains ?b [Domain ''b'', Domain ''a''] (Domain ''b'') ?r) = Err (DuplicateDomain ''a'')"
    by code_simp
  with * show ?thesis
    by (auto split: prod.splits)
qed

section \<open>From a held domain to its claimant\<close>

lemma subpart_plain_host:
  assumes "dns_name s" "tld_shape t"
  shows "plain_host (s @ CHR ''.'' # t)"
proof -
  have t: "dns_name t" using assms(2) by (simp add: tld_shape_def)
  have b: "c \<in> set (s @ CHR ''.'' # t) \<Longrightarrow> c = CHR ''.'' \<or> is_ldh c" for c
    using dns_name_byte [OF assms(1)] dns_name_byte [OF t] by auto
  have "c \<in> set (s @ CHR ''.'' # t) \<Longrightarrow> is_ascii c \<and> c \<noteq> CHR '':''" for c
    using b [of c] is_ldh_ascii is_ldh_specials by (auto simp: is_ascii_def [of "CHR ''.''"])
  moreover have "CHR ''['' \<notin> set s"
    using b [of "CHR ''[''"] by auto
  then have "hd s \<noteq> CHR ''[''"
    using dns_name_not_Nil [OF assms(1)] by (metis hd_in_set)
  moreover have "lower_byte (CHR ''.'') = CHR ''.''"
    by code_simp
  ultimately show ?thesis
    using dns_name_edges [OF assms(1)] dns_name_edges [OF t] dns_name_not_Nil [OF assms(1)]
      dns_name_not_Nil [OF t] dns_name_lowercase [OF assms(1)] dns_name_lowercase [OF t]
    by (auto simp: plain_host_def)
qed

text \<open>
  A claimant answers each exact domain it holds, under its printed name, with or without a port;
  and each host one label below a wildcard it holds, unless the host is held as an exact name.
\<close>

theorem held_domain_routes:
  assumes "reachable_router r" "holds_domain r n d" "list_all is_ascii_digit port"
  shows "(dns_name (sub d) \<longrightarrow>
        (\<exists>rt. resolve_route r (to_fqdn d (rc_tld (config r)) @ '':'' @ port) = Some rt \<and> route_name rt = n))
    \<and> (\<forall>l rest. sub d = ''*.'' @ rest \<and> dns_label l \<and> dns_name rest
         \<and> domain_owner r (Domain (l @ CHR ''.'' # rest)) = None \<longrightarrow>
        (\<exists>rt. resolve_route r (to_fqdn (Domain (l @ CHR ''.'' # rest)) (rc_tld (config r)) @ '':'' @ port)
            = Some rt \<and> route_name rt = n))"
proof -
  let ?t = "rc_tld (config r)"
  have inv: "router_inv r" and tld: "tld_shape ?t"
    using assms(1) by (simp_all add: reachable_inv reachable_tld)
  have route: "\<exists>rt. resolve_route r (to_fqdn (Domain s) ?t @ '':'' @ port) = Some rt \<and> route_name rt = n"
    if s: "dns_name s" "routed_to r s n" for s
    unfolding resolve_route_iff [OF inv]
    using normalise_port [OF subpart_plain_host [OF s(1) tld] assms(3)] s dns_name_not_Nil [OF s(1)]
    by (auto simp: to_fqdn_def)
  have "routed_to r (sub d) n" if "dns_name (sub d)"
    using that assms(2) dns_name_not_star [OF that]
    by (auto simp: routed_to_def covers_def is_wildcard_def)
  moreover have "routed_to r (l @ CHR ''.'' # rest) n \<and> dns_name (l @ CHR ''.'' # rest)"
    if w: "sub d = ''*.'' @ rest" "dns_label l" "dns_name rest"
      "domain_owner r (Domain (l @ CHR ''.'' # rest)) = None" for l rest
  proof -
    have "is_wildcard d"
      using w(1) by (simp add: is_wildcard_def starts_with_iff)
    then have "covers d (l @ CHR ''.'' # rest)"
      using w dns_label_no_dot [OF w(2)] by (auto simp: covers_def)
    moreover have "\<not> holds_domain r m e" if "\<not> is_wildcard e" "covers e (l @ CHR ''.'' # rest)" for m e
    proof -
      have "e = Domain (l @ CHR ''.'' # rest)"
        using that by (simp add: covers_def domain_eq_iff)
      with w(4) show ?thesis
        by (simp add: holds_domain_owner [OF inv, symmetric])
    qed
    moreover have "dns_name (l @ CHR ''.'' # rest)"
      using w dns_label_no_dot [OF w(2)] by (auto simp: dns_name_def split_on_append_sep)
    ultimately show ?thesis
      using assms(2) \<open>is_wildcard d\<close> unfolding routed_to_def by blast
  qed
  ultimately show ?thesis
    using route [of "sub d"] route by (metis domain.collapse)
qed

theorem held_domain_routes_witness:
  "\<exists>rt. resolve_route (snd (insert_site (new_site Parked ''a'' ''/a'' (PhpVersion 8 3)) (router_new config_default)))
     (to_fqdn (Domain ''a'') ''test'' @ '':'' @ ''8080'') = Some rt \<and> route_name rt = ''a''"
proof -
  let ?r = "snd (insert_site (new_site Parked ''a'' ''/a'' (PhpVersion 8 3)) (router_new config_default))"
  have "config_new ''test'' = Ok config_default"
    by code_simp
  then have r: "reachable_router ?r"
    unfolding insert_site_def Let_def by (intro reach_insert reach_new)
  have h: "holds_domain ?r ''a'' (Domain ''a'')"
    unfolding holds_domain_owner [OF reachable_inv [OF r], symmetric] by code_simp
  have p: "list_all is_ascii_digit ''8080''" and t: "rc_tld (config ?r) = ''test''"
    and d: "dns_name (sub (Domain ''a''))"
    by code_simp+
  from held_domain_routes [OF r h p] d show ?thesis
    unfolding t by blast
qed

end
