(* ===== verification/Proxy_Pure.thy ===== *)
theory Proxy_Pure
  imports Rust_Str_More
begin

text \<open>
  The pure helpers of the proxy: \<open>pure/redirect.rs\<close> (the \<open>Location\<close> values of its redirects),
  \<open>pure/query.rs\<close> (the login token in a query string) and \<open>pure/unbound.rs\<close> (reaching a site over
  \<open>localhost\<close> by header, switch URL or cookie, and the page that offers the choice).
\<close>

section \<open>Redirects\<close>

definition strip_port :: "string \<Rightarrow> string" where
  "strip_port host =
     (case strip_prefix ''['' host of
        Some rest \<Rightarrow>
          (case find_byte (CHR '']'') rest of
             Some i \<Rightarrow> (case get_range 0 (i + 2) host of Some h \<Rightarrow> h | None \<Rightarrow> host)
           | None \<Rightarrow> host)
      | None \<Rightarrow>
          if length (filter (\<lambda>b. b = CHR '':'') host) = 1 then hd (split_on (CHR '':'') host) else host)"

definition build_redirect_uri :: "string \<Rightarrow> string \<Rightarrow> nat \<Rightarrow> string" where
  "build_redirect_uri host path_and_query https_port =
     (let host_lower = to_ascii_lowercase (strip_port host);
          pq = (if path_and_query = [] then ''/'' else path_and_query)
      in if https_port = 443 then ''https://'' @ host_lower @ pq
         else ''https://'' @ host_lower @ '':'' @ show_nat https_port @ pq)"

definition directory_redirect_location :: "string \<Rightarrow> string" where
  "directory_redirect_location path_and_query =
     (let (p, q) = (case split_once (CHR ''?'') path_and_query of
                      Some (p, q) \<Rightarrow> (p, Some q) | None \<Rightarrow> (path_and_query, None));
          out = (if p = [] then ''/'' else if ends_with ''/'' p then p else p @ ''/'')
      in case q of Some q' \<Rightarrow> out @ ''?'' @ q' | None \<Rightarrow> out)"

section \<open>Query parameters\<close>

fun find_map :: "('a \<Rightarrow> 'b option) \<Rightarrow> 'a list \<Rightarrow> 'b option" where
  "find_map f [] = None"
| "find_map f (x # xs) = (case f x of Some y \<Rightarrow> Some y | None \<Rightarrow> find_map f xs)"

definition pair_value :: "string \<Rightarrow> string \<Rightarrow> string option" where
  "pair_value name pair =
     (case split_once (CHR ''='') pair of
        Some (key, v) \<Rightarrow> if key = name then Some v else None
      | None \<Rightarrow> None)"

definition get_param :: "string option \<Rightarrow> string \<Rightarrow> string option" where
  "get_param query name =
     (case query of None \<Rightarrow> None | Some q \<Rightarrow> find_map (pair_value name) (split_on (CHR ''&'') q))"

definition pair_key :: "string \<Rightarrow> string" where
  "pair_key pair = (case split_once (CHR ''='') pair of Some (k, _) \<Rightarrow> k | None \<Rightarrow> pair)"

definition strip_param :: "string \<Rightarrow> string \<Rightarrow> string" where
  "strip_param path_and_query name =
     (case split_once (CHR ''?'') path_and_query of
        None \<Rightarrow> path_and_query
      | Some (p, query) \<Rightarrow>
          (let kept = filter (\<lambda>pair. pair \<noteq> [] \<and> pair_key pair \<noteq> name) (split_on (CHR ''&'') query)
           in if kept = [] then p else p @ ''?'' @ join_with ''&'' kept))"

section \<open>Unbound access\<close>

definition SITE_COOKIE :: string where
  "SITE_COOKIE = ''yerd-site''"

definition SITE_HEADER :: string where
  "SITE_HEADER = ''x-yerd-site''"

definition SITE_HEADER_ALIAS :: string where
  "SITE_HEADER_ALIAS = ''x-yerdsite''"

record switch_parse =
  sw_domain :: string
  sw_remainder :: string

record picker_site =
  pick_name :: string
  pick_primary :: string
  pick_secure :: bool
  pick_kind :: string

definition unbound_strip_host_port :: "string \<Rightarrow> string" where
  "unbound_strip_host_port host =
     (case strip_prefix ''['' host of
        Some rest \<Rightarrow>
          (case find_byte (CHR '']'') rest of
             Some i \<Rightarrow> (case get_range 0 (i + 2) host of Some h \<Rightarrow> h | None \<Rightarrow> host)
           | None \<Rightarrow> host)
      | None \<Rightarrow>
          if length (filter (\<lambda>b. b = CHR '':'') host) = 1 then hd (split_on (CHR '':'') host) else host)"

definition is_loopback_host :: "string \<Rightarrow> bool" where
  "is_loopback_host raw_host =
     (let bare0 = unbound_strip_host_port raw_host;
          bare = (case strip_prefix ''['' bare0 of
                    Some inner \<Rightarrow> (case strip_suffix '']'' inner of Some x \<Rightarrow> x | None \<Rightarrow> bare0)
                  | None \<Rightarrow> bare0)
      in eq_ignore_ascii_case bare ''localhost'' \<or> bare = ''127.0.0.1'' \<or> bare = ''::1'')"

definition parse_switch :: "string \<Rightarrow> switch_parse option" where
  "parse_switch p =
     (case strip_prefix ''/~'' p of
        None \<Rightarrow> None
      | Some after \<Rightarrow>
          (let (d, r) = (case find_byte (CHR ''/'') after of
                           Some i \<Rightarrow> (take i after, drop i after) | None \<Rightarrow> (after, ''/''))
           in if d = [] then None else Some \<lparr>sw_domain = d, sw_remainder = r\<rparr>))"

definition is_clear_switch :: "string \<Rightarrow> bool" where
  "is_clear_switch p \<longleftrightarrow> p = ''/~'' \<or> p = ''/~/''"

definition parse_cookie_site :: "string \<Rightarrow> string option" where
  "parse_cookie_site cookie_header =
     find_map (\<lambda>pair. case split_once (CHR ''='') (trim pair) of
         None \<Rightarrow> None
       | Some (k, v) \<Rightarrow> if k = SITE_COOKIE \<and> v \<noteq> [] then Some v else None)
       (split_on (CHR '';'') cookie_header)"

abbreviation is_slash :: "char \<Rightarrow> bool" where
  "is_slash c \<equiv> c = CHR ''/'' \<or> c = CHR 0x5C"

definition sanitize_dest :: "string \<Rightarrow> string" where
  "sanitize_dest p =
     (let trimmed = dropWhile is_slash p; stripped = length p - length trimmed
      in if stripped = 1 \<and> starts_with ''/'' p then p
         else if trimmed = [] then ''/''
         else ''/'' @ trimmed)"

definition build_set_cookie :: "string \<Rightarrow> string" where
  "build_set_cookie site = SITE_COOKIE @ ''='' @ site @ ''; Path=/; HttpOnly; SameSite=Lax''"

definition build_clear_cookie :: string where
  "build_clear_cookie = SITE_COOKIE @ ''=; Path=/; Max-Age=0; HttpOnly; SameSite=Lax''"

definition escape_char :: "char \<Rightarrow> string" where
  "escape_char c =
     (if c = CHR ''&'' then ''&amp;'' else if c = CHR ''<'' then ''&lt;'' else if c = CHR ''>'' then ''&gt;''
      else if c = CHR 0x22 then ''&quot;'' else if c = CHR 0x27 then ''&#39;'' else [c])"

definition html_escape :: "string \<Rightarrow> string" where
  "html_escape s =
     (if list_ex (\<lambda>b. b \<in> {CHR ''&'', CHR ''<'', CHR ''>'', CHR 0x22, CHR 0x27}) s
      then concat (map escape_char s) else s)"

section \<open>The picker page\<close>

text \<open>An em dash, and the constants of the page.\<close>

abbreviation em_dash :: string where
  "em_dash \<equiv> [CHR 0xE2, CHR 0x80, CHR 0x94]"

definition PICKER_LOGO :: string where
  \<open>PICKER_LOGO =
     ''<svg viewBox="0 0 256 256" xmlns="http://www.w3.org/2000/svg" role="img" aria-label="Y'' @
     ''erd"><defs><linearGradient id="yerd-pick-bg" x1="0.125" y1="0.0625" x2="0.875" y2="0.9'' @
     ''375"><stop stop-color="#6366F1"/><stop offset="1" stop-color="#4338CA"/></linearGradie'' @
     ''nt></defs><rect width="256" height="256" rx="60" fill="url(#yerd-pick-bg)"/><path d="M'' @
     ''82 76 L128 140 L174 76 M128 140 L128 188" stroke="#fff" stroke-width="30" stroke-linec'' @
     ''ap="round" stroke-linejoin="round"/></svg>''\<close>

definition PICKER_CSS :: string where
  \<open>PICKER_CSS =
     '':root{--bg:hsl(0 0% 100%);--fg:hsl(0 0% 9%);--card:hsl(0 0% 100%);--border:hsl(0 0% 90'' @
     ''%);--muted:hsl(0 0% 40%);--brand:hsl(239 84% 67%)}@media (prefers-color-scheme:dark){:'' @
     ''root{--bg:hsl(0 0% 11%);--fg:hsl(0 0% 98%);--card:hsl(0 0% 14.5%);--border:hsl(0 0% 20'' @
     ''%);--muted:hsl(0 0% 64%);--brand:hsl(239 84% 72%)}}*{box-sizing:border-box}body{margin'' @
     '':0;background:var(--bg);color:var(--fg);font:15px/1.5 -apple-system,BlinkMacSystemFont'' @
     '',"Segoe UI",Roboto,Helvetica,Arial,sans-serif}.wrap{max-width:560px;margin:0 auto;padd'' @
     ''ing:48px 20px}.brand{display:flex;align-items:center;gap:12px}.brand svg{width:40px;he'' @
     ''ight:40px;border-radius:10px;display:block}.brand h1{font-size:20px;margin:0;font-weig'' @
     ''ht:650;letter-spacing:-.01em}.sub{color:var(--muted);margin:4px 0 24px}.list{display:f'' @
     ''lex;flex-direction:column;gap:8px}.site{display:flex;align-items:center;justify-conten'' @
     ''t:space-between;gap:12px;padding:14px 16px;border:1px solid var(--border);border-radiu'' @
     ''s:12px;background:var(--card);color:inherit;text-decoration:none;transition:border-col'' @
     ''or .12s,transform .12s}.site:hover,.site:focus-visible{border-color:var(--brand);trans'' @
     ''form:translateY(-1px);outline:none}.site-name{font-weight:550}.site-meta{display:flex;'' @
     ''align-items:center;gap:8px;color:var(--muted);font-size:13px}.badge{border:1px solid v'' @
     ''ar(--border);border-radius:999px;padding:1px 8px;font-size:11px;color:var(--brand)}.em'' @
     ''pty{color:var(--muted);border:1px dashed var(--border);border-radius:12px;padding:24px'' @
     '';text-align:center}.opening{color:var(--muted);font-size:13px;margin:20px 0 0}.opening'' @
     '' code,.note code{border:1px solid var(--border);padding:1px 6px;border-radius:6px}.not'' @
     ''e{color:var(--muted);font-size:12px;margin:8px 0 0;line-height:1.4}''\<close>

definition picker_row :: "string \<Rightarrow> picker_site \<Rightarrow> string" where
  \<open>picker_row dest_e s =
     (let primary = html_escape (pick_primary s); kind = html_escape (pick_kind s);
          badge = (if pick_secure s
            then ''<span class="badge" title="configured for HTTPS '' @ em_dash
              @ '' served over plain http here">secure</span>'' else [])
      in ''<a class="site" href="/~'' @ primary @ dest_e @ ''"><span class="site-name">'' @ primary
         @ ''</span><span class="site-meta">'' @ kind @ badge @ ''</span></a>'')\<close>

definition render_picker :: "picker_site list \<Rightarrow> string \<Rightarrow> string" where
  \<open>render_picker ss dest =
     (let dest_e = html_escape dest;
          body = (if ss = [] then ''<p class="empty">No sites yet '' @ em_dash
                    @ '' park or link a directory first.</p>''
                  else ''<div class="list">'' @ concat (map (picker_row dest_e) ss) @ ''</div>'')
      in ''<!doctype html><html lang="en"><head><meta charset="utf-8">''
         @ ''<meta name="viewport" content="width=device-width, initial-scale=1">''
         @ ''<meta name="color-scheme" content="light dark"><title>Yerd '' @ em_dash
         @ '' choose a site</title><style>'' @ PICKER_CSS @ ''</style></head><body><main class="wrap">''
         @ ''<div class="brand">'' @ PICKER_LOGO @ ''<h1>Yerd</h1></div><p class="sub">Choose a site to open.</p>''
         @ body @ ''<p class="opening">Opening <code>'' @ dest_e @ ''</code></p>''
         @ ''<p class="note">Served over plain <code>http://localhost</code>. Sites that ''
         @ ''force HTTPS may not load.</p></main></body></html>'')\<close>

section \<open>Properties of the helpers\<close>

lemma find_map_None: "find_map f xs = None \<longleftrightarrow> (\<forall>x \<in> set xs. f x = None)"
  by (induction xs) (auto split: option.splits)

text \<open>Stripping a parameter removes all its occurrences and keeps the others in order.\<close>

lemma pair_value_key: "pair_value name pair = Some v \<Longrightarrow> pair_key pair = name"
  by (auto simp: pair_value_def pair_key_def simp del: split_once_None_iff split: option.splits if_splits)

definition query_of :: "string \<Rightarrow> string option" where
  "query_of pq = map_option snd (split_once (CHR ''?'') pq)"

lemma strip_param_query:
  fixes name :: string
  assumes "split_once (CHR ''?'') pq = Some (p, q)"
  defines "kept \<equiv> filter (\<lambda>pair. pair \<noteq> [] \<and> pair_key pair \<noteq> name) (split_on (CHR ''&'') q)"
  shows "query_of (strip_param pq name) = (if kept = [] then None else Some (join_with ''&'' kept))"
    "kept \<noteq> [] \<Longrightarrow> split_on (CHR ''&'') (join_with ''&'' kept) = kept"
proof -
  have "CHR ''?'' \<notin> set p"
    using assms(1) by (simp add: split_once_Some_iff)
  then show "query_of (strip_param pq name) = (if kept = [] then None else Some (join_with ''&'' kept))"
    using assms(1) split_once_append [of "CHR ''?''" p "join_with ''&'' kept"]
    by (simp add: strip_param_def query_of_def kept_def Let_def)
  have "\<forall>w \<in> set kept. CHR ''&'' \<notin> set w"
    unfolding kept_def using split_on_no_sep by fastforce
  then show "kept \<noteq> [] \<Longrightarrow> split_on (CHR ''&'') (join_with ''&'' kept) = kept"
    by (intro split_on_join)
qed

lemma get_param_stripped: "get_param (query_of (strip_param pq name)) name = None"
proof (cases "split_once (CHR ''?'') pq")
  case None
  then show ?thesis by (simp add: strip_param_def query_of_def get_param_def del: split_once_None_iff)
next
  case (Some x)
  then obtain p q where pq: "split_once (CHR ''?'') pq = Some (p, q)" by (cases x) auto
  let ?kept = "filter (\<lambda>pair. pair \<noteq> [] \<and> pair_key pair \<noteq> name) (split_on (CHR ''&'') q)"
  show ?thesis
  proof (cases "?kept = []")
    case True
    then show ?thesis unfolding strip_param_query(1) [OF pq] get_param_def by simp
  next
    case False
    have "\<forall>pair \<in> set ?kept. pair_value name pair = None"
      using pair_value_key by fastforce
    with False show ?thesis
      unfolding strip_param_query(1) [OF pq] get_param_def
      by (simp add: strip_param_query(2) [OF pq] find_map_None)
  qed
qed

lemma get_param_other:
  assumes "name \<noteq> other" "other \<noteq> []"
  shows "get_param (query_of (strip_param pq name)) other = get_param (query_of pq) other"
proof (cases "split_once (CHR ''?'') pq")
  case None
  then show ?thesis by (simp add: strip_param_def query_of_def del: split_once_None_iff)
next
  case (Some x)
  then obtain p q where pq: "split_once (CHR ''?'') pq = Some (p, q)" by (cases x) auto
  let ?P = "\<lambda>pair. pair \<noteq> [] \<and> pair_key pair \<noteq> name"
  have skip: "find_map (pair_value other) (filter ?P ws) = find_map (pair_value other) ws" for ws
  proof (induction ws)
    case (Cons w ws)
    have "pair_value other w = None" if "\<not> ?P w"
      using that assms pair_value_key [of other w] by (cases "pair_value other w") (auto simp: pair_value_def)
    with Cons show ?case by (auto split: option.split)
  qed simp
  show ?thesis
  proof (cases "filter ?P (split_on (CHR ''&'') q) = []")
    case True
    then show ?thesis
      unfolding strip_param_query(1) [OF pq] get_param_def
      using skip [of "split_on (CHR ''&'') q"] pq by (simp add: query_of_def)
  next
    case False
    then show ?thesis
      unfolding strip_param_query(1) [OF pq] get_param_def
      using skip [of "split_on (CHR ''&'') q"] pq strip_param_query(2) [OF pq False]
      by (simp add: query_of_def)
  qed
qed

text \<open>A destination is an absolute path of the same origin.\<close>

definition same_origin :: "string \<Rightarrow> bool" where
  "same_origin d \<longleftrightarrow> (\<exists>r. d = CHR ''/'' # r \<and> (r = [] \<or> \<not> is_slash (hd r)))"

lemma sanitize_same_origin: "same_origin (sanitize_dest p)"
proof (cases "length p - length (dropWhile is_slash p) = 1 \<and> starts_with ''/'' p")
  case True
  then obtain r where p: "p = CHR ''/'' # r" by (auto simp: starts_with_iff)
  let ?d = "dropWhile is_slash r" and ?t = "takeWhile is_slash r"
  have "length p - length ?d = 1" "length ?d \<le> length r"
    using True p by (simp_all add: length_dropWhile_le)
  then have "length r = length ?d" using p by simp
  moreover have "length r = length ?t + length ?d"
    by (metis length_append takeWhile_dropWhile_id)
  ultimately have "?t = []" by simp
  then have "r = [] \<or> \<not> is_slash (hd r)"
    by (cases r) (auto split: if_splits)
  with True p show ?thesis by (simp add: sanitize_dest_def same_origin_def)
next
  case False
  then have s: "sanitize_dest p = (if dropWhile is_slash p = [] then ''/'' else ''/'' @ dropWhile is_slash p)"
    unfolding sanitize_dest_def Let_def by (rule if_not_P)
  then show ?thesis
    using hd_dropWhile [of is_slash p] by (auto simp: same_origin_def)
qed

lemma html_escape_markup_free:
  "c \<in> {CHR ''<'', CHR ''>'', CHR 0x22, CHR 0x27} \<Longrightarrow> c \<notin> set (html_escape s)"
  by (auto simp: html_escape_def escape_char_def list_ex_iff split: if_splits)

end
