(* ===== verification/Try_Files.thy ===== *)
theory Try_Files
  imports Site
begin

text \<open>
  \<open>crates/yerd-proxy/src/pure/try_files.rs\<close>: from a request URL path to a relative path under the
  served root. \<open>PathBuf::push\<close> is \<open>path_join\<close>; a loop with early return is a recursive function
  into \<open>option\<close>.
\<close>

section \<open>Percent decoding\<close>

definition url_hex_val :: "char \<Rightarrow> nat option" where
  "url_hex_val b =
     (if byte_in b 48 57 then Some (code b - 48)
      else if byte_in b 97 102 then Some (code b - 97 + 10)
      else if byte_in b 65 70 then Some (code b - 65 + 10)
      else None)"

fun percent_bytes :: "string \<Rightarrow> string option" where
  "percent_bytes [] = Some []"
| "percent_bytes (b # bs) =
     (if b = CHR ''%'' then
        (case bs of
           h # l # rest \<Rightarrow>
             (case (url_hex_val h, url_hex_val l) of
                (Some hi, Some lo) \<Rightarrow> map_option ((#) (char_of (hi * 16 + lo))) (percent_bytes rest)
              | _ \<Rightarrow> None)
         | _ \<Rightarrow> None)
      else map_option ((#) b) (percent_bytes bs))"

definition percent_decode :: "string \<Rightarrow> string option" where
  "percent_decode s = (case percent_bytes s of None \<Rightarrow> None | Some bs \<Rightarrow> from_utf8 bs)"

section \<open>Candidates\<close>

text \<open>The checks on one decoded segment; \<open>None\<close> is the early return.\<close>

definition safe_segment :: "string \<Rightarrow> string option" where
  "safe_segment raw =
     (case percent_decode raw of
        None \<Rightarrow> None
      | Some seg \<Rightarrow>
          if seg = [] \<or> seg = ''.'' \<or> seg = ''..'' then None
          else if \<exists>b \<in> set seg. b = CHR ''/'' \<or> b = CHR 0x5C \<or> b = CHR 0x00 then None
          else Some seg)"

fun push_segments :: "path \<Rightarrow> string list \<Rightarrow> path option" where
  "push_segments rel [] = Some rel"
| "push_segments rel (raw # rest) =
     (if raw = [] then push_segments rel rest
      else (case safe_segment raw of
          None \<Rightarrow> None
        | Some seg \<Rightarrow> push_segments (path_join rel seg) rest))"

definition resolve_segments :: "string \<Rightarrow> path option" where
  "resolve_segments p = push_segments [] (split_on (CHR ''/'') p)"

definition strip_query :: "string \<Rightarrow> string" where
  "strip_query url_path = hd (split_on (CHR ''?'') url_path)"

definition static_candidate :: "string \<Rightarrow> path option" where
  "static_candidate url_path =
     (let p = strip_query url_path
      in if p = [] \<or> ends_with ''/'' p then None
         else (case resolve_segments p of
             None \<Rightarrow> None
           | Some rel \<Rightarrow> if rel = [] then None else Some rel))"

definition directory_candidate :: "string \<Rightarrow> path option" where
  "directory_candidate url_path =
     (let p = strip_query url_path
      in if \<not> starts_with ''/'' p \<or> (p \<noteq> ''/'' \<and> \<not> ends_with ''/'' p) then None
         else resolve_segments p)"

definition ext_lower :: "path \<Rightarrow> string option" where
  "ext_lower p = map_option to_ascii_lowercase (path_extension p)"

definition is_php_source :: "path \<Rightarrow> bool" where
  "is_php_source p \<longleftrightarrow>
     (case ext_lower p of
        Some e \<Rightarrow> e \<in> {''php'', ''phtml'', ''php3'', ''php4'', ''php5'', ''php7'', ''phps'', ''pht''}
      | None \<Rightarrow> False)"

fun path_info :: "string list \<Rightarrow> string option" where
  "path_info [] = Some []"
| "path_info (raw # rest) =
     (case percent_decode raw of
        None \<Rightarrow> None
      | Some seg \<Rightarrow>
          if \<exists>b \<in> set seg. b = CHR ''/'' \<or> b = CHR 0x5C \<or> b = CHR 0x00 then None
          else map_option (\<lambda>info. CHR ''/'' # seg @ info) (path_info rest))"

definition php_split_candidate :: "string \<Rightarrow> (path \<times> string) option" where
  "php_split_candidate url_path =
     (let components = split_on (CHR ''/'') (strip_query url_path)
      in case position (\<lambda>raw. raw \<noteq> [] \<and>
                (case percent_decode raw of Some seg \<Rightarrow> is_php_source seg | None \<Rightarrow> False))
              (take (length components - 1) components) of
           None \<Rightarrow> None
         | Some split_at \<Rightarrow>
             (case push_segments [] (filter (\<lambda>s. s \<noteq> []) (take (Suc split_at) components)) of
                None \<Rightarrow> None
              | Some script \<Rightarrow>
                  (case path_info (drop (Suc split_at) components) of
                     None \<Rightarrow> None
                   | Some info \<Rightarrow> Some (script, info))))"

definition content_type_for :: "path \<Rightarrow> string" where
  "content_type_for p =
     (case ext_lower p of
        None \<Rightarrow> ''application/octet-stream''
      | Some e \<Rightarrow>
          if e = ''html'' \<or> e = ''htm'' then ''text/html; charset=utf-8''
          else if e = ''css'' then ''text/css; charset=utf-8''
          else if e = ''js'' \<or> e = ''mjs'' \<or> e = ''cjs'' then ''text/javascript; charset=utf-8''
          else if e = ''json'' \<or> e = ''map'' then ''application/json''
          else if e = ''webmanifest'' then ''application/manifest+json''
          else if e = ''svg'' then ''image/svg+xml''
          else if e = ''ico'' then ''image/x-icon''
          else if e = ''png'' then ''image/png''
          else if e = ''jpg'' \<or> e = ''jpeg'' then ''image/jpeg''
          else if e = ''gif'' then ''image/gif''
          else if e = ''webp'' then ''image/webp''
          else if e = ''avif'' then ''image/avif''
          else if e = ''bmp'' then ''image/bmp''
          else if e = ''woff'' then ''font/woff''
          else if e = ''woff2'' then ''font/woff2''
          else if e = ''ttf'' then ''font/ttf''
          else if e = ''otf'' then ''font/otf''
          else if e = ''eot'' then ''application/vnd.ms-fontobject''
          else if e = ''txt'' then ''text/plain; charset=utf-8''
          else if e = ''xml'' then ''application/xml''
          else if e = ''pdf'' then ''application/pdf''
          else if e = ''wasm'' then ''application/wasm''
          else if e = ''mp4'' then ''video/mp4''
          else if e = ''webm'' then ''video/webm''
          else if e = ''mp3'' then ''audio/mpeg''
          else if e = ''wav'' then ''audio/wav''
          else if e = ''zip'' then ''application/zip''
          else ''application/octet-stream'')"

section \<open>Every candidate is a plain descendant\<close>

text \<open>A relative path made of ordinary components only.\<close>

definition plain_relative :: "path \<Rightarrow> bool" where
  "plain_relative p \<longleftrightarrow> \<not> is_absolute p \<and> list_all (\<lambda>c. \<exists>w. c = Normal w) (path_components p)"

lemma safe_segment_facts:
  assumes "safe_segment raw = Some seg"
  shows "seg \<noteq> [] \<and> seg \<noteq> ''.'' \<and> seg \<noteq> ''..'' \<and> CHR ''/'' \<notin> set seg \<and> CHR 0x00 \<notin> set seg"
  using assms by (auto simp: safe_segment_def split: option.splits if_splits)

lemma segment_path:
  assumes "safe_segment raw = Some seg"
  shows "\<not> is_absolute seg" "split_on (CHR ''/'') seg = [seg]" "path_components seg = [Normal seg]"
  using safe_segment_facts [OF assms]
  by (cases seg; auto simp: is_absolute_def starts_with_singleton split_on_notin path_components_def)+

lemma push_components:
  assumes "safe_segment raw = Some seg"
  shows "path_components (path_join rel seg) = path_components rel @ [Normal seg]"
    and "path_join rel seg \<noteq> []"
    and "\<not> is_absolute rel \<Longrightarrow> \<not> is_absolute (path_join rel seg)"
proof -
  note seg = segment_path [OF assms] safe_segment_facts [OF assms]
  show "path_components (path_join rel seg) = path_components rel @ [Normal seg]"
  proof (cases "rel = []")
    case True
    then show ?thesis
      using seg by (simp add: path_join_def path_components_def [of "[]"] is_absolute_def starts_with_singleton)
  next
    case False
    then show ?thesis
      using seg by (simp add: path_components_join_rel)
  qed
  show "path_join rel seg \<noteq> []"
    using seg by (auto simp: path_join_def)
  show "\<not> is_absolute rel \<Longrightarrow> \<not> is_absolute (path_join rel seg)"
    using seg by (auto simp: path_join_def is_absolute_append)
qed

lemma push_segments_plain:
  "push_segments rel raws = Some p \<Longrightarrow> plain_relative rel \<Longrightarrow> plain_relative p"
proof (induction rel raws rule: push_segments.induct)
  case (2 rel raw rest)
  show ?case
  proof (cases "raw = []")
    case False
    then obtain seg where s: "safe_segment raw = Some seg" "push_segments (path_join rel seg) rest = Some p"
      using "2.prems" by (auto split: option.splits)
    then have "plain_relative (path_join rel seg)"
      using push_components [OF s(1), of rel] "2.prems" by (simp add: plain_relative_def)
    with 2 s False show ?thesis by simp
  qed (use 2 in simp)
qed simp

lemma plain_relative_Nil: "plain_relative []"
  by (simp add: plain_relative_def path_components_def is_absolute_def starts_with_singleton)

lemma resolve_segments_plain: "resolve_segments p = Some rel \<Longrightarrow> plain_relative rel"
  using push_segments_plain plain_relative_Nil by (auto simp: resolve_segments_def)

lemma plain_relative_safe: "plain_relative p \<Longrightarrow> is_safe_relative p"
  by (fastforce simp: plain_relative_def is_safe_relative_def list_all_iff)

lemma plain_join_below:
  "plain_relative p \<Longrightarrow> is_below (path_components root) (path_components (path_join root p))"
  by (rule safe_join_below) (rule plain_relative_safe)

text \<open>
  No request path can name a file outside the served root. Whatever the URL holds (percent
  escapes, dot segments, encoded slashes, backslashes or zero bytes), a static candidate, a
  directory candidate and the script half of a split are paths of ordinary components, so joined to
  a root they stay below it.
\<close>

theorem candidates_contained:
  "(case static_candidate url of
      Some rel \<Rightarrow> plain_relative rel \<and> rel \<noteq> [] \<and> is_below (path_components root) (path_components (path_join root rel))
    | None \<Rightarrow> True)
   \<and> (case directory_candidate url of
        Some rel \<Rightarrow> plain_relative rel \<and> is_below (path_components root) (path_components (path_join root rel))
      | None \<Rightarrow> True)
   \<and> (case php_split_candidate url of
        Some (script, info) \<Rightarrow>
          plain_relative script \<and> is_below (path_components root) (path_components (path_join root script))
      | None \<Rightarrow> True)"
proof -
  have s: "static_candidate url = Some rel \<Longrightarrow> plain_relative rel \<and> rel \<noteq> []" for rel
    using resolve_segments_plain by (auto simp: static_candidate_def Let_def split: option.splits if_splits)
  have d: "directory_candidate url = Some rel \<Longrightarrow> plain_relative rel" for rel
    using resolve_segments_plain by (auto simp: directory_candidate_def Let_def split: if_splits)
  have p: "php_split_candidate url = Some (script, info) \<Longrightarrow> plain_relative script" for script info
    using push_segments_plain plain_relative_Nil
    by (auto simp: php_split_candidate_def Let_def split: option.splits)
  show ?thesis
    using s d p plain_join_below by (auto split: option.split)
qed

section \<open>The script half of a split\<close>

lemma push_segments_append:
  "push_segments rel (xs @ ys) = Option.bind (push_segments rel xs) (\<lambda>r. push_segments r ys)"
proof (induction xs arbitrary: rel)
  case (Cons x xs)
  then show ?case by (cases "safe_segment x") simp_all
qed simp

lemma path_extension_last:
  assumes "path_components p = cs @ [Normal w]" "path_components w = [Normal w]"
  shows "path_extension p = path_extension w"
  using assms by (simp add: path_extension_def file_name_def)

lemma path_info_slash: "path_info raws = Some info \<Longrightarrow> raws \<noteq> [] \<Longrightarrow> starts_with ''/'' info"
proof (induction raws rule: path_info.induct)
  case (2 raw rest)
  obtain seg where seg: "percent_decode raw = Some seg"
    using "2.prems"(1) by (cases "percent_decode raw") auto
  have "\<exists>r. info = CHR ''/'' # seg @ r"
    using "2.prems"(1) unfolding path_info.simps seg option.case map_option_case
    by (simp split: if_split_asm option.split_asm del: set_simps) blast
  then show ?case by (auto simp: starts_with_singleton)
qed simp

lemma safe_segment_decodes: "safe_segment raw = Some seg \<Longrightarrow> percent_decode raw = Some seg"
  by (auto simp: safe_segment_def split: option.splits if_splits)

text \<open>
  A split request names a script whose file is PHP source and a remainder that starts with a
  slash; the script is the part up to the first PHP segment that has something after it.
\<close>

theorem php_split_script:
  "case php_split_candidate url of
     Some (script, info) \<Rightarrow> is_php_source script \<and> starts_with ''/'' info
   | None \<Rightarrow> True"
proof (cases "php_split_candidate url")
  case (Some x)
  obtain script info where x: "x = (script, info)" by (cases x)
  define cs where "cs = split_on (CHR ''/'') (strip_query url)"
  obtain i where pos: "position (\<lambda>raw. raw \<noteq> [] \<and>
        (case percent_decode raw of Some seg \<Rightarrow> is_php_source seg | None \<Rightarrow> False))
      (take (length cs - 1) cs) = Some i"
    and script: "push_segments [] (filter (\<lambda>s. s \<noteq> []) (take (Suc i) cs)) = Some script"
    and info: "path_info (drop (Suc i) cs) = Some info"
    using Some x by (auto simp: php_split_candidate_def Let_def cs_def split: option.splits)
  have i: "i < length cs - 1" "cs ! i \<noteq> []"
    and php: "\<exists>seg. percent_decode (cs ! i) = Some seg \<and> is_php_source seg"
    using position_Some [OF pos] by (auto split: option.splits)
  have "filter (\<lambda>s. s \<noteq> []) (take (Suc i) cs) = filter (\<lambda>s. s \<noteq> []) (take i cs) @ [cs ! i]"
    using i by (simp add: take_Suc_conv_app_nth)
  with script obtain rel seg where seg: "safe_segment (cs ! i) = Some seg" "script = path_join rel seg"
    using i(2) by (auto simp: push_segments_append bind_eq_Some_conv split: option.splits)
  have "path_extension script = path_extension seg"
    unfolding seg(2)
    using push_components(1) [OF seg(1)] segment_path(3) [OF seg(1)] by (rule path_extension_last)
  moreover have "is_php_source seg"
    using php safe_segment_decodes [OF seg(1)] by simp
  ultimately have "is_php_source script"
    by (simp add: is_php_source_def ext_lower_def)
  moreover have "starts_with ''/'' info"
    using path_info_slash [OF info] i(1) by simp
  ultimately show ?thesis
    using Some x by simp
qed simp

end
