(* ===== verification/File_Serve.thy ===== *)
theory File_Serve
  imports Try_Files
begin

text \<open>
  \<open>forward/static_file.rs\<close> and \<open>forward/script_file.rs\<close>: which file answers a request, and which
  script runs it. The disk is a parameter: what \<open>canonicalize\<close>, \<open>metadata\<close> and \<open>read\<close> return.
\<close>

section \<open>Responses and the disk\<close>

record http_response =
  hr_status :: nat
  hr_headers :: "(string \<times> string) list"
  hr_body :: string

definition PROXY_SERVER_ID :: string where
  "PROXY_SERVER_ID = ''yerd''"

datatype file_type = RegularFile | Directory | OtherFile

record disk =
  dk_canonicalize :: "path \<Rightarrow> path option"
  dk_metadata :: "path \<Rightarrow> (file_type \<times> nat) option"
  dk_read :: "path \<Rightarrow> string option"

definition path_starts_with :: "path \<Rightarrow> path \<Rightarrow> bool" where
  "path_starts_with p base \<longleftrightarrow>
     take (length (path_components base)) (path_components p) = path_components base"

datatype containment = ContainOk path | Escaped path

definition canonical_within :: "disk \<Rightarrow> path \<Rightarrow> path \<Rightarrow> containment option" where
  "canonical_within dk candidate real_root =
     (case dk_canonicalize dk candidate of
        None \<Rightarrow> None
      | Some real \<Rightarrow> if path_starts_with real real_root then Some (ContainOk real) else Some (Escaped real))"

definition is_file :: "disk \<Rightarrow> path \<Rightarrow> bool" where
  "is_file dk p \<longleftrightarrow> (case dk_metadata dk p of Some (RegularFile, _) \<Rightarrow> True | _ \<Rightarrow> False)"

definition is_dir :: "disk \<Rightarrow> path \<Rightarrow> bool" where
  "is_dir dk p \<longleftrightarrow> (case dk_metadata dk p of Some (Directory, _) \<Rightarrow> True | _ \<Rightarrow> False)"

abbreviation get_or_head :: "string \<Rightarrow> bool" where
  "get_or_head m \<equiv> m = ''GET'' \<or> m = ''HEAD''"

section \<open>Static files\<close>

datatype static_outcome = Served http_response | StaticNotFound | SymlinkEscape string path path

definition respond_with_file :: "disk \<Rightarrow> string \<Rightarrow> path \<Rightarrow> http_response option" where
  "respond_with_file dk meth p =
     (case (if meth = ''HEAD'' then map_option (\<lambda>(_, n). ([], n)) (dk_metadata dk p)
            else map_option (\<lambda>b. (b, length b)) (dk_read dk p)) of
        None \<Rightarrow> None
      | Some (body, len) \<Rightarrow>
          Some \<lparr>hr_status = 200,
                hr_headers = [(''content-type'', content_type_for p), (''content-length'', show_nat len),
                  (''server'', PROXY_SERVER_ID)],
                hr_body = body\<rparr>)"

definition serve_contained_file ::
  "disk \<Rightarrow> string \<Rightarrow> string \<Rightarrow> path \<Rightarrow> path \<Rightarrow> path \<Rightarrow> bool \<Rightarrow> static_outcome" where
  "serve_contained_file dk meth requested_path served_rt allowed_root rel symlink_protection =
     (if \<not> get_or_head meth then StaticNotFound
      else (case dk_canonicalize dk allowed_root of
          None \<Rightarrow> StaticNotFound
        | Some real_root \<Rightarrow>
            (let serve = (\<lambda>real_file.
                   if is_php_source real_file then StaticNotFound
                   else if \<not> is_file dk real_file then StaticNotFound
                   else (case respond_with_file dk meth real_file of
                           Some resp \<Rightarrow> Served resp | None \<Rightarrow> StaticNotFound))
             in case canonical_within dk (path_join served_rt rel) real_root of
                  Some (ContainOk p) \<Rightarrow> serve p
                | Some (Escaped p) \<Rightarrow>
                    if \<not> symlink_protection then serve p else SymlinkEscape requested_path p real_root
                | None \<Rightarrow> StaticNotFound)))"

definition try_serve :: "disk \<Rightarrow> string \<Rightarrow> string \<Rightarrow> path \<Rightarrow> path \<Rightarrow> bool \<Rightarrow> static_outcome" where
  "try_serve dk meth uri_path served_rt allowed_root symlink_protection =
     (case static_candidate uri_path of
        None \<Rightarrow> StaticNotFound
      | Some rel \<Rightarrow> serve_contained_file dk meth uri_path served_rt allowed_root rel symlink_protection)"

definition serve_target_file ::
  "disk \<Rightarrow> string \<Rightarrow> string \<Rightarrow> path \<Rightarrow> path \<Rightarrow> path \<Rightarrow> bool \<Rightarrow> static_outcome" where
  "serve_target_file dk meth requested_path served_rt allowed_root target_rel symlink_protection =
     serve_contained_file dk meth requested_path served_rt allowed_root target_rel symlink_protection"

text \<open>The loop over the index names: a response, or the first escape met.\<close>

fun try_index_names ::
  "disk \<Rightarrow> string \<Rightarrow> path \<Rightarrow> path \<Rightarrow> bool \<Rightarrow> path option \<Rightarrow> string list \<Rightarrow> http_response option \<times> path option" where
  "try_index_names dk meth real_dir real_root symlink_protection first_escape [] = (None, first_escape)"
| "try_index_names dk meth real_dir real_root symlink_protection first_escape (name # names) =
     (let (candidate, escape) =
            (case canonical_within dk (path_join real_dir name) real_root of
               Some (ContainOk p) \<Rightarrow> (Some p, first_escape)
             | Some (Escaped p) \<Rightarrow>
                 if \<not> symlink_protection then (Some p, first_escape)
                 else (None, if first_escape = None then Some p else first_escape)
             | None \<Rightarrow> (None, first_escape));
          continue = try_index_names dk meth real_dir real_root symlink_protection escape names
      in case candidate of
           None \<Rightarrow> continue
         | Some real_file \<Rightarrow>
             if is_php_source real_file then continue
             else if \<not> is_file dk real_file then continue
             else (case respond_with_file dk meth real_file of
                     Some resp \<Rightarrow> (Some resp, escape) | None \<Rightarrow> continue))"

definition try_serve_index :: "disk \<Rightarrow> string \<Rightarrow> string \<Rightarrow> path \<Rightarrow> path \<Rightarrow> bool \<Rightarrow> static_outcome" where
  "try_serve_index dk meth uri_path served_rt allowed_root symlink_protection =
     (if \<not> get_or_head meth then StaticNotFound
      else (case directory_candidate uri_path of
          None \<Rightarrow> StaticNotFound
        | Some rel \<Rightarrow>
            (case dk_canonicalize dk allowed_root of
               None \<Rightarrow> StaticNotFound
             | Some real_root \<Rightarrow>
                 (let look = (\<lambda>real_dir.
                        if \<not> is_dir dk real_dir then StaticNotFound
                        else if dk_metadata dk (path_join real_dir ''index.php'') \<noteq> None then StaticNotFound
                        else (case try_index_names dk meth real_dir real_root symlink_protection None
                                     [''index.html'', ''index.htm''] of
                                (Some resp, _) \<Rightarrow> Served resp
                              | (None, Some p) \<Rightarrow> SymlinkEscape uri_path p real_root
                              | (None, None) \<Rightarrow> StaticNotFound))
                  in case canonical_within dk (path_join served_rt rel) real_root of
                       Some (ContainOk p) \<Rightarrow> look p
                     | Some (Escaped p) \<Rightarrow>
                         if \<not> symlink_protection then look p else SymlinkEscape uri_path p real_root
                     | None \<Rightarrow> StaticNotFound))))"

definition symlink_escape_response :: "string \<Rightarrow> http_response" where
  \<open>symlink_escape_response requested_path =
     \<lparr>hr_status = 403,
      hr_headers = [(''content-type'', ''text/plain; charset=utf-8''), (''server'', PROXY_SERVER_ID)],
      hr_body = ''403 Forbidden'' @ [LF, LF] @ ''The requested path "'' @ requested_path
        @ ''" resolves, via a symlink, to a location outside this site'' @ [CHR 0x27]
        @ ''s root directory.'' @ [LF, LF]
        @ ''See the yerdd daemon log for the resolved path and the site'' @ [CHR 0x27]
        @ ''s document root.'' @ [LF]\<rparr>\<close>

definition resolve_static_outcome :: "static_outcome \<Rightarrow> http_response option" where
  "resolve_static_outcome outcome =
     (case outcome of
        Served resp \<Rightarrow> Some resp
      | SymlinkEscape requested_path _ _ \<Rightarrow> Some (symlink_escape_response requested_path)
      | StaticNotFound \<Rightarrow> None)"

section \<open>Scripts\<close>

datatype script_resolution = Script path | ScriptWithPathInfo path string | DirectoryRedirect | ScriptFallback

text \<open>The resolved path a probe may use under the symlink policy.\<close>

definition admitted :: "disk \<Rightarrow> path \<Rightarrow> path \<Rightarrow> path \<Rightarrow> bool \<Rightarrow> path option" where
  "admitted dk served_rt real_root rel symlink_protection =
     (case canonical_within dk (path_join served_rt rel) real_root of
        Some (ContainOk p) \<Rightarrow> Some p
      | Some (Escaped p) \<Rightarrow> if \<not> symlink_protection then Some p else None
      | None \<Rightarrow> None)"

definition existing_php_file :: "disk \<Rightarrow> path \<Rightarrow> path \<Rightarrow> path \<Rightarrow> bool \<Rightarrow> path option" where
  "existing_php_file dk served_rt real_root rel symlink_protection =
     (if \<not> is_php_source rel then None
      else (case admitted dk served_rt real_root rel symlink_protection of
          None \<Rightarrow> None
        | Some real_file \<Rightarrow> if is_file dk real_file then Some rel else None))"

definition is_existing_directory :: "disk \<Rightarrow> path \<Rightarrow> path \<Rightarrow> path \<Rightarrow> bool \<Rightarrow> bool" where
  "is_existing_directory dk served_rt real_root rel symlink_protection =
     (case admitted dk served_rt real_root rel symlink_protection of
        None \<Rightarrow> False
      | Some real_dir \<Rightarrow> is_dir dk real_dir)"

definition split_path_info :: "disk \<Rightarrow> string \<Rightarrow> path \<Rightarrow> path \<Rightarrow> bool \<Rightarrow> script_resolution" where
  "split_path_info dk uri_path served_rt real_root symlink_protection =
     (case php_split_candidate uri_path of
        None \<Rightarrow> ScriptFallback
      | Some (script_rel, info) \<Rightarrow>
          (case existing_php_file dk served_rt real_root script_rel symlink_protection of
             Some script \<Rightarrow> ScriptWithPathInfo script info
           | None \<Rightarrow> ScriptFallback))"

definition resolve_script :: "disk \<Rightarrow> string \<Rightarrow> path \<Rightarrow> path \<Rightarrow> bool \<Rightarrow> script_resolution" where
  "resolve_script dk uri_path served_rt allowed_root symlink_protection =
     (case dk_canonicalize dk allowed_root of
        None \<Rightarrow> ScriptFallback
      | Some real_root \<Rightarrow>
          (let split = split_path_info dk uri_path served_rt real_root symlink_protection
           in case static_candidate uri_path of
                Some rel \<Rightarrow>
                  (case existing_php_file dk served_rt real_root rel symlink_protection of
                     Some script \<Rightarrow> Script script
                   | None \<Rightarrow>
                       if is_existing_directory dk served_rt real_root rel symlink_protection
                       then DirectoryRedirect else split)
              | None \<Rightarrow>
                  (case directory_candidate uri_path of
                     None \<Rightarrow> split
                   | Some dir_rel \<Rightarrow>
                       (case existing_php_file dk served_rt real_root (path_join dir_rel ''index.php'')
                               symlink_protection of
                          Some script \<Rightarrow> Script script
                        | None \<Rightarrow> split))))"

definition resolve_rule_target :: "disk \<Rightarrow> path \<Rightarrow> path \<Rightarrow> path \<Rightarrow> bool \<Rightarrow> path option" where
  "resolve_rule_target dk served_rt allowed_root target_rel symlink_protection =
     (case dk_canonicalize dk allowed_root of
        None \<Rightarrow> None
      | Some real_root \<Rightarrow> existing_php_file dk served_rt real_root target_rel symlink_protection)"

section \<open>Containment\<close>

text \<open>
  What a served response shows of the disk: with protection on, a regular file below the canonical
  root of the site that is not PHP source, with its bytes, or none for \<open>HEAD\<close>.
\<close>

definition shows_file :: "disk \<Rightarrow> path \<Rightarrow> string \<Rightarrow> http_response \<Rightarrow> bool" where
  "shows_file dk allowed_root meth resp \<longleftrightarrow>
     (\<exists>real_root real. dk_canonicalize dk allowed_root = Some real_root \<and> path_starts_with real real_root
        \<and> \<not> is_php_source real \<and> is_file dk real
        \<and> (if meth = ''HEAD'' then hr_body resp = [] else dk_read dk real = Some (hr_body resp))
        \<and> hr_status resp = 200)"

lemma respond_with_file_body:
  "respond_with_file dk meth p = Some resp \<Longrightarrow>
     (if meth = ''HEAD'' then hr_body resp = [] else dk_read dk p = Some (hr_body resp)) \<and> hr_status resp = 200"
  by (auto simp: respond_with_file_def split: if_splits option.splits)

lemma canonical_within_Ok: "canonical_within dk c r = Some (ContainOk p) \<Longrightarrow> path_starts_with p r"
  by (auto simp: canonical_within_def split: option.splits if_splits)

lemma serve_contained_file_shows:
  "serve_contained_file dk meth rp sr ar rel True = Served resp \<Longrightarrow> shows_file dk ar meth resp"
  using respond_with_file_body canonical_within_Ok
  by (fastforce simp: serve_contained_file_def shows_file_def Let_def
      split: if_splits option.splits containment.splits)

lemma try_index_names_shows:
  "try_index_names dk meth d r True e names = (Some resp, e') \<Longrightarrow>
     \<exists>real. path_starts_with real r \<and> \<not> is_php_source real \<and> is_file dk real
       \<and> respond_with_file dk meth real = Some resp"
proof (induction names arbitrary: e)
  case (Cons n ns)
  then show ?case
    using canonical_within_Ok [of dk "path_join d n" r]
    by (fastforce simp: Let_def split: option.splits containment.splits if_splits)
qed simp

lemma try_serve_index_shows:
  assumes "try_serve_index dk meth up sr ar True = Served resp"
  shows "shows_file dk ar meth resp"
proof -
  obtain r d e where "dk_canonicalize dk ar = Some r"
      "try_index_names dk meth d r True None [''index.html'', ''index.htm''] = (Some resp, e)"
    using assms by (auto simp: try_serve_index_def Let_def simp del: try_index_names.simps
        split: if_splits option.splits containment.splits prod.splits)
  with try_index_names_shows [OF this(2)] respond_with_file_body show ?thesis
    unfolding shows_file_def by metis
qed

lemma try_serve_shows:
  "try_serve dk meth up sr ar True = Served resp \<Longrightarrow> shows_file dk ar meth resp"
  by (auto simp: try_serve_def dest: serve_contained_file_shows split: option.splits)

text \<open>What a script to run is: PHP source, and with protection on a file below the site's root.\<close>

definition runs_inside :: "disk \<Rightarrow> path \<Rightarrow> path \<Rightarrow> path \<Rightarrow> bool" where
  "runs_inside dk served_rt allowed_root rel \<longleftrightarrow>
     is_php_source rel
     \<and> (\<exists>real_root real. dk_canonicalize dk allowed_root = Some real_root
          \<and> dk_canonicalize dk (path_join served_rt rel) = Some real
          \<and> path_starts_with real real_root \<and> is_file dk real)"

lemma existing_php_file_inside:
  "dk_canonicalize dk ar = Some r \<Longrightarrow> existing_php_file dk sr r rel True = Some s \<Longrightarrow>
     s = rel \<and> runs_inside dk sr ar s"
  by (auto simp: existing_php_file_def admitted_def runs_inside_def canonical_within_def
      split: if_splits option.splits containment.splits)

lemma resolve_script_inside:
  "resolve_script dk up sr ar True = Script s \<Longrightarrow> runs_inside dk sr ar s"
  "resolve_script dk up sr ar True = ScriptWithPathInfo s info \<Longrightarrow> runs_inside dk sr ar s"
  using existing_php_file_inside
  by (fastforce simp: resolve_script_def split_path_info_def Let_def split: option.splits if_splits)+

lemma resolve_rule_target_inside:
  "resolve_rule_target dk sr ar rel True = Some s \<Longrightarrow> runs_inside dk sr ar s"
  using existing_php_file_inside by (fastforce simp: resolve_rule_target_def split: option.splits)

end
