(* ===== verification/Big_Endian.thy ===== *)
theory Big_Endian
  imports Yerd_Prelude
begin

text \<open>
  \<open>to_be_bytes\<close> and \<open>from_be_bytes\<close> of the unsigned types, shared by the two wire codecs: a number
  as its bytes, most significant first.
\<close>

definition to_be16 :: "nat \<Rightarrow> u8 list" where
  "to_be16 n = [word_of_nat (n div 256), word_of_nat n]"

definition to_be32 :: "nat \<Rightarrow> u8 list" where
  "to_be32 n = [word_of_nat (n div 16777216), word_of_nat (n div 65536), word_of_nat (n div 256), word_of_nat n]"

definition from_be :: "u8 list \<Rightarrow> nat" where
  "from_be bs = foldl (\<lambda>n b. n * 256 + unat b) 0 bs"

lemma unat_of_nat_u8: "unat (word_of_nat n :: u8) = n mod 256"
  unfolding unsigned_of_nat by (simp add: take_bit_eq_mod)

lemma unat_u8_less: "unat (b :: u8) < 256"
  using unsigned_less [of b] by simp

lemma of_nat_unat_u8: "word_of_nat (unat b) = (b :: u8)"
  by simp

lemma from_be_to_be16: "n < 65536 \<Longrightarrow> from_be (to_be16 n) = n"
  by (simp add: from_be_def to_be16_def unat_of_nat_u8 mod_less)

lemma be32_digits:
  assumes "n < (4294967296::nat)"
  shows "((n div 16777216 mod 256 * 256 + n div 65536 mod 256) * 256 + n div 256 mod 256) * 256 + n mod 256 = n"
proof -
  have a: "n div 16777216 < 256" using assms by auto
  have b: "n div 65536 = n div 16777216 * 256 + n div 65536 mod 256"
    using div_mult_mod_eq [of "n div 65536" 256] by (simp add: div_mult2_eq [symmetric])
  have c: "n div 256 = n div 65536 * 256 + n div 256 mod 256"
    using div_mult_mod_eq [of "n div 256" 256] by (simp add: div_mult2_eq [symmetric])
  have d: "n = n div 256 * 256 + n mod 256"
    by simp
  show ?thesis
    using a b c d by simp
qed

lemma from_be_to_be32: "n < 4294967296 \<Longrightarrow> from_be (to_be32 n) = n"
  using be32_digits [of n] by (simp add: from_be_def to_be32_def unat_of_nat_u8)

lemma length_to_be32 [simp]: "length (to_be32 n) = 4"
  by (simp add: to_be32_def)

lemma length_to_be16 [simp]: "length (to_be16 n) = 2"
  by (simp add: to_be16_def)

end
