(* ===== verification/Fcgi_Codec.thy ===== *)
theory Fcgi_Codec
  imports Big_Endian
begin

text \<open>
  \<open>crates/yerd-proxy/src/pure/fcgi_codec.rs\<close>: the FastCGI records the proxy writes and reads. An
  encoder that appends to \<open>out: &mut Vec<u8>\<close> returns the extended list. The decoder of name-value
  pairs at the end is the receiving side of the FastCGI specification (the PHP pool), which the
  encoder is proved against.
\<close>

definition FCGI_VERSION :: u8 where "FCGI_VERSION = 1"
definition FCGI_RESPONDER :: u16 where "FCGI_RESPONDER = 1"
definition FCGI_MAX_PAYLOAD :: nat where "FCGI_MAX_PAYLOAD = 65535"
definition FCGI_REQUEST_COMPLETE :: u8 where "FCGI_REQUEST_COMPLETE = 0"

datatype fcgi_error =
    Short | BadVersion u8 | UnknownRecordType u8 | LengthOverflow | UnexpectedRequestId u16

datatype record_type =
    BeginRequest | AbortRequest | EndRequestType | Params | Stdin | Stdout | Stderr
  | GetValues | GetValuesResult | UnknownType

fun record_type_code :: "record_type \<Rightarrow> u8" where
  "record_type_code BeginRequest = 1"
| "record_type_code AbortRequest = 2"
| "record_type_code EndRequestType = 3"
| "record_type_code Params = 4"
| "record_type_code Stdin = 5"
| "record_type_code Stdout = 6"
| "record_type_code Stderr = 7"
| "record_type_code GetValues = 9"
| "record_type_code GetValuesResult = 10"
| "record_type_code UnknownType = 11"

definition record_type_from_u8 :: "u8 \<Rightarrow> (fcgi_error, record_type) result" where
  "record_type_from_u8 b =
     (if b = 1 then Ok BeginRequest else if b = 2 then Ok AbortRequest
      else if b = 3 then Ok EndRequestType else if b = 4 then Ok Params
      else if b = 5 then Ok Stdin else if b = 6 then Ok Stdout else if b = 7 then Ok Stderr
      else if b = 9 then Ok GetValues else if b = 10 then Ok GetValuesResult
      else if b = 11 then Ok UnknownType else Err (UnknownRecordType b))"

record fcgi_header =
  version :: u8
  record_type :: record_type
  request_id :: u16
  content_length :: u16
  padding_length :: u8

definition header_encode :: "fcgi_header \<Rightarrow> u8 list \<Rightarrow> u8 list" where
  "header_encode h out =
     out @ [version h, record_type_code (record_type h)] @ to_be16 (unat (request_id h))
     @ to_be16 (unat (content_length h)) @ [padding_length h, 0]"

definition header_decode :: "u8 list \<Rightarrow> (fcgi_error, fcgi_header) result" where
  "header_decode bytes =
     (case bytes of
        [b0, b1, b2, b3, b4, b5, b6, b7] \<Rightarrow>
          if b0 \<noteq> FCGI_VERSION then Err (BadVersion b0)
          else (case record_type_from_u8 b1 of
              Err e \<Rightarrow> Err e
            | Ok t \<Rightarrow> Ok \<lparr>version = b0, record_type = t,
                request_id = word_of_nat (from_be [b2, b3]),
                content_length = word_of_nat (from_be [b4, b5]), padding_length = b6\<rparr>)
      | _ \<Rightarrow> Err Short)"

definition encode_length :: "nat \<Rightarrow> u8 list \<Rightarrow> (fcgi_error, unit) result \<times> u8 list" where
  "encode_length len out =
     (if len \<le> 127 then (Ok (), out @ [word_of_nat len])
      else if len > 4294967295 then (Err LengthOverflow, out)
      else if len > 0x7FFFFFFF then (Err LengthOverflow, out)
      else (Ok (), out @ to_be32 (unat (or (word_of_nat len :: u32) 0x80000000))))"

definition encode_name_value :: "u8 list \<Rightarrow> u8 list \<Rightarrow> u8 list \<Rightarrow> (fcgi_error, unit) result \<times> u8 list" where
  "encode_name_value name val out =
     (case encode_length (length name) out of
        (Err e, out) \<Rightarrow> (Err e, out)
      | (Ok _, out) \<Rightarrow>
          (case encode_length (length val) out of
             (Err e, out) \<Rightarrow> (Err e, out)
           | (Ok _, out) \<Rightarrow> (Ok (), out @ name @ val)))"

definition encode_begin_request_body :: "u16 \<Rightarrow> bool \<Rightarrow> u8 list" where
  "encode_begin_request_body role keep_conn =
     to_be16 (unat role) @ [if keep_conn then 1 else 0, 0, 0, 0, 0, 0]"

record end_request =
  app_status :: u32
  protocol_status :: u8

definition end_request_decode :: "u8 list \<Rightarrow> (fcgi_error, end_request) result" where
  "end_request_decode bytes =
     (case bytes of
        [b0, b1, b2, b3, b4, b5, b6, b7] \<Rightarrow>
          Ok \<lparr>app_status = word_of_nat (from_be [b0, b1, b2, b3]), protocol_status = b4\<rparr>
      | _ \<Rightarrow> Err Short)"

section \<open>Headers\<close>

lemma record_type_code_roundtrip: "record_type_from_u8 (record_type_code t) = Ok t"
  by (cases t) (simp_all add: record_type_from_u8_def)

lemma record_type_from_u8_inj:
  "record_type_from_u8 b = Ok t \<Longrightarrow> record_type_code t = b"
  by (auto simp: record_type_from_u8_def split: if_splits)

lemma unat_u16_less: "unat (w :: u16) < 65536"
  using unsigned_less [of w] by simp

lemma to_be16_list: "\<exists>a b. to_be16 n = [a, b]"
  by (simp add: to_be16_def)

lemma be16_word: "word_of_nat (from_be (to_be16 (unat (w :: u16)))) = w"
  using unat_u16_less [of w] by (simp add: from_be_to_be16)

lemma to_be16_from_be: "to_be16 (unat (word_of_nat (from_be [a, b]) :: u16)) = [a, b]"
proof -
  have n: "from_be [a, b] < 65536"
    using unat_u8_less [of a] unat_u8_less [of b] by (simp add: from_be_def)
  then have "unat (word_of_nat (from_be [a, b]) :: u16) = from_be [a, b]"
    unfolding unsigned_of_nat by (simp add: take_bit_nat_eq_self)
  moreover have "(256 * unat a + unat b) div 256 = unat a"
    using unat_u8_less [of b] by simp
  moreover have "word_of_nat (256 * unat a + unat b) = b"
    using unat_of_nat_u8 [of "256 * unat a + unat b"] unat_u8_less [of b]
    by (intro unsigned_word_eqI) (simp add: unat_of_nat_u8)
  ultimately show ?thesis
    by (simp add: to_be16_def from_be_def mult.commute)
qed

text \<open>
  The proxy reads back each record header it writes, and a header it accepts re-encodes to the
  bytes it came from, the reserved byte set to zero; nothing but eight bytes of version 1 with a
  known record type is accepted.
\<close>

theorem fcgi_header_roundtrip:
  "(version h = FCGI_VERSION \<longrightarrow> header_decode (header_encode h []) = Ok h)
   \<and> (header_decode bytes = Ok g \<longrightarrow>
        length bytes = 8 \<and> version g = FCGI_VERSION \<and> header_encode g [] = take 7 bytes @ [0])"
proof -
  obtain a b c d where ab: "to_be16 (unat (request_id h)) = [a, b]" "to_be16 (unat (content_length h)) = [c, d]"
    using to_be16_list by metis
  have "header_decode (header_encode h []) = Ok h" if "version h = FCGI_VERSION"
    using be16_word [of "request_id h"] be16_word [of "content_length h"] ab that
    by (simp add: header_encode_def header_decode_def record_type_code_roundtrip)
  moreover have "length bytes = 8 \<and> version g = FCGI_VERSION \<and> header_encode g [] = take 7 bytes @ [0]"
    if "header_decode bytes = Ok g"
    using that
    by (auto simp: header_decode_def header_encode_def to_be16_from_be record_type_from_u8_inj
        split: list.splits if_splits result.splits)
  ultimately show ?thesis by blast
qed

theorem fcgi_header_roundtrip_witness:
  "header_decode (header_encode \<lparr>version = 1, record_type = Stdin, request_id = 1, content_length = 4096, padding_length = 0\<rparr> [])
     = Ok \<lparr>version = 1, record_type = Stdin, request_id = 1, content_length = 4096, padding_length = 0\<rparr>"
  using fcgi_header_roundtrip
    [of "\<lparr>version = 1, record_type = Stdin, request_id = 1, content_length = 4096, padding_length = 0\<rparr>"]
  by (simp add: FCGI_VERSION_def)

section \<open>Name-value pairs, as the receiver reads them\<close>

definition nv_length :: "u8 list \<Rightarrow> (nat \<times> u8 list) option" where
  "nv_length bs =
     (case bs of
        [] \<Rightarrow> None
      | b # r \<Rightarrow>
          if unat b < 128 then Some (unat b, r)
          else (case r of
              c # d # e # r' \<Rightarrow> Some (from_be [b, c, d, e] - 2 ^ 31, r')
            | _ \<Rightarrow> None))"

definition nv_pair :: "u8 list \<Rightarrow> ((u8 list \<times> u8 list) \<times> u8 list) option" where
  "nv_pair bs =
     (case nv_length bs of None \<Rightarrow> None | Some (n, bs) \<Rightarrow>
      (case nv_length bs of None \<Rightarrow> None | Some (v, bs) \<Rightarrow>
         if n + v \<le> length bs then Some ((take n bs, take v (drop n bs)), drop (n + v) bs) else None))"

lemma nv_length_shorter: "nv_length bs = Some (n, r) \<Longrightarrow> length r < length bs"
  by (auto simp: nv_length_def split: list.splits if_splits)

function nv_pairs :: "u8 list \<Rightarrow> (u8 list \<times> u8 list) list option" where
  "nv_pairs bs =
     (if bs = [] then Some []
      else (case nv_pair bs of None \<Rightarrow> None
            | Some (p, r) \<Rightarrow> map_option ((#) p) (nv_pairs r)))"
  by pat_completeness auto
termination
  by (relation "measure length")
    (auto simp: nv_pair_def dest!: nv_length_shorter split: option.splits if_splits)

declare nv_pairs.simps [simp del]

lemma or_high_bit:
  assumes "len < 2147483648"
  shows "unat (or (word_of_nat len :: u32) 0x80000000) = len + 2147483648"
proof -
  let ?w = "word_of_nat len :: u32"
  have n: "unat ?w = len"
    using assms unfolding unsigned_of_nat by (simp add: take_bit_nat_eq_self)
  have "unat (take_bit 31 ?w) = unat ?w"
    unfolding unsigned_take_bit_eq n using assms by (simp add: take_bit_nat_eq_self)
  then have low: "take_bit 31 ?w = ?w"
    by (rule unsigned_word_eqI)
  have high: "(0x80000000 :: u32) = push_bit 31 1"
    by (simp add: push_bit_eq_mult)
  have "\<not> bit ?w k" if "31 \<le> k" for k
    using low that by (metis bit_take_bit_iff not_less)
  moreover have "\<not> bit (push_bit 31 1 :: u32) k" if "k < 31" for k
    unfolding bit_push_bit_iff using that by simp
  ultimately have "\<not> bit ?w k \<or> \<not> bit (0x80000000 :: u32) k" for k
    unfolding high by (metis not_less)
  then have "?w + 0x80000000 = or ?w 0x80000000"
    by (rule disjunctive_add)
  moreover have "unat (?w + 0x80000000) = len + 2147483648"
    using assms n by (subst unat_add_lem [THEN iffD1]) simp_all
  ultimately show ?thesis by simp
qed

lemma encode_length_decodes:
  assumes "encode_length len out = (Ok u, out')"
  shows "\<exists>bs. out' = out @ bs \<and> nv_length (bs @ rest) = Some (len, rest)"
proof (cases "len \<le> 127")
  case True
  then show ?thesis
    using assms by (auto simp: encode_length_def nv_length_def unat_of_nat_u8)
next
  case False
  then have len: "len < 2147483648"
    and out': "out' = out @ to_be32 (len + 2147483648)"
    using assms or_high_bit [of len] by (auto simp: encode_length_def split: if_splits)
  obtain a b c d where be: "to_be32 (len + 2147483648) = [a, b, c, d]"
    by (simp add: to_be32_def)
  then have a: "a = word_of_nat ((len + 2147483648) div 16777216)"
    by (simp add: to_be32_def)
  have "unat a = (len + 2147483648) div 16777216"
    unfolding a unat_of_nat_u8 using len by (intro mod_less) auto
  then have "128 \<le> unat a" by simp
  moreover have "from_be [a, b, c, d] = len + 2147483648"
    using from_be_to_be32 [of "len + 2147483648"] len be by simp
  ultimately show ?thesis
    using out' be by (simp add: nv_length_def)
qed

lemma encode_name_value_decodes:
  assumes "encode_name_value n v out = (Ok u, out')"
  shows "\<exists>bs. out' = out @ bs \<and> bs \<noteq> [] \<and> nv_pair (bs @ rest) = Some ((n, v), rest)"
proof -
  obtain o1 o2 where e1: "encode_length (length n) out = (Ok (), o1)"
    and e2: "encode_length (length v) o1 = (Ok (), o2)" and out': "out' = o2 @ n @ v"
    using assms by (auto simp: encode_name_value_def split: prod.splits result.splits)
  obtain b2 where b2: "o2 = o1 @ b2" "nv_length (b2 @ n @ v @ rest) = Some (length v, n @ v @ rest)"
    using encode_length_decodes [OF e2] by blast
  obtain b1 where b1: "o1 = out @ b1"
    "nv_length (b1 @ b2 @ n @ v @ rest) = Some (length n, b2 @ n @ v @ rest)"
    using encode_length_decodes [OF e1] by blast
  have "b1 \<noteq> []"
    using b1(2) nv_length_shorter by fastforce
  moreover have "nv_pair ((b1 @ b2 @ n @ v) @ rest) = Some ((n, v), rest)"
    using b1(2) b2(2) by (simp add: nv_pair_def)
  ultimately show ?thesis
    using b1(1) b2(1) out' by auto
qed

text \<open>The parameter stream of a request: pairs encoded one after the other.\<close>

fun encode_params :: "(u8 list \<times> u8 list) list \<Rightarrow> u8 list \<Rightarrow> (fcgi_error, unit) result \<times> u8 list" where
  "encode_params [] out = (Ok (), out)"
| "encode_params ((n, v) # ps) out =
     (case encode_name_value n v out of (Err e, out) \<Rightarrow> (Err e, out) | (Ok _, out) \<Rightarrow> encode_params ps out)"

lemma encode_params_decodes:
  "encode_params ps out = (Ok u, out') \<Longrightarrow> \<exists>bs. out' = out @ bs \<and> nv_pairs bs = Some ps"
proof (induction ps out rule: encode_params.induct)
  case (1 out)
  then show ?case by (simp add: nv_pairs.simps [of "[]"])
next
  case (2 n v ps out)
  obtain o1 where e: "encode_name_value n v out = (Ok (), o1)" and r: "encode_params ps o1 = (Ok u, out')"
    using "2.prems" by (auto split: prod.splits result.splits)
  obtain cs where cs: "out' = o1 @ cs" "nv_pairs cs = Some ps"
    using "2.IH" [OF e [symmetric]] r by auto
  obtain bs where bs: "o1 = out @ bs" "bs \<noteq> []" "nv_pair (bs @ cs) = Some ((n, v), cs)"
    using encode_name_value_decodes [OF e] by blast
  have "nv_pairs (bs @ cs) = Some ((n, v) # ps)"
    using bs(2,3) cs(2) by (simp add: nv_pairs.simps [of "bs @ cs"])
  then show ?case
    using bs(1) cs(1) by auto
qed

text \<open>
  The parameters of a request reach the PHP pool unchanged: what the length-prefix encoder
  appends for a list of name-value pairs, short and long lengths mixed, decodes by the FastCGI
  rules to exactly that list.
\<close>

theorem fcgi_params_roundtrip:
  "encode_params ps [] = (Ok u, bs) \<Longrightarrow> nv_pairs bs = Some ps"
  using encode_params_decodes [of ps "[]" u bs] by auto

theorem fcgi_params_roundtrip_witness:
  "nv_pairs (snd (encode_params [([65, 66], replicate 200 7), ([], [1])] [])) =
     Some [([65, 66], replicate 200 7), ([], [1])]"
proof -
  have "fst (encode_params [([65, 66], replicate 200 7), ([], [1])] []) = Ok ()"
    by code_simp
  then show ?thesis
    by (intro fcgi_params_roundtrip [of _ "()"]) (simp add: prod_eq_iff)
qed

end
