(* ===== verification/Dispatch.thy ===== *)
theory Dispatch
  imports Router Proxy_Pure File_Serve Http_Request Fcgi_Codec
begin

text \<open>
  The request path of \<open>crates/yerd-proxy/src/server.rs\<close>: from a request to what is done with it. A
  request ends in a response of the proxy's own, or is forwarded: to an upstream, to a FrankenPHP
  worker, or to FastCGI with a script. The environment is a record of parameters: the header test
  and the URI parser of the \<open>http\<close> crate, the disk, the daemon's backend resolver and its store of
  login tokens, whose state is threaded through.
\<close>

section \<open>Types\<close>

datatype backend = PhpFpm path | PhpFpmTcp socket_addr | FrankenPhp socket_addr

fun show_backend :: "backend \<Rightarrow> string" where
  "show_backend (PhpFpm socket) = ''fpm-unix:'' @ from_utf8_lossy socket"
| "show_backend (PhpFpmTcp addr) = ''fpm-tcp:'' @ show_socket_addr addr"
| "show_backend (FrankenPhp addr) = ''franken:'' @ show_socket_addr addr"

datatype proxy_error = PAccept | PBackendResolver string | PBackendConnect string | PBackendProtocol string
  | PUpgrade | PFcgi fcgi_error | PHyper | PTls

datatype listener = HttpListener | HttpsListener

record 'tok proxy_env =
  pe_vis :: "string \<Rightarrow> bool"
  pe_parse_uri :: "string \<Rightarrow> http_uri option"
  pe_disk :: disk
  pe_backend_for :: "site \<Rightarrow> (proxy_error, backend) result"
  pe_direct_scripts :: "site \<Rightarrow> bool"
  pe_consume :: "string \<Rightarrow> string \<Rightarrow> 'tok \<Rightarrow> string option \<times> 'tok"
  pe_prepend_script :: "path option"
  pe_symlink_protection :: bool

record fcgi_request =
  fq_req :: http_request
  fq_backend :: backend
  fq_root :: path
  fq_script :: "path option"
  fq_path_info :: "string option"
  fq_server :: socket_addr
  fq_peer :: socket_addr
  fq_https :: bool
  fq_login :: "auto_login_params option"

datatype outcome = Respond http_response | ForwardUpstream http_request upstream_target string
  | TunnelFranken http_request socket_addr | ForwardFranken http_request socket_addr | ForwardFcgi fcgi_request

definition LOGIN_TOKEN_PARAM :: string where
  "LOGIN_TOKEN_PARAM = ''yerd_login_token''"

section \<open>Responses of the proxy itself\<close>

abbreviation text_plain :: "string \<times> string" where
  "text_plain \<equiv> (''content-type'', ''text/plain; charset=utf-8'')"

abbreviation server_header :: "string \<times> string" where
  "server_header \<equiv> (''server'', PROXY_SERVER_ID)"

abbreviation no_store :: "string \<times> string" where
  "no_store \<equiv> (''cache-control'', ''no-store'')"

definition bad_request_response :: http_response where
  "bad_request_response = \<lparr>hr_status = 400, hr_headers = [server_header, text_plain],
     hr_body = ''Missing or invalid Host header.'' @ [LF]\<rparr>"

definition not_found_response :: http_response where
  "not_found_response = \<lparr>hr_status = 404, hr_headers = [server_header, text_plain],
     hr_body = ''No site matches this Host.'' @ [LF]\<rparr>"

definition internal_error_response :: http_response where
  "internal_error_response = \<lparr>hr_status = 500, hr_headers = [server_header, text_plain],
     hr_body = ''Proxy internal error.'' @ [LF]\<rparr>"

definition method_not_allowed_response :: http_response where
  "method_not_allowed_response = \<lparr>hr_status = 405,
     hr_headers = [server_header, (''allow'', ''GET, HEAD''), no_store, text_plain],
     hr_body = ''405 Method Not Allowed'' @ [LF, LF] @ ''This path is served by a static routing rule target, ''
       @ ''which only answers GET and HEAD.'' @ [LF]\<rparr>"

definition upgrade_not_supported :: http_response where
  "upgrade_not_supported = \<lparr>hr_status = 501, hr_headers = [text_plain],
     hr_body = ''WebSocket upgrade not supported on FastCGI backends.'' @ [LF]\<rparr>"

definition moved_permanently :: "'tok proxy_env \<Rightarrow> string \<Rightarrow> (proxy_error, http_response) result" where
  "moved_permanently env location =
     (if pe_vis env location
      then Ok \<lparr>hr_status = 301, hr_headers = [(''location'', location)], hr_body = []\<rparr>
      else Err (PBackendProtocol ''invalid redirect URI''))"

definition https_redirect :: "'tok proxy_env \<Rightarrow> string \<Rightarrow> http_request \<Rightarrow> nat \<Rightarrow> (proxy_error, http_response) result" where
  "https_redirect env host req port =
     moved_permanently env (build_redirect_uri host (path_and_query_or_root (rq_uri req)) port)"

definition trailing_slash_redirect :: "'tok proxy_env \<Rightarrow> http_request \<Rightarrow> (proxy_error, http_response) result" where
  "trailing_slash_redirect env req =
     (case moved_permanently env (directory_redirect_location (path_and_query_or_root (rq_uri req))) of
        Err e \<Rightarrow> Err e
      | Ok resp \<Rightarrow> Ok (resp\<lparr>hr_headers := hr_headers resp @ [no_store]\<rparr>))"

definition switch_response :: "'tok proxy_env \<Rightarrow> string \<Rightarrow> string \<Rightarrow> (proxy_error, http_response) result" where
  "switch_response env name location =
     (if \<not> pe_vis env location then Err (PBackendProtocol ''invalid switch location'')
      else if \<not> pe_vis env (build_set_cookie name) then Err (PBackendProtocol ''invalid pin cookie'')
      else Ok \<lparr>hr_status = 303,
               hr_headers = [(''location'', location), (''set-cookie'', build_set_cookie name), no_store, server_header],
               hr_body = []\<rparr>)"

definition clear_response :: "'tok proxy_env \<Rightarrow> (proxy_error, http_response) result" where
  "clear_response env =
     (if \<not> pe_vis env build_clear_cookie then Err (PBackendProtocol ''invalid clear cookie'')
      else Ok \<lparr>hr_status = 303,
               hr_headers = [(''location'', ''/''), (''set-cookie'', build_clear_cookie), no_store, server_header],
               hr_body = []\<rparr>)"

definition with_clear :: "'tok proxy_env \<Rightarrow> bool \<Rightarrow> http_response \<Rightarrow> (proxy_error, http_response) result" where
  "with_clear env clear resp =
     (if \<not> clear then Ok resp
      else if \<not> pe_vis env build_clear_cookie then Err (PBackendProtocol ''invalid clear cookie'')
      else Ok (resp\<lparr>hr_headers := hr_headers resp @ [(''set-cookie'', build_clear_cookie)]\<rparr>))"

definition picker_response :: "'tok proxy_env \<Rightarrow> string \<Rightarrow> bool \<Rightarrow> (proxy_error, http_response) result" where
  "picker_response env body_html clear =
     with_clear env clear \<lparr>hr_status = 200,
       hr_headers = [server_header, no_store, (''content-type'', ''text/html; charset=utf-8'')], hr_body = body_html\<rparr>"

definition unbound_not_found :: "'tok proxy_env \<Rightarrow> bool \<Rightarrow> (proxy_error, http_response) result" where
  "unbound_not_found env clear =
     with_clear env clear \<lparr>hr_status = 404, hr_headers = [server_header, no_store, text_plain],
       hr_body = ''No site matches this Host.'' @ [LF]\<rparr>"

section \<open>Unbound requests\<close>

datatype unbound_decision = UServe site | USwitch string string | UPicker string bool | UNotFound bool | UClearPin

definition decide_picker :: "bool \<Rightarrow> string \<Rightarrow> bool \<Rightarrow> unbound_decision" where
  "decide_picker is_html_get dest clear = (if is_html_get then UPicker dest clear else UNotFound clear)"

definition join_path_query :: "string \<Rightarrow> string option \<Rightarrow> string" where
  "join_path_query p query =
     (let p' = sanitize_dest p
      in case query of Some q \<Rightarrow> (if q \<noteq> [] then p' @ ''?'' @ q else p') | None \<Rightarrow> p')"

text \<open>\<open>str::contains\<close> of a string.\<close>

definition str_contains :: "string \<Rightarrow> string \<Rightarrow> bool" where
  "str_contains p s \<longleftrightarrow> split_once_str p s \<noteq> None"

definition named_site :: "site_router \<Rightarrow> string \<Rightarrow> site option" where
  "named_site r v = (case resolve r v of Some s \<Rightarrow> Some s | None \<Rightarrow> router_get r v)"

definition classify_unbound ::
  "site_router \<Rightarrow> string \<Rightarrow> string \<Rightarrow> string option \<Rightarrow> string option \<Rightarrow> string option \<Rightarrow> string option
     \<Rightarrow> unbound_decision" where
  "classify_unbound r meth p query site_header cookie accept =
     (let is_html_get = (meth = ''GET'' \<and> (case accept of Some a \<Rightarrow> str_contains ''text/html'' a | None \<Rightarrow> False));
          header_value = (case site_header of Some v \<Rightarrow> (if trim v \<noteq> [] then Some (trim v) else None) | None \<Rightarrow> None)
      in case header_value of
           Some v \<Rightarrow> (case named_site r v of Some s \<Rightarrow> UServe s | None \<Rightarrow> UNotFound False)
         | None \<Rightarrow>
             if is_clear_switch p then UClearPin
             else (case parse_switch p of
                 Some sw \<Rightarrow>
                   (case named_site r (sw_domain sw) of
                      Some s \<Rightarrow> USwitch (site_name s) (join_path_query (sw_remainder sw) query)
                    | None \<Rightarrow> decide_picker is_html_get (join_path_query (sw_remainder sw) query) False)
               | None \<Rightarrow>
                   (case (case cookie of Some c \<Rightarrow> parse_cookie_site c | None \<Rightarrow> None) of
                      Some name \<Rightarrow>
                        (case router_get r name of
                           Some s \<Rightarrow> UServe s
                         | None \<Rightarrow> decide_picker is_html_get (join_path_query p query) True)
                    | None \<Rightarrow> decide_picker is_html_get (join_path_query p query) False)))"

definition site_header_value :: "(string \<Rightarrow> bool) \<Rightarrow> headers \<Rightarrow> string option" where
  "site_header_value vis hs =
     (case hdr_get hs SITE_HEADER of
        Some v \<Rightarrow> (if vis v then Some v else None)
      | None \<Rightarrow> hdr_str vis hs SITE_HEADER_ALIAS)"

fun kind_label :: "site_kind \<Rightarrow> string" where
  "kind_label Parked = ''parked''"
| "kind_label Linked = ''linked''"

section \<open>Routing\<close>

datatype routed = RSite site bool "(upstream_target \<times> string) option" "route_rule option"
  | RProxy upstream_target string bool bool
  | RRespond http_response

definition site_routed :: "site_router \<Rightarrow> http_request \<Rightarrow> bool \<Rightarrow> site \<Rightarrow> routed" where
  "site_routed r req unbound s =
     RSite s unbound
       (map_option (\<lambda>rule. (pr_target rule, rc_tld (config r))) (match_rule (rules_for r (site_name s)) (uri_path (rq_uri req))))
       (match_route (route_rules_for r (site_name s)) (uri_path (rq_uri req)))"

definition picker_entry :: "site_router \<Rightarrow> site \<Rightarrow> picker_site" where
  "picker_entry r s = \<lparr>pick_name = site_name s, pick_primary = primary_fqdn r (site_name s),
     pick_secure = site_secure s, pick_kind = kind_label (kind s)\<rparr>"

definition resolve_request :: "'tok proxy_env \<Rightarrow> site_router \<Rightarrow> http_request \<Rightarrow> string \<Rightarrow> (proxy_error, routed) result" where
  "resolve_request env r req host =
     (case resolve_route r host of
        Some (Php s) \<Rightarrow> Ok (site_routed r req False s)
      | Some (Proxy p) \<Rightarrow> Ok (RProxy (ps_target p) (rc_tld (config r)) (ps_secure p) False)
      | None \<Rightarrow>
          if \<not> is_loopback_host host then Ok (RRespond not_found_response)
          else (case classify_unbound r (rq_method req) (uri_path (rq_uri req)) (uri_query (rq_uri req))
                       (site_header_value (pe_vis env) (rq_headers req))
                       (hdr_str (pe_vis env) (rq_headers req) ''cookie'')
                       (hdr_str (pe_vis env) (rq_headers req) ''accept'') of
              UServe s \<Rightarrow> Ok (site_routed r req True s)
            | USwitch name location \<Rightarrow>
                (case switch_response env name location of Err e \<Rightarrow> Err e | Ok resp \<Rightarrow> Ok (RRespond resp))
            | UPicker dest clear \<Rightarrow>
                (case picker_response env (render_picker (map (picker_entry r) (router_iter r)) dest) clear of
                   Err e \<Rightarrow> Err e | Ok resp \<Rightarrow> Ok (RRespond resp))
            | UNotFound clear \<Rightarrow>
                (case unbound_not_found env clear of Err e \<Rightarrow> Err e | Ok resp \<Rightarrow> Ok (RRespond resp))
            | UClearPin \<Rightarrow> (case clear_response env of Err e \<Rightarrow> Err e | Ok resp \<Rightarrow> Ok (RRespond resp))))"

section \<open>Serving a PHP site\<close>

definition consume_login_token_if_present ::
  "'tok proxy_env \<Rightarrow> string \<Rightarrow> http_request \<Rightarrow> 'tok \<Rightarrow> string option \<times> http_request \<times> 'tok" where
  "consume_login_token_if_present env site req tok =
     (if \<not> starts_with ''/wp-admin'' (uri_path (rq_uri req)) then (None, req, tok)
      else (case get_param (uri_query (rq_uri req)) LOGIN_TOKEN_PARAM of
          None \<Rightarrow> (None, req, tok)
        | Some token \<Rightarrow>
            (case pe_consume env site token tok of
               (None, tok') \<Rightarrow> (None, req, tok')
             | (Some target_user, tok') \<Rightarrow>
                 (case pe_parse_uri env (strip_param (path_and_query_or_root (rq_uri req)) LOGIN_TOKEN_PARAM) of
                    Some u \<Rightarrow> (Some target_user, req\<lparr>rq_uri := u\<rparr>, tok')
                  | None \<Rightarrow> (Some target_user, req, tok')))))"

datatype route_outcome = RouteRespond http_response | RouteScript path | RouteFallback

definition apply_route :: "'tok proxy_env \<Rightarrow> http_request \<Rightarrow> route_rule option \<Rightarrow> path \<Rightarrow> path \<Rightarrow> route_outcome" where
  "apply_route env req rt served_rt allowed_root =
     (let dk = pe_disk env; sp = pe_symlink_protection env
      in case rt of
           None \<Rightarrow>
             (case resolve_static_outcome (try_serve_index dk (rq_method req) ''/'' served_rt allowed_root sp) of
                Some resp \<Rightarrow> RouteRespond resp | None \<Rightarrow> RouteFallback)
         | Some rule \<Rightarrow>
             if is_php_source (rr_target rule) then
               (case resolve_rule_target dk served_rt allowed_root (rr_target rule) sp of
                  Some rel \<Rightarrow> RouteScript rel | None \<Rightarrow> RouteFallback)
             else if \<not> get_or_head (rq_method req) then RouteRespond method_not_allowed_response
             else (case resolve_static_outcome (serve_target_file dk (rq_method req) (uri_path (rq_uri req))
                          served_rt allowed_root (rr_target rule) sp) of
                     Some resp \<Rightarrow> RouteRespond resp | None \<Rightarrow> RouteFallback))"

definition resolve_script_if_allowed :: "'tok proxy_env \<Rightarrow> site \<Rightarrow> string \<Rightarrow> path \<Rightarrow> path \<Rightarrow> script_resolution" where
  "resolve_script_if_allowed env s up served_rt allowed_root =
     (if \<not> pe_direct_scripts env s then ScriptFallback
      else resolve_script (pe_disk env) up served_rt allowed_root (pe_symlink_protection env))"

text \<open>The end of \<open>serve_php_fpm\<close>: the token is consumed and the request goes to FastCGI.\<close>

definition forward_fcgi ::
  "'tok proxy_env \<Rightarrow> http_request \<Rightarrow> backend \<Rightarrow> site \<Rightarrow> path \<Rightarrow> path option \<times> string option \<Rightarrow> socket_addr
     \<Rightarrow> socket_addr \<Rightarrow> bool \<Rightarrow> 'tok \<Rightarrow> (proxy_error, outcome) result \<times> 'tok" where
  "forward_fcgi env req bk s served_rt target server peer https tok =
     (case consume_login_token_if_present env (site_name s) req tok of
        (login_target_user, req', tok') \<Rightarrow>
          (Ok (ForwardFcgi \<lparr>fq_req = req', fq_backend = bk, fq_root = served_rt, fq_script = fst target,
             fq_path_info = snd target, fq_server = server, fq_peer = peer, fq_https = https,
             fq_login = (case (login_target_user, pe_prepend_script env) of
                (Some user, Some script) \<Rightarrow> Some \<lparr>al_prepend_script = script, al_target_user = user\<rparr>
              | _ \<Rightarrow> None)\<rparr>), tok'))"

definition serve_php_fpm ::
  "'tok proxy_env \<Rightarrow> http_request \<Rightarrow> backend \<Rightarrow> site \<Rightarrow> path \<Rightarrow> path \<Rightarrow> route_rule option \<Rightarrow> socket_addr
     \<Rightarrow> socket_addr \<Rightarrow> bool \<Rightarrow> 'tok \<Rightarrow> (proxy_error, outcome) result \<times> 'tok" where
  "serve_php_fpm env req bk s served_rt allowed_root rt server peer https tok =
     (let dk = pe_disk env; sp = pe_symlink_protection env; up = uri_path (rq_uri req); m = rq_method req;
          fcgi = (\<lambda>target. forward_fcgi env req bk s served_rt target server peer https tok);
          by_rule = (case apply_route env req rt served_rt allowed_root of
              RouteRespond resp \<Rightarrow> (Ok (Respond resp), tok)
            | RouteScript rel \<Rightarrow> fcgi (Some rel, None)
            | RouteFallback \<Rightarrow> fcgi (None, None))
      in case resolve_static_outcome (try_serve dk m up served_rt allowed_root sp) of
           Some resp \<Rightarrow> (Ok (Respond resp), tok)
         | None \<Rightarrow>
             (case resolve_static_outcome (try_serve_index dk m up served_rt allowed_root sp) of
                Some resp \<Rightarrow> (Ok (Respond resp), tok)
              | None \<Rightarrow>
                  (case resolve_script_if_allowed env s up served_rt allowed_root of
                     Script script \<Rightarrow> fcgi (Some script, None)
                   | ScriptWithPathInfo script extra \<Rightarrow> fcgi (Some script, Some extra)
                   | DirectoryRedirect \<Rightarrow>
                       if get_or_head m then
                         (case trailing_slash_redirect env req of
                            Ok resp \<Rightarrow> (Ok (Respond resp), tok) | Err e \<Rightarrow> (Err e, tok))
                       else by_rule
                   | ScriptFallback \<Rightarrow> by_rule)))"

section \<open>Dispatch\<close>

definition wrap_backend_error :: "string \<Rightarrow> proxy_error \<Rightarrow> proxy_error" where
  "wrap_backend_error host e =
     (case e of
        PBackendResolver _ \<Rightarrow> e | PBackendConnect _ \<Rightarrow> e | PBackendProtocol _ \<Rightarrow> e
      | _ \<Rightarrow> PBackendResolver host)"

text \<open>The request an upstream gets: the forwarding headers, and no hop-by-hop ones unless it upgrades.\<close>

definition upstream_request :: "'tok proxy_env \<Rightarrow> http_request \<Rightarrow> socket_addr \<Rightarrow> bool \<Rightarrow> string \<Rightarrow> http_request" where
  "upstream_request env req peer https host =
     (let hs = add_forwarded_headers (pe_vis env) (sa_ip peer) https host (rq_headers req)
      in req\<lparr>rq_headers := (if is_upgrade (pe_vis env) hs then hs else strip_hop_by_hop_only (pe_vis env) hs)\<rparr>)"

definition redirect_or :: "'tok proxy_env \<Rightarrow> listener \<Rightarrow> bool \<Rightarrow> bool \<Rightarrow> nat option \<Rightarrow> string \<Rightarrow> http_request \<Rightarrow> 'tok
    \<Rightarrow> (proxy_error, outcome) result \<times> 'tok \<Rightarrow> (proxy_error, outcome) result \<times> 'tok" where
  "redirect_or env lst unbound secure port host req tok rest =
     (case port of
        Some pt \<Rightarrow>
          if lst = HttpListener \<and> \<not> unbound \<and> secure then
            (case https_redirect env host req pt of Ok resp \<Rightarrow> (Ok (Respond resp), tok) | Err e \<Rightarrow> (Err e, tok))
          else rest
      | None \<Rightarrow> rest)"

definition serve_backend ::
  "'tok proxy_env \<Rightarrow> http_request \<Rightarrow> string \<Rightarrow> site \<Rightarrow> route_rule option \<Rightarrow> socket_addr \<Rightarrow> socket_addr \<Rightarrow> bool \<Rightarrow> 'tok
     \<Rightarrow> (proxy_error, outcome) result \<times> 'tok" where
  "serve_backend env req host s rt server peer https tok =
     (case pe_backend_for env s of
        Err e \<Rightarrow> (Err (wrap_backend_error host e), tok)
      | Ok bk \<Rightarrow>
          (case bk of
             FrankenPhp addr \<Rightarrow>
               if is_upgrade (pe_vis env) (rq_headers req) then (Ok (TunnelFranken req addr), tok)
               else (Ok (ForwardFranken req addr), tok)
           | _ \<Rightarrow>
               if is_upgrade (pe_vis env) (rq_headers req) then (Ok (Respond upgrade_not_supported), tok)
               else serve_php_fpm env req bk s (served_root s) (document_root s) rt server peer https tok))"

definition dispatch_request ::
  "'tok proxy_env \<Rightarrow> site_router \<Rightarrow> listener \<Rightarrow> nat option \<Rightarrow> socket_addr \<Rightarrow> socket_addr \<Rightarrow> http_request \<Rightarrow> 'tok
     \<Rightarrow> (proxy_error, outcome) result \<times> 'tok" where
  "dispatch_request env r lst port server peer req tok =
     (case hdr_str (pe_vis env) (rq_headers req) ''host'' of
        None \<Rightarrow> (Ok (Respond bad_request_response), tok)
      | Some host \<Rightarrow>
          (let https = (lst = HttpsListener)
           in case resolve_request env r req host of
                Err e \<Rightarrow> (Err e, tok)
              | Ok (RRespond resp) \<Rightarrow> (Ok (Respond resp), tok)
              | Ok (RProxy target tld secure unbound) \<Rightarrow>
                  redirect_or env lst unbound secure port host req tok
                    (Ok (ForwardUpstream (upstream_request env req peer https host) target tld), tok)
              | Ok (RSite s unbound matched rt) \<Rightarrow>
                  redirect_or env lst unbound (site_secure s) port host req tok
                    (case matched of
                       Some (target, tld) \<Rightarrow>
                         (Ok (ForwardUpstream (upstream_request env req peer https host) target tld), tok)
                     | None \<Rightarrow> serve_backend env req host s rt server peer https tok)))"

definition handle_request ::
  "'tok proxy_env \<Rightarrow> site_router \<Rightarrow> listener \<Rightarrow> nat option \<Rightarrow> socket_addr \<Rightarrow> socket_addr \<Rightarrow> http_request \<Rightarrow> 'tok
     \<Rightarrow> outcome \<times> 'tok" where
  "handle_request env r lst port server peer req tok =
     (case dispatch_request env r lst port server peer req tok of
        (Ok out, tok') \<Rightarrow> (out, tok') | (Err _, tok') \<Rightarrow> (Respond internal_error_response, tok'))"

text \<open>The parameters FastCGI gets for a forwarded request.\<close>

definition fcgi_params :: "'tok proxy_env \<Rightarrow> fcgi_request \<Rightarrow> (string \<times> string) list" where
  "fcgi_params env f =
     build_params (pe_vis env) (rq_method (fq_req f)) (path_and_query_or_root (rq_uri (fq_req f))) (rq_headers (fq_req f))
       (fq_root f) (fq_script f) (fq_path_info f) (fq_https f) (fq_peer f) (fq_server f) (fq_login f)"

text \<open>The filter of both accept loops.\<close>

definition accepts_peer :: "bool \<Rightarrow> socket_addr \<Rightarrow> bool" where
  "accepts_peer peer_filter peer \<longleftrightarrow> \<not> (peer_filter \<and> \<not> is_lan_source (sa_ip peer))"

end
