(* ===== verification/Proxy_Safety.thy ===== *)
theory Proxy_Safety
  imports Dispatch
begin

text \<open>
  What the request path guarantees for every request: files and scripts stay inside the site, the
  login token is spent once and never reaches PHP, plain HTTP of a secure site is redirected, no
  unbound request is sent to another origin, and a client cannot forge what an upstream is told.
\<close>

section \<open>Lemmas on the stages\<close>

lemma resolve_static_outcome_200:
  "resolve_static_outcome out = Some resp \<Longrightarrow> hr_status resp = 200 \<Longrightarrow> out = Served resp"
  by (auto simp: resolve_static_outcome_def symlink_escape_response_def split: static_outcome.splits)

lemma resolve_static_outcome_status:
  "resolve_static_outcome out = Some resp \<Longrightarrow> out = Served resp \<or> hr_status resp = 403"
  by (auto simp: resolve_static_outcome_def symlink_escape_response_def split: static_outcome.splits)

lemma forward_fcgi_Ok:
  "forward_fcgi env req bk s sr target server peer https tok = (res, tok') \<Longrightarrow>
     \<exists>f. res = Ok (ForwardFcgi f) \<and> fq_root f = sr \<and> fq_script f = fst target \<and> fq_https f = https
       \<and> fq_backend f = bk \<and> fq_peer f = peer \<and> fq_server f = server"
  by (auto simp: forward_fcgi_def split: prod.splits)

lemma apply_route_inside:
  assumes "pe_symlink_protection env"
  shows "apply_route env req rt sr ar = RouteRespond resp \<Longrightarrow> hr_status resp = 200 \<Longrightarrow>
      shows_file (pe_disk env) ar (rq_method req) resp"
    "apply_route env req rt sr ar = RouteScript rel \<Longrightarrow> runs_inside (pe_disk env) sr ar rel"
  using assms
  by (auto simp: apply_route_def Let_def serve_target_file_def method_not_allowed_response_def
      dest!: resolve_static_outcome_200 try_serve_index_shows serve_contained_file_shows resolve_rule_target_inside
      split: option.splits if_splits)

lemma resolve_script_if_allowed_inside:
  assumes "pe_symlink_protection env"
  shows "resolve_script_if_allowed env s up sr ar = Script rel \<Longrightarrow> runs_inside (pe_disk env) sr ar rel"
    "resolve_script_if_allowed env s up sr ar = ScriptWithPathInfo rel info \<Longrightarrow> runs_inside (pe_disk env) sr ar rel"
  using assms resolve_script_inside
  by (auto simp: resolve_script_if_allowed_def split: if_splits)

lemma moved_permanently_Ok:
  "moved_permanently env l = Ok resp \<longleftrightarrow>
     pe_vis env l \<and> resp = \<lparr>hr_status = 301, hr_headers = [(''location'', l)], hr_body = []\<rparr>"
  by (auto simp: moved_permanently_def)

lemma trailing_slash_redirect_Ok:
  "trailing_slash_redirect env req = Ok resp \<Longrightarrow>
     hr_status resp = 301 \<and> hr_headers resp = [(''location'',
       directory_redirect_location (path_and_query_or_root (rq_uri req))), no_store]"
  by (auto simp: trailing_slash_redirect_def moved_permanently_Ok split: result.splits)

text \<open>Where \<open>serve_php_fpm\<close> can end, as rules: the order of the attempts does not matter for safety.\<close>

lemma serve_php_fpm_cases:
  assumes "serve_php_fpm env req bk s sr ar rt server peer https tok = (Ok out, tok')"
  obtains (static) resp where "out = Respond resp" "tok' = tok"
      "resolve_static_outcome (try_serve (pe_disk env) (rq_method req) (uri_path (rq_uri req)) sr ar
         (pe_symlink_protection env)) = Some resp"
  | (index) resp where "out = Respond resp" "tok' = tok"
      "resolve_static_outcome (try_serve_index (pe_disk env) (rq_method req) (uri_path (rq_uri req)) sr ar
         (pe_symlink_protection env)) = Some resp"
  | (slash) resp where "out = Respond resp" "tok' = tok" "trailing_slash_redirect env req = Ok resp"
  | (rule) resp where "out = Respond resp" "tok' = tok" "apply_route env req rt sr ar = RouteRespond resp"
  | (forward) rel info where
      "forward_fcgi env req bk s sr (rel, info) server peer https tok = (Ok out, tok')"
      "rel = None \<or> (\<exists>p. rel = Some p \<and> (apply_route env req rt sr ar = RouteScript p
         \<or> resolve_script_if_allowed env s (uri_path (rq_uri req)) sr ar = Script p
         \<or> (\<exists>i. resolve_script_if_allowed env s (uri_path (rq_uri req)) sr ar = ScriptWithPathInfo p i)))"
  using assms
  by (auto simp: serve_php_fpm_def Let_def
      split: option.splits script_resolution.splits route_outcome.splits if_splits result.splits)

text \<open>What \<open>dispatch_request\<close> does for a request that resolves to a site.\<close>

lemma dispatch_to_site:
  assumes "hdr_str (pe_vis env) (rq_headers req) ''host'' = Some host"
    "resolve_request env r req host = Ok (RSite s unbound matched rt)"
  shows "dispatch_request env r lst port server peer req tok =
     redirect_or env lst unbound (site_secure s) port host req tok
       (case matched of
          Some (target, tld) \<Rightarrow>
            (Ok (ForwardUpstream (upstream_request env req peer (lst = HttpsListener) host) target tld), tok)
        | None \<Rightarrow> serve_backend env req host s rt server peer (lst = HttpsListener) tok)"
  using assms by (simp add: dispatch_request_def Let_def)

lemma redirect_or_cases:
  assumes "redirect_or env lst unbound secure port host req tok rest = (Ok out, tok')"
  obtains (redirect) resp pt where "out = Respond resp" "tok' = tok" "port = Some pt" "lst = HttpListener"
      "\<not> unbound" "secure" "https_redirect env host req pt = Ok resp"
  | (rest) "rest = (Ok out, tok')"
  using assms by (auto simp: redirect_or_def split: option.splits if_splits result.splits)

lemma serve_backend_cases:
  assumes "serve_backend env req host s rt server peer https tok = (Ok out, tok')"
  obtains (tunnel) addr where "out = TunnelFranken req addr" "tok' = tok"
  | (franken) addr where "out = ForwardFranken req addr" "tok' = tok"
  | (refused) "out = Respond upgrade_not_supported" "tok' = tok"
  | (fpm) bk where
      "serve_php_fpm env req bk s (served_root s) (document_root s) rt server peer https tok = (Ok out, tok')"
proof (cases "pe_backend_for env s")
  case (Err e)
  with assms show ?thesis by (simp add: serve_backend_def)
next
  case (Ok bk)
  show ?thesis
  proof (cases "is_upgrade (pe_vis env) (rq_headers req)")
    case True
    with assms Ok show ?thesis by (cases bk) (auto simp: serve_backend_def intro: that)
  next
    case False
    with assms Ok show ?thesis by (cases bk) (auto simp: serve_backend_def intro: that)
  qed
qed

text \<open>A site's request ends in a redirect, upstream, in a backend's tunnel, or in \<open>serve_php_fpm\<close>.\<close>

lemma site_request_cases:
  assumes "hdr_str (pe_vis env) (rq_headers req) ''host'' = Some host"
    "resolve_request env r req host = Ok (RSite s unbound matched rt)"
    "dispatch_request env r lst port server peer req tok = (Ok out, tok')"
  obtains (respond) resp where "out = Respond resp" "tok' = tok" "hr_status resp \<in> {301, 501}"
  | (upstream) req' target tld where "out = ForwardUpstream req' target tld" "tok' = tok"
  | (franken) addr where "out \<in> {TunnelFranken req addr, ForwardFranken req addr}" "tok' = tok"
  | (fpm) bk where
      "serve_php_fpm env req bk s (served_root s) (document_root s) rt server peer (lst = HttpsListener) tok
         = (Ok out, tok')"
  using assms(3) unfolding dispatch_to_site [OF assms(1,2)]
proof (cases rule: redirect_or_cases)
  case (redirect resp pt)
  then show ?thesis
    by (intro respond) (auto simp: https_redirect_def moved_permanently_Ok)
next
  case rest
  then show ?thesis
  proof (cases matched)
    case None
    with rest have "serve_backend env req host s rt server peer (lst = HttpsListener) tok = (Ok out, tok')"
      by simp
    then show ?thesis
      by (cases rule: serve_backend_cases) (auto simp: upgrade_not_supported_def intro: that)
  next
    case (Some a)
    with rest show ?thesis by (cases a) (auto intro: upstream)
  qed
qed

section \<open>Containment\<close>


section \<open>The login token\<close>

text \<open>What a request presents to the token store.\<close>

definition presented_token :: "http_request \<Rightarrow> string option" where
  "presented_token req =
     (if starts_with ''/wp-admin'' (uri_path (rq_uri req))
      then get_param (uri_query (rq_uri req)) LOGIN_TOKEN_PARAM else None)"

definition spend_token :: "'tok proxy_env \<Rightarrow> site \<Rightarrow> http_request \<Rightarrow> 'tok \<Rightarrow> string option \<times> 'tok" where
  "spend_token env s req tok =
     (case presented_token req of Some token \<Rightarrow> pe_consume env (site_name s) token tok | None \<Rightarrow> (None, tok))"

lemma forward_fcgi_token:
  assumes "forward_fcgi env req bk s sr target server peer https tok = (Ok (ForwardFcgi f), tok')"
    "spend_token env s req tok = (user, spent)"
  shows "tok' = spent"
    "fq_login f = (case (user, pe_prepend_script env) of
        (Some u, Some script) \<Rightarrow> Some \<lparr>al_prepend_script = script, al_target_user = u\<rparr> | _ \<Rightarrow> None)"
    "fq_req f = (case (user, pe_parse_uri env (strip_param (path_and_query_or_root (rq_uri req)) LOGIN_TOKEN_PARAM)) of
        (Some _, Some u) \<Rightarrow> req\<lparr>rq_uri := u\<rparr> | _ \<Rightarrow> req)"
  using assms
  by (auto simp: forward_fcgi_def consume_login_token_if_present_def spend_token_def presented_token_def
      split: if_splits option.splits prod.splits)

lemma site_outcome_token:
  assumes "hdr_str (pe_vis env) (rq_headers req) ''host'' = Some host"
    "resolve_request env r req host = Ok (RSite s unbound matched rt)"
    "dispatch_request env r lst port server peer req tok = (Ok out, tok')"
  obtains (kept) "tok' = tok" "\<nexists>f. out = ForwardFcgi f"
  | (forwarded) f bk target where "out = ForwardFcgi f"
      "forward_fcgi env req bk s (served_root s) target server peer (lst = HttpsListener) tok
         = (Ok (ForwardFcgi f), tok')"
  using assms
proof (cases rule: site_request_cases)
  case (fpm bk)
  then show ?thesis
  proof (cases rule: serve_php_fpm_cases)
    case (forward rel info)
    then show ?thesis using forwarded forward_fcgi_Ok [OF forward(1)] by blast
  qed (auto intro: kept)
qed (auto intro: kept)

lemma serve_php_fpm_Err:
  assumes "serve_php_fpm env req bk s sr ar rt server peer https tok = (Err e, tok')"
  shows "tok' = tok"
proof -
  have "forward_fcgi env req bk s sr target server peer https tok \<noteq> (Err e, tok')" for target
    using forward_fcgi_Ok by fastforce
  then show ?thesis
    using assms by (auto simp: serve_php_fpm_def Let_def
        split: option.splits script_resolution.splits route_outcome.splits if_splits result.splits)
qed

lemma serve_backend_Err:
  assumes "serve_backend env req host s rt server peer https tok = (Err e, tok')"
  shows "tok' = tok"
proof (cases "pe_backend_for env s")
  case (Ok bk)
  then show ?thesis
    using assms serve_php_fpm_Err by (cases bk) (auto simp: serve_backend_def split: if_splits)
qed (use assms in \<open>simp add: serve_backend_def\<close>)

lemma site_error_token:
  assumes "hdr_str (pe_vis env) (rq_headers req) ''host'' = Some host"
    "resolve_request env r req host = Ok (RSite s unbound matched rt)"
    "dispatch_request env r lst port server peer req tok = (Err e, tok')"
  shows "tok' = tok"
proof -
  have "(case matched of
          Some (target, tld) \<Rightarrow>
            (Ok (ForwardUpstream (upstream_request env req peer (lst = HttpsListener) host) target tld), tok)
        | None \<Rightarrow> serve_backend env req host s rt server peer (lst = HttpsListener) tok) = (Err e, tok') \<Longrightarrow> tok' = tok"
    using serve_backend_Err by (auto split: option.splits)
  then show ?thesis
    using assms(3) unfolding dispatch_to_site [OF assms(1,2)]
    by (auto simp: redirect_or_def split: option.splits result.splits if_splits)
qed

text \<open>
  C16: Only a request that is forwarded to FastCGI touches the token store, and only under
  \<open>/wp-admin\<close> with the token parameter: the token presented is then consumed for the site. The
  request is logged in exactly if that consumption names a user and the prepend script exists, and
  then PHP sees the request without the token, with its method, its headers and all its other
  parameters as they were.
\<close>

theorem login_token_use:
  assumes "hdr_str (pe_vis env) (rq_headers req) ''host'' = Some host"
    "resolve_request env r req host = Ok (RSite s unbound matched rt)"
    "dispatch_request env r lst port server peer req tok = (Ok out, tok')"
    "\<And>x u. pe_parse_uri env x = Some u \<Longrightarrow> uri_query u = query_of x"
    "uri_query (rq_uri req) = query_of (path_and_query_or_root (rq_uri req))"
    "pe_parse_uri env (strip_param (path_and_query_or_root (rq_uri req)) LOGIN_TOKEN_PARAM) \<noteq> None"
    "spend_token env s req tok = (user, spent)"
  shows "(if \<exists>f. out = ForwardFcgi f then tok' = spent else tok' = tok)
    \<and> (\<forall>f. out = ForwardFcgi f \<longrightarrow>
         fq_login f = (case (user, pe_prepend_script env) of
           (Some u, Some script) \<Rightarrow> Some \<lparr>al_prepend_script = script, al_target_user = u\<rparr> | _ \<Rightarrow> None)
         \<and> rq_method (fq_req f) = rq_method req \<and> rq_headers (fq_req f) = rq_headers req
         \<and> (if user = None then fq_req f = req
            else get_param (uri_query (rq_uri (fq_req f))) LOGIN_TOKEN_PARAM = None
              \<and> (\<forall>name. name \<noteq> LOGIN_TOKEN_PARAM \<and> name \<noteq> [] \<longrightarrow>
                   get_param (uri_query (rq_uri (fq_req f))) name = get_param (uri_query (rq_uri req)) name)))"
  using assms(1-3)
proof (cases rule: site_outcome_token)
  case (forwarded f bk target)
  note t = forward_fcgi_token [OF forwarded(2) assms(7)]
  obtain u where u: "pe_parse_uri env (strip_param (path_and_query_or_root (rq_uri req)) LOGIN_TOKEN_PARAM) = Some u"
    using assms(6) by auto
  have "get_param (uri_query u) LOGIN_TOKEN_PARAM = None"
    unfolding assms(4) [OF u] by (rule get_param_stripped)
  moreover have "get_param (uri_query u) name = get_param (uri_query (rq_uri req)) name"
    if "name \<noteq> LOGIN_TOKEN_PARAM" "name \<noteq> []" for name
    unfolding assms(4) [OF u] assms(5) using that by (simp add: get_param_other)
  ultimately show ?thesis
    using forwarded(1) t u by (cases user) auto
qed auto

section \<open>Redirects\<close>


section \<open>Unbound requests\<close>

lemma join_path_query_same_origin: "same_origin (join_path_query p q)"
proof -
  obtain r where r: "sanitize_dest p = CHR ''/'' # r" "r = [] \<or> \<not> is_slash (hd r)"
    using sanitize_same_origin [of p] by (auto simp: same_origin_def)
  then show ?thesis
    by (cases r) (auto simp: same_origin_def join_path_query_def Let_def split: option.split)
qed

lemma classify_unbound_dest:
  "classify_unbound r m p q h c a = USwitch name l \<Longrightarrow> same_origin l \<and> (\<exists>s. name = site_name s \<and>
     (\<exists>v. named_site r v = Some s))"
  "classify_unbound r m p q h c a = UPicker d b \<Longrightarrow> same_origin d"
  by (auto simp: classify_unbound_def Let_def decide_picker_def join_path_query_same_origin
      split: option.splits if_splits)

lemma resolve_request_unbound:
  assumes "resolve_route r host = None" "resolve_request env r req host = Ok (RRespond resp)"
  obtains (missing) "resp = not_found_response"
  | (switch) name l where "switch_response env name l = Ok resp" "same_origin l"
  | (picker) d b where "same_origin d"
      "picker_response env (render_picker (map (picker_entry r) (router_iter r)) d) b = Ok resp"
  | (unmatched) b where "unbound_not_found env b = Ok resp"
  | (clear) "clear_response env = Ok resp"
  using assms classify_unbound_dest
  by (fastforce simp: resolve_request_def site_routed_def split: if_splits unbound_decision.splits result.splits)


section \<open>What backends are told\<close>

lemma strip_hop_by_hop_only_get_all:
  "hdr_get_all (strip_hop_by_hop_only vis hs) n =
     (if n = ''upgrade'' \<or> n \<in> set HOP_BY_HOP_FIXED \<or> list_ex (\<lambda>t. eq_ignore_ascii_case t n) (conn_tokens vis hs)
      then [] else hdr_get_all hs n)"
  unfolding strip_hop_by_hop_only_spec
  by (auto simp: hdr_get_all_def filter_empty_conv intro!: arg_cong [where f = "map snd"] filter_cong)

lemma conn_tokens_forwarded: "conn_tokens vis (add_forwarded_headers vis' peer https host hs) = conn_tokens vis hs"
  by (simp add: conn_tokens_def add_forwarded_headers_def insert_if_def hdr_get_all_insert_other Let_def)

lemma dispatch_upstream_request:
  assumes "hdr_str (pe_vis env) (rq_headers req) ''host'' = Some host"
    "dispatch_request env r lst port server peer req tok = (Ok (ForwardUpstream req' target tld), tok')"
  shows "req' = upstream_request env req peer (lst = HttpsListener) host"
proof (cases "\<exists>s unbound matched rt. resolve_request env r req host = Ok (RSite s unbound matched rt)")
  case True
  then obtain s unbound matched rt where s: "resolve_request env r req host = Ok (RSite s unbound matched rt)"
    by blast
  from assms(2) show ?thesis unfolding dispatch_to_site [OF assms(1) s]
  proof (cases rule: redirect_or_cases)
    case rest
    show ?thesis
    proof (cases matched)
      case None
      with rest have "serve_backend env req host s rt server peer (lst = HttpsListener) tok
          = (Ok (ForwardUpstream req' target tld), tok')" by simp
      then show ?thesis
        by (cases rule: serve_backend_cases) (auto elim!: serve_php_fpm_cases dest: forward_fcgi_Ok)
    next
      case (Some a)
      with rest show ?thesis by (cases a) simp
    qed
  qed simp
next
  case False
  with assms show ?thesis
    by (auto simp: dispatch_request_def Let_def redirect_or_def
        split: result.splits routed.splits option.splits if_splits)
qed

text \<open>
  C17: An upstream is never told a forged client address, host or scheme: under each forwarding header
  it gets the proxy's own value and no other, or, when the client lists the header in \<open>Connection\<close>
  on a request that is no upgrade, none.
\<close>

theorem upstream_not_forged:
  assumes "hdr_str (pe_vis env) (rq_headers req) ''host'' = Some host"
    "dispatch_request env r lst port server peer req tok = (Ok (ForwardUpstream req' target tld), tok')"
    "list_all (pe_vis env) [show_ip (sa_ip peer), host, ''http'', ''https'']"
    "(n, v) \<in> {(''x-forwarded-for'', show_ip (sa_ip peer)), (''x-real-ip'', show_ip (sa_ip peer)),
       (''x-forwarded-host'', host), (''x-forwarded-proto'', if lst = HttpsListener then ''https'' else ''http'')}"
  shows "hdr_get_all (rq_headers req') n =
    (if list_ex (\<lambda>t. eq_ignore_ascii_case t n) (conn_tokens (pe_vis env) (rq_headers req))
        \<and> \<not> is_upgrade (pe_vis env) (rq_headers req') then [] else [v])"
proof -
  let ?hs = "add_forwarded_headers (pe_vis env) (sa_ip peer) (lst = HttpsListener) host (rq_headers req)"
  have got: "hdr_get_all ?hs n = [v]"
    using forwarded_not_spoofed [of "sa_ip peer" host "pe_vis env" "lst = HttpsListener" "rq_headers req"] assms(3,4)
    by auto
  have req': "rq_headers req' = (if is_upgrade (pe_vis env) ?hs then ?hs else strip_hop_by_hop_only (pe_vis env) ?hs)"
    using dispatch_upstream_request [OF assms(1,2)] by (simp add: upstream_request_def Let_def)
  have stripped: "\<not> is_upgrade (pe_vis env) (strip_hop_by_hop_only (pe_vis env) ?hs)"
    by (simp add: is_upgrade_def strip_hop_by_hop_only_get_all HOP_BY_HOP_FIXED_def)
  have "n \<noteq> ''upgrade'' \<and> n \<notin> set HOP_BY_HOP_FIXED"
    using assms(4) by (auto simp: HOP_BY_HOP_FIXED_def)
  then show ?thesis
    using got stripped by (simp add: req' strip_hop_by_hop_only_get_all conn_tokens_forwarded)
qed

lemma http_param_name_prefix: "starts_with ''HTTP_'' (http_param_name n)"
  by (simp add: http_param_name_def starts_with_iff)

lemma hdr_get_all_append: "hdr_get_all (xs @ ys) n = hdr_get_all xs n @ hdr_get_all ys n"
  by (simp add: hdr_get_all_def)

lemma hdr_get_all_headers:
  "\<not> starts_with ''HTTP_'' n \<Longrightarrow> hdr_get_all (map (\<lambda>(name, v). (http_param_name name, v)) hs) n = []"
  using http_param_name_prefix by (auto simp: hdr_get_all_def filter_empty_conv)

text \<open>The proxy's own parameters do not depend on the headers.\<close>

lemma build_params_split:
  "\<exists>own. \<forall>hs. build_params vis m pq hs root scr info https ra sa login = own
     @ opt_param [''SERVER_NAME'', ''HTTP_HOST''] (hdr_str vis hs ''host'')
     @ opt_param [''CONTENT_TYPE''] (hdr_str vis hs ''content-type'')
     @ opt_param [''CONTENT_LENGTH''] (hdr_str vis hs ''content-length'')
     @ map (\<lambda>(name, v). (http_param_name name, v))
         (filter (\<lambda>(name, _). name \<notin> {''host'', ''content-type'', ''content-length''}) hs)"
  unfolding build_params_def Let_def split_beta append_assoc [symmetric] by blast

lemma opt_param_get_all: "n \<notin> set ns \<Longrightarrow> hdr_get_all (opt_param ns v) n = []"
  by (auto simp: hdr_get_all_def opt_param_def filter_empty_conv split: option.split)

lemma own_params:
  assumes "\<not> starts_with ''HTTP_'' n" "n \<notin> {''SERVER_NAME'', ''CONTENT_TYPE'', ''CONTENT_LENGTH''}"
  shows "hdr_get_all (fcgi_params env f) n = hdr_get_all (fcgi_params env (f\<lparr>fq_req := (fq_req f)\<lparr>rq_headers := []\<rparr>\<rparr>)) n"
proof -
  obtain own where own: "build_params (pe_vis env) (rq_method (fq_req f)) (path_and_query_or_root (rq_uri (fq_req f))) hs
      (fq_root f) (fq_script f) (fq_path_info f) (fq_https f) (fq_peer f) (fq_server f) (fq_login f) = own
     @ opt_param [''SERVER_NAME'', ''HTTP_HOST''] (hdr_str (pe_vis env) hs ''host'')
     @ opt_param [''CONTENT_TYPE''] (hdr_str (pe_vis env) hs ''content-type'')
     @ opt_param [''CONTENT_LENGTH''] (hdr_str (pe_vis env) hs ''content-length'')
     @ map (\<lambda>(name, v). (http_param_name name, v))
         (filter (\<lambda>(name, _). name \<notin> {''host'', ''content-type'', ''content-length''}) hs)" for hs
    using build_params_split by metis
  have "n \<noteq> ''HTTP_HOST''" using assms(1) by (auto simp: starts_with_iff)
  with assms show ?thesis
    by (simp add: fcgi_params_def own hdr_get_all_append opt_param_get_all hdr_get_all_headers)
qed


section \<open>Examples\<close>

text \<open>A router with one site, a disk with two files of it, and an environment over them.\<close>

definition demo_router :: "bool \<Rightarrow> site_router" where
  "demo_router secure = snd (insert_site (set_site_secure secure (new_site Parked ''a'' ''/a'' (PhpVersion 8 3)))
     (router_new config_default))"

definition site_disk :: disk where
  "site_disk = \<lparr>dk_canonicalize = Some,
     dk_metadata = (\<lambda>p. if p = ''/a/x.css'' then Some (RegularFile, 1)
       else if p = ''/a/wp-admin/index.php'' then Some (RegularFile, 5)
       else if p \<in> {''/a'', ''/a/wp-admin''} then Some (Directory, 0) else None),
     dk_read = (\<lambda>p. if p = ''/a/x.css'' then Some ''!'' else None)\<rparr>"

definition site_env :: "string set proxy_env" where
  "site_env = \<lparr>pe_vis = (\<lambda>_. True),
     pe_parse_uri = (\<lambda>s. Some \<lparr>uri_path = fst (split_path_query s), uri_query = query_of s, uri_pq = Some s\<rparr>),
     pe_disk = site_disk, pe_backend_for = (\<lambda>_. Ok (PhpFpm ''/run/php'')), pe_direct_scripts = (\<lambda>_. True),
     pe_consume = (\<lambda>site token ts. (if token \<in> ts then Some ''admin'' else None, ts - {token})),
     pe_prepend_script = Some ''/p.php'', pe_symlink_protection = True\<rparr>"

definition demo_request :: "string \<Rightarrow> string \<Rightarrow> headers \<Rightarrow> http_request" where
  "demo_request host pq hs = \<lparr>rq_method = ''GET'',
     rq_uri = \<lparr>uri_path = fst (split_path_query pq), uri_query = query_of pq, uri_pq = Some pq\<rparr>,
     rq_headers = (''host'', host) # hs\<rparr>"

abbreviation demo_addr :: socket_addr where
  "demo_addr \<equiv> \<lparr>sa_ip = V4 127 0 0 1, sa_port = 80\<rparr>"

lemma demo_site:
  "hdr_str (pe_vis site_env) (rq_headers (demo_request ''a.test'' pq hs)) ''host'' = Some ''a.test''"
  by (simp add: hdr_str_def hdr_get_def demo_request_def site_env_def)


theorem login_token_use_witness:
  "\<exists>f. dispatch_request site_env (demo_router False) HttpListener (Some 443) demo_addr demo_addr
       (demo_request ''a.test'' ''/wp-admin/?yerd_login_token=ab&x=1'' []) {''ab''} = (Ok (ForwardFcgi f), {})
     \<and> fq_login f = Some \<lparr>al_prepend_script = ''/p.php'', al_target_user = ''admin''\<rparr>
     \<and> get_param (uri_query (rq_uri (fq_req f))) ''x'' = Some ''1''"
proof -
  let ?s = "new_site Parked ''a'' ''/a'' (PhpVersion 8 3)"
    and ?req = "demo_request ''a.test'' ''/wp-admin/?yerd_login_token=ab&x=1'' []"
  let ?f = "\<lparr>fq_req = demo_request ''a.test'' ''/wp-admin/?x=1'' [], fq_backend = PhpFpm ''/run/php'', fq_root = ''/a'',
    fq_script = Some ''wp-admin/index.php'', fq_path_info = None, fq_server = demo_addr, fq_peer = demo_addr,
    fq_https = False, fq_login = Some \<lparr>al_prepend_script = ''/p.php'', al_target_user = ''admin''\<rparr>\<rparr>"
  have s: "resolve_request site_env (demo_router False) ?req ''a.test'' = Ok (RSite ?s False None None)" by code_simp
  have d: "dispatch_request site_env (demo_router False) HttpListener (Some 443) demo_addr demo_addr ?req {''ab''}
      = (Ok (ForwardFcgi ?f), {})" by code_simp
  have q: "pe_parse_uri site_env x = Some u \<Longrightarrow> uri_query u = query_of x" for x u
    by (auto simp: site_env_def)
  have u: "uri_query (rq_uri ?req) = query_of (path_and_query_or_root (rq_uri ?req))" by code_simp
  have n: "pe_parse_uri site_env (strip_param (path_and_query_or_root (rq_uri ?req)) LOGIN_TOKEN_PARAM) \<noteq> None"
    by (simp add: site_env_def)
  have t: "spend_token site_env ?s ?req {''ab''} = (Some ''admin'', {})" by code_simp
  have "LOGIN_TOKEN_PARAM \<noteq> ''x''" "get_param (uri_query (rq_uri ?req)) ''x'' = Some ''1''" by code_simp+
  with login_token_use [OF demo_site s d q u n t] d show ?thesis
    by (intro exI [of _ ?f]) auto
qed



definition demo_proxy_router :: site_router where
  "demo_proxy_router = snd (insert_proxy \<lparr>ps_name = ''b'', ps_target = \<lparr>up_secure = False, up_host = ''127.0.0.1'', up_port = 81\<rparr>,
     ps_secure = False\<rparr> (router_new config_default))"

abbreviation demo_forwarded :: "headers \<Rightarrow> http_request" where
  "demo_forwarded hs \<equiv> upstream_request site_env (demo_request ''b.test'' ''/'' hs) demo_addr False ''b.test''"

theorem upstream_not_forged_witness:
  "fst (dispatch_request site_env demo_proxy_router HttpListener None demo_addr demo_addr
       (demo_request ''b.test'' ''/'' [(''x-forwarded-for'', ''8.8.8.8'')]) {}) =
     Ok (ForwardUpstream (demo_forwarded [(''x-forwarded-for'', ''8.8.8.8'')])
       \<lparr>up_secure = False, up_host = ''127.0.0.1'', up_port = 81\<rparr> ''test'')
   \<and> hdr_get_all (rq_headers (demo_forwarded [(''x-forwarded-for'', ''8.8.8.8'')])) ''x-forwarded-for'' = [''127.0.0.1'']"
proof -
  let ?hs = "[(''x-forwarded-for'', ''8.8.8.8'')]"
  have h: "hdr_str (pe_vis site_env) (rq_headers (demo_request ''b.test'' ''/'' ?hs)) ''host'' = Some ''b.test''" by code_simp
  have d: "dispatch_request site_env demo_proxy_router HttpListener None demo_addr demo_addr (demo_request ''b.test'' ''/'' ?hs) {}
      = (Ok (ForwardUpstream (demo_forwarded ?hs) \<lparr>up_secure = False, up_host = ''127.0.0.1'', up_port = 81\<rparr> ''test''), {})"
    by code_simp
  have v: "list_all (pe_vis site_env) [show_ip (sa_ip demo_addr), ''b.test'', ''http'', ''https'']" by (simp add: site_env_def)
  have "\<not> list_ex (\<lambda>t. eq_ignore_ascii_case t ''x-forwarded-for'')
      (conn_tokens (pe_vis site_env) (rq_headers (demo_request ''b.test'' ''/'' ?hs)))"
    "show_ip (sa_ip demo_addr) = ''127.0.0.1''"
    by code_simp+
  with upstream_not_forged [OF h d v, of "''x-forwarded-for''" "show_ip (sa_ip demo_addr)"] d show ?thesis by simp
qed

text \<open>A client can leave an upstream without the address: naming the header in \<open>Connection\<close> removes it.\<close>

lemma forwarded_for_suppressed:
  "hdr_get_all (rq_headers (demo_forwarded [(''connection'', ''X-Forwarded-For'')])) ''x-forwarded-for'' = []"
  by code_simp

text \<open>
  The trailing-slash redirect keeps a doubled leading slash, so the browser reads the name of a
  directory of the site as a host: this redirect is not confined as the unbound ones are.
\<close>

lemma slash_redirect_leaves_origin:
  "fst (dispatch_request site_env (demo_router False) HttpListener None demo_addr demo_addr
       (demo_request ''a.test'' ''//wp-admin'' []) {}) =
     Ok (Respond \<lparr>hr_status = 301, hr_headers = [(''location'', ''//wp-admin/''), no_store], hr_body = []\<rparr>)
   \<and> \<not> same_origin ''//wp-admin/''"
proof -
  have "\<not> same_origin ''//wp-admin/''" by (simp add: same_origin_def)
  moreover have "fst (dispatch_request site_env (demo_router False) HttpListener None demo_addr demo_addr
       (demo_request ''a.test'' ''//wp-admin'' []) {}) =
     Ok (Respond \<lparr>hr_status = 301, hr_headers = [(''location'', ''//wp-admin/''), no_store], hr_body = []\<rparr>)"
    by code_simp
  ultimately show ?thesis by simp
qed


end
