(* ===== verification/Login_Tokens.thy ===== *)
theory Login_Tokens
  imports Proxy_Safety
begin

text \<open>
  The store of one-click login tokens, \<open>bin/yerdd/src/wordpress_login.rs\<close>. Time is a number of
  milliseconds; the random bytes of a token are an argument of minting.
\<close>

section \<open>The registry\<close>

record login_token =
  lt_site :: string
  lt_user :: string
  lt_expires_at :: nat

type_synonym login_tokens = "(string, login_token) hash_map"

definition TOKEN_TTL :: nat where
  "TOKEN_TTL = 30000"

definition TOKEN_BYTES :: nat where
  "TOKEN_BYTES = 32"

definition tokens_new :: login_tokens where
  "tokens_new = hm_empty"

text \<open>\<open>hex::encode\<close>.\<close>

definition hex_encode :: "string \<Rightarrow> string" where
  "hex_encode bs = concat (map (\<lambda>b. [hex_char (code b div 16), hex_char (code b mod 16)]) bs)"

definition tokens_retain :: "nat \<Rightarrow> login_tokens \<Rightarrow> login_tokens" where
  "tokens_retain now m = (\<lambda>t. case m t of Some e \<Rightarrow> (if lt_expires_at e > now then Some e else None) | None \<Rightarrow> None)"

definition mint :: "string \<Rightarrow> nat \<Rightarrow> string \<Rightarrow> string option \<Rightarrow> login_tokens \<Rightarrow> string \<times> login_tokens" where
  "mint bytes now site target_user m =
     (let token = hex_encode bytes
      in (token, hm_insert token \<lparr>lt_site = site, lt_user = (case target_user of Some u \<Rightarrow> u | None \<Rightarrow> []),
            lt_expires_at = now + TOKEN_TTL\<rparr> (tokens_retain now m)))"

definition consume :: "nat \<Rightarrow> string \<Rightarrow> string \<Rightarrow> login_tokens \<Rightarrow> string option \<times> login_tokens" where
  "consume now site token m =
     (case hm_get m token of
        None \<Rightarrow> (None, m)
      | Some e \<Rightarrow>
          (if lt_expires_at e > now \<and> lt_site e = site then Some (lt_user e) else None, hm_remove token m))"

section \<open>Minting\<close>

datatype mint_response = MintNotFound string | MintedToken string

definition mint_wordpress_login_token ::
  "site_router \<Rightarrow> (string, bool) hash_map \<Rightarrow> path option \<Rightarrow> string \<Rightarrow> nat \<Rightarrow> string \<Rightarrow> login_tokens
     \<Rightarrow> mint_response \<times> login_tokens" where
  \<open>mint_wordpress_login_token r wordpress_sites prepend_script bytes now site m =
     (case router_get r site of
        None \<Rightarrow> (MintNotFound (''no site named "'' @ site @ ''"''), m)
      | Some s \<Rightarrow>
          if hm_get wordpress_sites site \<noteq> Some True
          then (MintNotFound (''"'' @ site @ ''" is not a WordPress site''), m)
          else if \<not> wp_auto_login s
          then (MintNotFound (''WordPress auto-login is not enabled for "'' @ site @ ''"''), m)
          else if prepend_script = None
          then (MintNotFound ''WordPress one-click login is unavailable this boot'', m)
          else (case mint bytes now site (wp_auto_login_user s) m of (token, m') \<Rightarrow> (MintedToken token, m')))\<close>

text \<open>\<open>DaemonBackendResolver::allows_direct_script_execution\<close>.\<close>

definition allows_direct_script_execution :: "(string, bool) hash_map \<Rightarrow> site \<Rightarrow> bool" where
  "allows_direct_script_execution wordpress_sites s \<longleftrightarrow>
     \<not> uses_front_controller s (hm_get wordpress_sites (site_name s) = Some True)"

text \<open>The environment the daemon gives the proxy at a moment.\<close>

definition daemon_env :: "login_tokens proxy_env \<Rightarrow> (string, bool) hash_map \<Rightarrow> nat \<Rightarrow> login_tokens proxy_env" where
  "daemon_env base wordpress_sites now =
     base\<lparr>pe_consume := consume now, pe_direct_scripts := allows_direct_script_execution wordpress_sites\<rparr>"

section \<open>Runs\<close>

text \<open>A run mints tokens and serves requests, in any order and at any times.\<close>

record request_event =
  re_router :: site_router
  re_listener :: listener
  re_port :: "nat option"
  re_server :: socket_addr
  re_peer :: socket_addr
  re_req :: http_request

definition serve_event :: "'tok proxy_env \<Rightarrow> request_event \<Rightarrow> 'tok \<Rightarrow> outcome \<times> 'tok" where
  "serve_event env e = handle_request env (re_router e) (re_listener e) (re_port e) (re_server e) (re_peer e) (re_req e)"

definition logged_in :: "outcome \<Rightarrow> bool" where
  "logged_in out \<longleftrightarrow> (case out of ForwardFcgi f \<Rightarrow> fq_login f \<noteq> None | _ \<Rightarrow> False)"

datatype token_event = EvMint string nat string "string option" | EvServe nat request_event

text \<open>How often a run logs a request in with a token, and how often it mints that token.\<close>

fun logins :: "(nat \<Rightarrow> 'tok proxy_env) \<Rightarrow> (string \<Rightarrow> nat \<Rightarrow> string \<Rightarrow> string option \<Rightarrow> 'tok \<Rightarrow> string \<times> 'tok)
    \<Rightarrow> string \<Rightarrow> token_event list \<Rightarrow> 'tok \<Rightarrow> nat" where
  "logins env mnt t [] tok = 0"
| "logins env mnt t (EvMint bytes now site user # es) tok = logins env mnt t es (snd (mnt bytes now site user tok))"
| "logins env mnt t (EvServe now e # es) tok =
     (case serve_event (env now) e tok of (out, tok') \<Rightarrow>
        (if logged_in out \<and> presented_token (re_req e) = Some t then 1 else 0) + logins env mnt t es tok')"

definition mints :: "string \<Rightarrow> token_event list \<Rightarrow> nat" where
  "mints t es = length (filter (\<lambda>e. case e of EvMint bytes _ _ _ \<Rightarrow> hex_encode bytes = t | EvServe _ _ \<Rightarrow> False) es)"

text \<open>
  The contract of \<open>LoginTokenConsumer\<close>: a token that names a user was held, and presenting a token
  removes it and no other.
\<close>

locale login_store =
  fixes consume' :: "nat \<Rightarrow> string \<Rightarrow> string \<Rightarrow> 'tok \<Rightarrow> string option \<times> 'tok"
    and mint' :: "string \<Rightarrow> nat \<Rightarrow> string \<Rightarrow> string option \<Rightarrow> 'tok \<Rightarrow> string \<times> 'tok"
    and held :: "string \<Rightarrow> 'tok \<Rightarrow> bool"
  assumes consume_held: "fst (consume' now site t tok) = Some u \<Longrightarrow> held t tok"
    and consume_removes: "held t' (snd (consume' now site t tok)) \<Longrightarrow> held t' tok \<and> t' \<noteq> t"
    and mint_holds: "held t (snd (mint' bytes now site user tok)) \<Longrightarrow> t = hex_encode bytes \<or> held t tok"
begin

lemma serve_event_spends:
  assumes "pe_consume env = consume' now" "serve_event env e tok = (out, tok')"
  shows "held t tok' \<Longrightarrow> held t tok"
    "logged_in out \<and> presented_token (re_req e) = Some t \<Longrightarrow> held t tok \<and> \<not> held t tok'"
proof -
  let ?req = "re_req e"
  have "(tok' = tok \<and> \<not> logged_in out) \<or> (\<exists>s f user spent. spend_token env s ?req tok = (user, spent) \<and> tok' = spent
      \<and> out = ForwardFcgi f \<and> (fq_login f \<noteq> None \<longrightarrow> user \<noteq> None))"
  proof (cases "\<exists>host s unbound matched rt. hdr_str (pe_vis env) (rq_headers ?req) ''host'' = Some host
      \<and> resolve_request env (re_router e) ?req host = Ok (RSite s unbound matched rt)")
    case True
    then obtain host s unbound matched rt where h: "hdr_str (pe_vis env) (rq_headers ?req) ''host'' = Some host"
      and s: "resolve_request env (re_router e) ?req host = Ok (RSite s unbound matched rt)" by blast
    obtain res where d: "dispatch_request env (re_router e) (re_listener e) (re_port e) (re_server e) (re_peer e) ?req tok
        = (res, tok')"
      using assms(2) by (auto simp: serve_event_def handle_request_def split: prod.splits result.splits)
    show ?thesis
    proof (cases res)
      case (Err x)
      with d assms(2) have "out = Respond internal_error_response"
        by (simp add: serve_event_def handle_request_def)
      moreover have "tok' = tok" using d Err site_error_token [OF h s] by simp
      ultimately show ?thesis by (simp add: logged_in_def)
    next
      case (Ok out')
      with d assms(2) have out: "out' = out" by (simp add: serve_event_def handle_request_def)
      obtain user spent where sp: "spend_token env s ?req tok = (user, spent)" by fastforce
      from h s d [unfolded Ok out] show ?thesis
      proof (cases rule: site_outcome_token)
        case kept
        then show ?thesis by (cases out) (auto simp: logged_in_def)
      next
        case (forwarded f bk target)
        with forward_fcgi_token [OF forwarded(2) sp] sp show ?thesis by (auto split: option.splits)
      qed
    qed
  next
    case False
    with assms(2) show ?thesis
      by (auto simp: serve_event_def handle_request_def dispatch_request_def Let_def redirect_or_def logged_in_def
          split: option.splits result.splits routed.splits if_splits prod.splits)
  qed
  then show "held t tok' \<Longrightarrow> held t tok"
    "logged_in out \<and> presented_token (re_req e) = Some t \<Longrightarrow> held t tok \<and> \<not> held t tok'"
    using consume_held [of now _ t tok] consume_removes [of _ now _ _ tok] assms(1)
    by (auto simp: spend_token_def logged_in_def split: option.splits) (metis fst_conv snd_conv)+
qed

lemma logins_bounded:
  assumes "\<And>now. pe_consume (env now) = consume' now"
  shows "logins env mint' t es tok \<le> mints t es + (if held t tok then 1 else 0)"
proof (induction es arbitrary: tok)
  case (Cons e es)
  show ?case
  proof (cases e)
    case (EvMint bytes now site user)
    with Cons [of "snd (mint' bytes now site user tok)"] mint_holds [of t bytes now site user tok] show ?thesis
      by (auto simp: mints_def split: if_splits)
  next
    case (EvServe now ev)
    obtain out tok' where o: "serve_event (env now) ev tok = (out, tok')" by fastforce
    from Cons [of tok'] serve_event_spends [OF assms o, of t] EvServe o show ?thesis
      by (auto simp: mints_def split: if_splits)
  qed
qed simp

end

lemma daemon_env_resolve:
  "pe_vis (daemon_env base wp now) = pe_vis base"
  "resolve_request (daemon_env base wp now) r req host = resolve_request base r req host"
proof -
  let ?env = "daemon_env base wp now"
  show vis: "pe_vis ?env = pe_vis base" by (simp add: daemon_env_def)
  have eqs: "switch_response ?env = switch_response base" "picker_response ?env = picker_response base"
    "unbound_not_found ?env = unbound_not_found base" "clear_response ?env = clear_response base"
    by (simp_all add: fun_eq_iff switch_response_def picker_response_def with_clear_def unbound_not_found_def
        clear_response_def vis)
  show "resolve_request ?env r req host = resolve_request base r req host"
    unfolding resolve_request_def vis eqs by (rule refl)
qed

text \<open>The daemon's registry keeps the contract.\<close>

interpretation registry: login_store consume mint "\<lambda>t m. m t \<noteq> None"
  by unfold_locales
    (auto simp: consume_def mint_def tokens_retain_def hm_get_def hm_remove_def hm_insert_def Let_def
      split: option.splits if_splits)

text \<open>
  C7: Over any run of mints and requests, a token logs in no more requests than it was minted, so a
  token minted once logs in at most once; and a request is logged in only with a token that the store
  holds for the very site it reaches and that has not expired, as the user it was minted for.
\<close>

theorem login_once:
  "logins (daemon_env base wordpress_sites) mint t es tokens_new \<le> mints t es
   \<and> (hdr_str (pe_vis base) (rq_headers req) ''host'' = Some host
       \<and> resolve_request base r req host = Ok (RSite s unbound matched rt)
       \<and> dispatch_request (daemon_env base wordpress_sites now) r lst port server peer req m = (Ok (ForwardFcgi f), m')
       \<and> fq_login f = Some login \<longrightarrow>
      (\<exists>token e. presented_token req = Some token \<and> m token = Some e \<and> now < lt_expires_at e
         \<and> lt_site e = site_name s \<and> al_target_user login = lt_user e \<and> m' token = None))"
proof -
  have "logins (daemon_env base wordpress_sites) mint t es tokens_new \<le> mints t es"
    using registry.logins_bounded [of "daemon_env base wordpress_sites" t es tokens_new]
    by (simp add: daemon_env_def tokens_new_def hm_empty_def)
  moreover have "\<exists>token e. presented_token req = Some token \<and> m token = Some e \<and> now < lt_expires_at e
         \<and> lt_site e = site_name s \<and> al_target_user login = lt_user e \<and> m' token = None"
    if h: "hdr_str (pe_vis base) (rq_headers req) ''host'' = Some host"
      and rr: "resolve_request base r req host = Ok (RSite s unbound matched rt)"
      and d: "dispatch_request (daemon_env base wordpress_sites now) r lst port server peer req m = (Ok (ForwardFcgi f), m')"
      and l: "fq_login f = Some login"
  proof -
    let ?env = "daemon_env base wordpress_sites now"
    have h': "hdr_str (pe_vis ?env) (rq_headers req) ''host'' = Some host"
      and r': "resolve_request ?env r req host = Ok (RSite s unbound matched rt)"
      using h rr by (simp_all add: daemon_env_resolve)
    obtain user spent where sp: "spend_token ?env s req m = (user, spent)" by fastforce
    from h' r' d show ?thesis
    proof (cases rule: site_outcome_token)
      case (forwarded g bk target)
      with forward_fcgi_token [OF forwarded(2) sp] l sp show ?thesis
        by (auto simp: spend_token_def daemon_env_def consume_def hm_get_def hm_remove_def
            split: option.splits if_splits)
    qed auto
  qed
  ultimately show ?thesis by blast
qed

text \<open>A token minted at 0 for the site \<open>a\<close>, presented there twice a second later.\<close>

definition demo_base :: "login_tokens proxy_env" where
  "demo_base = \<lparr>pe_vis = pe_vis site_env, pe_parse_uri = pe_parse_uri site_env, pe_disk = site_disk,
     pe_backend_for = pe_backend_for site_env, pe_direct_scripts = (\<lambda>_. True), pe_consume = consume 0,
     pe_prepend_script = Some ''/p.php'', pe_symlink_protection = True\<rparr>"

abbreviation demo_login :: http_request where
  "demo_login \<equiv> demo_request ''a.test'' ''/wp-admin/?yerd_login_token=6162&x=1'' []"

abbreviation demo_event :: request_event where
  "demo_event \<equiv> \<lparr>re_router = demo_router False, re_listener = HttpListener, re_port = None, re_server = demo_addr,
     re_peer = demo_addr, re_req = demo_login\<rparr>"

theorem login_once_witness:
  "logins (daemon_env demo_base hm_empty) mint ''6162''
       [EvMint ''ab'' 0 ''a'' (Some ''bob''), EvServe 1000 demo_event, EvServe 1000 demo_event] tokens_new \<le> 1
   \<and> (\<exists>f m'. dispatch_request (daemon_env demo_base hm_empty 1000) (demo_router False) HttpListener None demo_addr demo_addr
           demo_login (snd (mint ''ab'' 0 ''a'' (Some ''bob'') tokens_new)) = (Ok (ForwardFcgi f), m')
         \<and> (\<exists>login. fq_login f = Some login \<and> al_target_user login = ''bob'') \<and> m' ''6162'' = None)"
proof -
  let ?m = "snd (mint ''ab'' 0 ''a'' (Some ''bob'') tokens_new)" and ?s = "new_site Parked ''a'' ''/a'' (PhpVersion 8 3)"
  let ?es = "[EvMint ''ab'' 0 ''a'' (Some ''bob''), EvServe 1000 demo_event, EvServe 1000 demo_event]"
  let ?d = "dispatch_request (daemon_env demo_base hm_empty 1000) (demo_router False) HttpListener None demo_addr demo_addr
    demo_login ?m"
  let ?login = "\<lparr>al_prepend_script = ''/p.php'', al_target_user = ''bob''\<rparr>"
  let ?f = "\<lparr>fq_req = demo_request ''a.test'' ''/wp-admin/?x=1'' [], fq_backend = PhpFpm ''/run/php'', fq_root = ''/a'',
    fq_script = Some ''wp-admin/index.php'', fq_path_info = None, fq_server = demo_addr, fq_peer = demo_addr,
    fq_https = False, fq_login = Some ?login\<rparr>"
  have "mints ''6162'' ?es = 1" by code_simp
  moreover have "fst ?d = Ok (ForwardFcgi ?f)" by code_simp
  then obtain m' where d: "?d = (Ok (ForwardFcgi ?f), m')" by (cases ?d) simp
  have "hdr_str (pe_vis demo_base) (rq_headers demo_login) ''host'' = Some ''a.test''"
    and "resolve_request demo_base (demo_router False) demo_login ''a.test'' = Ok (RSite ?s False None None)"
    and p: "presented_token demo_login = Some ''6162''"
    by code_simp+
  moreover have "fq_login ?f = Some ?login" by simp
  ultimately show ?thesis
    using login_once [of demo_base hm_empty "''6162''" ?es demo_login "''a.test''" "demo_router False" ?s False None None
        1000 HttpListener None demo_addr demo_addr ?m ?f m' ?login] d
    by (intro conjI exI [of _ ?f] exI [of _ m'] exI [of _ ?login]) auto
qed

end
