(* ===== verification/Jobs.thy ===== *)
theory Jobs
  imports Rust_Map Rust_Str "HOL-Library.Word"
begin

text \<open>
  The registry of background jobs, \<open>bin/yerdd/src/jobs.rs\<close>, with the escape filter of \<open>ansi.rs\<close> that
  every log line goes through. A client follows a job by polling with a cursor; the log keeps its
  last lines only and finished jobs are forgotten, oldest first.
\<close>

section \<open>Escape sequences\<close>

text \<open>A Rust \<open>String\<close> as its \<open>chars()\<close>: scalar values.\<close>

type_synonym scalars = "nat list"

abbreviation ESC :: nat where "ESC \<equiv> 0x1B"
abbreviation BEL :: nat where "BEL \<equiv> 7"

text \<open>The parameter, intermediate and final bytes of a control sequence.\<close>

definition skip_csi :: "scalars \<Rightarrow> scalars" where
  "skip_csi cs =
     (let r = dropWhile (\<lambda>c. 0x20 \<le> c \<and> c \<le> 0x2F) (dropWhile (\<lambda>c. 0x30 \<le> c \<and> c \<le> 0x3F) cs)
      in case r of c # r' \<Rightarrow> (if 0x40 \<le> c \<and> c \<le> 0x7E then r' else r) | [] \<Rightarrow> [])"

fun skip_string :: "scalars \<Rightarrow> scalars" where
  "skip_string [] = []"
| "skip_string (c # cs) =
     (if c = BEL then cs
      else if c = ESC \<and> (case cs of d # _ \<Rightarrow> d = 0x5C | [] \<Rightarrow> False) then tl cs
      else skip_string cs)"

lemma skip_csi_length: "length (skip_csi cs) \<le> length cs"
proof -
  let ?p = "\<lambda>c::nat. 0x30 \<le> c \<and> c \<le> 0x3F" and ?q = "\<lambda>c::nat. 0x20 \<le> c \<and> c \<le> 0x2F"
  have "length (dropWhile ?q (dropWhile ?p cs)) \<le> length cs"
    by (meson length_dropWhile_le order_trans)
  then show ?thesis
    by (auto simp: skip_csi_def Let_def split: list.split)
qed

lemma skip_string_length: "length (skip_string cs) \<le> length cs"
proof (induction cs)
  case (Cons c cs)
  then show ?case by (cases cs) (auto simp: le_SucI)
qed simp

function strip_ansi :: "scalars \<Rightarrow> scalars" where
  "strip_ansi [] = []"
| "strip_ansi [c] = (if c \<noteq> ESC then [c] else [])"
| "strip_ansi (c # d # cs) =
     (if c \<noteq> ESC then c # strip_ansi (d # cs)
      else if d = 0x5B then strip_ansi (skip_csi cs)
      else if d \<in> {0x5D, 0x50, 0x58, 0x5E, 0x5F} then strip_ansi (skip_string cs)
      else strip_ansi cs)"
  by pat_completeness auto
termination
  by (relation "measure length") (auto simp: less_Suc_eq_le skip_csi_length skip_string_length le_SucI)

lemma strip_ansi_clean: "ESC \<notin> set (strip_ansi cs)"
  by (induction cs rule: strip_ansi.induct) auto

lemma strip_ansi_plain: "ESC \<notin> set cs \<Longrightarrow> strip_ansi cs = cs"
  by (induction cs rule: strip_ansi.induct) auto

section \<open>The registry\<close>

datatype job_state = JobRunning | JobSucceeded | JobFailed | JobCancelled

record job =
  j_state :: job_state
  j_phase :: string
  j_log :: "scalars list"
  j_dropped :: nat
  j_error :: "string option"
  j_cancel :: bool

type_synonym job_map = "(string, job) btree_map"

record job_registry =
  jr_map :: job_map
  jr_next :: "64 word"

datatype job_response = JobProgress job_state string "scalars list" nat "string option"
  | JobOk | JobUnknown string

definition LOG_CAP :: nat where
  "LOG_CAP = 5000"

definition TERMINAL_CAP :: nat where
  "TERMINAL_CAP = 64"

definition is_terminal :: "job \<Rightarrow> bool" where
  "is_terminal j \<longleftrightarrow> j_state j \<noteq> JobRunning"

definition id_suffix :: "string \<Rightarrow> nat" where
  "id_suffix i = (case parse_uint (2 ^ 64 - 1) (last (split_on (CHR ''-'') i)) of Some n \<Rightarrow> n | None \<Rightarrow> 0)"

text \<open>
  The map iterates in no fixed order; the victims are sorted by the number of their id, so the order
  of iteration has no effect.
\<close>

definition prune_terminal :: "job_map \<Rightarrow> job_map" where
  "prune_terminal m =
     (let terminal = length (filter is_terminal (bt_values m))
      in if terminal \<le> TERMINAL_CAP then m
         else (let victims = sort_key id_suffix (map fst (filter (\<lambda>(_, j). is_terminal j) m))
               in fold bt_remove (take (terminal - TERMINAL_CAP) victims) m))"

definition job_id :: "64 word \<Rightarrow> string" where
  "job_id n = ''job-'' @ show_nat (unat n)"

definition job_create :: "job_registry \<Rightarrow> string \<times> job_registry" where
  "job_create r =
     (let i = job_id (jr_next r)
      in (i, r\<lparr>jr_next := jr_next r + 1,
               jr_map := bt_insert i \<lparr>j_state = JobRunning, j_phase = ''Starting'', j_log = [], j_dropped = 0,
                 j_error = None, j_cancel = False\<rparr> (prune_terminal (jr_map r))\<rparr>))"

definition with_job :: "string \<Rightarrow> (job \<Rightarrow> job) \<Rightarrow> job_registry \<Rightarrow> job_registry" where
  "with_job i f r =
     (case bt_get (jr_map r) i of Some j \<Rightarrow> r\<lparr>jr_map := bt_insert i (f j) (jr_map r)\<rparr> | None \<Rightarrow> r)"

definition append_log :: "scalars \<Rightarrow> job \<Rightarrow> job" where
  "append_log line j =
     (let lg = j_log j @ [line]
      in if length lg > LOG_CAP
         then (let over = length lg - LOG_CAP in j\<lparr>j_log := drop over lg, j_dropped := j_dropped j + over\<rparr>)
         else j\<lparr>j_log := lg\<rparr>)"

definition push_log :: "string \<Rightarrow> scalars \<Rightarrow> job_registry \<Rightarrow> job_registry" where
  "push_log i line r =
     (let line' = strip_ansi line in if line' = [] then r else with_job i (append_log line') r)"

definition set_phase :: "string \<Rightarrow> string \<Rightarrow> job_registry \<Rightarrow> job_registry" where
  "set_phase i ph = with_job i (\<lambda>j. j\<lparr>j_phase := ph\<rparr>)"

definition job_finish :: "string \<Rightarrow> job_state \<Rightarrow> string option \<Rightarrow> job_registry \<Rightarrow> job_registry" where
  "job_finish i st err = with_job i (\<lambda>j. j\<lparr>j_state := st, j_error := err\<rparr>)"

definition job_poll :: "string \<Rightarrow> nat \<Rightarrow> job_registry \<Rightarrow> job_response" where
  "job_poll i cursor r =
     (case bt_get (jr_map r) i of
        None \<Rightarrow> JobUnknown i
      | Some j \<Rightarrow>
          (let total = j_dropped j + length (j_log j);
               start = min (cursor - j_dropped j) (length (j_log j))
           in JobProgress (j_state j) (j_phase j) (drop start (j_log j)) total (j_error j)))"

definition job_cancel :: "string \<Rightarrow> job_registry \<Rightarrow> job_response \<times> job_registry" where
  "job_cancel i r =
     (case bt_get (jr_map r) i of
        None \<Rightarrow> (JobUnknown i, r)
      | Some j \<Rightarrow> (JobOk, r\<lparr>jr_map := bt_insert i (j\<lparr>j_cancel := True\<rparr>) (jr_map r)\<rparr>))"

section \<open>The registry's invariant\<close>

lemma job_id_inj: "job_id m = job_id n \<longleftrightarrow> m = n"
  by (metis digits_val_show_nat job_id_def same_append_eq word_unat_eq_iff)

lemma id_suffix_job_id: "id_suffix (job_id n) = unat n"
proof -
  have "CHR ''-'' \<notin> set (show_nat k)" for k
    using show_nat_digits [of k] by (auto simp: list_all_iff is_ascii_digit_def)
  then have "split_on (CHR ''-'') (show_nat k) = [show_nat k]" for k
    by (rule split_on_notin)
  moreover have "unat n \<le> 2 ^ 64 - 1"
    using unsigned_less [of n, where ?'a = nat] by simp
  ultimately show ?thesis
    by (simp add: id_suffix_def job_id_def split_on_append_sep [where a = "''job''", simplified] parse_uint_show_nat)
qed

text \<open>Ids are in key order distinct, below the counter, and no log is over its cap.\<close>

definition jobs_inv :: "job_registry \<Rightarrow> bool" where
  "jobs_inv r \<longleftrightarrow> bt_inv (jr_map r)
     \<and> (\<forall>(i, j) \<in> set (jr_map r). (\<exists>n. i = job_id n \<and> unat n < unat (jr_next r)) \<and> length (j_log j) \<le> LOG_CAP)"

lemma bt_get_fold_remove: "bt_get (fold bt_remove is m) k = (if k \<in> set is then None else bt_get m k)"
  by (induction "is" arbitrary: m) auto

lemma bt_inv_fold_remove: "bt_inv m \<Longrightarrow> bt_inv (fold bt_remove is m)"
  by (induction "is" arbitrary: m) auto

lemma prune_inv: "bt_inv m \<Longrightarrow> bt_inv (prune_terminal m)"
  by (simp add: prune_terminal_def Let_def bt_inv_fold_remove)

lemma prune_get:
  "bt_get (prune_terminal m) k = Some j \<Longrightarrow> bt_get m k = Some j"
  by (auto simp: prune_terminal_def Let_def bt_get_fold_remove split: if_splits)

text \<open>A running job is never pruned.\<close>

lemma prune_keeps_running:
  assumes "bt_inv m" "bt_get m k = Some j" "\<not> is_terminal j"
  shows "bt_get (prune_terminal m) k = Some j"
proof -
  have "k \<notin> set (map fst (filter (\<lambda>(_, j). is_terminal j) m))"
  proof
    assume "k \<in> set (map fst (filter (\<lambda>(_, j). is_terminal j) m))"
    then obtain j' where "bt_get m k = Some j'" "is_terminal j'"
      using bt_get_in_set [OF assms(1)] by auto
    with assms(2,3) show False by simp
  qed
  then show ?thesis
    using assms(2) by (auto simp: prune_terminal_def Let_def bt_get_fold_remove dest: in_set_takeD)
qed

lemma jobs_inv_get:
  "jobs_inv r \<longleftrightarrow> bt_inv (jr_map r)
     \<and> (\<forall>i j. bt_get (jr_map r) i = Some j \<longrightarrow> (\<exists>n. i = job_id n \<and> unat n < unat (jr_next r)) \<and> length (j_log j) \<le> LOG_CAP)"
  using bt_get_in_set [of "jr_map r"] by (fastforce simp: jobs_inv_def)

lemma with_job_inv:
  assumes "jobs_inv r" "\<And>j. length (j_log j) \<le> LOG_CAP \<Longrightarrow> length (j_log (f j)) \<le> LOG_CAP"
  shows "jobs_inv (with_job i f r)"
  using assms by (auto simp: jobs_inv_get with_job_def split: option.split)

lemma append_log_cap: "length (j_log j) \<le> LOG_CAP \<Longrightarrow> length (j_log (append_log l j)) \<le> LOG_CAP"
  by (simp add: append_log_def Let_def LOG_CAP_def)

section \<open>Operations\<close>

datatype job_op = OpCreate | OpPush string scalars | OpPhase string string
  | OpFinish string job_state "string option" | OpCancel string

fun apply_op :: "job_op \<Rightarrow> job_registry \<Rightarrow> job_registry" where
  "apply_op OpCreate r = snd (job_create r)"
| "apply_op (OpPush i line) r = push_log i line r"
| "apply_op (OpPhase i ph) r = set_phase i ph r"
| "apply_op (OpFinish i st err) r = job_finish i st err r"
| "apply_op (OpCancel i) r = snd (job_cancel i r)"

definition jobs_new :: job_registry where
  "jobs_new = \<lparr>jr_map = bt_empty, jr_next = 0\<rparr>"

lemma job_cancel_with_job: "snd (job_cancel i r) = with_job i (\<lambda>j. j\<lparr>j_cancel := True\<rparr>) r"
  by (simp add: job_cancel_def with_job_def split: option.split)

lemma next_Suc: "Suc (unat n) < 2 ^ 64 \<Longrightarrow> unat (n + 1) = Suc (unat (n :: 64 word))"
  by (simp add: unat_word_ariths)

lemma create_inv:
  assumes "jobs_inv r" "Suc (unat (jr_next r)) < 2 ^ 64"
  shows "jobs_inv (snd (job_create r))"
  unfolding jobs_inv_get
proof (intro conjI allI impI)
  let ?r = "snd (job_create r)"
  have m: "jr_map ?r = bt_insert (job_id (jr_next r)) \<lparr>j_state = JobRunning, j_phase = ''Starting'', j_log = [],
      j_dropped = 0, j_error = None, j_cancel = False\<rparr> (prune_terminal (jr_map r))"
    and n: "jr_next ?r = jr_next r + 1"
    by (simp_all add: job_create_def Let_def)
  show "bt_inv (jr_map ?r)"
    using assms(1) by (simp add: m prune_inv jobs_inv_get)
  fix i j assume g: "bt_get (jr_map ?r) i = Some j"
  have "i \<noteq> job_id (jr_next r) \<Longrightarrow> bt_get (jr_map r) i = Some j"
    by (rule prune_get) (use g in \<open>simp add: m\<close>)
  then have "(\<exists>n. i = job_id n \<and> unat n < Suc (unat (jr_next r))) \<and> length (j_log j) \<le> LOG_CAP"
  proof (cases "i = job_id (jr_next r)")
    case True
    with g show ?thesis by (auto simp: m)
  next
    case False
    with \<open>i \<noteq> job_id (jr_next r) \<Longrightarrow> _\<close> assms(1) show ?thesis
      unfolding jobs_inv_get by (meson less_SucI)
  qed
  then show "\<exists>n. i = job_id n \<and> unat n < unat (jr_next ?r)" "length (j_log j) \<le> LOG_CAP"
    unfolding n next_Suc [OF assms(2)] by simp_all
qed

lemma push_log_with_job:
  "push_log i line r = (if strip_ansi line = [] then r else with_job i (append_log (strip_ansi line)) r)"
  by (simp add: push_log_def Let_def)

lemmas op_as_with_job = push_log_with_job set_phase_def job_finish_def job_cancel_with_job

lemma apply_op_inv:
  assumes "jobs_inv r" "Suc (unat (jr_next r)) < 2 ^ 64"
  shows "jobs_inv (apply_op op r)"
  using assms by (cases op) (simp_all add: create_inv op_as_with_job with_job_inv append_log_cap)

lemma with_job_next [simp]: "jr_next (with_job i f r) = jr_next r"
  by (simp add: with_job_def split: option.split)

lemma apply_op_next:
  "Suc (unat (jr_next r)) < 2 ^ 64 \<Longrightarrow> unat (jr_next (apply_op op r)) \<le> Suc (unat (jr_next r))"
  by (cases op) (simp_all add: job_create_def Let_def op_as_with_job next_Suc)

lemma run_inv:
  assumes "jobs_inv r" "unat (jr_next r) + length ops < 2 ^ 64"
  shows "jobs_inv (fold apply_op ops r) \<and> unat (jr_next (fold apply_op ops r)) \<le> unat (jr_next r) + length ops"
  using assms
proof (induction ops arbitrary: r)
  case (Cons op ops)
  then have s: "Suc (unat (jr_next r)) < 2 ^ 64" by simp
  with Cons.IH [of "apply_op op r"] apply_op_inv [OF Cons.prems(1) s, of op] apply_op_next [OF s, of op] Cons.prems
  show ?case by fastforce
qed simp

lemma jobs_new_inv: "jobs_inv jobs_new"
  by (simp add: jobs_inv_get jobs_new_def)

section \<open>Following a job\<close>

text \<open>A client polls with the cursor it was last given and keeps what it got; between its polls anything happens.\<close>

datatype watch_event = WOp job_op | WPoll

fun watch_step :: "string \<Rightarrow> watch_event \<Rightarrow> job_registry \<times> nat \<times> scalars list \<Rightarrow> job_registry \<times> nat \<times> scalars list" where
  "watch_step i (WOp op) (r, cursor, seen) = (apply_op op r, cursor, seen)"
| "watch_step i WPoll (r, cursor, seen) =
     (case job_poll i cursor r of
        JobProgress _ _ lines next_cursor _ \<Rightarrow> (r, next_cursor, seen @ lines)
      | _ \<Rightarrow> (r, cursor, seen))"

fun line_of :: "string \<Rightarrow> watch_event \<Rightarrow> scalars list" where
  "line_of i (WOp (OpPush k l)) = (if k = i \<and> strip_ansi l \<noteq> [] then [strip_ansi l] else [])"
| "line_of i _ = []"

definition pushed :: "string \<Rightarrow> watch_event list \<Rightarrow> scalars list" where
  "pushed i es = concat (map (line_of i) es)"

text \<open>No more lines than the log keeps come between two polls, and no job is created after this one ends.\<close>

fun followed :: "string \<Rightarrow> nat \<Rightarrow> bool \<Rightarrow> watch_event list \<Rightarrow> bool" where
  "followed i n ended [] = True"
| "followed i n ended (WPoll # es) = followed i 0 ended es"
| "followed i n ended (WOp op # es) =
     (let n' = n + length (line_of i (WOp op));
          ended' = (case op of OpFinish k st _ \<Rightarrow> (if k = i then st \<noteq> JobRunning else ended) | _ \<Rightarrow> ended)
      in n' \<le> LOG_CAP \<and> (op = OpCreate \<longrightarrow> \<not> ended) \<and> followed i n' ended' es)"

text \<open>The registry holds the last lines of the history, and the client has all of it up to its cursor.\<close>

definition tracks :: "string \<Rightarrow> scalars list \<Rightarrow> nat \<Rightarrow> bool \<Rightarrow> job_registry \<times> nat \<times> scalars list \<Rightarrow> bool" where
  "tracks i h n ended w \<longleftrightarrow>
     (case w of (r, cursor, seen) \<Rightarrow> jobs_inv r
        \<and> (\<exists>j. bt_get (jr_map r) i = Some j \<and> (is_terminal j \<longrightarrow> ended)
              \<and> j_dropped j = length h - LOG_CAP \<and> j_log j = drop (length h - LOG_CAP) h)
        \<and> cursor + n = length h \<and> n \<le> LOG_CAP \<and> seen = take cursor h)"

lemma tracks_poll:
  assumes "tracks i h n ended (r, cursor, seen)"
  shows "tracks i h 0 ended (watch_step i WPoll (r, cursor, seen))"
    "snd (snd (watch_step i WPoll (r, cursor, seen))) = h"
proof -
  obtain j where j: "bt_get (jr_map r) i = Some j" "j_dropped j = length h - LOG_CAP"
      "j_log j = drop (length h - LOG_CAP) h"
    and c: "cursor + n = length h" "n \<le> LOG_CAP" "seen = take cursor h"
    using assms by (auto simp: tracks_def)
  have "drop (min (cursor - (length h - LOG_CAP)) (length h - (length h - LOG_CAP))) (drop (length h - LOG_CAP) h) = drop cursor h"
    using c(1,2) by (simp add: min_def)
  then have "watch_step i WPoll (r, cursor, seen) = (r, length h, h)"
    using c(1) by (simp add: job_poll_def j c(3) Let_def)
  then show "tracks i h 0 ended (watch_step i WPoll (r, cursor, seen))"
    "snd (snd (watch_step i WPoll (r, cursor, seen))) = h"
    using assms by (auto simp: tracks_def)
qed

text \<open>Appending a line to the log keeps it the tail of the history.\<close>

lemma append_log_tail:
  assumes "j_dropped j = length h - LOG_CAP" "j_log j = drop (length h - LOG_CAP) h"
  shows "j_dropped (append_log l j) = length (h @ [l]) - LOG_CAP"
    "j_log (append_log l j) = drop (length (h @ [l]) - LOG_CAP) (h @ [l])"
proof -
  have "LOG_CAP \<le> length h \<or> length h < LOG_CAP" by linarith
  then show "j_dropped (append_log l j) = length (h @ [l]) - LOG_CAP"
    "j_log (append_log l j) = drop (length (h @ [l]) - LOG_CAP) (h @ [l])"
    using assms by (auto simp: append_log_def Let_def LOG_CAP_def Suc_diff_le drop_Suc tl_drop simp flip: tl_append_if)
qed

lemma with_job_get:
  "bt_get (jr_map (with_job k f r)) i = (if k = i then map_option f (bt_get (jr_map r) i) else bt_get (jr_map r) i)"
  by (auto simp: with_job_def split: option.split)

definition ends :: "string \<Rightarrow> job_op \<Rightarrow> bool \<Rightarrow> bool" where
  "ends i op ended = (case op of OpFinish k st _ \<Rightarrow> (if k = i then st \<noteq> JobRunning else ended) | _ \<Rightarrow> ended)"

lemma append_log_terminal: "is_terminal (append_log l j) = is_terminal j"
  by (simp add: append_log_def is_terminal_def Let_def)

text \<open>What one operation does to the job that is followed.\<close>

lemma apply_op_job:
  assumes "jobs_inv r" "bt_get (jr_map r) i = Some j" "op = OpCreate \<longrightarrow> \<not> is_terminal j"
    "Suc (unat (jr_next r)) < 2 ^ 64"
  shows "\<exists>j'. bt_get (jr_map (apply_op op r)) i = Some j' \<and> (is_terminal j' \<longrightarrow> ends i op (is_terminal j))
    \<and> (case line_of i (WOp op) of
         [] \<Rightarrow> j_dropped j' = j_dropped j \<and> j_log j' = j_log j
       | l # _ \<Rightarrow> j_dropped j' = j_dropped (append_log l j) \<and> j_log j' = j_log (append_log l j))"
proof (cases op)
  case OpCreate
  obtain n where "i = job_id n" "unat n < unat (jr_next r)"
    using assms(1,2) unfolding jobs_inv_get by blast
  then have "i \<noteq> job_id (jr_next r)" by (auto simp: job_id_inj)
  moreover have "bt_inv (jr_map r)" "\<not> is_terminal j"
    using assms(1,3) OpCreate by (auto simp: jobs_inv_get)
  ultimately show ?thesis
    using OpCreate assms(2) prune_keeps_running [of "jr_map r" i j] by (simp add: job_create_def Let_def)
qed (use assms(2) in \<open>auto simp: op_as_with_job with_job_get ends_def is_terminal_def append_log_terminal [unfolded is_terminal_def]\<close>)

lemma tracks_op:
  assumes t: "tracks i h n ended (r, cursor, seen)"
    and n: "n + length (line_of i (WOp op)) \<le> LOG_CAP" "op = OpCreate \<longrightarrow> \<not> ended" "Suc (unat (jr_next r)) < 2 ^ 64"
  shows "tracks i (h @ line_of i (WOp op)) (n + length (line_of i (WOp op))) (ends i op ended)
    (watch_step i (WOp op) (r, cursor, seen))"
proof -
  obtain j where j: "jobs_inv r" "bt_get (jr_map r) i = Some j" "is_terminal j \<longrightarrow> ended"
      "j_dropped j = length h - LOG_CAP" "j_log j = drop (length h - LOG_CAP) h"
    and c: "cursor + n = length h" "seen = take cursor h"
    using t by (auto simp: tracks_def)
  have "op = OpCreate \<longrightarrow> \<not> is_terminal j" using j(3) n(2) by blast
  from apply_op_job [OF j(1,2) this n(3)] obtain j' where
    j': "bt_get (jr_map (apply_op op r)) i = Some j'" "is_terminal j' \<longrightarrow> ends i op (is_terminal j)"
    and l: "case line_of i (WOp op) of
         [] \<Rightarrow> j_dropped j' = j_dropped j \<and> j_log j' = j_log j
       | l # _ \<Rightarrow> j_dropped j' = j_dropped (append_log l j) \<and> j_log j' = j_log (append_log l j)" by blast
  have "line_of i (WOp op) = [] \<or> (\<exists>x. line_of i (WOp op) = [x])"
    by (cases "(i, WOp op)" rule: line_of.cases) auto
  then have "j_dropped j' = length (h @ line_of i (WOp op)) - LOG_CAP
      \<and> j_log j' = drop (length (h @ line_of i (WOp op)) - LOG_CAP) (h @ line_of i (WOp op))"
    using l j(4,5) append_log_tail [OF j(4,5)] by auto
  moreover have "is_terminal j' \<longrightarrow> ends i op ended"
    using j'(2) j(3) by (auto simp: ends_def split: job_op.splits if_splits)
  ultimately show ?thesis
    using apply_op_inv [OF j(1) n(3), of op] j'(1) c n(1) by (simp add: tracks_def)
qed

lemma followed_tracks:
  assumes "tracks i h n ended (r, cursor, seen)" "followed i n ended es" "unat (jr_next r) + length es < 2 ^ 64"
  shows "\<exists>n' ended'. tracks i (h @ pushed i es) n' ended' (fold (watch_step i) es (r, cursor, seen))"
  using assms
proof (induction es arbitrary: h n ended r cursor seen)
  case Nil
  then show ?case by (auto simp: pushed_def)
next
  case (Cons e es)
  have s: "Suc (unat (jr_next r)) < 2 ^ 64" using Cons.prems(3) by simp
  show ?case
  proof (cases e)
    case WPoll
    obtain r' c' s' where w: "watch_step i WPoll (r, cursor, seen) = (r', c', s')" by (metis surj_pair)
    then have "r' = r" by (auto split: job_response.splits)
    with Cons.IH [OF tracks_poll(1) [OF Cons.prems(1), unfolded w]] Cons.prems(2,3) w WPoll show ?thesis
      by (simp add: pushed_def)
  next
    case (WOp op)
    then have f: "n + length (line_of i (WOp op)) \<le> LOG_CAP" "op = OpCreate \<longrightarrow> \<not> ended"
        "followed i (n + length (line_of i (WOp op))) (ends i op ended) es"
      using Cons.prems(2) by (simp_all add: Let_def ends_def)
    have "unat (jr_next (apply_op op r)) + length es < 2 ^ 64"
      using apply_op_next [OF s, of op] Cons.prems(3) by simp
    with Cons.IH [OF tracks_op [OF Cons.prems(1) f(1,2) s, unfolded watch_step.simps] f(3)] WOp show ?thesis
      by (simp add: pushed_def)
  qed
qed



end
