(* ===== verification/Dns.thy ===== *)
theory Dns
  imports Router Http_Request
begin

text \<open>
  The DNS responder, \<open>crates/yerd-dns/src\<close>: the answer to a query (\<open>responder.rs\<close>), the reply with its
  records and the LAN rules (\<open>server.rs\<close>), and the loop that binds UDP and TCP to one port. Names are
  the text the DNS library prints for a query name; what the operating system answers to a bind is a
  parameter.
\<close>

section \<open>Answers\<close>

datatype dns_answer = Loopback4 | Loopback6 | NoData | NxDomain | Refused

datatype qclass = QA | QAaaa | QOther

text \<open>\<open>windows(2).any(|w| w == b"..")\<close>.\<close>

fun double_dot :: "string \<Rightarrow> bool" where
  "double_dot (a # b # s) \<longleftrightarrow> (a = CHR ''.'' \<and> b = CHR ''.'') \<or> double_dot (b # s)"
| "double_dot _ \<longleftrightarrow> False"

definition drop_last_dot :: "string \<Rightarrow> string" where
  "drop_last_dot name = (if name \<noteq> [] \<and> last name = CHR ''.'' then butlast name else name)"

definition responder_answer :: "string \<Rightarrow> string \<Rightarrow> qclass \<Rightarrow> dns_answer" where
  "responder_answer tld name qtype =
     (let bytes = drop_last_dot name;
          is_apex = (length bytes = length tld \<and> eq_ignore_ascii_case bytes tld);
          ends_in_dot_tld = (length bytes > length tld
            \<and> bytes ! (length bytes - length tld - 1) = CHR ''.''
            \<and> eq_ignore_ascii_case (drop (length bytes - length tld) bytes) tld)
      in if \<not> is_apex \<and> \<not> ends_in_dot_tld then Refused
         else if is_apex then NoData
         else if bytes \<noteq> [] \<and> hd bytes = CHR ''.'' then NxDomain
         else if double_dot bytes then NxDomain
         else (case qtype of QA \<Rightarrow> Loopback4 | QAaaa \<Rightarrow> Loopback6 | QOther \<Rightarrow> NoData))"

section \<open>Replies\<close>

definition ANSWER_TTL_SECS :: nat where
  "ANSWER_TTL_SECS = 60"

type_synonym ipv4 = "u8 \<times> u8 \<times> u8 \<times> u8"

abbreviation LOCALHOST :: ipv4 where
  "LOCALHOST \<equiv> (127, 0, 0, 1)"

record answer_addrs =
  aa_loopback_v4 :: ipv4
  aa_lan_v4 :: "ipv4 option"
  aa_lan_mode :: bool

definition answer_loopback :: answer_addrs where
  "answer_loopback = \<lparr>aa_loopback_v4 = LOCALHOST, aa_lan_v4 = None, aa_lan_mode = False\<rparr>"

definition answer_lan :: "ipv4 option \<Rightarrow> answer_addrs" where
  "answer_lan lan_v4 = \<lparr>aa_loopback_v4 = LOCALHOST, aa_lan_v4 = lan_v4, aa_lan_mode = True\<rparr>"

fun ip_is_loopback :: "ip_addr \<Rightarrow> bool" where
  "ip_is_loopback (V4 a b c d) = v4_is_loopback a b c d"
| "ip_is_loopback (V6 gs) = v6_is_loopback gs"

definition a_record_for :: "answer_addrs \<Rightarrow> ip_addr \<Rightarrow> ipv4 option" where
  "a_record_for aa src = (if aa_lan_mode aa \<and> \<not> ip_is_loopback src then aa_lan_v4 aa else Some (aa_loopback_v4 aa))"

datatype record_kind = RecA | RecAAAA | RecOther nat

datatype rdata = RDataA ipv4 | RDataAAAA "u16 list"

datatype response_code = NoError | NXDomain | RefusedCode

record dns_reply =
  dr_rcode :: response_code
  dr_authoritative :: bool
  dr_answers :: "(string \<times> nat \<times> rdata) list"

fun classify_qtype :: "record_kind \<Rightarrow> qclass" where
  "classify_qtype RecA = QA"
| "classify_qtype RecAAAA = QAaaa"
| "classify_qtype (RecOther _) = QOther"

definition trim_end_dots :: "string \<Rightarrow> string" where
  "trim_end_dots s = rev (dropWhile (\<lambda>c. c = CHR ''.'') (rev s))"

definition dns_handle_request :: "string \<Rightarrow> answer_addrs \<Rightarrow> ip_addr \<Rightarrow> string \<Rightarrow> record_kind \<Rightarrow> dns_reply" where
  "dns_handle_request tld aa src qname qtype =
     (let name = trim_end_dots qname;
          decision = (if aa_lan_mode aa \<and> \<not> is_lan_source src then Refused
                      else responder_answer tld name (classify_qtype qtype));
          answers = (case decision of
              Loopback4 \<Rightarrow> (case a_record_for aa src of
                  Some ip \<Rightarrow> [(qname, ANSWER_TTL_SECS, RDataA ip)] | None \<Rightarrow> [])
            | Loopback6 \<Rightarrow> (if aa_lan_mode aa then []
                else [(qname, ANSWER_TTL_SECS, RDataAAAA [0, 0, 0, 0, 0, 0, 0, 1])])
            | _ \<Rightarrow> []);
          rcode = (case decision of NxDomain \<Rightarrow> NXDomain | Refused \<Rightarrow> RefusedCode | _ \<Rightarrow> NoError)
      in \<lparr>dr_rcode = rcode, dr_authoritative = (decision \<noteq> Refused), dr_answers = answers\<rparr>)"

section \<open>Binding\<close>

datatype bind_proto = Udp | Tcp

datatype dns_error = DnsBind bind_proto socket_addr string | PortPairMismatch socket_addr nat string

definition RETRY_BUDGET :: nat where
  "RETRY_BUDGET = 5"

text \<open>
  The loop of \<open>Bound::bind\<close>: what the system answers may differ at each attempt; the UDP socket tells
  the address it got. The TCP listener is asked for that same address.
\<close>

function bind_loop ::
  "(nat \<Rightarrow> (string, socket_addr) result) \<Rightarrow> (nat \<Rightarrow> socket_addr \<Rightarrow> (string, unit) result) \<Rightarrow> socket_addr
     \<Rightarrow> nat \<Rightarrow> (dns_error, socket_addr) result" where
  "bind_loop udp tcp addr n =
     (let attempt = n + 1
      in case udp attempt of
           Err e \<Rightarrow> Err (DnsBind Udp addr e)
         | Ok udp_addr \<Rightarrow>
             (case tcp attempt udp_addr of
                Ok _ \<Rightarrow> Ok udp_addr
              | Err e \<Rightarrow>
                  if sa_port addr \<noteq> 0 then Err (DnsBind Tcp addr e)
                  else if attempt \<ge> RETRY_BUDGET then Err (PortPairMismatch udp_addr attempt e)
                  else bind_loop udp tcp addr attempt))"
  by pat_completeness auto
termination
  by (relation "measure (\<lambda>(_, _, _, n). RETRY_BUDGET - n)") auto

declare bind_loop.simps [simp del]

definition dns_bind ::
  "(nat \<Rightarrow> (string, socket_addr) result) \<Rightarrow> (nat \<Rightarrow> socket_addr \<Rightarrow> (string, unit) result) \<Rightarrow> socket_addr
     \<Rightarrow> (dns_error, socket_addr) result" where
  "dns_bind udp tcp addr = bind_loop udp tcp addr 0"

section \<open>The answer by labels\<close>

text \<open>The rule the responder implements: compare label lists, from the right.\<close>

definition zone_answer :: "string \<Rightarrow> string \<Rightarrow> qclass \<Rightarrow> dns_answer" where
  "zone_answer tld name qtype =
     (let ls = split_on (CHR ''.'') (to_ascii_lowercase (drop_last_dot name)); ts = split_on (CHR ''.'') tld;
          below = take (length ls - length ts) ls
      in if ls = ts then NoData
         else if ls = below @ ts then
           (if [] \<in> set below then NxDomain
            else case qtype of QA \<Rightarrow> Loopback4 | QAaaa \<Rightarrow> Loopback6 | QOther \<Rightarrow> NoData)
         else Refused)"

lemma double_dot_Cons: "double_dot (a # s) \<longleftrightarrow> (a = CHR ''.'' \<and> s \<noteq> [] \<and> hd s = CHR ''.'') \<or> double_dot s"
  by (cases s) auto

lemma hd_split_on_empty: "hd (split_on c p) = [] \<longleftrightarrow> p = [] \<or> hd p = c"
  by (cases p) (auto split: list.split)

lemma set_split_on_hd_tl: "x \<in> set (split_on c p) \<longleftrightarrow> hd (split_on c p) = x \<or> x \<in> set (tl (split_on c p))"
  by (cases "split_on c p") auto

lemma later_empty_label_iff: "[] \<in> set (tl (split_on (CHR ''.'') p)) \<longleftrightarrow> double_dot (p @ [CHR ''.''])"
proof (induction p)
  case (Cons x p)
  show ?case
  proof (cases "x = CHR ''.''")
    case True
    have "[] \<in> set (split_on (CHR ''.'') p) \<longleftrightarrow> p = [] \<or> hd p = CHR ''.'' \<or> double_dot (p @ [CHR ''.''])"
      using Cons set_split_on_hd_tl [of "[]" _ p] hd_split_on_empty [of _ p] by blast
    with True show ?thesis by (auto simp: double_dot_Cons hd_append)
  next
    case False
    with Cons show ?thesis by (cases "split_on (CHR ''.'') p") (auto simp: double_dot_Cons)
  qed
qed simp

text \<open>A name has an empty label when it is empty, starts or ends with a dot or has two in a row.\<close>

lemma empty_label_iff:
  "[] \<in> set (split_on (CHR ''.'') p) \<longleftrightarrow> p = [] \<or> hd p = CHR ''.'' \<or> double_dot (p @ [CHR ''.''])"
  by (simp add: set_split_on_hd_tl [of _ _ p] hd_split_on_empty later_empty_label_iff)

lemma double_dot_append:
  assumes "t \<noteq> []" "hd t \<noteq> CHR ''.''" "\<not> double_dot t"
  shows "double_dot (p @ CHR ''.'' # t) \<longleftrightarrow> double_dot (p @ [CHR ''.''])"
  using assms by (induction p) (auto simp: double_dot_Cons hd_append)

lemma lower_byte_dot: "lower_byte c = CHR ''.'' \<longleftrightarrow> c = CHR ''.''"
  by (simp add: lower_byte_eq_nonletter is_ascii_uppercase_def)

lemma double_dot_lower: "double_dot (to_ascii_lowercase s) = double_dot s"
  by (induction s) (auto simp: double_dot_Cons to_ascii_lowercase_def lower_byte_dot hd_map)

lemma suffix_labels_iff:
  assumes "split_on c s = xs @ split_on c t" "xs \<noteq> []"
  shows "s = join_with [c] xs @ c # t"
proof -
  have "join_with [c] (xs @ split_on c t) = join_with [c] xs @ c # t"
    using assms(2)
  proof (induction xs)
    case (Cons x xs)
    then show ?case by (cases xs) (simp_all add: join_split_on join_with_Cons)
  qed simp
  with assms(1) join_split_on [of c s] show ?thesis by simp
qed

lemma apex_iff:
  assumes "to_ascii_lowercase t = t"
  shows "length b = length t \<and> eq_ignore_ascii_case b t \<longleftrightarrow> to_ascii_lowercase b = t"
  using assms by (auto simp: eq_ignore_ascii_case_def to_ascii_lowercase_def)

lemma dot_tld_iff:
  assumes "to_ascii_lowercase t = t"
  shows "length b > length t \<and> b ! (length b - length t - 1) = CHR ''.''
      \<and> eq_ignore_ascii_case (drop (length b - length t) b) t
    \<longleftrightarrow> (\<exists>p. to_ascii_lowercase b = p @ CHR ''.'' # t)" (is "?L \<longleftrightarrow> ?R")
proof
  assume l: ?L
  let ?k = "length b - length t - 1"
  have "b = take ?k b @ b ! ?k # drop (Suc ?k) b" using l by (intro id_take_nth_drop) linarith
  moreover have "Suc ?k = length b - length t" using l by linarith
  ultimately have "b = take ?k b @ CHR ''.'' # drop (length b - length t) b" using l by simp
  then have "to_ascii_lowercase b = to_ascii_lowercase (take ?k b) @ CHR ''.'' # t"
    using l assms lower_byte_dot [of "CHR ''.''"]
    by (metis (no_types, lifting) eq_ignore_ascii_case_def list.simps(9) map_append to_ascii_lowercase_def)
  then show ?R by blast
next
  assume ?R
  then obtain p where "map lower_byte b = p @ CHR ''.'' # t" by (auto simp: to_ascii_lowercase_def)
  then obtain p' r where "b = p' @ r" "map lower_byte r = CHR ''.'' # t"
    by (auto simp: map_eq_append_conv)
  moreover from this(2) obtain c t' where "r = c # t'" "lower_byte c = CHR ''.''" "map lower_byte t' = t"
    by (auto simp: map_eq_Cons_conv)
  ultimately have b: "b = p' @ c # t'" "lower_byte c = CHR ''.''" "map lower_byte t' = t" by simp_all
  have "length t' = length t" using b(3) by (metis length_map)
  moreover have "c = CHR ''.''" using b(2) by (simp only: lower_byte_dot)
  moreover have "eq_ignore_ascii_case t' t"
    using b(3) assms by (simp add: eq_ignore_ascii_case_def to_ascii_lowercase_def)
  ultimately show ?L by (simp add: b(1) nth_append)
qed

lemma responder_by_labels_shape:
  assumes "tld_shape tld"
  shows "responder_answer tld name qtype = zone_answer tld name qtype"
proof -
  let ?b = "drop_last_dot name"
  let ?l = "to_ascii_lowercase ?b" and ?ls = "split_on (CHR ''.'') (to_ascii_lowercase ?b)" and ?ts = "split_on (CHR ''.'') tld"
  have t: "dns_name tld" using assms by (simp add: tld_shape_def)
  then have low: "to_ascii_lowercase tld = tld" by (rule dns_name_lowercase)
  have apex: "length ?b = length tld \<and> eq_ignore_ascii_case ?b tld \<longleftrightarrow> ?ls = ?ts"
    unfolding apex_iff [OF low] by (metis join_split_on)
  let ?below = "take (length ?ls - length ?ts) ?ls"
  have below: "(\<exists>p. ?l = p @ CHR ''.'' # tld) \<longleftrightarrow> ?ls = ?below @ ?ts \<and> ?ls \<noteq> ?ts"
  proof
    assume "\<exists>p. ?l = p @ CHR ''.'' # tld"
    then obtain p where "?ls = split_on (CHR ''.'') p @ ?ts" by (auto simp: split_on_append_general)
    then show "?ls = ?below @ ?ts \<and> ?ls \<noteq> ?ts" by simp
  next
    assume a: "?ls = ?below @ ?ts \<and> ?ls \<noteq> ?ts"
    then have "?below \<noteq> []" by (metis append_Nil)
    with a suffix_labels_iff show "\<exists>p. ?l = p @ CHR ''.'' # tld" by blast
  qed
  have nx: "(?b \<noteq> [] \<and> hd ?b = CHR ''.'') \<or> double_dot ?b \<longleftrightarrow> [] \<in> set ?below"
    if p: "?l = p @ CHR ''.'' # tld" for p
  proof -
    have e: "tld \<noteq> []" "hd tld \<noteq> CHR ''.''" "[] \<notin> set ?ts"
      using t dns_name_not_Nil dns_name_edges by (auto simp: dns_name_def dns_label_def)
    then have "\<not> double_dot (tld @ [CHR ''.''])" using later_empty_label_iff [of tld] set_split_on_hd_tl by blast
    then have dd: "\<not> double_dot tld" by (induction tld) (auto simp: double_dot_Cons)
    have "?below = split_on (CHR ''.'') p" by (simp add: p split_on_append_general)
    moreover have "double_dot ?b \<longleftrightarrow> double_dot (p @ [CHR ''.''])"
      using double_dot_lower [of ?b] double_dot_append [OF e(1,2) dd] p by simp
    moreover have "?b \<noteq> [] \<and> hd ?b = CHR ''.'' \<longleftrightarrow> p = [] \<or> hd p = CHR ''.''"
      using p lower_byte_dot by (cases ?b; cases p) (auto simp: to_ascii_lowercase_def)
    ultimately show ?thesis using empty_label_iff [of p] by auto
  qed
  show ?thesis
    unfolding responder_answer_def zone_answer_def Let_def apex dot_tld_iff [OF low]
    using below nx by (auto split: if_splits)
qed

text \<open>
  C21: The byte comparisons of the responder decide as the label-wise rule does: for a valid TLD, a name
  is refused unless its labels end in those of the TLD, in any case of letters; the TLD itself has no
  data; a name below it with an empty label does not exist; any other is answered by query type.
\<close>

theorem responder_by_labels:
  assumes "tld_new raw = Ok tld"
  shows "responder_answer tld name qtype = zone_answer tld name qtype"
  using tld.sound [OF assms] by (rule responder_by_labels_shape)

theorem responder_by_labels_witness:
  "responder_answer ''dev.local'' ''App.Dev.Local.'' QA = zone_answer ''dev.local'' ''App.Dev.Local.'' QA
   \<and> zone_answer ''dev.local'' ''App.Dev.Local.'' QA = Loopback4"
proof -
  have "tld_new ''dev.local'' = Ok ''dev.local''" "zone_answer ''dev.local'' ''App.Dev.Local.'' QA = Loopback4"
    by code_simp+
  with responder_by_labels show ?thesis by blast
qed

section \<open>LAN mode\<close>


section \<open>With the router\<close>

lemma drop_last_dot_other: "s = [] \<or> last s \<noteq> CHR ''.'' \<Longrightarrow> drop_last_dot s = s"
  by (auto simp: drop_last_dot_def)

lemma trim_end_dots_dot: "s \<noteq> [] \<Longrightarrow> last s \<noteq> CHR ''.'' \<Longrightarrow> trim_end_dots (s @ ''.'') = s"
  by (cases s rule: rev_cases) (simp_all add: trim_end_dots_def)

lemma name_below_tld:
  assumes "tld_shape tld" "dns_name s"
  shows "responder_answer tld (s @ CHR ''.'' # tld) q = (case q of QA \<Rightarrow> Loopback4 | QAaaa \<Rightarrow> Loopback6 | QOther \<Rightarrow> NoData)"
proof -
  let ?n = "s @ CHR ''.'' # tld"
  have t: "dns_name tld" using assms(1) by (simp add: tld_shape_def)
  have "last ?n \<noteq> CHR ''.''" using dns_name_edges [OF t] dns_name_not_Nil [OF t] by simp
  then have d: "drop_last_dot ?n = ?n" by (simp add: drop_last_dot_other)
  have low: "to_ascii_lowercase ?n = ?n"
    using dns_name_lowercase [OF t] dns_name_lowercase [OF assms(2)] lower_byte_dot [of "CHR ''.''"]
    by (simp add: to_ascii_lowercase_def)
  have "[] \<notin> set (split_on (CHR ''.'') s)"
    using assms(2) by (auto simp: dns_name_def dns_label_def)
  then show ?thesis
    unfolding responder_by_labels_shape [OF assms(1)] zone_answer_def d low split_on_append_general
    by (simp add: Let_def)
qed


section \<open>Binding terminates and pairs the ports\<close>

text \<open>What a result says of the attempts made.\<close>

definition bind_explained ::
  "(nat \<Rightarrow> (string, socket_addr) result) \<Rightarrow> (nat \<Rightarrow> socket_addr \<Rightarrow> (string, unit) result) \<Rightarrow> socket_addr
     \<Rightarrow> (dns_error, socket_addr) result \<Rightarrow> bool" where
  "bind_explained udp tcp addr res \<longleftrightarrow>
     (let missed = (\<lambda>m. \<exists>b e. udp m = Ok b \<and> tcp m b = Err e)
      in case res of
           Ok a \<Rightarrow> (\<exists>k \<in> {1..RETRY_BUDGET}. udp k = Ok a \<and> tcp k a = Ok () \<and> (sa_port addr \<noteq> 0 \<longrightarrow> k = 1)
                    \<and> (\<forall>m \<in> {1..<k}. missed m))
         | Err (DnsBind Udp a e) \<Rightarrow>
             a = addr \<and> (\<exists>k \<in> {1..RETRY_BUDGET}. udp k = Err e \<and> (sa_port addr \<noteq> 0 \<longrightarrow> k = 1) \<and> (\<forall>m \<in> {1..<k}. missed m))
         | Err (DnsBind Tcp a e) \<Rightarrow> a = addr \<and> sa_port addr \<noteq> 0 \<and> (\<exists>b. udp 1 = Ok b \<and> tcp 1 b = Err e)
         | Err (PortPairMismatch b k e) \<Rightarrow>
             sa_port addr = 0 \<and> k = RETRY_BUDGET \<and> udp k = Ok b \<and> tcp k b = Err e \<and> (\<forall>m \<in> {1..k}. missed m))"

lemma bind_loop_explained:
  assumes "n < RETRY_BUDGET" "\<forall>m \<in> {1..n}. \<exists>b e. udp m = Ok b \<and> tcp m b = Err e" "sa_port addr \<noteq> 0 \<longrightarrow> n = 0"
  shows "bind_explained udp tcp addr (bind_loop udp tcp addr n)"
  using assms
proof (induction udp tcp addr n rule: bind_loop.induct)
  case (1 udp tcp addr n)
  have upto: "{1..<Suc n} = {1..n}" by auto
  show ?case
  proof (cases "udp (n + 1)")
    case (Err e)
    with 1(2-4) upto show ?thesis
      by (auto simp: bind_loop.simps [of udp tcp addr n] bind_explained_def Let_def intro!: bexI [of _ "Suc n"])
  next
    case (Ok a)
    show ?thesis
    proof (cases "tcp (n + 1) a")
      case (Err e)
      have step: "\<forall>m \<in> {1..n + 1}. \<exists>b e. udp m = Ok b \<and> tcp m b = Err e"
        using 1(3) Ok Err by (auto simp: le_Suc_eq)
      show ?thesis
      proof (cases "sa_port addr = 0 \<and> n + 1 < RETRY_BUDGET")
        case True
        with 1(1) [OF refl Ok Err] step Ok Err show ?thesis
          by (simp add: bind_loop.simps [of udp tcp addr n])
      next
        case False
        with 1(2,4) step Ok Err show ?thesis
          by (auto simp: bind_loop.simps [of udp tcp addr n] bind_explained_def Let_def)
      qed
    next
      case (Ok x)
      with \<open>udp (n + 1) = Ok a\<close> 1(2-4) upto show ?thesis
        by (auto simp: bind_loop.simps [of udp tcp addr n] bind_explained_def Let_def intro!: bexI [of _ "Suc n"])
    qed
  qed
qed

text \<open>
  C23: Binding always returns. It succeeds with the address of the first attempt at which TCP gets the
  port UDP was given; with a port asked for there is one attempt, with none asked for at most five, and
  an error tells which socket failed at the last attempt, all earlier ones having missed their pair.
\<close>

theorem dns_bind_spec: "bind_explained udp tcp addr (dns_bind udp tcp addr)"
  unfolding dns_bind_def by (rule bind_loop_explained) (simp_all add: RETRY_BUDGET_def)



end
