(* ===== verification/Detect.thy ===== *)
theory Detect
  imports Site Rust_Map
begin

text \<open>
  Web-root detection: the decision of \<open>crates/yerd-core/src/detect.rs\<close>, the signals of
  \<open>crates/yerd-platform/src/detect.rs\<close> and the cache of \<open>bin/yerdd/src/detect_cache.rs\<close>. The disk is
  a parameter, the record \<open>filesystem\<close> of what the code asks it. \<open>fs_composer\<close> stands for reading
  \<open>composer.json\<close> and parsing it with \<open>serde_json\<close>: the keys of its \<open>require\<close> and
  \<open>require-dev\<close> objects. A \<open>BTreeSet\<close> of names is a set.
\<close>

section \<open>The disk\<close>

text \<open>
  A directory entry has its file name unless it is not UTF-8, and the outcome of asking its metadata
  whether it is a directory. A directory is missing, unreadable for another reason (with its
  message), or gives its readable entries.
\<close>

record dir_entry =
  de_name :: "string option"
  de_is_dir :: "bool option"

datatype read_dir_error = DirNotFound | DirUnreadable string

record filesystem =
  fs_exists :: "path \<Rightarrow> bool"
  fs_is_file :: "path \<Rightarrow> bool"
  fs_is_dir :: "path \<Rightarrow> bool"
  fs_canonicalize :: "path \<Rightarrow> (string, path) result"
  fs_read_dir :: "path \<Rightarrow> (read_dir_error, dir_entry list) result"
  fs_composer :: "path \<Rightarrow> string list"
  fs_modified :: "path \<Rightarrow> nat option"

section \<open>Signals\<close>

definition WEB_DIR_CANDIDATES :: "string list" where
  "WEB_DIR_CANDIDATES = [''public'', ''web'', ''webroot'', ''pub'']"

definition ROOT_MARKERS :: "string list" where
  "ROOT_MARKERS =
     [''artisan'', ''wp-config.php'', ''wp-load.php'', ''bin/console'', ''spark'', ''bin/cake'',
      ''bin/magento'', ''yii'', ''index.php'', ''core'']"

record project_signals =
  composer_requires :: "string set"
  markers :: "string set"
  web_dirs_with_index :: "string set"

definition gather_composer_requires :: "filesystem \<Rightarrow> path \<Rightarrow> string set" where
  "gather_composer_requires fs root = set (map to_ascii_lowercase (fs_composer fs (path_join root ''composer.json'')))"

definition gather_project_signals :: "filesystem \<Rightarrow> path \<Rightarrow> project_signals" where
  "gather_project_signals fs root =
     \<lparr>composer_requires = gather_composer_requires fs root,
      markers = set (filter (\<lambda>m. fs_exists fs (path_join root m)) ROOT_MARKERS),
      web_dirs_with_index =
        set (filter (\<lambda>c. fs_is_file fs (path_join (path_join root c) ''index.php'')) WEB_DIR_CANDIDATES)\<rparr>"

section \<open>The decision\<close>

record detection =
  det_subpath :: path
  det_resolved :: bool

definition detection_sub :: "string \<Rightarrow> detection" where
  "detection_sub dir = \<lparr>det_subpath = dir, det_resolved = True\<rparr>"

definition detection_root :: detection where
  "detection_root = \<lparr>det_subpath = [], det_resolved = True\<rparr>"

definition detection_unresolved :: detection where
  "detection_unresolved = \<lparr>det_subpath = [], det_resolved = False\<rparr>"

record framework_rule =
  fw_package :: string
  fw_marker :: string
  fw_web_dir :: string

definition PUBLIC_FRAMEWORKS :: "framework_rule list" where
  "PUBLIC_FRAMEWORKS =
     [\<lparr>fw_package = ''laravel/framework'', fw_marker = ''artisan'', fw_web_dir = ''public''\<rparr>,
      \<lparr>fw_package = ''symfony/framework-bundle'', fw_marker = ''bin/console'', fw_web_dir = ''public''\<rparr>,
      \<lparr>fw_package = ''codeigniter4/framework'', fw_marker = ''spark'', fw_web_dir = ''public''\<rparr>,
      \<lparr>fw_package = ''cakephp/cakephp'', fw_marker = ''bin/cake'', fw_web_dir = ''webroot''\<rparr>]"

definition OTHER_FRAMEWORKS :: "framework_rule list" where
  "OTHER_FRAMEWORKS =
     [\<lparr>fw_package = ''yiisoft/yii2'', fw_marker = '''', fw_web_dir = ''web''\<rparr>,
      \<lparr>fw_package = ''magento/product-community-edition'', fw_marker = ''bin/magento'', fw_web_dir = ''pub''\<rparr>]"

definition framework_matches :: "project_signals \<Rightarrow> framework_rule \<Rightarrow> bool" where
  "framework_matches sig r \<longleftrightarrow>
     (fw_package r \<in> composer_requires sig \<or> fw_marker r \<noteq> [] \<and> fw_marker r \<in> markers sig)
     \<and> fw_web_dir r \<in> web_dirs_with_index sig"

definition match_framework :: "project_signals \<Rightarrow> framework_rule list \<Rightarrow> detection option" where
  "match_framework sig rules = map_option (\<lambda>r. detection_sub (fw_web_dir r)) (find (framework_matches sig) rules)"

definition detect_drupal :: "project_signals \<Rightarrow> detection option" where
  "detect_drupal sig =
     (if \<not> (\<exists>p \<in> composer_requires sig. starts_with ''drupal/core'' p) then None
      else if ''web'' \<in> web_dirs_with_index sig then Some (detection_sub ''web'')
      else if ''index.php'' \<in> markers sig \<and> ''core'' \<in> markers sig then Some detection_root
      else None)"

definition detect :: "project_signals \<Rightarrow> detection" where
  "detect sig =
     (case match_framework sig PUBLIC_FRAMEWORKS of
        Some d \<Rightarrow> d
      | None \<Rightarrow>
          (case detect_drupal sig of
             Some d \<Rightarrow> d
           | None \<Rightarrow>
               (case match_framework sig OTHER_FRAMEWORKS of
                  Some d \<Rightarrow> d
                | None \<Rightarrow>
                    if ''wp-config.php'' \<in> markers sig \<or> ''wp-load.php'' \<in> markers sig then detection_root
                    else (case find (\<lambda>c. c \<in> web_dirs_with_index sig) WEB_DIR_CANDIDATES of
                        Some c \<Rightarrow> detection_sub c
                      | None \<Rightarrow> if ''index.php'' \<in> markers sig then detection_root else detection_unresolved))))"

section \<open>The cache\<close>

type_synonym detect_cache = "(path, nat \<times> detection) hash_map"

definition freshness_stamp :: "filesystem \<Rightarrow> path \<Rightarrow> nat option" where
  "freshness_stamp fs root =
     (case (fs_modified fs root, fs_modified fs (path_join root ''composer.json'')) of
        (Some a, Some b) \<Rightarrow> Some (max a b)
      | (Some a, None) \<Rightarrow> Some a
      | (None, Some a) \<Rightarrow> Some a
      | (None, None) \<Rightarrow> None)"

definition cache_detect :: "filesystem \<Rightarrow> path \<Rightarrow> detect_cache \<Rightarrow> detection \<times> detect_cache" where
  "cache_detect fs root cache =
     (let fresh = detect (gather_project_signals fs root)
      in case freshness_stamp fs root of
           None \<Rightarrow> (fresh, cache)
         | Some stamp \<Rightarrow>
             (case hm_get cache root of
                Some (cached_stamp, det) \<Rightarrow>
                  if cached_stamp = stamp then (det, cache) else (fresh, hm_insert root (stamp, fresh) cache)
              | None \<Rightarrow> (fresh, hm_insert root (stamp, fresh) cache)))"

section \<open>What detection gives\<close>

lemma match_framework_Some:
  "match_framework sig rules = Some d \<Longrightarrow>
     \<exists>r \<in> set rules. d = detection_sub (fw_web_dir r) \<and> fw_web_dir r \<in> web_dirs_with_index sig"
  by (auto simp: match_framework_def find_Some_iff framework_matches_def)

lemma framework_dirs:
  "r \<in> set PUBLIC_FRAMEWORKS \<union> set OTHER_FRAMEWORKS \<Longrightarrow> fw_web_dir r \<in> set WEB_DIR_CANDIDATES"
  by (auto simp: PUBLIC_FRAMEWORKS_def OTHER_FRAMEWORKS_def WEB_DIR_CANDIDATES_def)

text \<open>The served directory is the project root or a candidate that holds an index file.\<close>

lemma detect_cases:
  "detect sig = detection_root \<or> detect sig = detection_unresolved
   \<or> (\<exists>c \<in> set WEB_DIR_CANDIDATES. c \<in> web_dirs_with_index sig \<and> detect sig = detection_sub c)"
proof -
  have fw: "\<exists>c \<in> set WEB_DIR_CANDIDATES. c \<in> web_dirs_with_index sig \<and> d = detection_sub c"
    if "match_framework sig rules = Some d" "set rules \<subseteq> set PUBLIC_FRAMEWORKS \<union> set OTHER_FRAMEWORKS" for rules d
    using match_framework_Some [OF that(1)] that(2) framework_dirs by blast
  have dru: "d = detection_root \<or> (\<exists>c \<in> set WEB_DIR_CANDIDATES. c \<in> web_dirs_with_index sig \<and> d = detection_sub c)"
    if "detect_drupal sig = Some d" for d
    using that by (auto simp: detect_drupal_def WEB_DIR_CANDIDATES_def split: if_splits)
  have cand: "c \<in> set WEB_DIR_CANDIDATES \<and> c \<in> web_dirs_with_index sig"
    if "find (\<lambda>c. c \<in> web_dirs_with_index sig) WEB_DIR_CANDIDATES = Some c" for c
    using that by (auto simp: find_Some_iff)
  show ?thesis
    using fw [of PUBLIC_FRAMEWORKS] fw [of OTHER_FRAMEWORKS] dru cand
    unfolding detect_def by (auto split: option.split)
qed

lemma candidates_safe: "c \<in> set WEB_DIR_CANDIDATES \<Longrightarrow> is_safe_relative c \<and> c \<noteq> []"
proof -
  have "list_all (\<lambda>c. is_safe_relative c \<and> c \<noteq> []) WEB_DIR_CANDIDATES" by code_simp
  then show "c \<in> set WEB_DIR_CANDIDATES \<Longrightarrow> ?thesis" by (simp add: list_all_iff)
qed

lemma is_safe_relative_Nil: "is_safe_relative []"
  by code_simp

lemma detect_safe: "is_safe_relative (det_subpath (detect sig))"
  using detect_cases [of sig] candidates_safe is_safe_relative_Nil
  by (auto simp: detection_root_def detection_unresolved_def detection_sub_def)

text \<open>Without confidence nothing that the scan knows of is there.\<close>

lemma detect_unresolved_no_evidence:
  assumes "\<not> det_resolved (detect sig)"
  shows "det_subpath (detect sig) = [] \<and> set WEB_DIR_CANDIDATES \<inter> web_dirs_with_index sig = {}
    \<and> ''index.php'' \<notin> markers sig \<and> ''wp-config.php'' \<notin> markers sig \<and> ''wp-load.php'' \<notin> markers sig"
proof -
  have m: "match_framework sig rules = Some d \<Longrightarrow> det_resolved d" for rules d
    by (auto simp: match_framework_def detection_sub_def)
  have dru: "detect_drupal sig = Some d \<Longrightarrow> det_resolved d" for d
    by (auto simp: detect_drupal_def detection_sub_def detection_root_def split: if_splits)
  have none: "match_framework sig PUBLIC_FRAMEWORKS = None" "detect_drupal sig = None"
      "match_framework sig OTHER_FRAMEWORKS = None"
    using assms m dru unfolding detect_def by (auto split: option.splits)
  have cand: "find (\<lambda>c. c \<in> web_dirs_with_index sig) WEB_DIR_CANDIDATES = None"
    using assms none unfolding detect_def
    by (auto simp: detection_sub_def detection_root_def split: option.splits if_splits)
  then have "set WEB_DIR_CANDIDATES \<inter> web_dirs_with_index sig = {}"
    by (auto simp: find_None_iff)
  then show ?thesis
    using assms none cand unfolding detect_def
    by (simp add: detection_root_def detection_unresolved_def split: if_splits)
qed



text \<open>A disk that holds nothing, and one with a \<open>public\<close> directory that has an index file.\<close>

definition empty_disk :: filesystem where
  "empty_disk =
     \<lparr>fs_exists = (\<lambda>_. False), fs_is_file = (\<lambda>_. False), fs_is_dir = (\<lambda>_. False),
      fs_canonicalize = (\<lambda>_. Err ''not found''), fs_read_dir = (\<lambda>_. Err DirNotFound),
      fs_composer = (\<lambda>_. []), fs_modified = (\<lambda>_. None)\<rparr>"

definition public_disk :: filesystem where
  "public_disk = empty_disk\<lparr>fs_is_file := (\<lambda>p. p = ''/srv/app/public/index.php''), fs_modified := (\<lambda>_. Some 7)\<rparr>"


section \<open>The cache is transparent\<close>

text \<open>A run of queries against a disk that may change between them.\<close>

fun run_detect :: "(filesystem \<times> path) list \<Rightarrow> detect_cache \<Rightarrow> detection list" where
  "run_detect [] cache = []"
| "run_detect ((fs, root) # qs) cache =
     (case cache_detect fs root cache of (d, cache') \<Rightarrow> d # run_detect qs cache')"

text \<open>Every entry is what some query of the run saw under the stamp it stores.\<close>

definition cache_from :: "(filesystem \<times> path) set \<Rightarrow> detect_cache \<Rightarrow> bool" where
  "cache_from Q cache \<longleftrightarrow>
     (\<forall>root stamp d. hm_get cache root = Some (stamp, d) \<longrightarrow>
        (\<exists>fs. (fs, root) \<in> Q \<and> freshness_stamp fs root = Some stamp \<and> d = detect (gather_project_signals fs root)))"

definition stamps_tell :: "(filesystem \<times> path) set \<Rightarrow> bool" where
  "stamps_tell Q \<longleftrightarrow>
     (\<forall>fs fs' root stamp. (fs, root) \<in> Q \<longrightarrow> (fs', root) \<in> Q \<longrightarrow>
        freshness_stamp fs root = Some stamp \<longrightarrow> freshness_stamp fs' root = Some stamp \<longrightarrow>
        gather_project_signals fs root = gather_project_signals fs' root)"

lemma cache_detect_step:
  assumes "cache_from Q cache" "stamps_tell Q" "(fs, root) \<in> Q"
  shows "fst (cache_detect fs root cache) = detect (gather_project_signals fs root)
    \<and> cache_from Q (snd (cache_detect fs root cache))"
proof (cases "freshness_stamp fs root")
  case None
  with assms(1) show ?thesis by (simp add: cache_detect_def Let_def)
next
  case (Some stamp)
  let ?fresh = "detect (gather_project_signals fs root)"
  have new: "cache_from Q (hm_insert root (stamp, ?fresh) cache)"
    using assms(1,3) Some by (auto simp: cache_from_def)
  show ?thesis
  proof (cases "\<exists>d. hm_get cache root = Some (stamp, d)")
    case True
    then obtain d where d: "hm_get cache root = Some (stamp, d)" by blast
    then obtain fs' where "(fs', root) \<in> Q" "freshness_stamp fs' root = Some stamp"
        "d = detect (gather_project_signals fs' root)"
      using assms(1) unfolding cache_from_def by blast
    moreover from this have "gather_project_signals fs root = gather_project_signals fs' root"
      using assms(2,3) Some unfolding stamps_tell_def by blast
    ultimately show ?thesis
      using assms(1) Some d by (simp add: cache_detect_def Let_def)
  next
    case False
    then show ?thesis
      using new Some by (auto simp: cache_detect_def Let_def split: option.split)
  qed
qed

lemma run_detect_fresh:
  assumes "stamps_tell Q" "set qs \<subseteq> Q" "cache_from Q cache"
  shows "run_detect qs cache = map (\<lambda>(fs, root). detect (gather_project_signals fs root)) qs"
  using assms(2,3)
proof (induction qs arbitrary: cache)
  case (Cons q qs)
  obtain fs root where q: "q = (fs, root)" by fastforce
  have "fst (cache_detect fs root cache) = detect (gather_project_signals fs root)"
      "cache_from Q (snd (cache_detect fs root cache))"
    using cache_detect_step [OF Cons.prems(2) assms(1), of fs root] Cons.prems(1) q by auto
  with Cons show ?case by (simp add: q case_prod_unfold)
qed simp



text \<open>
  The proviso is needed: an index file created inside a directory that already exists changes the
  signals of the project and neither of the two modification times, and the cache answers as before.
\<close>

lemma stale_cache:
  "run_detect [(public_disk\<lparr>fs_is_file := (\<lambda>_. False)\<rparr>, ''/srv/app''), (public_disk, ''/srv/app'')] hm_empty
     = [detection_unresolved, detection_unresolved]
   \<and> detect (gather_project_signals public_disk ''/srv/app'') = detection_sub ''public''"
  by code_simp

end
