(* ===== verification/Line_File.thy ===== *)
theory Line_File
  imports Rust_Str
begin

text \<open>
  Generated configuration files: one line per accepted entry. The locale \<open>line_file\<close> is the
  contract of such a renderer (an accepted entry is one line, and reading that line gives the
  entry's payload back); in it the whole file is shown to read back as exactly the accepted
  entries, so no value can open a line of its own or change another entry. Every renderer of the
  sources is an interpretation.
\<close>

definition render_lines :: "('e \<Rightarrow> bool) \<Rightarrow> ('e \<Rightarrow> string) \<Rightarrow> 'e list \<Rightarrow> string" where
  "render_lines accepted line es = concat (map (\<lambda>e. line e @ [LF]) (filter accepted es))"

text \<open>The lines of a file whose every line is terminated.\<close>

definition file_lines :: "string \<Rightarrow> string list" where
  "file_lines s = butlast (split_on LF s)"

text \<open>How an ini reader takes a line apart: name, equals sign, value, blanks around both.\<close>

definition ini_read :: "string \<Rightarrow> (string \<times> string) option" where
  "ini_read l = map_option (\<lambda>(n, v). (trim n, trim v)) (split_once (CHR ''='') l)"

lemma file_lines_Cons:
  assumes "LF \<notin> set l"
  shows "file_lines (l @ LF # rest) = l # file_lines rest"
  using assms by (simp add: file_lines_def split_on_append_sep)

lemma file_lines_Nil [simp]: "file_lines [] = []"
  by (simp add: file_lines_def)

locale line_file =
  fixes accepted :: "'e \<Rightarrow> bool"
    and line :: "'e \<Rightarrow> string"
    and read :: "string \<Rightarrow> 'p option"
    and payload :: "'e \<Rightarrow> 'p"
  assumes one_line: "accepted e \<Longrightarrow> LF \<notin> set (line e)"
    and reads_back: "accepted e \<Longrightarrow> read (line e) = Some (payload e)"
begin

lemma lines_of_file: "file_lines (render_lines accepted line es) = map line (filter accepted es)"
  by (induction es) (simp_all add: render_lines_def file_lines_Cons one_line)

lemma file_reads_back:
  "map read (file_lines (render_lines accepted line es)) = map (\<lambda>e. Some (payload e)) (filter accepted es)"
  unfolding lines_of_file map_map comp_def by (rule map_cong [OF refl]) (simp add: reads_back)

end

section \<open>Characters that would break a line\<close>

text \<open>\<open>chars().any(|c| c.is_control() || matches!(c, ...))\<close> with ASCII characters listed.\<close>

definition has_illegal :: "string \<Rightarrow> string \<Rightarrow> bool" where
  "has_illegal metas v \<longleftrightarrow> list_ex (\<lambda>c. is_control c \<or> c \<in> set (map (\<lambda>m. [m]) metas)) (utf8_chars v)"

lemma has_illegal_control: "\<not> has_illegal metas v \<Longrightarrow> \<not> any_control v"
  by (auto simp: has_illegal_def any_control_def list_ex_iff)

lemma has_illegal_meta:
  assumes "\<not> has_illegal metas v" "m \<in> set metas" "is_ascii m"
  shows "m \<notin> set v"
proof
  assume "m \<in> set v"
  then have "[m] \<in> set (utf8_chars v)"
    using assms(3) by (rule utf8_chars_ascii_byte)
  then show False
    using assms(1,2) unfolding has_illegal_def list_ex_iff by auto
qed

lemma has_illegal_LF:
  assumes "\<not> has_illegal metas v"
  shows "LF \<notin> set v"
proof
  assume "LF \<in> set v"
  then have "32 \<le> code LF"
    using no_control_byte [OF has_illegal_control [OF assms]] by blast
  then show False by simp
qed

text \<open>A name made of the bytes the name validators accept.\<close>

definition name_byte :: "char \<Rightarrow> bool" where
  "name_byte b \<longleftrightarrow> is_ascii_alphanumeric b \<or> b \<in> {CHR ''.'', CHR ''_'', CHR ''-''}"

lemma name_byte_code: "name_byte b \<Longrightarrow> code b \<in> {45, 46, 95} \<union> {48..57} \<union> {65..90} \<union> {97..122}"
  by (auto simp: name_byte_def byte_class_defs)

lemma name_byte_facts:
  assumes "name_byte b"
  shows "is_ascii b" "b \<noteq> LF" "b \<noteq> CHR ''=''" "b \<noteq> CHR 0x20" "\<not> is_whitespace [b]"
  using name_byte_code [OF assms] by (auto simp: is_ascii_def)

lemma name_bytes_trim:
  assumes "n \<noteq> []" "\<forall>b \<in> set n. name_byte b"
  shows "trim n = n" "trim (n @ '' '') = n"
proof -
  have chars: "utf8_chars n = map (\<lambda>c. [c]) n" "utf8_chars (n @ '' '') = map (\<lambda>c. [c]) n @ [[CHR 0x20]]"
    using assms(2) name_byte_facts(1) by (auto simp: utf8_chars_ascii is_ascii_def)
  have "dropWhile is_whitespace (map (\<lambda>c. [c]) n) = map (\<lambda>c. [c]) n"
    "dropWhile is_whitespace (rev (map (\<lambda>c. [c]) n)) = rev (map (\<lambda>c. [c]) n)"
    using assms name_byte_facts(5) by (auto simp: dropWhile_eq_self_iff hd_map hd_rev last_map)
  moreover have "dropWhile is_whitespace (map (\<lambda>c. [c]) n @ [[CHR 0x20]]) = map (\<lambda>c. [c]) n @ [[CHR 0x20]]"
    using assms name_byte_facts(5) by (auto simp: dropWhile_eq_self_iff hd_map)
  ultimately show "trim n = n" "trim (n @ '' '') = n"
    unfolding trim_def chars by simp_all
qed

text \<open>A \<open>name = value\<close> line reads back, whatever the value holds after the first equals sign.\<close>

lemma ini_read_line:
  assumes "n \<noteq> []" "\<forall>b \<in> set n. name_byte b"
  shows "ini_read (n @ '' = '' @ v) = Some (n, trim v)"
proof -
  have "CHR ''='' \<notin> set (n @ '' '')"
    using assms name_byte_facts(3) by auto
  from split_once_append [OF this, of "'' '' @ v"]
  have "split_once (CHR ''='') (n @ '' = '' @ v) = Some (n @ '' '', CHR 0x20 # v)"
    by simp
  then show ?thesis
    using name_bytes_trim [OF assms] by (simp add: ini_read_def)
qed

end
