(* ===== verification/Php_Settings.thy ===== *)
theory Php_Settings
  imports Line_File Rust_Map Unix_Path
begin

text \<open>
  \<open>crates/yerd-core/src/php_settings.rs\<close>: the PHP settings yerd manages, their validation, and the
  ini text rendered from them. A path's \<open>to_str\<close> is the path itself, strings being UTF-8.
\<close>

definition settings_max_value_len :: nat where
  "settings_max_value_len = 256"

datatype setting_kind = Bytes bool | IntKind | Flag | ErrorReporting

record setting_spec =
  spec_name :: string
  spec_kind :: setting_kind
  spec_default :: string
  spec_cli :: bool

definition SETTINGS :: "setting_spec list" where
  "SETTINGS =
     [\<lparr>spec_name = ''memory_limit'', spec_kind = Bytes True, spec_default = ''512M'', spec_cli = True\<rparr>,
      \<lparr>spec_name = ''max_execution_time'', spec_kind = IntKind, spec_default = ''60'', spec_cli = True\<rparr>,
      \<lparr>spec_name = ''max_input_time'', spec_kind = IntKind, spec_default = ''60'', spec_cli = False\<rparr>,
      \<lparr>spec_name = ''max_file_uploads'', spec_kind = IntKind, spec_default = ''20'', spec_cli = False\<rparr>,
      \<lparr>spec_name = ''upload_max_filesize'', spec_kind = Bytes False, spec_default = ''100M'', spec_cli = False\<rparr>,
      \<lparr>spec_name = ''post_max_size'', spec_kind = Bytes False, spec_default = ''100M'', spec_cli = False\<rparr>,
      \<lparr>spec_name = ''display_errors'', spec_kind = Flag, spec_default = ''On'', spec_cli = True\<rparr>,
      \<lparr>spec_name = ''error_reporting'', spec_kind = ErrorReporting, spec_default = ''E_ALL'', spec_cli = True\<rparr>]"

definition setting_spec_for :: "string \<Rightarrow> setting_spec option" where
  "setting_spec_for name = find (\<lambda>s. spec_name s = name) SETTINGS"

definition is_supported :: "string \<Rightarrow> bool" where
  "is_supported name \<longleftrightarrow> is_some (setting_spec_for name)"

definition supported_names :: "string list" where
  "supported_names = map spec_name SETTINGS"

definition default_settings :: "(string \<times> string) list" where
  "default_settings = map (\<lambda>s. (spec_name s, spec_default s)) SETTINGS"

definition applies_to_cli :: "string \<Rightarrow> bool" where
  "applies_to_cli name \<longleftrightarrow> (case setting_spec_for name of Some s \<Rightarrow> spec_cli s | None \<Rightarrow> False)"

datatype value_error_reason =
  ValueEmpty | ValueTooLong | ValueIllegalCharacter | NotAByteSize | NotAnInteger | NotABoolean | NotErrorReporting

fun show_value_error_reason :: "value_error_reason \<Rightarrow> string" where
  "show_value_error_reason ValueEmpty = ''value must not be empty''"
| "show_value_error_reason ValueTooLong = ''value is too long''"
| "show_value_error_reason ValueIllegalCharacter =
     ''value contains a control or reserved character ([ ] = ; #)''"
| "show_value_error_reason NotAByteSize = ''expected a byte size like 256M, 1G, or -1''"
| "show_value_error_reason NotAnInteger = ''expected a non-negative integer''"
| "show_value_error_reason NotABoolean = ''expected On or Off''"
| "show_value_error_reason NotErrorReporting =
     ''expected an integer or a constant like E_ALL & ~E_DEPRECATED''"

datatype php_setting_error = Unsupported string | InvalidValue string value_error_reason

section \<open>Value shapes\<close>

definition is_byte_size :: "string \<Rightarrow> bool \<Rightarrow> bool" where
  "is_byte_size s allow_unlimited \<longleftrightarrow>
     (if allow_unlimited \<and> s = ''-1'' then True
      else (let digits = (if s \<noteq> [] \<and> last s \<in> set ''KMGkmg'' then butlast s else s)
            in digits \<noteq> [] \<and> list_all is_ascii_digit digits))"

definition is_uint :: "string \<Rightarrow> bool" where
  "is_uint s \<longleftrightarrow> s \<noteq> [] \<and> list_all is_ascii_digit s"

definition parse_flag :: "string \<Rightarrow> bool option" where
  "parse_flag s =
     (let l = to_ascii_lowercase s
      in if l \<in> {''on'', ''1'', ''true''} then Some True
         else if l \<in> {''off'', ''0'', ''false''} then Some False
         else None)"

text \<open>A predicate on a character that holds of ASCII characters only.\<close>

definition ascii_char :: "(char \<Rightarrow> bool) \<Rightarrow> string \<Rightarrow> bool" where
  "ascii_char P w \<longleftrightarrow> (case w of [b] \<Rightarrow> is_ascii b \<and> P b | _ \<Rightarrow> False)"

definition is_error_reporting :: "string \<Rightarrow> bool" where
  "is_error_reporting s \<longleftrightarrow>
     list_ex (\<lambda>w. \<not> is_whitespace w) (utf8_chars s)
     \<and> list_all (ascii_char (\<lambda>c. is_ascii_alphanumeric c \<or> c \<in> set ''_ &|~^()-'')) (utf8_chars s)"

section \<open>Validation\<close>

definition value_shape_ok :: "setting_kind \<Rightarrow> string \<Rightarrow> bool" where
  "value_shape_ok k t \<longleftrightarrow>
     (case k of
        Bytes allow_unlimited \<Rightarrow> is_byte_size t allow_unlimited
      | IntKind \<Rightarrow> is_uint t
      | Flag \<Rightarrow> is_some (parse_flag t)
      | ErrorReporting \<Rightarrow> is_error_reporting t)"

definition settings_validate_value :: "string \<Rightarrow> string \<Rightarrow> (php_setting_error, unit) result" where
  "settings_validate_value name val =
     (case setting_spec_for name of
        None \<Rightarrow> Err (Unsupported name)
      | Some spec \<Rightarrow>
          if val = [] \<or> all_whitespace val then Err (InvalidValue name ValueEmpty)
          else if length val > settings_max_value_len then Err (InvalidValue name ValueTooLong)
          else if has_illegal ''[]=;#'' val then Err (InvalidValue name ValueIllegalCharacter)
          else if value_shape_ok (spec_kind spec) (trim val) then Ok ()
          else Err (InvalidValue name
                 (case spec_kind spec of
                    Bytes _ \<Rightarrow> NotAByteSize | IntKind \<Rightarrow> NotAnInteger
                  | Flag \<Rightarrow> NotABoolean | ErrorReporting \<Rightarrow> NotErrorReporting)))"

definition canonical_value :: "string \<Rightarrow> string \<Rightarrow> string" where
  "canonical_value name val =
     (case map_option spec_kind (setting_spec_for name) of
        Some Flag \<Rightarrow>
          (case parse_flag (trim val) of
             Some True \<Rightarrow> ''On''
           | Some False \<Rightarrow> ''Off''
           | None \<Rightarrow> trim val)
      | _ \<Rightarrow> trim val)"

definition setting_directive :: "string \<Rightarrow> string option" where
  "setting_directive name =
     map_option (\<lambda>s. case spec_kind s of Flag \<Rightarrow> ''php_flag'' | _ \<Rightarrow> ''php_value'') (setting_spec_for name)"

section \<open>Rendering\<close>

type_synonym string_map = "(string, string) btree_map"

text \<open>One entry of the loop over \<open>SETTINGS\<close>: whether it is written, and its line.\<close>

definition cli_entry_ok :: "string_map \<Rightarrow> setting_spec \<Rightarrow> bool" where
  "cli_entry_ok settings s \<longleftrightarrow>
     spec_cli s \<and> (case bt_get settings (spec_name s) of
                     Some raw \<Rightarrow> is_ok (settings_validate_value (spec_name s) raw)
                   | None \<Rightarrow> False)"

definition cli_entry_line :: "string_map \<Rightarrow> setting_spec \<Rightarrow> string" where
  "cli_entry_line settings s =
     spec_name s @ '' = '' @
     canonical_value (spec_name s) (case bt_get settings (spec_name s) of Some raw \<Rightarrow> raw | None \<Rightarrow> [])"

definition render_cli_ini :: "string_map \<Rightarrow> string" where
  "render_cli_ini settings = render_lines (cli_entry_ok settings) (cli_entry_line settings) SETTINGS"

definition ext_line_ok :: "string \<times> bool \<Rightarrow> bool" where
  "ext_line_ok e \<longleftrightarrow> \<not> has_illegal [CHR 0x22, CHR 0x00] (fst e)"

definition ext_line :: "string \<times> bool \<Rightarrow> string" where
  "ext_line e =
     (if snd e then ''zend_extension'' else ''extension'') @ '' = '' @ [CHR 0x22] @ fst e @ [CHR 0x22]"

definition render_cli_ini_with_ext :: "string_map \<Rightarrow> (string \<times> bool) list \<Rightarrow> string" where
  "render_cli_ini_with_ext settings extensions =
     render_cli_ini settings @ render_lines ext_line_ok ext_line extensions"

definition sanitize_ca_bundle_path :: "path \<Rightarrow> string option" where
  "sanitize_ca_bundle_path p = (if has_illegal '';#'' p then None else Some p)"

definition render_cover_ini :: "string \<Rightarrow> path \<Rightarrow> string option" where
  "render_cover_ini base pcov_so =
     (case sanitize_ca_bundle_path pcov_so of
        None \<Rightarrow> None
      | Some p \<Rightarrow>
          Some ((if base \<noteq> [] \<and> \<not> ends_with [LF] base then base @ [LF] else base)
                @ ''extension = '' @ p @ [LF] @ ''pcov.enabled = 1'' @ [LF]))"

definition merge_effective :: "string_map \<Rightarrow> string_map \<Rightarrow> string_map" where
  "merge_effective global overrides =
     bt_collect (filter (\<lambda>(k, _). is_supported k) (global @ overrides))"

section \<open>What the rendered text says\<close>

lemma setting_spec_for_Some:
  assumes "setting_spec_for name = Some s"
  shows "s \<in> set SETTINGS \<and> spec_name s = name"
  using assms by (auto simp: setting_spec_for_def find_Some_iff)

lemma setting_names_plain: "s \<in> set SETTINGS \<Longrightarrow> spec_name s \<noteq> [] \<and> (\<forall>b \<in> set (spec_name s). name_byte b)"
proof -
  have "list_all (\<lambda>s. spec_name s \<noteq> [] \<and> list_all name_byte (spec_name s)) SETTINGS"
    by code_simp
  then show "s \<in> set SETTINGS \<Longrightarrow> ?thesis"
    by (simp add: list_all_iff)
qed

lemma has_illegal_trim: "has_illegal metas (trim v) \<Longrightarrow> has_illegal metas v"
proof -
  have "set (utf8_chars (trim v)) \<subseteq> set (utf8_chars v)"
    unfolding utf8_chars_trim by (auto dest!: set_dropWhileD)
  then show "has_illegal metas (trim v) \<Longrightarrow> has_illegal metas v"
    unfolding has_illegal_def list_ex_iff by blast
qed

lemma validated_value:
  assumes "settings_validate_value name v = Ok ()"
  obtains s where "setting_spec_for name = Some s" "\<not> all_whitespace v" "length v \<le> settings_max_value_len"
    "\<not> has_illegal ''[]=;#'' v" "value_shape_ok (spec_kind s) (trim v)"
  using assms by (auto simp: settings_validate_value_def split: option.splits if_splits)

lemma canonical_value_cases:
  "canonical_value name v = trim v \<or>
     (\<exists>s. setting_spec_for name = Some s \<and> spec_kind s = Flag \<and> canonical_value name v \<in> {''On'', ''Off''})"
  by (auto simp: canonical_value_def split: option.split setting_kind.split bool.split)

lemma on_off_trim: "w \<in> {''On'', ''Off''} \<Longrightarrow> trim w = w"
proof -
  have "trim ''On'' = ''On''" "trim ''Off'' = ''Off''"
    by code_simp+
  then show "w \<in> {''On'', ''Off''} \<Longrightarrow> trim w = w"
    by blast
qed

lemma on_off_valid:
  "list_all (\<lambda>w. parse_flag w = Some (w = ''On'') \<and> \<not> all_whitespace w \<and> \<not> has_illegal ''[]=;#'' w
      \<and> w \<noteq> [] \<and> length w \<le> settings_max_value_len \<and> trim w = w) [''On'', ''Off'']"
  by code_simp

lemma trim_canonical [simp]: "trim (canonical_value name v) = canonical_value name v"
  using canonical_value_cases [of name v] on_off_trim by (metis trim_trim)

lemma LF_canonical:
  assumes "settings_validate_value name v = Ok ()"
  shows "LF \<notin> set (canonical_value name v)"
proof -
  have "LF \<notin> set v"
    using assms by (elim validated_value) (rule has_illegal_LF)
  then have "LF \<notin> set (trim v)"
    using set_trim_subset by blast
  then show ?thesis
    using canonical_value_cases [of name v] by auto
qed

text \<open>The canonical form is accepted again and is its own canonical form.\<close>

lemma canonical_value_valid:
  assumes "settings_validate_value name v = Ok ()"
  shows "settings_validate_value name (canonical_value name v) = Ok ()
    \<and> canonical_value name (canonical_value name v) = canonical_value name v"
proof -
  obtain s where s: "setting_spec_for name = Some s" "\<not> all_whitespace v"
      "length v \<le> settings_max_value_len" "\<not> has_illegal ''[]=;#'' v" "value_shape_ok (spec_kind s) (trim v)"
    using assms by (rule validated_value)
  have t: "trim v \<noteq> []" "\<not> all_whitespace (trim v)" "length (trim v) \<le> settings_max_value_len"
      "\<not> has_illegal ''[]=;#'' (trim v)"
    using s trim_Nil_iff [of v] trim_Nil_iff [of "trim v"] length_trim_le [of v] has_illegal_trim
    by (simp, simp, linarith, blast)
  show ?thesis
  proof (cases "spec_kind s = Flag")
    case True
    then obtain b where b: "parse_flag (trim v) = Some b"
      using s(5) by (cases "parse_flag (trim v)") (auto simp: value_shape_ok_def)
    show ?thesis
      using s(1) True b on_off_valid
      by (cases b) (simp_all add: canonical_value_def settings_validate_value_def value_shape_ok_def)
  next
    case False
    then have "canonical_value name w = trim w" for w
      using s(1) by (simp add: canonical_value_def split: setting_kind.split)
    then show ?thesis
      using s(1,5) t by (simp add: settings_validate_value_def)
  qed
qed

interpretation cli_ini: line_file "\<lambda>s. s \<in> set SETTINGS \<and> cli_entry_ok settings s" "cli_entry_line settings" ini_read
    "\<lambda>s. (spec_name s, canonical_value (spec_name s) (the (bt_get settings (spec_name s))))"
  for settings
proof
  fix s
  assume s: "s \<in> set SETTINGS \<and> cli_entry_ok settings s"
  then obtain raw where raw: "bt_get settings (spec_name s) = Some raw"
      "settings_validate_value (spec_name s) raw = Ok ()"
    by (auto simp: cli_entry_ok_def is_ok_iff split: option.splits)
  note n = setting_names_plain [of s]
  show "LF \<notin> set (cli_entry_line settings s)"
    using s n name_byte_facts(2) LF_canonical [OF raw(2)] raw(1) by (auto simp: cli_entry_line_def)
  show "ini_read (cli_entry_line settings s) =
      Some (spec_name s, canonical_value (spec_name s) (the (bt_get settings (spec_name s))))"
    using s n raw(1) ini_read_line [of "spec_name s" "canonical_value (spec_name s) raw"]
    by (simp add: cli_entry_line_def)
qed

lemma render_cli_ini_members:
  "render_cli_ini settings =
     render_lines (\<lambda>s. s \<in> set SETTINGS \<and> cli_entry_ok settings s) (cli_entry_line settings) SETTINGS"
  by (simp add: render_cli_ini_def render_lines_def cong: filter_cong)

lemma bt_get_merge_effective:
  assumes "bt_inv global" "bt_inv overrides"
  shows "bt_get (merge_effective global overrides) k =
    (if is_supported k then (case bt_get overrides k of Some v \<Rightarrow> Some v | None \<Rightarrow> bt_get global k) else None)"
proof -
  have f: "map_of (filter (\<lambda>(k, _). is_supported k) m) k = (if is_supported k then map_of m k else None)"
    for m :: string_map
    by (induction m) auto
  have r: "map_of (rev m) k = map_of m k" if "bt_inv m" for m :: string_map
    using bt_inv_distinct [OF that] by (metis distinct_rev map_of_inject_set rev_map set_rev)
  show ?thesis
    unfolding merge_effective_def bt_get_collect rev_filter rev_append f map_of_append
    using r assms by (auto simp: map_add_def bt_get_def split: option.split)
qed

text \<open>
  The ini text for the command line says exactly what the effective settings say. For every pair
  of stored maps, the merged settings take the per-version value over the global one and hold only
  supported names; and the rendered text, read line by line as an ini file, is exactly the list of
  supported command-line settings whose value validates, in declaration order, each with its canonical
  value. No value can add a line, a section or a second assignment, and each written value is itself
  valid and canonical.
\<close>

theorem cli_ini_faithful:
  assumes "bt_inv global" "bt_inv overrides"
  defines "eff \<equiv> merge_effective global overrides"
  shows "map ini_read (file_lines (render_cli_ini eff)) =
      map (\<lambda>s. Some (spec_name s, canonical_value (spec_name s) (the (bt_get eff (spec_name s)))))
        (filter (cli_entry_ok eff) SETTINGS)
    \<and> (\<forall>k. bt_get eff k = (if is_supported k
          then (case bt_get overrides k of Some v \<Rightarrow> Some v | None \<Rightarrow> bt_get global k) else None))
    \<and> (\<forall>n v. (n, v) \<in> set (List.map_filter ini_read (file_lines (render_cli_ini eff))) \<longrightarrow>
          settings_validate_value n v = Ok () \<and> canonical_value n v = v)"
proof -
  have read: "map ini_read (file_lines (render_cli_ini eff)) =
      map (\<lambda>s. Some (spec_name s, canonical_value (spec_name s) (the (bt_get eff (spec_name s)))))
        (filter (cli_entry_ok eff) SETTINGS)"
    unfolding render_cli_ini_members cli_ini.file_reads_back by (simp cong: filter_cong)
  have "settings_validate_value n v = Ok () \<and> canonical_value n v = v"
    if "Some (n, v) \<in> set (map ini_read (file_lines (render_cli_ini eff)))" for n v
    using that canonical_value_valid unfolding read
    by (auto simp: cli_entry_ok_def is_ok_iff split: option.splits)
  moreover have "Some x \<in> set (map f xs)" if "x \<in> set (List.map_filter f xs)" for f :: "string \<Rightarrow> (string \<times> string) option" and x xs
    using that by (force simp: List.map_filter_def)
  ultimately show ?thesis
    using read bt_get_merge_effective [OF assms(1,2)] unfolding eff_def by blast
qed

theorem cli_ini_faithful_witness:
  "bt_inv [(''display_errors'', ''On''), (''memory_limit'', ''256M'')] \<and> bt_inv [(''display_errors'', '' off '')]
   \<and> file_lines (render_cli_ini (merge_effective
        [(''display_errors'', ''On''), (''memory_limit'', ''256M'')] [(''display_errors'', '' off '')])) =
      [''memory_limit = 256M'', ''display_errors = Off'']
   \<and> map ini_read (file_lines (render_cli_ini (merge_effective
        [(''display_errors'', ''On''), (''memory_limit'', ''256M'')] [(''display_errors'', '' off '')]))) =
      [Some (''memory_limit'', ''256M''), Some (''display_errors'', ''Off'')]"
proof -
  let ?g = "[(''display_errors'', ''On''), (''memory_limit'', ''256M'')]" and ?o = "[(''display_errors'', '' off '')]"
  have inv: "bt_inv ?g" "bt_inv ?o"
    by (simp_all add: bt_inv_def)
  have "map (\<lambda>s. Some (spec_name s, canonical_value (spec_name s) (the (bt_get (merge_effective ?g ?o) (spec_name s)))))
        (filter (cli_entry_ok (merge_effective ?g ?o)) SETTINGS) =
      [Some (''memory_limit'', ''256M''), Some (''display_errors'', ''Off'')]"
    by code_simp
  moreover have "file_lines (render_cli_ini (merge_effective ?g ?o)) = [''memory_limit = 256M'', ''display_errors = Off'']"
    by code_simp
  ultimately show ?thesis
    using cli_ini_faithful [OF inv] inv by metis
qed

end
