(* ===== verification/Config_Schema.thy ===== *)
theory Config_Schema
  imports Upstream Route_Rule Rust_Map Php_Settings
begin

text \<open>
  \<open>crates/yerd-config/src/schema.rs\<close>: the configuration. Every section is a record, \<open>Config\<close> the
  record of sections. A \<open>Tld\<close> is its string, a port a 16-bit word. A \<open>BTreeSet\<close> is a map to unit.
\<close>

type_synonym 'k btree_set = "('k, unit) btree_map"

definition CURRENT_VERSION :: nat where "CURRENT_VERSION = 23"

definition DEFAULT_DNS_PORT :: u16 where "DEFAULT_DNS_PORT = 1053"
definition DEFAULT_UPDATE_CHANNEL :: string where "DEFAULT_UPDATE_CHANNEL = ''stable''"
definition UPDATE_CHANNELS :: "string list" where "UPDATE_CHANNELS = [''stable'', ''edge'']"
definition DEFAULT_SYMLINK_PROTECTION :: bool where "DEFAULT_SYMLINK_PROTECTION = True"
definition DEFAULT_MCP_ENABLED :: bool where "DEFAULT_MCP_ENABLED = False"
definition DEFAULT_LAN_ENABLED :: bool where "DEFAULT_LAN_ENABLED = False"
definition DEFAULT_LAN_SETUP_PORT :: u16 where "DEFAULT_LAN_SETUP_PORT = 7073"
definition FIRST_UNPRIVILEGED_PORT :: u16 where "FIRST_UNPRIVILEGED_PORT = 1024"
definition DEFAULT_DUMP_PORT :: u16 where "DEFAULT_DUMP_PORT = 2304"
definition DEFAULT_MAIL_PORT :: u16 where "DEFAULT_MAIL_PORT = 2525"
definition RESERVED_GROUP_NAME :: string where "RESERVED_GROUP_NAME = ''Unallocated''"

section \<open>Rules and domains\<close>

record proxy_rules_section =
  prs_linked :: "(string, proxy_rule list) btree_map"
  prs_parked :: "(string, proxy_rule list) btree_map"

definition proxy_rules_is_empty :: "proxy_rules_section \<Rightarrow> bool" where
  "proxy_rules_is_empty s \<longleftrightarrow> list_all (\<lambda>rs. rs = []) (bt_values (prs_linked s) @ bt_values (prs_parked s))"

record route_rules_section =
  rrs_linked :: "(string, route_rule list) btree_map"
  rrs_parked :: "(string, route_rule list) btree_map"

definition route_rules_is_empty :: "route_rules_section \<Rightarrow> bool" where
  "route_rules_is_empty s \<longleftrightarrow> list_all (\<lambda>rs. rs = []) (bt_values (rrs_linked s) @ bt_values (rrs_parked s))"

record domain_delta =
  added :: "domain list"
  suppressed :: "domain list"
  delta_primary :: "domain option"

definition delta_default :: domain_delta where
  "delta_default = \<lparr>added = [], suppressed = [], delta_primary = None\<rparr>"

definition delta_is_empty :: "domain_delta \<Rightarrow> bool" where
  "delta_is_empty d \<longleftrightarrow> added d = [] \<and> suppressed d = [] \<and> delta_primary d = None"

record domains_section =
  dom_linked :: "(string, domain_delta) btree_map"
  dom_parked :: "(string, domain_delta) btree_map"
  dom_proxy :: "(string, domain_delta) btree_map"

definition domains_is_empty :: "domains_section \<Rightarrow> bool" where
  "domains_is_empty s \<longleftrightarrow> dom_linked s = [] \<and> dom_parked s = [] \<and> dom_proxy s = []"

section \<open>The other sections\<close>

record groups_section =
  group_order :: "string list"
  group_members :: "(string, string) btree_map"

definition groups_is_empty :: "groups_section \<Rightarrow> bool" where
  "groups_is_empty g \<longleftrightarrow> group_order g = [] \<and> group_members g = []"

record tunnel_section =
  tunnel_named :: string_map
  tunnel_sites :: string_map

record dumps_section =
  dumps_enabled :: bool
  dumps_port :: u16
  dumps_persist :: bool
  dumps_features :: "(string, bool) btree_map"

definition dumps_default :: dumps_section where
  "dumps_default =
     \<lparr>dumps_enabled = False, dumps_port = DEFAULT_DUMP_PORT, dumps_persist = False, dumps_features = bt_empty\<rparr>"

record ports =
  http_port :: u16
  https_port :: u16
  fallback_http :: u16
  fallback_https :: u16

definition ports_well_known :: ports where
  "ports_well_known = \<lparr>http_port = 80, https_port = 443, fallback_http = 8080, fallback_https = 8443\<rparr>"

definition ports_unprivileged :: ports where
  "ports_unprivileged = \<lparr>http_port = 8080, https_port = 8443, fallback_http = 8080, fallback_https = 8443\<rparr>"

record ext_entry =
  ext_name :: string
  ext_path :: string
  ext_zend :: bool

record php_section =
  php_default :: php_version
  php_settings :: string_map
  php_extensions :: "(php_version, ext_entry list) btree_map"
  php_version_settings :: "(php_version, string_map) btree_map"
  php_directives :: "(php_version, string_map) btree_map"
  php_pool :: "(php_version, string_map) btree_map"

definition php_section_default :: php_section where
  "php_section_default =
     \<lparr>php_default = PhpVersion 8 3, php_settings = bt_collect default_settings,
      php_extensions = bt_empty, php_version_settings = bt_empty, php_directives = bt_empty, php_pool = bt_empty\<rparr>"

record parked_section =
  parked_paths :: "string btree_set"

record site_override =
  ov_php :: "php_version option"
  ov_secure :: "bool option"
  ov_web_root :: "string option"
  ov_wp_auto_login :: "bool option"
  ov_wp_auto_login_user :: "string option"
  ov_front_controller :: "bool option"

definition override_default :: site_override where
  "override_default =
     \<lparr>ov_php = None, ov_secure = None, ov_web_root = None, ov_wp_auto_login = None,
      ov_wp_auto_login_user = None, ov_front_controller = None\<rparr>"

record service_instance =
  inst_version :: "string option"
  inst_port :: "u16 option"
  inst_site :: "string option"
  inst_enabled :: bool
  inst_overrides :: string_map

definition service_instance_default :: service_instance where
  "service_instance_default =
     \<lparr>inst_version = None, inst_port = None, inst_site = None, inst_enabled = True, inst_overrides = bt_empty\<rparr>"

record services_section =
  instances :: "(string, service_instance) btree_map"

record mail_section =
  mail_enabled :: bool
  mail_port :: u16

definition mail_default :: mail_section where
  "mail_default = \<lparr>mail_enabled = True, mail_port = DEFAULT_MAIL_PORT\<rparr>"

section \<open>The configuration\<close>

record config =
  cfg_version :: nat
  cfg_tld :: string
  cfg_dns_port :: u16
  cfg_update_channel :: string
  cfg_symlink_protection :: bool
  cfg_mcp_enabled :: bool
  cfg_lan_enabled :: bool
  cfg_lan_setup_port :: u16
  cfg_ports :: ports
  cfg_php :: php_section
  cfg_parked :: parked_section
  cfg_linked :: "site list"
  cfg_overrides :: "(string, site_override) btree_map"
  cfg_services :: services_section
  cfg_mail :: mail_section
  cfg_dumps :: dumps_section
  cfg_tunnel :: tunnel_section
  cfg_groups :: groups_section
  cfg_domains :: domains_section
  cfg_proxies :: "proxy_site list"
  cfg_proxy_rules :: proxy_rules_section
  cfg_route_rules :: route_rules_section

definition config_default_value :: config where
  "config_default_value =
     \<lparr>cfg_version = CURRENT_VERSION, cfg_tld = tld_default, cfg_dns_port = DEFAULT_DNS_PORT,
      cfg_update_channel = DEFAULT_UPDATE_CHANNEL, cfg_symlink_protection = DEFAULT_SYMLINK_PROTECTION,
      cfg_mcp_enabled = DEFAULT_MCP_ENABLED, cfg_lan_enabled = DEFAULT_LAN_ENABLED,
      cfg_lan_setup_port = DEFAULT_LAN_SETUP_PORT, cfg_ports = ports_well_known, cfg_php = php_section_default,
      cfg_parked = \<lparr>parked_paths = bt_empty\<rparr>, cfg_linked = [], cfg_overrides = bt_empty,
      cfg_services = \<lparr>instances = bt_empty\<rparr>, cfg_mail = mail_default, cfg_dumps = dumps_default,
      cfg_tunnel = \<lparr>tunnel_named = bt_empty, tunnel_sites = bt_empty\<rparr>,
      cfg_groups = \<lparr>group_order = [], group_members = bt_empty\<rparr>,
      cfg_domains = \<lparr>dom_linked = bt_empty, dom_parked = bt_empty, dom_proxy = bt_empty\<rparr>,
      cfg_proxies = [], cfg_proxy_rules = \<lparr>prs_linked = bt_empty, prs_parked = bt_empty\<rparr>,
      cfg_route_rules = \<lparr>rrs_linked = bt_empty, rrs_parked = bt_empty\<rparr>\<rparr>"

end
