(* ===== verification/Site_Domains.thy ===== *)
theory Site_Domains
  imports Router Config_Schema
begin

text \<open>
  \<open>bin/yerdd/src/site_domains.rs\<close>: how the daemon turns the scanned sites, the configured proxies
  and the stored domain deltas into a router. Log statements are left out;
  \<open>to_string_lossy\<close> of a path is the path, since strings are UTF-8 throughout.
\<close>

section \<open>Plans\<close>

record site_plan =
  sp_site :: site
  sp_effective :: "domain list"
  sp_primary :: domain

record proxy_plan =
  pp_proxy :: proxy_site
  pp_effective :: "domain list"
  pp_primary :: domain
  pp_shadowed :: bool

definition delta_for :: "config \<Rightarrow> site \<Rightarrow> domain_delta option" where
  "delta_for cfg s =
     (case kind s of
        Linked \<Rightarrow> bt_get (dom_linked (cfg_domains cfg)) (site_name s)
      | Parked \<Rightarrow> bt_get (dom_parked (cfg_domains cfg)) (document_root s))"

text \<open>The parts of a delta, empty when there is none.\<close>

fun delta_parts :: "domain_delta option \<Rightarrow> domain list \<times> domain list \<times> domain option" where
  "delta_parts (Some d) = (added d, suppressed d, delta_primary d)"
| "delta_parts None = ([], [], None)"

definition plan_site :: "config \<Rightarrow> site \<Rightarrow> site_plan" where
  "plan_site cfg s =
     (case delta_parts (delta_for cfg s) of (ad, sd, stored) \<Rightarrow>
        (let effective = effective_domains (site_name s) ad sd
         in \<lparr>sp_site = s, sp_effective = effective,
             sp_primary = choose_primary (site_name s) effective stored\<rparr>))"

fun plan_sites_loop :: "config \<Rightarrow> string set \<Rightarrow> site list \<Rightarrow> site_plan list" where
  "plan_sites_loop cfg seen [] = []"
| "plan_sites_loop cfg seen (s # ss) =
     (if site_name s \<in> seen then plan_sites_loop cfg seen ss
      else plan_site cfg s # plan_sites_loop cfg (insert (site_name s) seen) ss)"

definition plan_sites :: "config \<Rightarrow> site list \<Rightarrow> site_plan list" where
  "plan_sites cfg ss = plan_sites_loop cfg {} ss"

definition plan_proxy :: "config \<Rightarrow> string set \<Rightarrow> proxy_site \<Rightarrow> proxy_plan" where
  "plan_proxy cfg site_names p =
     (case delta_parts (bt_get (dom_proxy (cfg_domains cfg)) (ps_name p)) of (ad, sd, stored) \<Rightarrow>
        (let effective = effective_domains (ps_name p) ad sd
         in \<lparr>pp_proxy = p, pp_effective = effective,
             pp_primary = choose_primary (ps_name p) effective stored,
             pp_shadowed = (ps_name p \<in> site_names)\<rparr>))"

fun plan_proxies_loop ::
    "config \<Rightarrow> string set \<Rightarrow> string set \<Rightarrow> proxy_site list \<Rightarrow> proxy_plan list" where
  "plan_proxies_loop cfg site_names seen [] = []"
| "plan_proxies_loop cfg site_names seen (p # ps) =
     (if ps_name p \<in> seen then plan_proxies_loop cfg site_names seen ps
      else plan_proxy cfg site_names p
           # plan_proxies_loop cfg site_names (insert (ps_name p) seen) ps)"

definition plan_proxies :: "config \<Rightarrow> site_plan list \<Rightarrow> proxy_plan list" where
  "plan_proxies cfg site_plans =
     plan_proxies_loop cfg (set (map (\<lambda>p. site_name (sp_site p)) site_plans)) {} (cfg_proxies cfg)"

section \<open>Claims\<close>

record claimant =
  cl_label :: string
  cl_apex :: domain
  cl_effective :: "domain list"
  cl_eligible :: bool

definition claimants :: "site_plan list \<Rightarrow> proxy_plan list \<Rightarrow> claimant list" where
  "claimants site_plans proxy_plans =
     map (\<lambda>p. \<lparr>cl_label = site_name (sp_site p), cl_apex = apex (site_name (sp_site p)),
               cl_effective = sp_effective p, cl_eligible = True\<rparr>) site_plans
     @ map (\<lambda>p. \<lparr>cl_label = ''proxy:'' @ ps_name (pp_proxy p), cl_apex = apex (ps_name (pp_proxy p)),
                 cl_effective = pp_effective p, cl_eligible = (\<not> pp_shadowed p)\<rparr>) proxy_plans"

record claim_entry =
  ce_idx :: nat
  ce_explicit :: bool

definition claim_domain ::
    "nat \<Rightarrow> domain \<Rightarrow> domain \<Rightarrow> (string, claim_entry) hash_map \<Rightarrow> (string, claim_entry) hash_map" where
  "claim_domain i ap d claims =
     (let explicit = (d \<noteq> ap); new = hm_insert (sub d) \<lparr>ce_idx = i, ce_explicit = explicit\<rparr> claims
      in case hm_get claims (sub d) of
           Some existing \<Rightarrow> if ce_explicit existing \<or> \<not> explicit then claims else new
         | None \<Rightarrow> new)"

definition claim_all ::
    "nat \<times> claimant \<Rightarrow> (string, claim_entry) hash_map \<Rightarrow> (string, claim_entry) hash_map" where
  "claim_all ic claims =
     (case ic of (i, c) \<Rightarrow>
        if \<not> cl_eligible c then claims else fold (claim_domain i (cl_apex c)) (cl_effective c) claims)"

definition claim_entries :: "claimant list \<Rightarrow> (string, claim_entry) hash_map" where
  "claim_entries cs = fold claim_all (enumerate 0 cs) hm_empty"

definition build_claims :: "claimant list \<Rightarrow> (string, nat) hash_map" where
  "build_claims cs = (\<lambda>k. map_option ce_idx (hm_get (claim_entries cs) k))"

section \<open>Building the router\<close>

definition won_domains :: "(string, nat) hash_map \<Rightarrow> nat \<Rightarrow> domain list \<Rightarrow> domain list" where
  "won_domains claims i effective = filter (\<lambda>d. hm_get claims (sub d) = Some i) effective"

fun insert_site_plans :: "(string, nat) hash_map \<Rightarrow> nat \<Rightarrow> site_plan list \<Rightarrow> site_router \<Rightarrow> site_router" where
  "insert_site_plans claims i [] r = r"
| "insert_site_plans claims i (p # ps) r =
     (let won = won_domains claims i (sp_effective p);
          primary = choose_primary (site_name (sp_site p)) won (Some (sp_primary p))
      in insert_site_plans claims (Suc i) ps (snd (insert_with_domains (sp_site p) won primary r)))"

fun insert_proxy_plans :: "(string, nat) hash_map \<Rightarrow> nat \<Rightarrow> proxy_plan list \<Rightarrow> site_router \<Rightarrow> site_router" where
  "insert_proxy_plans claims i [] r = r"
| "insert_proxy_plans claims i (p # ps) r =
     (if pp_shadowed p then insert_proxy_plans claims (Suc i) ps r
      else
        let won = won_domains claims i (pp_effective p);
            primary = choose_primary (ps_name (pp_proxy p)) won (Some (pp_primary p))
        in insert_proxy_plans claims (Suc i) ps
             (snd (insert_proxy_with_domains (pp_proxy p) won primary r)))"

definition attach_rules :: "config \<Rightarrow> site_plan \<Rightarrow> site_router \<Rightarrow> site_router" where
  "attach_rules cfg p r =
     (let s = sp_site p;
          rules = (case kind s of
              Linked \<Rightarrow> bt_get (prs_linked (cfg_proxy_rules cfg)) (site_name s)
            | Parked \<Rightarrow> bt_get (prs_parked (cfg_proxy_rules cfg)) (document_root s));
          r1 = (case rules of Some rs \<Rightarrow> set_proxy_rules (site_name s) rs r | None \<Rightarrow> r);
          rrules = (case kind s of
              Linked \<Rightarrow> bt_get (rrs_linked (cfg_route_rules cfg)) (site_name s)
            | Parked \<Rightarrow> bt_get (rrs_parked (cfg_route_rules cfg)) (document_root s))
      in case rrules of Some rs \<Rightarrow> set_route_rules (site_name s) rs r1 | None \<Rightarrow> r1)"

definition build :: "config \<Rightarrow> site list \<Rightarrow> site_router" where
  "build cfg ss =
     (let plans = plan_sites cfg ss;
          proxy_plans = plan_proxies cfg plans;
          claims = build_claims (claimants plans proxy_plans);
          r0 = router_new (config_with_tld (cfg_tld cfg));
          r1 = insert_site_plans claims 0 plans r0;
          r2 = insert_proxy_plans claims (length plans) proxy_plans r1
      in fold (attach_rules cfg) plans r2)"

section \<open>Collisions\<close>

record domain_collision =
  dc_winner :: string
  dc_losers :: "string list"

text \<open>\<open>wanted.entry(key).or_default().push(idx)\<close>\<close>

definition push_wanted :: "nat \<Rightarrow> domain \<Rightarrow> (string, nat list) btree_map \<Rightarrow> (string, nat list) btree_map" where
  "push_wanted i d m =
     bt_insert (sub d) ((case bt_get m (sub d) of Some is \<Rightarrow> is | None \<Rightarrow> []) @ [i]) m"

definition wanted_by :: "claimant list \<Rightarrow> (string, nat list) btree_map" where
  "wanted_by cs =
     fold (\<lambda>(i, c) m. fold (push_wanted i) (cl_effective c) m) (enumerate 0 cs) bt_empty"

definition collision_of ::
    "claimant list \<Rightarrow> (string, nat) hash_map \<Rightarrow> string \<Rightarrow> nat list \<Rightarrow> domain_collision option" where
  "collision_of cs claims key idxs =
     (if length idxs < 2 then None
      else (case hm_get claims key of
          None \<Rightarrow> None
        | Some w \<Rightarrow>
            if w < length cs then
              (let losers = map (\<lambda>i. cl_label (cs ! i)) (filter (\<lambda>i. i \<noteq> w \<and> i < length cs) idxs)
               in if losers = [] then None
                  else Some \<lparr>dc_winner = cl_label (cs ! w), dc_losers = losers\<rparr>)
            else None))"

definition collisions :: "config \<Rightarrow> site list \<Rightarrow> domain_collision list" where
  "collisions cfg ss =
     (let plans = plan_sites cfg ss;
          cs = claimants plans (plan_proxies cfg plans);
          claims = build_claims cs
      in List.map_filter (\<lambda>(key, idxs). collision_of cs claims key idxs) (wanted_by cs))"

section \<open>Who wins a domain\<close>

text \<open>Claimant \<open>i\<close> wants the routing key \<open>k\<close>, explicitly unless the key is its own apex.\<close>

definition wants :: "claimant list \<Rightarrow> string \<Rightarrow> nat \<Rightarrow> bool" where
  "wants cs k i \<longleftrightarrow> i < length cs \<and> cl_eligible (cs ! i) \<and> Domain k \<in> set (cl_effective (cs ! i))"

definition explicitly :: "claimant list \<Rightarrow> string \<Rightarrow> nat \<Rightarrow> bool" where
  "explicitly cs k i \<longleftrightarrow> Domain k \<noteq> cl_apex (cs ! i)"

text \<open>The documented rule: an explicit claim beats an implicit one, else the earlier claimant wins.\<close>

definition beats :: "claimant list \<Rightarrow> string \<Rightarrow> nat \<Rightarrow> nat \<Rightarrow> bool" where
  "beats cs k i j \<longleftrightarrow>
     (explicitly cs k i \<and> \<not> explicitly cs k j) \<or> (explicitly cs k i = explicitly cs k j \<and> i < j)"

definition wins :: "claimant list \<Rightarrow> string \<Rightarrow> nat \<Rightarrow> bool" where
  "wins cs k i \<longleftrightarrow> wants cs k i \<and> (\<forall>j. wants cs k j \<and> j \<noteq> i \<longrightarrow> beats cs k i j)"

lemma wins_unique: "wins cs k i \<Longrightarrow> wins cs k j \<Longrightarrow> i = j"
  by (metis beats_def less_asym wins_def)

lemma wants_append:
  "wants (cs @ [c]) k i \<longleftrightarrow>
     wants cs k i \<or> (i = length cs \<and> cl_eligible c \<and> Domain k \<in> set (cl_effective c))"
  by (auto simp: wants_def nth_append)

lemma explicitly_append: "i < length cs \<Longrightarrow> explicitly (cs @ [c]) k i = explicitly cs k i"
  by (simp add: explicitly_def nth_append)

lemma explicitly_last: "explicitly (cs @ [c]) k (length cs) \<longleftrightarrow> Domain k \<noteq> cl_apex c"
  by (simp add: explicitly_def)

lemma wants_less: "wants cs k i \<Longrightarrow> i < length cs"
  by (simp add: wants_def)

lemma domain_sub_iff: "k = sub d \<longleftrightarrow> d = Domain k"
  by (cases d) auto

text \<open>What the inner loop does to one key.\<close>

lemma hm_get_claim_domain:
  "hm_get (claim_domain i ap d claims) k =
     (if d = Domain k then
        (case hm_get claims k of
           Some ex \<Rightarrow> if ce_explicit ex \<or> Domain k = ap then Some ex else Some \<lparr>ce_idx = i, ce_explicit = True\<rparr>
         | None \<Rightarrow> Some \<lparr>ce_idx = i, ce_explicit = (Domain k \<noteq> ap)\<rparr>)
      else hm_get claims k)"
  by (auto simp: claim_domain_def Let_def domain_sub_iff split: option.split)

lemma hm_get_claim_fold:
  "hm_get (fold (claim_domain i ap) ds claims) k =
     (if Domain k \<in> set ds then
        (case hm_get claims k of
           Some ex \<Rightarrow> if ce_explicit ex \<or> Domain k = ap then Some ex else Some \<lparr>ce_idx = i, ce_explicit = True\<rparr>
         | None \<Rightarrow> Some \<lparr>ce_idx = i, ce_explicit = (Domain k \<noteq> ap)\<rparr>)
      else hm_get claims k)"
  by (induction ds arbitrary: claims) (auto simp: hm_get_claim_domain split: option.split)

lemma claim_entries_snoc: "claim_entries (cs @ [c]) = claim_all (length cs, c) (claim_entries cs)"
  by (simp add: claim_entries_def enumerate_append_eq)

lemma beats_append:
  "i < length cs \<Longrightarrow> j < length cs \<Longrightarrow> beats (cs @ [c]) k i j = beats cs k i j"
  by (simp add: beats_def explicitly_append)

lemma wins_snoc_keep:
  assumes "wins cs k i" "explicitly cs k i \<or> Domain k = cl_apex c"
  shows "wins (cs @ [c]) k i"
  unfolding wins_def
proof (intro conjI allI impI)
  have lt: "i < length cs"
    using assms(1) wants_less unfolding wins_def by blast
  show "wants (cs @ [c]) k i"
    using assms(1) by (simp add: wins_def wants_append)
  fix j
  assume j: "wants (cs @ [c]) k j \<and> j \<noteq> i"
  show "beats (cs @ [c]) k i j"
  proof (cases "j = length cs")
    case True
    then show ?thesis
      using assms(2) lt by (auto simp: beats_def explicitly_last explicitly_append)
  next
    case False
    then have "wants cs k j" using j by (simp add: wants_append)
    then show ?thesis
      using assms(1) j lt wants_less [of cs k j] by (simp add: beats_append wins_def)
  qed
qed

lemma wins_snoc_skip:
  assumes "wins cs k i" "\<not> (cl_eligible c \<and> Domain k \<in> set (cl_effective c))"
  shows "wins (cs @ [c]) k i"
proof -
  have "wants (cs @ [c]) k j = wants cs k j" for j
    using assms(2) by (auto simp: wants_append)
  moreover have "beats (cs @ [c]) k i j" if "wants cs k j" "j \<noteq> i" for j
  proof -
    have "i < length cs" "j < length cs" "beats cs k i j"
      using assms(1) that wants_less [of cs k] unfolding wins_def by blast+
    then show ?thesis by (simp add: beats_append)
  qed
  ultimately show ?thesis
    using assms(1) unfolding wins_def by blast
qed

lemma wins_snoc_take:
  assumes "cl_eligible c" "Domain k \<in> set (cl_effective c)"
    "\<And>j. wants cs k j \<Longrightarrow> \<not> explicitly cs k j \<and> Domain k \<noteq> cl_apex c"
  shows "wins (cs @ [c]) k (length cs)"
  unfolding wins_def
proof (intro conjI allI impI)
  show "wants (cs @ [c]) k (length cs)"
    using assms by (simp add: wants_append)
  fix j
  assume "wants (cs @ [c]) k j \<and> j \<noteq> length cs"
  then have "wants cs k j" unfolding wants_append by blast
  then show "beats (cs @ [c]) k (length cs) j"
    using assms(3) [of j] wants_less [of cs k j]
    by (simp add: beats_def explicitly_last explicitly_append)
qed

lemma claim_entries_correct:
  "case hm_get (claim_entries cs) k of
     None \<Rightarrow> \<forall>i. \<not> wants cs k i
   | Some ce \<Rightarrow> wins cs k (ce_idx ce) \<and> ce_explicit ce = explicitly cs k (ce_idx ce)"
proof (induction cs rule: rev_induct)
  case Nil
  then show ?case by (simp add: claim_entries_def wants_def)
next
  case (snoc c cs)
  let ?in = "cl_eligible c \<and> Domain k \<in> set (cl_effective c)"
  have get: "hm_get (claim_entries (cs @ [c])) k =
      (if \<not> ?in then hm_get (claim_entries cs) k
       else (case hm_get (claim_entries cs) k of
           Some ex \<Rightarrow> if ce_explicit ex \<or> Domain k = cl_apex c then Some ex
             else Some \<lparr>ce_idx = length cs, ce_explicit = True\<rparr>
         | None \<Rightarrow> Some \<lparr>ce_idx = length cs, ce_explicit = (Domain k \<noteq> cl_apex c)\<rparr>))"
    by (simp add: claim_entries_snoc claim_all_def hm_get_claim_fold)
  show ?case
  proof (cases "hm_get (claim_entries cs) k")
    case None
    with snoc have no: "\<not> wants cs k i" for i by simp
    then have "?in \<Longrightarrow> wins (cs @ [c]) k (length cs)"
      by (intro wins_snoc_take) auto
    with None get no show ?thesis
      by (auto simp: explicitly_last wants_append)
  next
    case (Some ex)
    with snoc have ex: "wins cs k (ce_idx ex)" "ce_explicit ex = explicitly cs k (ce_idx ex)"
      by simp_all
    have e: "explicitly (cs @ [c]) k (ce_idx ex) = explicitly cs k (ce_idx ex)"
      using ex(1) wants_less [of cs k "ce_idx ex"] by (simp add: wins_def explicitly_append)
    have take: "wins (cs @ [c]) k (length cs)"
      if "?in" "\<not> ce_explicit ex" "Domain k \<noteq> cl_apex c"
    proof (rule wins_snoc_take)
      show "\<not> explicitly cs k j \<and> Domain k \<noteq> cl_apex c" if "wants cs k j" for j
        using \<open>\<not> ce_explicit ex\<close> \<open>Domain k \<noteq> cl_apex c\<close> that ex by (metis beats_def wins_def)
    qed (use that in auto)
    show ?thesis
      using Some get ex e wins_snoc_keep [OF ex(1), of c] wins_snoc_skip [OF ex(1), of c] take
      by (auto simp: explicitly_last)
  qed
qed

lemma build_claims_wins: "hm_get (build_claims cs) k = Some i \<longleftrightarrow> wins cs k i"
proof (cases "hm_get (claim_entries cs) k")
  case None
  then have "\<not> wins cs k i"
    using claim_entries_correct [of cs k] by (simp add: wins_def)
  with None show ?thesis by (simp add: build_claims_def hm_get_def)
next
  case (Some ce)
  then have "wins cs k (ce_idx ce)"
    using claim_entries_correct [of cs k] by simp
  with Some show ?thesis
    using wins_unique by (auto simp: build_claims_def hm_get_def)
qed

text \<open>
  C25: a contested domain has a winner whenever an eligible claimant wants it, and the winner is the
  one of the documented rule: a claimant that added the domain beats one that has it only as its
  apex; otherwise the earlier one in the sequence of sites and then proxies wins.
\<close>

theorem build_claims_rule:
  "(hm_get (build_claims cs) k = Some i \<longleftrightarrow> wins cs k i)
   \<and> (hm_get (build_claims cs) k = None \<longleftrightarrow> \<not> (\<exists>i. wants cs k i))"
proof -
  have "hm_get (build_claims cs) k = None \<longleftrightarrow> \<not> (\<exists>i. wants cs k i)"
    using claim_entries_correct [of cs k]
    by (cases "hm_get (claim_entries cs) k") (auto simp: build_claims_def hm_get_def wins_def)
  then show ?thesis by (simp add: build_claims_wins)
qed

section \<open>The built router\<close>

text \<open>The two insertion loops as one list of claimants with their won domains.\<close>

definition site_triples :: "(string, nat) hash_map \<Rightarrow> nat \<Rightarrow> site_plan list \<Rightarrow> (site \<times> domain list \<times> domain) list" where
  "site_triples claims i ps =
     map (\<lambda>(i, p). (sp_site p, won_domains claims i (sp_effective p),
            choose_primary (site_name (sp_site p)) (won_domains claims i (sp_effective p)) (Some (sp_primary p))))
       (enumerate i ps)"

definition proxy_triples :: "(string, nat) hash_map \<Rightarrow> nat \<Rightarrow> proxy_plan list \<Rightarrow> (proxy_site \<times> domain list \<times> domain) list" where
  "proxy_triples claims i ps =
     map (\<lambda>(i, p). (pp_proxy p, won_domains claims i (pp_effective p),
            choose_primary (ps_name (pp_proxy p)) (won_domains claims i (pp_effective p)) (Some (pp_primary p))))
       (filter (\<lambda>(i, p). \<not> pp_shadowed p) (enumerate i ps))"

lemma insert_site_plans_fold:
  "insert_site_plans claims i ps r =
     fold (\<lambda>(c, ds, p) r. snd (insert_with_domains c ds p r)) (site_triples claims i ps) r"
  by (induction claims i ps r rule: insert_site_plans.induct) (simp_all add: site_triples_def Let_def)

lemma insert_proxy_plans_fold:
  "insert_proxy_plans claims i ps r =
     fold (\<lambda>(c, ds, p) r. snd (insert_proxy_with_domains c ds p r)) (proxy_triples claims i ps) r"
  by (induction claims i ps r rule: insert_proxy_plans.induct) (simp_all add: proxy_triples_def Let_def)

lemma won_domains_iff: "d \<in> set (won_domains claims i ds) \<longleftrightarrow> d \<in> set ds \<and> hm_get claims (sub d) = Some i"
  by (auto simp: won_domains_def)

lemma sorted_wrt_enumerate: "sorted_wrt (\<lambda>(i, x) (j, y). i < j) (enumerate n xs)"
  by (auto simp: sorted_wrt_iff_nth_less nth_enumerate_eq)

lemma site_triples_disjoint:
  "sorted_wrt (\<lambda>(c, ds, p) (c', ds', p'). set ds \<inter> set ds' = {}) (site_triples claims i ps)"
  unfolding site_triples_def sorted_wrt_map
  by (rule sorted_wrt_mono_rel [OF _ sorted_wrt_enumerate]) (auto simp: won_domains_iff)

lemma proxy_triples_disjoint:
  "sorted_wrt (\<lambda>(c, ds, p) (c', ds', p'). set ds \<inter> set ds' = {}) (proxy_triples claims i ps)"
  unfolding proxy_triples_def sorted_wrt_map
  by (rule sorted_wrt_mono_rel [OF _ sorted_wrt_filter [OF sorted_wrt_enumerate]])
    (auto simp: won_domains_iff)

lemma find_disjoint:
  assumes "sorted_wrt (\<lambda>(c, ds, p) (c', ds', p'). set ds \<inter> set ds' = {}) xs"
    "(c, ds, p) \<in> set xs" "d \<in> set ds"
  shows "find (\<lambda>(c, ds, p). d \<in> set ds) xs = Some (c, ds, p)"
  using assms by (induction xs) fastforce+

lemma site_triples_names: "map (\<lambda>(c, ds, p). site_name c) (site_triples claims i ps) = map (\<lambda>p. site_name (sp_site p)) ps"
  by (induction ps arbitrary: i) (simp_all add: site_triples_def)

lemma site_triples_fst: "fst ` set (site_triples claims i ps) = sp_site ` set ps"
  by (induction ps arbitrary: i) (auto simp: site_triples_def)

lemma proxy_triples_fst:
  "fst ` set (proxy_triples claims i ps) = pp_proxy ` {p \<in> set ps. \<not> pp_shadowed p}"
  by (induction ps arbitrary: i) (auto simp: proxy_triples_def)

lemma proxy_triples_names:
  "map (\<lambda>(c, ds, p). ps_name c) (proxy_triples claims i ps) =
     map (\<lambda>p. ps_name (pp_proxy p)) (filter (\<lambda>p. \<not> pp_shadowed p) ps)"
  by (induction ps arbitrary: i) (simp_all add: proxy_triples_def)

section \<open>Plans\<close>

lemma plan_site_site [simp]: "sp_site (plan_site cfg s) = s"
  by (simp add: plan_site_def Let_def split: prod.split)

lemma plan_proxy_proxy [simp]:
  "pp_proxy (plan_proxy cfg names p) = p" "pp_shadowed (plan_proxy cfg names p) \<longleftrightarrow> ps_name p \<in> names"
  by (simp_all add: plan_proxy_def Let_def split: prod.split)

lemma plan_sites_loop_names:
  "distinct (map (\<lambda>p. site_name (sp_site p)) (plan_sites_loop cfg seen ss))
   \<and> (\<lambda>p. site_name (sp_site p)) ` set (plan_sites_loop cfg seen ss) = site_name ` set ss - seen"
  by (induction cfg seen ss rule: plan_sites_loop.induct) auto

lemma plan_sites_loop_first:
  "s \<in> sp_site ` set (plan_sites_loop cfg seen ss) \<longleftrightarrow>
     site_name s \<notin> seen \<and> find (\<lambda>t. site_name t = site_name s) ss = Some s"
  by (induction cfg seen ss rule: plan_sites_loop.induct) auto

lemma plan_proxies_loop_names:
  "distinct (map (\<lambda>p. ps_name (pp_proxy p)) (plan_proxies_loop cfg names seen ps))
   \<and> (\<lambda>p. ps_name (pp_proxy p)) ` set (plan_proxies_loop cfg names seen ps) = ps_name ` set ps - seen"
  by (induction cfg names seen ps rule: plan_proxies_loop.induct) auto

lemma plan_proxies_loop_first:
  "q \<in> pp_proxy ` set (plan_proxies_loop cfg names seen ps) \<longleftrightarrow>
     ps_name q \<notin> seen \<and> find (\<lambda>t. ps_name t = ps_name q) ps = Some q"
  by (induction cfg names seen ps rule: plan_proxies_loop.induct) auto

lemma plan_proxies_loop_shadowed:
  "p \<in> set (plan_proxies_loop cfg names seen ps) \<Longrightarrow> pp_shadowed p \<longleftrightarrow> ps_name (pp_proxy p) \<in> names"
  by (induction cfg names seen ps rule: plan_proxies_loop.induct) (auto split: if_splits)

section \<open>Owners after the two loops\<close>

lemma find_site_triples:
  "(case find (\<lambda>(c, ds, p). d \<in> set ds) (site_triples claims k ps) of
      Some (c, ds, p) \<Rightarrow> Some (site_name c) | None \<Rightarrow> x) =
   (case hm_get claims (sub d) of
      Some i \<Rightarrow>
        if k \<le> i \<and> i < k + length ps \<and> d \<in> set (sp_effective (ps ! (i - k)))
        then Some (site_name (sp_site (ps ! (i - k)))) else x
    | None \<Rightarrow> x)"
proof (induction ps arbitrary: k)
  case (Cons p ps)
  have t: "site_triples claims k (p # ps) =
      (sp_site p, won_domains claims k (sp_effective p),
        choose_primary (site_name (sp_site p)) (won_domains claims k (sp_effective p)) (Some (sp_primary p)))
      # site_triples claims (Suc k) ps"
    by (simp add: site_triples_def)
  show ?case
  proof (cases "d \<in> set (won_domains claims k (sp_effective p))")
    case True
    then show ?thesis by (simp add: t won_domains_iff)
  next
    case False
    have nth: "Suc k \<le> i \<Longrightarrow> (p # ps) ! (i - k) = ps ! (i - Suc k)" for i
      by (simp add: nth_Cons' )
    show ?thesis
      using False Cons.IH [of "Suc k"]
      by (cases "hm_get claims (sub d)") (auto simp: t won_domains_iff nth not_less_eq_eq le_eq_less_or_eq)
  qed
qed (auto simp: site_triples_def split: option.split)

lemma find_proxy_triples:
  "(case find (\<lambda>(c, ds, p). d \<in> set ds) (proxy_triples claims k ps) of
      Some (c, ds, p) \<Rightarrow> Some (ps_name c) | None \<Rightarrow> x) =
   (case hm_get claims (sub d) of
      Some i \<Rightarrow>
        if k \<le> i \<and> i < k + length ps \<and> \<not> pp_shadowed (ps ! (i - k)) \<and> d \<in> set (pp_effective (ps ! (i - k)))
        then Some (ps_name (pp_proxy (ps ! (i - k)))) else x
    | None \<Rightarrow> x)"
proof (induction ps arbitrary: k)
  case (Cons p ps)
  have t: "proxy_triples claims k (p # ps) =
      (if pp_shadowed p then [] else [(pp_proxy p, won_domains claims k (pp_effective p),
        choose_primary (ps_name (pp_proxy p)) (won_domains claims k (pp_effective p)) (Some (pp_primary p)))])
      @ proxy_triples claims (Suc k) ps"
    by (simp add: proxy_triples_def)
  show ?case
  proof (cases "\<not> pp_shadowed p \<and> d \<in> set (won_domains claims k (pp_effective p))")
    case True
    then show ?thesis by (simp add: t won_domains_iff)
  next
    case False
    have nth: "Suc k \<le> i \<Longrightarrow> (p # ps) ! (i - k) = ps ! (i - Suc k)" for i
      by (simp add: nth_Cons')
    show ?thesis
      using False Cons.IH [of "Suc k"]
      by (cases "hm_get claims (sub d)") (auto simp: t won_domains_iff nth not_less_eq_eq le_eq_less_or_eq)
  qed
qed (auto simp: proxy_triples_def split: option.split)

lemma router_new_empty:
  "router_get (router_new c) n = None" "router_proxy (router_new c) n = None"
  "\<not> holds_name (router_new c) n" "domain_owner (router_new c) d = None"
  by (simp_all add: router_new_def router_get_def router_proxy_def holds_name_def domain_owner_def)

definition site_plan_owner :: "(string, nat) hash_map \<Rightarrow> site_plan list \<Rightarrow> domain \<Rightarrow> string option" where
  "site_plan_owner claims plans d =
     (case hm_get claims (sub d) of
        Some i \<Rightarrow> if i < length plans \<and> d \<in> set (sp_effective (plans ! i))
                  then Some (site_name (sp_site (plans ! i))) else None
      | None \<Rightarrow> None)"

lemma site_phase:
  fixes claims plans t
  defines "r1 \<equiv> insert_site_plans claims 0 plans (router_new (config_with_tld t))"
  assumes "distinct (map (\<lambda>p. site_name (sp_site p)) plans)"
  shows "router_inv r1"
    and "p \<in> set plans \<Longrightarrow> router_get r1 (site_name (sp_site p)) = Some (sp_site p)"
    and "m \<notin> (\<lambda>p. site_name (sp_site p)) ` set plans \<Longrightarrow> router_get r1 m = None"
    and "holds_name r1 m \<longleftrightarrow> m \<in> (\<lambda>p. site_name (sp_site p)) ` set plans"
    and "domain_owner r1 d = site_plan_owner claims plans d"
proof -
  let ?xs = "site_triples claims 0 plans"
  have names: "(\<lambda>(c, ds, p). site_name c) ` set ?xs = (\<lambda>p. site_name (sp_site p)) ` set plans"
    using arg_cong [OF site_triples_names [of claims 0 plans], of set] by simp
  have mem: "sp_site p \<in> fst ` set ?xs" if "p \<in> set plans" for p
    using that by (simp add: site_triples_fst)
  note ih = site_ops.ins_all [of "router_new (config_with_tld t)" ?xs, unfolded Let_def site_triples_names
      insert_site_plans_fold [symmetric] names, folded r1_def, OF router_new_inv assms(2) _ site_triples_disjoint]
  have all: "\<forall>(c, ds, p) \<in> set ?xs. \<not> holds_name (router_new (config_with_tld t)) (site_name c)
      \<and> (\<forall>d \<in> set ds. domain_owner (router_new (config_with_tld t)) d = None)"
    by (auto simp: router_new_empty)
  note ih1 = ih [OF all]
  note ih2 = conjunct2 [OF ih1]
  note ih3 = conjunct2 [OF ih2]
  note ih4 = conjunct2 [OF ih3]
  show "router_inv r1" by (rule conjunct1 [OF ih1])
  show "router_get r1 (site_name (sp_site p)) = Some (sp_site p)" if pin: "p \<in> set plans"
  proof -
    obtain ds q where "(sp_site p, ds, q) \<in> set ?xs"
      using mem [OF pin] by auto
    then show ?thesis by (rule conjunct1 [OF ih2, rule_format])
  qed
  show "m \<notin> (\<lambda>p. site_name (sp_site p)) ` set plans \<Longrightarrow> router_get r1 m = None"
    using conjunct1 [OF ih3] by (simp add: router_new_empty)
  show "holds_name r1 m \<longleftrightarrow> m \<in> (\<lambda>p. site_name (sp_site p)) ` set plans"
    using conjunct1 [OF ih4] by (simp add: router_new_empty)
  show "domain_owner r1 d = site_plan_owner claims plans d"
    using conjunct2 [OF ih4, rule_format, of d]
    unfolding find_site_triples router_new_empty by (simp add: site_plan_owner_def split: option.splits)
qed

lemma proxy_phase:
  fixes claims plans k r
  defines "r2 \<equiv> insert_proxy_plans claims k plans r"
  assumes inv: "router_inv r" and dist: "distinct (map (\<lambda>p. ps_name (pp_proxy p)) plans)"
    and new: "\<And>p. p \<in> set plans \<Longrightarrow> \<not> pp_shadowed p \<Longrightarrow> \<not> holds_name r (ps_name (pp_proxy p))"
    and free: "\<And>d. \<exists>i. hm_get claims (sub d) = Some i \<and> k \<le> i \<Longrightarrow> domain_owner r d = None"
  shows "router_inv r2"
    and "p \<in> set plans \<Longrightarrow> \<not> pp_shadowed p \<Longrightarrow> router_proxy r2 (ps_name (pp_proxy p)) = Some (pp_proxy p)"
    and "m \<notin> (\<lambda>p. ps_name (pp_proxy p)) ` set (filter (\<lambda>p. \<not> pp_shadowed p) plans) \<Longrightarrow>
      router_proxy r2 m = router_proxy r m"
    and "domain_owner r2 d =
      (case hm_get claims (sub d) of
         Some i \<Rightarrow>
           if k \<le> i \<and> i < k + length plans \<and> \<not> pp_shadowed (plans ! (i - k)) \<and> d \<in> set (pp_effective (plans ! (i - k)))
           then Some (ps_name (pp_proxy (plans ! (i - k)))) else domain_owner r d
       | None \<Rightarrow> domain_owner r d)"
proof -
  let ?xs = "proxy_triples claims k plans"
  have names: "(\<lambda>(c, ds, p). ps_name c) ` set ?xs =
      (\<lambda>p. ps_name (pp_proxy p)) ` set (filter (\<lambda>p. \<not> pp_shadowed p) plans)"
    using arg_cong [OF proxy_triples_names [of claims k plans], of set] by simp
  have mem: "pp_proxy p \<in> fst ` set ?xs" if "p \<in> set plans" "\<not> pp_shadowed p" for p
    using that by (simp add: proxy_triples_fst)
  have "(c, ds, p) \<in> set ?xs \<Longrightarrow> \<not> holds_name r (ps_name c) \<and> (\<forall>d \<in> set ds. domain_owner r d = None)" for c ds p
    using new free by (auto simp: proxy_triples_def in_set_enumerate_eq won_domains_iff)
  then have all: "\<forall>(c, ds, p) \<in> set ?xs. \<not> holds_name r (ps_name c) \<and> (\<forall>d \<in> set ds. domain_owner r d = None)"
    by blast
  have dist': "distinct (map (\<lambda>p. ps_name (pp_proxy p)) (filter (\<lambda>p. \<not> pp_shadowed p) plans))"
    using dist by (rule distinct_map_filter)
  note ih1 = proxy_ops.ins_all [of r ?xs, unfolded Let_def proxy_triples_names
      insert_proxy_plans_fold [symmetric] names, folded r2_def, OF inv dist' all proxy_triples_disjoint]
  note ih2 = conjunct2 [OF ih1]
  note ih3 = conjunct2 [OF ih2]
  note ih4 = conjunct2 [OF ih3]
  show "router_inv r2" by (rule conjunct1 [OF ih1])
  show "router_proxy r2 (ps_name (pp_proxy p)) = Some (pp_proxy p)" if pin: "p \<in> set plans" "\<not> pp_shadowed p"
  proof -
    obtain ds q where "(pp_proxy p, ds, q) \<in> set ?xs"
      using mem [OF pin] by auto
    then show ?thesis by (rule conjunct1 [OF ih2, rule_format])
  qed
  show "m \<notin> (\<lambda>p. ps_name (pp_proxy p)) ` set (filter (\<lambda>p. \<not> pp_shadowed p) plans) \<Longrightarrow>
      router_proxy r2 m = router_proxy r m"
    using conjunct1 [OF ih3] by blast
  show "domain_owner r2 d =
      (case hm_get claims (sub d) of
         Some i \<Rightarrow>
           if k \<le> i \<and> i < k + length plans \<and> \<not> pp_shadowed (plans ! (i - k)) \<and> d \<in> set (pp_effective (plans ! (i - k)))
           then Some (ps_name (pp_proxy (plans ! (i - k)))) else domain_owner r d
       | None \<Rightarrow> domain_owner r d)"
    using conjunct2 [OF ih4, rule_format, of d]
    unfolding find_proxy_triples .
qed

section \<open>The whole build\<close>

lemma insert_proxy_plans_sites: "sites (insert_proxy_plans claims k plans r) = sites r"
  by (induction claims k plans r rule: insert_proxy_plans.induct)
    (auto simp: insert_proxy_with_domains_alt Let_def split: option.split)

lemma attach_rules_keeps:
  "sites (attach_rules cfg p r) = sites r" "proxy_sites (attach_rules cfg p r) = proxy_sites r"
  "domain_owner (attach_rules cfg p r) = domain_owner r"
  "config (attach_rules cfg p r) = config r"
  "router_inv r \<Longrightarrow> router_inv (attach_rules cfg p r)"
  by (auto simp: attach_rules_def Let_def set_proxy_rules_inv set_route_rules_inv
      split: option.split site_kind.split) (simp_all add: set_proxy_rules_def set_route_rules_def)

lemma fold_attach_rules_keeps:
  "sites (fold (attach_rules cfg) ps r) = sites r"
  "proxy_sites (fold (attach_rules cfg) ps r) = proxy_sites r"
  "domain_owner (fold (attach_rules cfg) ps r) = domain_owner r"
  "router_inv r \<Longrightarrow> router_inv (fold (attach_rules cfg) ps r)"
  by (induction ps arbitrary: r) (simp_all add: attach_rules_keeps)

definition plan_claimants :: "config \<Rightarrow> site list \<Rightarrow> claimant list" where
  "plan_claimants cfg ss = claimants (plan_sites cfg ss) (plan_proxies cfg (plan_sites cfg ss))"

text \<open>The name under which the claimant with a given index is stored in the router.\<close>

definition claimant_name :: "config \<Rightarrow> site list \<Rightarrow> nat \<Rightarrow> string" where
  "claimant_name cfg ss i =
     (let plans = plan_sites cfg ss
      in if i < length plans then site_name (sp_site (plans ! i))
         else ps_name (pp_proxy (plan_proxies cfg plans ! (i - length plans))))"

lemma wants_claimants:
  "wants (claimants plans pps) k i \<longleftrightarrow>
     (if i < length plans then Domain k \<in> set (sp_effective (plans ! i))
      else i < length plans + length pps \<and> \<not> pp_shadowed (pps ! (i - length plans))
        \<and> Domain k \<in> set (pp_effective (pps ! (i - length plans))))"
  by (auto simp: wants_def claimants_def nth_append)

lemma plan_sites_names:
  "distinct (map (\<lambda>p. site_name (sp_site p)) (plan_sites cfg ss))"
  "(\<lambda>p. site_name (sp_site p)) ` set (plan_sites cfg ss) = site_name ` set ss"
  using plan_sites_loop_names [of cfg "{}" ss] by (simp_all add: plan_sites_def)

lemma plan_proxies_names:
  "distinct (map (\<lambda>p. ps_name (pp_proxy p)) (plan_proxies cfg plans))"
  "p \<in> set (plan_proxies cfg plans) \<Longrightarrow>
     pp_shadowed p \<longleftrightarrow> ps_name (pp_proxy p) \<in> (\<lambda>p. site_name (sp_site p)) ` set plans"
  using plan_proxies_loop_names plan_proxies_loop_shadowed by (simp_all add: plan_proxies_def)

lemma build_phases:
  fixes cfg ss
  defines "plans \<equiv> plan_sites cfg ss"
  defines "pps \<equiv> plan_proxies cfg plans"
  defines "claims \<equiv> build_claims (claimants plans pps)"
  defines "r1 \<equiv> insert_site_plans claims 0 plans (router_new (config_with_tld (cfg_tld cfg)))"
  defines "r2 \<equiv> insert_proxy_plans claims (length plans) pps r1"
  shows "build cfg ss = fold (attach_rules cfg) plans r2"
    and "router_inv r2"
    and "p \<in> set plans \<Longrightarrow> router_get r2 (site_name (sp_site p)) = Some (sp_site p)"
    and "m \<notin> site_name ` set ss \<Longrightarrow> router_get r2 m = None"
    and "q \<in> set pps \<Longrightarrow> \<not> pp_shadowed q \<Longrightarrow> router_proxy r2 (ps_name (pp_proxy q)) = Some (pp_proxy q)"
    and "m \<notin> (\<lambda>p. ps_name (pp_proxy p)) ` {p \<in> set pps. \<not> pp_shadowed p} \<Longrightarrow> router_proxy r2 m = None"
    and "domain_owner r2 d = map_option (claimant_name cfg ss) (hm_get claims (sub d))"
proof -
  note phase1 = site_phase [OF plan_sites_names(1) [of cfg ss], where claims = claims and t = "cfg_tld cfg",
      folded plans_def, folded r1_def]
  show "build cfg ss = fold (attach_rules cfg) plans r2"
    by (simp add: build_def Let_def plans_def pps_def claims_def r1_def r2_def)
  have want: "wants (claimants plans pps) (sub d) i" if "hm_get claims (sub d) = Some i" for d i
    using that unfolding claims_def build_claims_wins wins_def by blast
  have new: "\<not> holds_name r1 (ps_name (pp_proxy p))" if "p \<in> set pps" "\<not> pp_shadowed p" for p
    using that plan_proxies_names(2) [of p cfg plans] phase1(4) by (auto simp: pps_def)
  have free: "domain_owner r1 d = None" if "\<exists>i. hm_get claims (sub d) = Some i \<and> length plans \<le> i" for d
    using that phase1(5) [of d] by (auto simp: site_plan_owner_def)
  note phase2 = proxy_phase [where claims = claims and k = "length plans" and plans = pps and r = r1,
      OF phase1(1) plan_proxies_names(1) [of cfg plans, folded pps_def] new free, folded r2_def]
  show "router_inv r2" by (rule phase2(1))
  have "sites r2 = sites r1" by (simp add: r2_def insert_proxy_plans_sites)
  then show "p \<in> set plans \<Longrightarrow> router_get r2 (site_name (sp_site p)) = Some (sp_site p)"
    "m \<notin> site_name ` set ss \<Longrightarrow> router_get r2 m = None"
    using phase1(2,3) plan_sites_names(2) [of cfg ss, folded plans_def] by (simp_all add: router_get_def)
  show "q \<in> set pps \<Longrightarrow> \<not> pp_shadowed q \<Longrightarrow> router_proxy r2 (ps_name (pp_proxy q)) = Some (pp_proxy q)"
    by (rule phase2(2))
  have "router_proxy r1 m = None" for m
  proof (rule ccontr)
    assume "router_proxy r1 m \<noteq> None"
    then have "holds_name r1 m" by (simp add: holds_name_def router_proxy_def)
    then have "router_get r1 m \<noteq> None" using phase1(2,4) by force
    with \<open>router_proxy r1 m \<noteq> None\<close> show False
      using router_inv_disjoint [OF phase1(1), of m] by (auto simp: router_get_def router_proxy_def)
  qed
  then show "m \<notin> (\<lambda>p. ps_name (pp_proxy p)) ` {p \<in> set pps. \<not> pp_shadowed p} \<Longrightarrow> router_proxy r2 m = None"
    using phase2(3) by simp
  show "domain_owner r2 d = map_option (claimant_name cfg ss) (hm_get claims (sub d))"
  proof (cases "hm_get claims (sub d)")
    case None
    then show ?thesis using phase2(4) [where d = d] phase1(5) [of d] by (simp add: site_plan_owner_def)
  next
    case (Some i)
    then show ?thesis
      using want [OF Some] phase2(4) [where d = d] phase1(5) [of d]
      by (auto simp: site_plan_owner_def claimant_name_def Let_def wants_claimants plans_def [symmetric]
          pps_def [symmetric] domain.collapse split: if_splits)
  qed
qed

lemma build_basic:
  "router_inv (build cfg ss)"
  "p \<in> set (plan_sites cfg ss) \<Longrightarrow> router_get (build cfg ss) (site_name (sp_site p)) = Some (sp_site p)"
  "m \<notin> site_name ` set ss \<Longrightarrow> router_get (build cfg ss) m = None"
  "q \<in> set (plan_proxies cfg (plan_sites cfg ss)) \<Longrightarrow> \<not> pp_shadowed q \<Longrightarrow>
     router_proxy (build cfg ss) (ps_name (pp_proxy q)) = Some (pp_proxy q)"
  "m \<notin> (\<lambda>p. ps_name (pp_proxy p)) ` {p \<in> set (plan_proxies cfg (plan_sites cfg ss)). \<not> pp_shadowed p} \<Longrightarrow>
     router_proxy (build cfg ss) m = None"
  "domain_owner (build cfg ss) d =
     map_option (claimant_name cfg ss) (hm_get (build_claims (plan_claimants cfg ss)) (sub d))"
  using build_phases(2-7) [where cfg = cfg and ss = ss]
  unfolding build_phases(1) [where cfg = cfg and ss = ss] plan_claimants_def router_get_def router_proxy_def
    fold_attach_rules_keeps(1-3)
  by (blast intro: fold_attach_rules_keeps(4))+

lemma build_router_get: "router_get (build cfg ss) n = find (\<lambda>s. site_name s = n) ss"
proof (cases "find (\<lambda>s. site_name s = n) ss")
  case None
  then have "n \<notin> site_name ` set ss" by (auto simp: find_None_iff)
  with None show ?thesis by (simp add: build_basic(3))
next
  case (Some s)
  then have n: "site_name s = n" by (metis (mono_tags, lifting) find_Some_iff)
  then have "s \<in> sp_site ` set (plan_sites cfg ss)"
    using Some plan_sites_loop_first [of s cfg "{}" ss] by (simp add: plan_sites_def)
  with n Some show ?thesis using build_basic(2) by auto
qed

lemma planned_proxy_iff:
  "(\<exists>p \<in> set (plan_proxies cfg (plan_sites cfg ss)). \<not> pp_shadowed p \<and> pp_proxy p = q) \<longleftrightarrow>
     ps_name q \<notin> site_name ` set ss \<and> find (\<lambda>p. ps_name p = ps_name q) (cfg_proxies cfg) = Some q"
  using plan_proxies_loop_first [of q cfg _ "{}" "cfg_proxies cfg"]
    plan_proxies_names(2) [where cfg = cfg and plans = "plan_sites cfg ss"] plan_sites_names(2) [of cfg ss]
  by (force simp: plan_proxies_def image_iff)

lemma build_router_proxy:
  "router_proxy (build cfg ss) n =
     (if n \<in> site_name ` set ss then None else find (\<lambda>p. ps_name p = n) (cfg_proxies cfg))"
proof (cases "\<exists>q. n \<notin> site_name ` set ss \<and> find (\<lambda>p. ps_name p = n) (cfg_proxies cfg) = Some q")
  case True
  then obtain q where q: "n \<notin> site_name ` set ss" "find (\<lambda>p. ps_name p = n) (cfg_proxies cfg) = Some q"
    by blast
  then have n: "ps_name q = n" by (metis (mono_tags, lifting) find_Some_iff)
  then obtain p where p: "p \<in> set (plan_proxies cfg (plan_sites cfg ss))" "\<not> pp_shadowed p" "pp_proxy p = q"
    using planned_proxy_iff [of cfg ss q] q by blast
  then show ?thesis
    using build_basic(4) [OF p(1,2)] n q by simp
next
  case False
  have "n \<notin> (\<lambda>p. ps_name (pp_proxy p)) ` {p \<in> set (plan_proxies cfg (plan_sites cfg ss)). \<not> pp_shadowed p}"
    using False planned_proxy_iff [of cfg ss] by fastforce
  from build_basic(5) [OF this] False show ?thesis by auto
qed

text \<open>
  C12: building the router never fails and never loses a claimant. Whatever the scan and the
  configuration hold, every scanned site is served (the first of each name), every configured proxy
  is served (the first of each name) unless a site has its name, the result is a consistent router,
  and each domain is owned by the claimant that wins it by the collision rule, and by nobody when
  nobody eligible wants it.
\<close>

theorem build_serves_everything:
  "router_inv (build cfg ss)
   \<and> router_get (build cfg ss) n = find (\<lambda>s. site_name s = n) ss
   \<and> router_proxy (build cfg ss) n =
       (if n \<in> site_name ` set ss then None else find (\<lambda>p. ps_name p = n) (cfg_proxies cfg))
   \<and> (domain_owner (build cfg ss) d = Some n \<longleftrightarrow>
       (\<exists>i. wins (plan_claimants cfg ss) (sub d) i \<and> n = claimant_name cfg ss i))"
  using build_basic(1) build_router_get build_router_proxy
  by (auto simp: build_basic(6) build_claims_wins)

section \<open>Reported collisions\<close>

definition idx_of :: "(string, nat list) btree_map \<Rightarrow> string \<Rightarrow> nat set" where
  "idx_of m k = (case bt_get m k of Some is \<Rightarrow> set is | None \<Rightarrow> {})"

lemma idx_of_push: "idx_of (push_wanted i d m) k = (if d = Domain k then insert i (idx_of m k) else idx_of m k)"
  by (auto simp: push_wanted_def idx_of_def domain_sub_iff split: option.split)

lemma idx_of_push_fold:
  "idx_of (fold (push_wanted i) ds m) k = (if Domain k \<in> set ds then insert i (idx_of m k) else idx_of m k)"
  by (induction ds arbitrary: m) (auto simp: idx_of_push)

lemma wanted_by_snoc:
  "wanted_by (cs @ [c]) = fold (push_wanted (length cs)) (cl_effective c) (wanted_by cs)"
  by (simp add: wanted_by_def enumerate_append_eq)

lemma idx_of_wanted_by:
  "idx_of (wanted_by cs) k = {i. i < length cs \<and> Domain k \<in> set (cl_effective (cs ! i))}"
proof (induction cs rule: rev_induct)
  case Nil
  then show ?case by (simp add: wanted_by_def idx_of_def)
next
  case (snoc c cs)
  have "{i. i < length (cs @ [c]) \<and> Domain k \<in> set (cl_effective ((cs @ [c]) ! i))} =
      {i. i < length cs \<and> Domain k \<in> set (cl_effective (cs ! i))}
      \<union> (if Domain k \<in> set (cl_effective c) then {length cs} else {})"
    by (auto simp: nth_append split: if_splits)
  with snoc show ?case
    by (simp add: wanted_by_snoc idx_of_push_fold)
qed

lemma bt_inv_push_fold: "bt_inv m \<Longrightarrow> bt_inv (fold (push_wanted i) ds m)"
  by (induction ds arbitrary: m) (simp_all add: push_wanted_def)

lemma bt_inv_wanted_by: "bt_inv (wanted_by cs)"
proof (induction cs rule: rev_induct)
  case Nil
  then show ?case by (simp add: wanted_by_def)
qed (simp add: wanted_by_snoc bt_inv_push_fold)

lemma wanted_by_entry:
  assumes "(k, idxs) \<in> set (wanted_by cs)"
  shows "set idxs = {i. i < length cs \<and> Domain k \<in> set (cl_effective (cs ! i))}"
proof -
  have "bt_get (wanted_by cs) k = Some idxs"
    using assms bt_get_in_set [OF bt_inv_wanted_by] by blast
  then show ?thesis
    using idx_of_wanted_by [of cs k] by (simp add: idx_of_def)
qed

lemma wanted_by_complete:
  assumes "i < length cs" "Domain k \<in> set (cl_effective (cs ! i))"
  shows "\<exists>idxs. (k, idxs) \<in> set (wanted_by cs)"
proof -
  have "i \<in> idx_of (wanted_by cs) k"
    using assms by (simp add: idx_of_wanted_by)
  then obtain idxs where "bt_get (wanted_by cs) k = Some idxs"
    by (auto simp: idx_of_def split: option.splits)
  then show ?thesis
    using bt_get_in_set [OF bt_inv_wanted_by] by blast
qed

lemma two_distinct_length: "a \<in> set xs \<Longrightarrow> b \<in> set xs \<Longrightarrow> a \<noteq> b \<Longrightarrow> \<not> length xs < 2"
  by (cases xs; cases "tl xs") auto

lemma collision_of_Some_iff:
  assumes "set idxs = {i. i < length cs \<and> Domain k \<in> set (cl_effective (cs ! i))}"
  shows "collision_of cs (build_claims cs) k idxs = Some dc \<longleftrightarrow>
    (\<exists>w. wins cs k w \<and> filter (\<lambda>i. i \<noteq> w \<and> i < length cs) idxs \<noteq> []
       \<and> dc = \<lparr>dc_winner = cl_label (cs ! w),
               dc_losers = map (\<lambda>i. cl_label (cs ! i)) (filter (\<lambda>i. i \<noteq> w \<and> i < length cs) idxs)\<rparr>)"
proof -
  have lt: "w < length cs" "w \<in> set idxs" if "wins cs k w" for w
    using that assms by (auto simp: wins_def wants_def)
  have two: "\<not> length idxs < 2" if "wins cs k w" "filter (\<lambda>i. i \<noteq> w \<and> i < length cs) idxs \<noteq> []" for w
  proof -
    have "\<exists>i. i \<in> set idxs \<and> i \<noteq> w"
      using that(2) by (auto simp: filter_empty_conv)
    then show ?thesis
      using two_distinct_length [of w idxs] lt [OF that(1)] by blast
  qed
  show ?thesis
  proof (cases "hm_get (build_claims cs) k")
    case None
    then have "\<not> wins cs k w" for w
      using build_claims_wins [of cs k w] by simp
    with None show ?thesis by (simp add: collision_of_def)
  next
    case (Some w)
    then have w: "wins cs k v \<longleftrightarrow> v = w" for v
      using build_claims_wins [of cs k v] by auto
    then show ?thesis
      using Some lt [of w] two [of w] by (auto simp: collision_of_def Let_def)
  qed
qed

definition collision_entry :: "claimant list \<Rightarrow> nat list \<Rightarrow> nat \<Rightarrow> domain_collision" where
  "collision_entry cs idxs w =
     \<lparr>dc_winner = cl_label (cs ! w),
      dc_losers = map (\<lambda>i. cl_label (cs ! i)) (filter (\<lambda>i. i \<noteq> w \<and> i < length cs) idxs)\<rparr>"

text \<open>The labels of the claimants other than \<open>w\<close> whose effective set has the key.\<close>

definition other_labels :: "claimant list \<Rightarrow> string \<Rightarrow> nat \<Rightarrow> string set" where
  "other_labels cs k w =
     {cl_label (cs ! j) | j. j < length cs \<and> j \<noteq> w \<and> Domain k \<in> set (cl_effective (cs ! j))}"

lemma collision_entry_losers:
  assumes "(k, idxs) \<in> set (wanted_by cs)"
  shows "set (dc_losers (collision_entry cs idxs w)) = other_labels cs k w"
  using wanted_by_entry [OF assms] by (auto simp: collision_entry_def other_labels_def)

lemma collisions_mem_iff:
  "dc \<in> set (collisions cfg ss) \<longleftrightarrow>
     (\<exists>k idxs w. (k, idxs) \<in> set (wanted_by (plan_claimants cfg ss)) \<and> wins (plan_claimants cfg ss) k w
        \<and> other_labels (plan_claimants cfg ss) k w \<noteq> {}
        \<and> dc = collision_entry (plan_claimants cfg ss) idxs w)"
proof -
  let ?cs = "plan_claimants cfg ss"
  have "dc \<in> set (collisions cfg ss) \<longleftrightarrow>
      (\<exists>k idxs. (k, idxs) \<in> set (wanted_by ?cs) \<and> collision_of ?cs (build_claims ?cs) k idxs = Some dc)"
    by (force simp: collisions_def Let_def plan_claimants_def map_filter_def)
  also have "\<dots> \<longleftrightarrow> (\<exists>k idxs. (k, idxs) \<in> set (wanted_by ?cs) \<and>
      (\<exists>w. wins ?cs k w \<and> dc_losers (collision_entry ?cs idxs w) \<noteq> [] \<and> dc = collision_entry ?cs idxs w))"
    using collision_of_Some_iff [OF wanted_by_entry, where dc = dc]
    by (simp add: collision_entry_def cong: conj_cong)
  also have "\<dots> \<longleftrightarrow> (\<exists>k idxs w. (k, idxs) \<in> set (wanted_by ?cs) \<and> wins ?cs k w
      \<and> other_labels ?cs k w \<noteq> {} \<and> dc = collision_entry ?cs idxs w)"
    using collision_entry_losers [of _ _ ?cs] by (metis set_empty)
  finally show ?thesis .
qed

text \<open>
  C34: the doctor's report names exactly the contested domains. Each entry has the claimant that wins
  a domain and the labels of all the other claimants whose effective set has it, shadowed proxies
  included; and every domain that has a winner and another claimant that wants it is reported.
\<close>

theorem collisions_report:
  "(\<exists>dc. dc \<in> set (collisions cfg ss) \<and> dc_winner dc = w \<and> set (dc_losers dc) = ls) \<longleftrightarrow>
   (\<exists>k i. wins (plan_claimants cfg ss) k i \<and> w = cl_label (plan_claimants cfg ss ! i)
      \<and> ls = other_labels (plan_claimants cfg ss) k i \<and> ls \<noteq> {})"
proof -
  let ?cs = "plan_claimants cfg ss"
  have "\<exists>idxs. (k, idxs) \<in> set (wanted_by ?cs)" if "wins ?cs k i" for k i
    using wanted_by_complete [of i ?cs k] that by (auto simp: wins_def wants_def)
  moreover have "dc_winner (collision_entry ?cs idxs i) = cl_label (?cs ! i)" for idxs i
    by (simp add: collision_entry_def)
  ultimately show ?thesis
    unfolding collisions_mem_iff using collision_entry_losers by metis
qed

end
