(* ===== verification/Php_Directives.thy ===== *)
theory Php_Directives
  imports Php_Settings
begin

text \<open>
  \<open>crates/yerd-core/src/php_directives.rs\<close>, \<open>php_pool.rs\<close> and \<open>php_extensions.rs\<close>: the other three
  ways a user value reaches a generated PHP configuration.
\<close>

section \<open>Free-form directives\<close>

definition directive_max_name_len :: nat where "directive_max_name_len = 128"
definition directive_max_value_len :: nat where "directive_max_value_len = 256"

definition RESERVED :: "(string \<times> string) list" where
  "RESERVED =
     [(''extension'', ''extensions are managed with `yerd php ext` (or the GUI extensions panel)''),
      (''zend_extension'', ''extensions are managed with `yerd php ext` (or the GUI extensions panel)''),
      (''openssl.cafile'', ''Yerd manages the CA bundle for this''),
      (''curl.cainfo'', ''Yerd manages the CA bundle for this'')]"

definition directive_reserved :: "string \<Rightarrow> string option" where
  "directive_reserved name =
     (if is_supported name
      then Some ''this setting is managed with `yerd set php` (add --only <version> for a per-version value)''
      else if starts_with ''pm.'' name
      then Some ''FPM pool settings are managed with `yerd php pool` (or the GUI pool-size control)''
      else map_option snd (find (\<lambda>(n, _). n = name) RESERVED))"

datatype directive_name_error_reason =
  DirectiveNameEmpty | DirectiveNameTooLong | DirectiveNameIllegalStart | DirectiveNameIllegalCharacter

fun show_directive_name_reason :: "directive_name_error_reason \<Rightarrow> string" where
  "show_directive_name_reason DirectiveNameEmpty = ''name must not be empty''"
| "show_directive_name_reason DirectiveNameTooLong = ''name is too long''"
| "show_directive_name_reason DirectiveNameIllegalStart =
     ''name must start with a letter or '' @ [CHR 0x27] @ ''_'' @ [CHR 0x27]"
| "show_directive_name_reason DirectiveNameIllegalCharacter =
     ''name may only contain letters, digits, '' @ [CHR 0x27] @ ''.'' @ [CHR 0x27] @ '', ''
       @ [CHR 0x27] @ ''_'' @ [CHR 0x27] @ '' and '' @ [CHR 0x27] @ ''-'' @ [CHR 0x27]"

datatype directive_error = DirectiveName directive_name_error_reason | DirectiveValue value_error_reason

text \<open>
  The first character is compared as a character; it is a letter or an underscore exactly when the
  first byte is.
\<close>

definition directive_validate_name :: "string \<Rightarrow> (directive_error, unit) result" where
  "directive_validate_name name =
     (case utf8_chars name of
        [] \<Rightarrow> Err (DirectiveName DirectiveNameEmpty)
      | first # _ \<Rightarrow>
          if length name > directive_max_name_len then Err (DirectiveName DirectiveNameTooLong)
          else if \<not> ascii_char (\<lambda>c. is_ascii_alphabetic c \<or> c = CHR ''_'') first
          then Err (DirectiveName DirectiveNameIllegalStart)
          else if \<not> list_all name_byte name then Err (DirectiveName DirectiveNameIllegalCharacter)
          else Ok ())"

definition directive_validate_value :: "string \<Rightarrow> (directive_error, unit) result" where
  "directive_validate_value val =
     (if val = [] \<or> all_whitespace val then Err (DirectiveValue ValueEmpty)
      else if length val > directive_max_value_len then Err (DirectiveValue ValueTooLong)
      else if has_illegal ''[]=;#'' val then Err (DirectiveValue ValueIllegalCharacter)
      else Ok ())"

definition directive_ok :: "string \<times> string \<Rightarrow> bool" where
  "directive_ok e \<longleftrightarrow>
     (case e of (name, val) \<Rightarrow>
        is_ok (directive_validate_name name) \<and> is_ok (directive_validate_value val)
        \<and> directive_reserved name = None)"

definition directive_line :: "string \<times> string \<Rightarrow> string" where
  "directive_line e = (case e of (name, val) \<Rightarrow> name @ '' = '' @ trim val)"

definition render_ini_lines :: "string_map \<Rightarrow> string" where
  "render_ini_lines directives = render_lines directive_ok directive_line directives"

section \<open>Pool settings\<close>

definition DEFAULT_MAX_CHILDREN :: nat where "DEFAULT_MAX_CHILDREN = 16"
definition MIN_MAX_CHILDREN :: nat where "MIN_MAX_CHILDREN = 1"
definition MAX_MAX_CHILDREN :: nat where "MAX_MAX_CHILDREN = 1024"
definition MAX_CHILDREN :: string where "MAX_CHILDREN = ''max_children''"

datatype pool_name_error_reason = PoolUnknown

datatype pool_value_error_reason = PoolValueEmpty | PoolNotANumber | PoolOutOfRange

datatype pool_setting_error = PoolName pool_name_error_reason | PoolValue pool_value_error_reason

fun show_pool_name_reason :: "pool_name_error_reason \<Rightarrow> string" where
  "show_pool_name_reason PoolUnknown = ''the only pool setting is '' @ [CHR 0x27] @ MAX_CHILDREN @ [CHR 0x27]"

fun show_pool_value_reason :: "pool_value_error_reason \<Rightarrow> string" where
  "show_pool_value_reason PoolValueEmpty = ''value must not be empty''"
| "show_pool_value_reason PoolNotANumber = ''value must be a whole number''"
| "show_pool_value_reason PoolOutOfRange =
     ''value must be between '' @ show_nat MIN_MAX_CHILDREN @ '' and '' @ show_nat MAX_MAX_CHILDREN"

definition pool_validate_name :: "string \<Rightarrow> (pool_setting_error, unit) result" where
  "pool_validate_name name = (if name = MAX_CHILDREN then Ok () else Err (PoolName PoolUnknown))"

definition pool_validate_value :: "string \<Rightarrow> (pool_setting_error, nat) result" where
  "pool_validate_value val =
     (let trimmed = trim val
      in if trimmed = [] then Err (PoolValue PoolValueEmpty)
         else if \<not> list_all is_ascii_digit trimmed then Err (PoolValue PoolNotANumber)
         else (case parse_uint u32_max trimmed of
             None \<Rightarrow> Err (PoolValue PoolOutOfRange)
           | Some parsed \<Rightarrow>
               if \<not> (MIN_MAX_CHILDREN \<le> parsed \<and> parsed \<le> MAX_MAX_CHILDREN)
               then Err (PoolValue PoolOutOfRange) else Ok parsed))"

definition override_max_children :: "string_map option \<Rightarrow> nat option" where
  "override_max_children settings =
     (case settings of
        None \<Rightarrow> None
      | Some m \<Rightarrow> (case bt_get m MAX_CHILDREN of None \<Rightarrow> None | Some v \<Rightarrow> ok (pool_validate_value v)))"

section \<open>Extensions\<close>

definition ext_max_path_len :: nat where "ext_max_path_len = 4096"
definition ext_max_name_len :: nat where "ext_max_name_len = 64"

datatype ext_name_error_reason = ExtNameEmpty | ExtNameTooLong | ExtNameIllegalCharacter

datatype ext_path_error_reason =
  ExtPathEmpty | ExtPathTooLong | ExtPathNotAbsolute | ExtPathNotSharedObject | ExtPathIllegalCharacter

datatype ext_error = ExtName ext_name_error_reason | ExtPath ext_path_error_reason

fun show_ext_name_reason :: "ext_name_error_reason \<Rightarrow> string" where
  "show_ext_name_reason ExtNameEmpty = ''name must not be empty''"
| "show_ext_name_reason ExtNameTooLong = ''name is too long''"
| "show_ext_name_reason ExtNameIllegalCharacter =
     ''name may only contain letters, digits, '' @ [CHR 0x27] @ ''_'' @ [CHR 0x27] @ '' and ''
       @ [CHR 0x27] @ ''-'' @ [CHR 0x27]"

fun show_ext_path_reason :: "ext_path_error_reason \<Rightarrow> string" where
  "show_ext_path_reason ExtPathEmpty = ''path must not be empty''"
| "show_ext_path_reason ExtPathTooLong = ''path is too long''"
| "show_ext_path_reason ExtPathNotAbsolute = ''path must be absolute''"
| "show_ext_path_reason ExtPathNotSharedObject = ''path must end in .so''"
| "show_ext_path_reason ExtPathIllegalCharacter = ''path contains an illegal character''"

definition validate_ext_name :: "string \<Rightarrow> (ext_error, unit) result" where
  "validate_ext_name name =
     (if name = [] then Err (ExtName ExtNameEmpty)
      else if length name > ext_max_name_len then Err (ExtName ExtNameTooLong)
      else if \<not> list_all (\<lambda>b. is_ascii_alphanumeric b \<or> b = CHR ''_'' \<or> b = CHR ''-'') name
      then Err (ExtName ExtNameIllegalCharacter)
      else Ok ())"

definition validate_ext_path :: "string \<Rightarrow> (ext_error, unit) result" where
  "validate_ext_path p =
     (if p = [] then Err (ExtPath ExtPathEmpty)
      else if length p > ext_max_path_len then Err (ExtPath ExtPathTooLong)
      else if \<not> starts_with ''/'' p then Err (ExtPath ExtPathNotAbsolute)
      else if path_extension p \<noteq> Some ''so'' then Err (ExtPath ExtPathNotSharedObject)
      else if has_illegal [CHR 0x22, CHR 0x00, CHR ''$''] p then Err (ExtPath ExtPathIllegalCharacter)
      else Ok ())"

definition validate_entry :: "string \<Rightarrow> string \<Rightarrow> bool \<Rightarrow> (ext_error, unit) result" where
  "validate_entry name p zend =
     (case validate_ext_path p of Err e \<Rightarrow> Err e | Ok _ \<Rightarrow> validate_ext_name name)"

definition default_name_from_path :: "string \<Rightarrow> string option" where
  "default_name_from_path p =
     (case file_name p of
        None \<Rightarrow> None
      | Some stem \<Rightarrow>
          (let stem = (case strip_suffix ''.so'' stem of Some r \<Rightarrow> r | None \<Rightarrow> stem)
           in if stem = [] then None else Some stem))"

section \<open>What reaches the ini file\<close>

lemma directive_name_plain:
  assumes "directive_validate_name n = Ok ()"
  shows "n \<noteq> [] \<and> (\<forall>b \<in> set n. name_byte b)"
  using assms by (cases n) (auto simp: directive_validate_name_def list_all_iff split: list.splits if_splits)

lemma directive_value_plain:
  assumes "directive_validate_value v = Ok ()"
  shows "LF \<notin> set v \<and> trim v \<noteq> [] \<and> CHR ''='' \<notin> set v \<and> CHR ''['' \<notin> set v \<and> CHR '';'' \<notin> set v"
proof -
  have v: "\<not> all_whitespace v" "\<not> has_illegal ''[]=;#'' v"
    using assms by (auto simp: directive_validate_value_def split: if_splits)
  show ?thesis
    using has_illegal_LF [OF v(2)] has_illegal_meta [OF v(2)] v(1) by (simp add: trim_Nil_iff is_ascii_def)
qed

interpretation directive_ini: line_file directive_ok directive_line ini_read "\<lambda>(n, v). (n, trim v)"
proof
  fix e
  assume ok: "directive_ok e"
  obtain n v where e: "e = (n, v)" by (cases e)
  have n: "n \<noteq> [] \<and> (\<forall>b \<in> set n. name_byte b)" and v: "LF \<notin> set v"
    using ok e directive_name_plain directive_value_plain by (auto simp: directive_ok_def is_ok_iff)
  show "LF \<notin> set (directive_line e)"
    using n v set_trim_subset [of v] name_byte_facts(2) by (auto simp: e directive_line_def)
  show "ini_read (directive_line e) = Some (case e of (n, v) \<Rightarrow> (n, trim v))"
    using n ini_read_line [of n "trim v"] by (simp add: e directive_line_def)
qed

text \<open>
  How an ini reader takes an extension line apart: the directive, and the text between the quotes,
  which holds no quote.
\<close>

definition ext_read :: "string \<Rightarrow> (string \<times> bool) option" where
  "ext_read l =
     (case split_once (CHR 0x22) l of
        None \<Rightarrow> None
      | Some (d, rest) \<Rightarrow>
          (case strip_suffix [CHR 0x22] rest of
             None \<Rightarrow> None
           | Some p \<Rightarrow>
               if CHR 0x22 \<in> set p then None
               else if d = ''zend_extension = '' then Some (p, True)
               else if d = ''extension = '' then Some (p, False)
               else None))"

interpretation ext_ini: line_file ext_line_ok ext_line ext_read "\<lambda>e. e"
proof
  fix e
  assume ok: "ext_line_ok e"
  obtain p z where e: "e = (p, z)" by (cases e)
  have p: "LF \<notin> set p" "CHR 0x22 \<notin> set p"
    using ok has_illegal_LF has_illegal_meta [of "[CHR 0x22, CHR 0x00]" p "CHR 0x22"]
    by (auto simp: e ext_line_ok_def is_ascii_def)
  show "LF \<notin> set (ext_line e)"
    using p by (auto simp: e ext_line_def)
  have "split_once (CHR 0x22) (ext_line e) =
      Some ((if z then ''zend_extension'' else ''extension'') @ '' = '', p @ [CHR 0x22])"
    using split_once_append [of "CHR 0x22" "(if z then ''zend_extension'' else ''extension'') @ '' = ''" "p @ [CHR 0x22]"]
    by (auto simp: e ext_line_def)
  then show "ext_read (ext_line e) = Some e"
    using p by (simp add: ext_read_def e)
qed

text \<open>An extension the daemon accepted is always written: what it validates is stricter.\<close>

lemma validated_ext_written: "validate_ext_path p = Ok () \<Longrightarrow> ext_line_ok (p, z)"
  by (auto simp: validate_ext_path_def ext_line_ok_def has_illegal_def list_ex_iff split: if_splits)



end
