(* ===== verification/Config_Validate.thy ===== *)
theory Config_Validate
  imports Config_Schema Php_Directives
begin

text \<open>
  The cross-field checks of \<open>crates/yerd-config/src/parse.rs\<close> with the errors of
  \<open>crates/yerd-config/src/error.rs\<close>. A loop with a \<open>BTreeSet\<close> of names seen so far is \<open>try_fold\<close>
  over that set; the checks run in the order of the source and the first failure is the result.
\<close>

datatype validate_error_reason =
    DuplicateLinkedSite | HttpHttpsPortsEqual | HttpPortZero | HttpsPortZero | MailPortZero | DumpsPortZero
  | UnknownService | ParkedPathEmpty | OverridePathEmpty | InvalidPhpSetting | WebRootEscapes
  | InvalidUpdateChannel | FallbackPortPrivileged | FallbackPortsEqual | LanSetupPortPrivileged
  | TunnelEntryEmpty | TunnelHostnameInvalid | TunnelKeyInvalid | TunnelMultipleNamed | TunnelDuplicateHostname
  | GroupNameEmpty | GroupNameReserved | GroupDuplicate | GroupMemberDangling
  | InvalidPhpExtension | DuplicateExtensionName
  | DomainAddedDuplicate | DomainAddedSuppressedOverlap | DomainPrimaryWildcard
  | ProxyNameCollision | ProxyRuleDuplicatePrefix | ProxyTargetLoop | ProxyRuleUnknownSite
  | RouteRuleDuplicatePrefix | RouteRuleUnknownSite

fun try_fold :: "('s \<Rightarrow> 'a \<Rightarrow> ('e, 's) result) \<Rightarrow> 's \<Rightarrow> 'a list \<Rightarrow> ('e, 's) result" where
  "try_fold f s [] = Ok s"
| "try_fold f s (x # xs) = (case f s x of Err e \<Rightarrow> Err e | Ok s' \<Rightarrow> try_fold f s' xs)"

definition finish :: "('e, 's) result \<Rightarrow> ('e, unit) result" where
  "finish r = (case r of Err e \<Rightarrow> Err e | Ok _ \<Rightarrow> Ok ())"

definition ensure :: "bool \<Rightarrow> 'e \<Rightarrow> ('e, unit) result" where
  "ensure b e = (if b then Ok () else Err e)"

type_synonym check = "(validate_error_reason, unit) result"

section \<open>Ports and scalars\<close>

definition validate_ports :: "config \<Rightarrow> check" where
  "validate_ports c =
     (if http_port (cfg_ports c) = 0 then Err HttpPortZero
      else if https_port (cfg_ports c) = 0 then Err HttpsPortZero
      else if http_port (cfg_ports c) = https_port (cfg_ports c) then Err HttpHttpsPortsEqual
      else if fallback_http (cfg_ports c) < FIRST_UNPRIVILEGED_PORT
        \<or> fallback_https (cfg_ports c) < FIRST_UNPRIVILEGED_PORT then Err FallbackPortPrivileged
      else if fallback_http (cfg_ports c) = fallback_https (cfg_ports c) then Err FallbackPortsEqual
      else if mail_port (cfg_mail c) = 0 then Err MailPortZero
      else if dumps_port (cfg_dumps c) = 0 then Err DumpsPortZero
      else if cfg_lan_setup_port c < FIRST_UNPRIVILEGED_PORT then Err LanSetupPortPrivileged
      else Ok ())"

definition validate_update_channel :: "config \<Rightarrow> check" where
  "validate_update_channel c = ensure (cfg_update_channel c \<in> set UPDATE_CHANNELS) InvalidUpdateChannel"

section \<open>Sites, paths and services\<close>

text \<open>One step of a loop that rejects a key seen before.\<close>

definition insert_unseen :: "'e \<Rightarrow> 'k set \<Rightarrow> 'k \<Rightarrow> ('e, 'k set) result" where
  "insert_unseen e seen k = (if k \<in> seen then Err e else Ok (insert k seen))"

definition validate_unique_linked :: "config \<Rightarrow> check" where
  "validate_unique_linked c =
     finish (try_fold (\<lambda>seen s. insert_unseen DuplicateLinkedSite seen (site_name s)) {} (cfg_linked c))"

definition validate_nonempty_paths :: "config \<Rightarrow> check" where
  "validate_nonempty_paths c =
     (case check_all (\<lambda>p. ensure (p \<noteq> []) ParkedPathEmpty) (map fst (parked_paths (cfg_parked c))) of
        Err e \<Rightarrow> Err e
      | Ok _ \<Rightarrow> check_all (\<lambda>k. ensure (k \<noteq> []) OverridePathEmpty) (map fst (cfg_overrides c)))"

definition web_root_escapes :: "path \<Rightarrow> bool" where
  "web_root_escapes p \<longleftrightarrow>
     list_ex (\<lambda>c. case c of Normal _ \<Rightarrow> False | CurDir \<Rightarrow> False | _ \<Rightarrow> True) (path_components p)"

definition validate_web_roots :: "config \<Rightarrow> check" where
  "validate_web_roots c =
     (case check_all (\<lambda>s. ensure (\<not> web_root_escapes (web_subpath s)) WebRootEscapes) (cfg_linked c) of
        Err e \<Rightarrow> Err e
      | Ok _ \<Rightarrow>
          check_all (\<lambda>ov. case ov_web_root ov of
              Some w \<Rightarrow> ensure (\<not> web_root_escapes w) WebRootEscapes
            | None \<Rightarrow> Ok ()) (bt_values (cfg_overrides c)))"

definition KNOWN_SINGLE_SERVICES :: "string list" where
  "KNOWN_SINGLE_SERVICES = [''mysql'', ''mariadb'', ''meilisearch'', ''postgres'', ''redis'']"

definition KNOWN_PER_SITE_SERVICES :: "string list" where
  "KNOWN_PER_SITE_SERVICES = [''reverb'']"

definition split_wire_id :: "string \<Rightarrow> string \<times> string option" where
  "split_wire_id key = (case split_once (CHR '':'') key of Some (ty, s) \<Rightarrow> (ty, Some s) | None \<Rightarrow> (key, None))"

definition default_autostart_for_key :: "string \<Rightarrow> bool" where
  "default_autostart_for_key key \<longleftrightarrow> fst (split_wire_id key) \<notin> set KNOWN_PER_SITE_SERVICES"

definition is_valid_site_label :: "string \<Rightarrow> bool" where
  "is_valid_site_label s \<longleftrightarrow>
     s \<noteq> [] \<and> length s \<le> 63 \<and> \<not> starts_with ''-'' s \<and> \<not> ends_with ''-'' s
     \<and> list_all (ascii_char (\<lambda>c. is_ascii_lowercase c \<or> is_ascii_digit c \<or> c = CHR ''-'')) (utf8_chars s)"

definition check_service :: "string \<times> service_instance \<Rightarrow> check" where
  "check_service ki =
     (case ki of (key, inst) \<Rightarrow>
        (case split_wire_id key of (ty, s) \<Rightarrow>
           if (if ty \<in> set KNOWN_SINGLE_SERVICES then s \<noteq> None
               else if ty \<in> set KNOWN_PER_SITE_SERVICES
               then (case s of Some l \<Rightarrow> \<not> is_valid_site_label l | None \<Rightarrow> True)
               else True)
           then Err UnknownService
           else (case inst_site inst of
               Some field \<Rightarrow> ensure (Some field = s) UnknownService
             | None \<Rightarrow> Ok ())))"

definition validate_known_services :: "config \<Rightarrow> check" where
  "validate_known_services c = check_all check_service (instances (cfg_services c))"

section \<open>PHP\<close>

definition validate_php_settings :: "config \<Rightarrow> check" where
  "validate_php_settings c =
     check_all (\<lambda>(k, v). ensure (is_ok (settings_validate_value k v)) InvalidPhpSetting) (php_settings (cfg_php c))"

definition check_ext_entries :: "ext_entry list \<Rightarrow> check" where
  "check_ext_entries es =
     finish (try_fold (\<lambda>seen e.
        if \<not> is_ok (validate_entry (ext_name e) (ext_path e) (ext_zend e)) then Err InvalidPhpExtension
        else insert_unseen DuplicateExtensionName seen (ext_name e)) {} es)"

definition validate_php_extensions :: "config \<Rightarrow> check" where
  "validate_php_extensions c = check_all check_ext_entries (bt_values (php_extensions (cfg_php c)))"

section \<open>Tunnels\<close>

definition is_safe_key :: "string \<Rightarrow> bool" where
  "is_safe_key s \<longleftrightarrow>
     s \<noteq> [] \<and> length s \<le> 64 \<and> s \<noteq> ''.'' \<and> s \<noteq> ''..''
     \<and> list_all (\<lambda>b. is_ascii_alphanumeric b \<or> b = CHR ''-'' \<or> b = CHR ''_'' \<or> b = CHR ''.'') s"

definition is_hostname_label :: "string \<Rightarrow> bool" where
  "is_hostname_label l \<longleftrightarrow>
     l \<noteq> [] \<and> length l \<le> 63 \<and> \<not> starts_with ''-'' l \<and> \<not> ends_with ''-'' l
     \<and> list_all (\<lambda>b. is_ascii_alphanumeric b \<or> b = CHR ''-'') l"

definition is_plausible_hostname :: "string \<Rightarrow> bool" where
  "is_plausible_hostname host \<longleftrightarrow>
     (if host = [] \<or> length host > 253 then False
      else (let labels = split_on (CHR ''.'') host
            in list_all is_hostname_label labels \<and> length labels \<ge> 2))"

definition check_tunnel_named :: "string \<times> string \<Rightarrow> check" where
  "check_tunnel_named nu =
     (case nu of (name, uuid) \<Rightarrow>
        if name = [] \<or> uuid = [] then Err TunnelEntryEmpty
        else ensure (is_safe_key name \<and> is_safe_key uuid) TunnelKeyInvalid)"

definition check_tunnel_site ::
    "string set \<Rightarrow> string \<times> string \<Rightarrow> (validate_error_reason, string set) result" where
  "check_tunnel_site seen sh =
     (case sh of (s, hostname) \<Rightarrow>
        if s = [] \<or> hostname = [] then Err TunnelEntryEmpty
        else if \<not> is_safe_key s then Err TunnelKeyInvalid
        else if \<not> is_plausible_hostname hostname then Err TunnelHostnameInvalid
        else insert_unseen TunnelDuplicateHostname seen hostname)"

definition validate_tunnel :: "config \<Rightarrow> check" where
  "validate_tunnel c =
     (if length (tunnel_named (cfg_tunnel c)) > 1 then Err TunnelMultipleNamed
      else (case check_all check_tunnel_named (tunnel_named (cfg_tunnel c)) of
          Err e \<Rightarrow> Err e
        | Ok _ \<Rightarrow> finish (try_fold check_tunnel_site {} (tunnel_sites (cfg_tunnel c)))))"

section \<open>Groups and domains\<close>

definition check_group ::
    "string set \<Rightarrow> string \<Rightarrow> (validate_error_reason, string set) result" where
  "check_group seen name =
     (if name = [] then Err GroupNameEmpty
      else if eq_ignore_ascii_case name RESERVED_GROUP_NAME then Err GroupNameReserved
      else insert_unseen GroupDuplicate seen (to_ascii_lowercase name))"

definition validate_groups :: "config \<Rightarrow> check" where
  "validate_groups c =
     (case try_fold check_group {} (group_order (cfg_groups c)) of
        Err e \<Rightarrow> Err e
      | Ok seen \<Rightarrow>
          check_all (\<lambda>g. ensure (to_ascii_lowercase g \<in> seen) GroupMemberDangling)
            (bt_values (group_members (cfg_groups c))))"

definition check_delta :: "domain_delta \<Rightarrow> check" where
  "check_delta d =
     (case try_fold (\<lambda>seen x. insert_unseen DomainAddedDuplicate seen (sub x)) {} (added d) of
        Err e \<Rightarrow> Err e
      | Ok seen \<Rightarrow>
          (case check_all (\<lambda>s. ensure (sub s \<notin> seen) DomainAddedSuppressedOverlap) (suppressed d) of
             Err e \<Rightarrow> Err e
           | Ok _ \<Rightarrow>
               (case delta_primary d of
                  Some p \<Rightarrow> ensure (\<not> is_wildcard p) DomainPrimaryWildcard
                | None \<Rightarrow> Ok ())))"

definition validate_domains :: "config \<Rightarrow> check" where
  "validate_domains c =
     check_all check_delta
       (bt_values (dom_linked (cfg_domains c)) @ bt_values (dom_parked (cfg_domains c))
        @ bt_values (dom_proxy (cfg_domains c)))"

section \<open>Proxies and rules\<close>

definition targets_loop :: "config \<Rightarrow> upstream_target \<Rightarrow> bool" where
  "targets_loop c t \<longleftrightarrow> up_host t = cfg_tld c \<or> ends_with (''.'' @ cfg_tld c) (up_host t)"

definition linked_names :: "config \<Rightarrow> string set" where
  "linked_names c = set (map site_name (cfg_linked c))"

definition check_proxy ::
    "config \<Rightarrow> string set \<Rightarrow> proxy_site \<Rightarrow> (validate_error_reason, string set) result" where
  "check_proxy c seen p =
     (if ps_name p \<in> linked_names c \<or> ps_name p \<in> seen then Err ProxyNameCollision
      else if targets_loop c (ps_target p) then Err ProxyTargetLoop
      else Ok (insert (ps_name p) seen))"

definition validate_rule_set :: "config \<Rightarrow> proxy_rule list \<Rightarrow> check" where
  "validate_rule_set c rules =
     finish (try_fold (\<lambda>seen r.
        if pr_prefix r \<in> seen then Err ProxyRuleDuplicatePrefix
        else if targets_loop c (pr_target r) then Err ProxyTargetLoop
        else Ok (insert (pr_prefix r) seen)) {} rules)"

definition validate_proxies :: "config \<Rightarrow> check" where
  "validate_proxies c =
     (case try_fold (check_proxy c) {} (cfg_proxies c) of
        Err e \<Rightarrow> Err e
      | Ok _ \<Rightarrow>
          (case check_all (\<lambda>(s, rules).
                  if s \<notin> linked_names c then Err ProxyRuleUnknownSite else validate_rule_set c rules)
                (prs_linked (cfg_proxy_rules c)) of
             Err e \<Rightarrow> Err e
           | Ok _ \<Rightarrow> check_all (validate_rule_set c) (bt_values (prs_parked (cfg_proxy_rules c)))))"

definition validate_route_rule_set :: "route_rule list \<Rightarrow> check" where
  "validate_route_rule_set rules =
     finish (try_fold (\<lambda>seen r. insert_unseen RouteRuleDuplicatePrefix seen (rr_prefix r)) {} rules)"

definition validate_route_rules :: "config \<Rightarrow> check" where
  "validate_route_rules c =
     (case check_all (\<lambda>(s, rules).
             if s \<notin> linked_names c then Err RouteRuleUnknownSite else validate_route_rule_set rules)
           (rrs_linked (cfg_route_rules c)) of
        Err e \<Rightarrow> Err e
      | Ok _ \<Rightarrow> check_all validate_route_rule_set (bt_values (rrs_parked (cfg_route_rules c))))"

definition validate_checks :: "config \<Rightarrow> check list" where
  "validate_checks c =
     [validate_ports c, validate_unique_linked c, validate_nonempty_paths c, validate_web_roots c,
      validate_known_services c, validate_php_settings c, validate_php_extensions c, validate_update_channel c,
      validate_tunnel c, validate_groups c, validate_domains c, validate_proxies c, validate_route_rules c]"

definition config_validate :: "config \<Rightarrow> check" where
  "config_validate c = check_all (\<lambda>r. r) (validate_checks c)"

section \<open>What a valid configuration satisfies\<close>

lemma finish_Ok_iff [simp]: "finish r = Ok () \<longleftrightarrow> (\<exists>s. r = Ok s)"
  by (cases r) (auto simp: finish_def)

lemma ensure_Ok_iff [simp]: "ensure b e = Ok () \<longleftrightarrow> b"
  by (simp add: ensure_def)

text \<open>A loop over a seen-set succeeds exactly when the keys are new and distinct and each item passes.\<close>

lemma try_fold_seen:
  assumes step: "\<And>seen x s'. f seen x = Ok s' \<longleftrightarrow> good x \<and> key x \<notin> seen \<and> s' = insert (key x) seen"
  shows "try_fold f seen xs = Ok s \<longleftrightarrow>
    (\<forall>x \<in> set xs. good x \<and> key x \<notin> seen) \<and> distinct (map key xs) \<and> s = seen \<union> key ` set xs"
proof (induction xs arbitrary: seen)
  case (Cons x xs)
  show ?case
  proof (cases "f seen x")
    case (Err e)
    then have "\<not> (good x \<and> key x \<notin> seen)"
      using step [of seen x] by (metis result.distinct(1))
    with Err show ?thesis by auto
  next
    case (Ok s')
    then have "good x \<and> key x \<notin> seen \<and> s' = insert (key x) seen"
      using step by blast
    with Ok show ?thesis
      by (auto simp: Cons.IH intro: rev_image_eqI)
  qed
qed auto

lemma insert_unseen_Ok_iff [simp]: "insert_unseen e seen k = Ok s \<longleftrightarrow> k \<notin> seen \<and> s = insert k seen"
  by (auto simp: insert_unseen_def)

lemma case_result_Ok_iff:
  "(case r of Err e \<Rightarrow> Err e | Ok x \<Rightarrow> f x) = Ok y \<longleftrightarrow> (\<exists>x. r = Ok x \<and> f x = Ok y)"
  by (cases r) auto

lemma case_check_Ok_iff:
  "(case r of Err e \<Rightarrow> Err e | Ok (u :: unit) \<Rightarrow> s) = Ok y \<longleftrightarrow> r = Ok () \<and> s = Ok y"
  by (cases r) auto

lemma validate_unique_linked_iff: "validate_unique_linked c = Ok () \<longleftrightarrow> distinct (map site_name (cfg_linked c))"
  by (simp add: validate_unique_linked_def try_fold_seen [where good = "\<lambda>_. True" and key = site_name])

lemma validate_nonempty_paths_iff:
  "validate_nonempty_paths c = Ok () \<longleftrightarrow>
     [] \<notin> fst ` set (parked_paths (cfg_parked c)) \<and> [] \<notin> fst ` set (cfg_overrides c)"
  by (force simp: validate_nonempty_paths_def case_result_Ok_iff check_all_Ok_iff)

lemma web_root_escapes_iff: "web_root_escapes p \<longleftrightarrow> \<not> is_safe_relative p"
  by (auto simp: web_root_escapes_def is_safe_relative_def list_ex_iff list_all_iff split: component.splits)

lemma validate_web_roots_iff:
  "validate_web_roots c = Ok () \<longleftrightarrow>
     (\<forall>s \<in> set (cfg_linked c). is_safe_relative (web_subpath s))
     \<and> (\<forall>(k, ov) \<in> set (cfg_overrides c). \<forall>w. ov_web_root ov = Some w \<longrightarrow> is_safe_relative w)"
  by (auto simp: validate_web_roots_def case_result_Ok_iff check_all_Ok_iff web_root_escapes_iff bt_values_def
      split: option.splits)

lemma check_ext_entries_iff:
  "check_ext_entries es = Ok () \<longleftrightarrow>
     (\<forall>e \<in> set es. is_ok (validate_entry (ext_name e) (ext_path e) (ext_zend e))) \<and> distinct (map ext_name es)"
  unfolding check_ext_entries_def finish_Ok_iff
  by (subst try_fold_seen [where key = ext_name and
        good = "\<lambda>e. is_ok (validate_entry (ext_name e) (ext_path e) (ext_zend e))"]) auto

lemma try_fold_check_group:
  "try_fold check_group {} gs = Ok seen \<longleftrightarrow>
     (\<forall>g \<in> set gs. g \<noteq> [] \<and> \<not> eq_ignore_ascii_case g RESERVED_GROUP_NAME)
     \<and> distinct (map to_ascii_lowercase gs) \<and> seen = to_ascii_lowercase ` set gs"
  by (subst try_fold_seen [where key = to_ascii_lowercase and
        good = "\<lambda>g. g \<noteq> [] \<and> \<not> eq_ignore_ascii_case g RESERVED_GROUP_NAME"])
    (auto simp: check_group_def)

lemma validate_groups_iff:
  "validate_groups c = Ok () \<longleftrightarrow>
     (\<forall>g \<in> set (group_order (cfg_groups c)). g \<noteq> [] \<and> \<not> eq_ignore_ascii_case g RESERVED_GROUP_NAME)
     \<and> distinct (map to_ascii_lowercase (group_order (cfg_groups c)))
     \<and> (\<forall>g \<in> set (bt_values (group_members (cfg_groups c))).
          to_ascii_lowercase g \<in> to_ascii_lowercase ` set (group_order (cfg_groups c)))"
  by (auto simp: validate_groups_def case_result_Ok_iff check_all_Ok_iff try_fold_check_group)

lemma sub_inject: "sub a = sub b \<longleftrightarrow> a = b"
  by (cases a; cases b) simp

lemma distinct_map_sub: "distinct (map sub ds) \<longleftrightarrow> distinct ds"
  by (simp add: distinct_map inj_on_def sub_inject)

lemma check_delta_iff:
  "check_delta d = Ok () \<longleftrightarrow>
     distinct (added d) \<and> set (added d) \<inter> set (suppressed d) = {}
     \<and> (\<forall>p. delta_primary d = Some p \<longrightarrow> \<not> is_wildcard p)"
proof -
  have "try_fold (\<lambda>seen x. insert_unseen DomainAddedDuplicate seen (sub x)) {} xs = Ok seen \<longleftrightarrow>
      distinct xs \<and> seen = sub ` set xs" for xs seen
    by (subst try_fold_seen [where key = sub and good = "\<lambda>_. True"]) (auto simp: distinct_map_sub)
  then show ?thesis
    by (auto simp: check_delta_def case_result_Ok_iff check_all_Ok_iff image_iff sub_inject split: option.splits)
qed

lemma validate_domains_iff:
  "validate_domains c = Ok () \<longleftrightarrow>
     (\<forall>(k, d) \<in> set (dom_linked (cfg_domains c)) \<union> set (dom_parked (cfg_domains c)) \<union> set (dom_proxy (cfg_domains c)).
        check_delta d = Ok ())"
  by (simp add: validate_domains_def check_all_Ok_iff bt_values_def ball_Un case_prod_unfold)

lemma validate_rule_set_iff:
  "validate_rule_set c rules = Ok () \<longleftrightarrow>
     distinct (map pr_prefix rules) \<and> (\<forall>r \<in> set rules. \<not> targets_loop c (pr_target r))"
  unfolding validate_rule_set_def finish_Ok_iff
  by (subst try_fold_seen [where key = pr_prefix and good = "\<lambda>r. \<not> targets_loop c (pr_target r)"]) auto

lemma validate_proxies_iff:
  "validate_proxies c = Ok () \<longleftrightarrow>
     distinct (map ps_name (cfg_proxies c))
     \<and> (\<forall>p \<in> set (cfg_proxies c). ps_name p \<notin> linked_names c \<and> \<not> targets_loop c (ps_target p))
     \<and> (\<forall>(s, rules) \<in> set (prs_linked (cfg_proxy_rules c)). s \<in> linked_names c)
     \<and> (\<forall>(s, rules) \<in> set (prs_linked (cfg_proxy_rules c)) \<union> set (prs_parked (cfg_proxy_rules c)).
          validate_rule_set c rules = Ok ())"
proof -
  have p: "try_fold (check_proxy c) {} ps = Ok s \<longleftrightarrow>
      (\<forall>p \<in> set ps. ps_name p \<notin> linked_names c \<and> \<not> targets_loop c (ps_target p)) \<and> distinct (map ps_name ps)
      \<and> s = ps_name ` set ps" for ps s
    by (subst try_fold_seen [where key = ps_name and
          good = "\<lambda>p. ps_name p \<notin> linked_names c \<and> \<not> targets_loop c (ps_target p)"])
      (auto simp: check_proxy_def)
  have r: "check_all (\<lambda>(s, rules). if s \<notin> linked_names c then Err ProxyRuleUnknownSite
        else validate_rule_set c rules) m = Ok () \<longleftrightarrow>
      (\<forall>(s, rules) \<in> set m. s \<in> linked_names c \<and> validate_rule_set c rules = Ok ())" for m
    unfolding check_all_Ok_iff by (rule ball_cong [OF refl]) (auto split: if_splits)
  show ?thesis
    unfolding validate_proxies_def case_check_Ok_iff case_result_Ok_iff p r check_all_Ok_iff
    by (simp add: bt_values_def ball_Un case_prod_unfold ball_conj_distrib) blast
qed

lemma validate_route_rule_set_iff:
  "validate_route_rule_set rules = Ok () \<longleftrightarrow> distinct (map rr_prefix rules)"
  by (simp add: validate_route_rule_set_def try_fold_seen [where good = "\<lambda>_. True" and key = rr_prefix])

lemma validate_route_rules_iff:
  "validate_route_rules c = Ok () \<longleftrightarrow>
     (\<forall>(s, rules) \<in> set (rrs_linked (cfg_route_rules c)). s \<in> linked_names c)
     \<and> (\<forall>(s, rules) \<in> set (rrs_linked (cfg_route_rules c)) \<union> set (rrs_parked (cfg_route_rules c)).
          distinct (map rr_prefix rules))"
proof -
  have r: "check_all (\<lambda>(s, rules). if s \<notin> linked_names c then Err RouteRuleUnknownSite
        else validate_route_rule_set rules) m = Ok () \<longleftrightarrow>
      (\<forall>(s, rules) \<in> set m. s \<in> linked_names c \<and> distinct (map rr_prefix rules))" for m
    unfolding check_all_Ok_iff by (rule ball_cong [OF refl]) (auto simp: validate_route_rule_set_iff split: if_splits)
  show ?thesis
    unfolding validate_route_rules_def case_check_Ok_iff r check_all_Ok_iff
    by (simp add: bt_values_def validate_route_rule_set_iff ball_Un case_prod_unfold ball_conj_distrib) blast
qed

lemma config_validate_iff: "config_validate c = Ok () \<longleftrightarrow> (\<forall>r \<in> set (validate_checks c). r = Ok ())"
  by (simp add: config_validate_def check_all_Ok_iff)

lemmas validate_iffs = validate_unique_linked_iff validate_nonempty_paths_iff validate_web_roots_iff
  validate_groups_iff validate_domains_iff validate_proxies_iff validate_route_rules_iff

end
