(* ===== verification/Mutate.thy ===== *)
theory Mutate
  imports Site_Domains Config_Validate
begin

text \<open>
  \<open>bin/yerdd/src/mutate.rs\<close>: how a request changes the configuration. Each handler takes the
  configuration and returns the outcome with the configuration it leaves behind, on errors too, since
  the source changes it in place. \<open>disp\<close> is \<open>Display\<close> of \<open>CoreError\<close>, which the \<open>thiserror\<close>
  derive generates; only error messages depend on it. \<open>to_string_lossy\<close> of a path is the path.
\<close>

datatype mutate_error = NotFoundError string | AlreadyExistsError string | InvalidError string

record applied =
  summary :: string

type_synonym mutation = "(mutate_error, applied) result \<times> config"

type_synonym error_display = "core_error \<Rightarrow> string"

datatype error_code =
    CodeNotFound | CodeAlreadyExists | CodeInvalidPath | CodePortInUse | CodeExtensionLoadFailed
  | CodePortReserved | CodeSiteNotFound | CodeSiteNotLaravel | CodeUnknownServiceType
  | CodeInstanceAlreadyExists | CodeLanNotReady | CodeLegacyRestricted | CodeInternal

fun error_code_of :: "mutate_error \<Rightarrow> error_code" where
  "error_code_of (NotFoundError _) = CodeNotFound"
| "error_code_of (AlreadyExistsError _) = CodeAlreadyExists"
| "error_code_of (InvalidError _) = CodeInvalidPath"

text \<open>The requests this module handles; every other one is \<open>OtherRequest\<close>.\<close>

datatype request =
    Park path
  | Link string path
  | Unpark string
  | Unlink string
  | SetPhp string php_version
  | SetSecure string bool
  | SetWordpressAutoLogin string bool "string option"
  | SetFrontController string bool
  | AddDomain string string
  | RemoveDomain string string
  | SetPrimaryDomain string string
  | ResetDomains string
  | AddProxy string string
  | RemoveProxy string
  | AddProxyRule string string string
  | RemoveProxyRule string string
  | AddRouteRule string string string
  | RemoveRouteRule string string
  | CreateGroup string
  | DeleteGroup string
  | SetGroupOrder "string list"
  | SetSiteGroup string "string option"
  | RenameGroup string string
  | SetWebRoot string "string option"
  | OtherRequest

abbreviation applied_with :: "string \<Rightarrow> config \<Rightarrow> mutation" where
  "applied_with s c \<equiv> (Ok \<lparr>summary = s\<rparr>, c)"

abbreviation refused :: "mutate_error \<Rightarrow> config \<Rightarrow> mutation" where
  "refused e c \<equiv> (Err e, c)"

definition show_bool :: "bool \<Rightarrow> string" where
  "show_bool b = (if b then ''true'' else ''false'')"

text \<open>\<open>iter_mut().find(p)\<close> and a change to what it finds; \<open>entry(k).or_default()\<close> and a change to it.\<close>

fun update_first :: "('a \<Rightarrow> bool) \<Rightarrow> ('a \<Rightarrow> 'a) \<Rightarrow> 'a list \<Rightarrow> 'a list" where
  "update_first P f [] = []"
| "update_first P f (x # xs) = (if P x then f x # xs else x # update_first P f xs)"

definition bt_entry :: "'k::linorder \<Rightarrow> 'v \<Rightarrow> ('v \<Rightarrow> 'v) \<Rightarrow> ('k, 'v) btree_map \<Rightarrow> ('k, 'v) btree_map" where
  "bt_entry k dflt f m = bt_insert k (f (case bt_get m k of Some v \<Rightarrow> v | None \<Rightarrow> dflt)) m"

definition override_key :: "site \<Rightarrow> string" where
  "override_key s = document_root s"

abbreviation is_linked :: "config \<Rightarrow> string \<Rightarrow> bool" where
  "is_linked cfg n \<equiv> list_ex (\<lambda>s. site_name s = n) (cfg_linked cfg)"

abbreviation is_proxy :: "config \<Rightarrow> string \<Rightarrow> bool" where
  "is_proxy cfg n \<equiv> list_ex (\<lambda>p. ps_name p = n) (cfg_proxies cfg)"

definition not_found_site :: "config \<Rightarrow> string \<Rightarrow> mutate_error" where
  "not_found_site cfg n =
     NotFoundError (if is_proxy cfg n
       then ''no site named '' @ n @ '' ('' @ n @ '' is a proxy - this command applies only to sites)''
       else ''no site named '' @ n)"

section \<open>Parking and linking\<close>

definition apply_park :: "config \<Rightarrow> path option \<Rightarrow> mutation" where
  "apply_park cfg canonical =
     (case canonical of
        None \<Rightarrow> refused (InvalidError ''park requires a path'') cfg
      | Some stored \<Rightarrow>
          (let fresh = \<not> bt_contains_key (parked_paths (cfg_parked cfg)) stored;
               cfg' = cfg\<lparr>cfg_parked := (cfg_parked cfg)\<lparr>parked_paths := bt_insert stored () (parked_paths (cfg_parked cfg))\<rparr>\<rparr>
           in applied_with ((if fresh then ''parked '' else ''already parked '') @ stored) cfg'))"

text \<open>Moving an entry of one map to a key of another, as linking and unlinking do.\<close>

definition move_entry ::
    "'k::linorder \<Rightarrow> 'l::linorder option \<Rightarrow> ('k, 'v) btree_map \<times> ('l, 'v) btree_map
      \<Rightarrow> ('k, 'v) btree_map \<times> ('l, 'v) btree_map" where
  "move_entry k target mm =
     (case mm of (from, to) \<Rightarrow>
        (case bt_get from k of
           None \<Rightarrow> (from, to)
         | Some v \<Rightarrow> (bt_remove k from, case target of Some l \<Rightarrow> bt_insert l v to | None \<Rightarrow> to)))"

definition promote :: "string \<Rightarrow> string \<Rightarrow> config \<Rightarrow> config" where
  "promote docroot n cfg =
     (case (move_entry docroot (Some n) (dom_parked (cfg_domains cfg), dom_linked (cfg_domains cfg)),
            move_entry docroot (Some n) (prs_parked (cfg_proxy_rules cfg), prs_linked (cfg_proxy_rules cfg)),
            move_entry docroot (Some n) (rrs_parked (cfg_route_rules cfg), rrs_linked (cfg_route_rules cfg))) of
        ((dp, dl), (pp, pl), (rp, rl)) \<Rightarrow>
          cfg\<lparr>cfg_domains := (cfg_domains cfg)\<lparr>dom_parked := dp, dom_linked := dl\<rparr>,
              cfg_proxy_rules := (cfg_proxy_rules cfg)\<lparr>prs_parked := pp, prs_linked := pl\<rparr>,
              cfg_route_rules := (cfg_route_rules cfg)\<lparr>rrs_parked := rp, rrs_linked := rl\<rparr>\<rparr>)"

definition apply_link :: "error_display \<Rightarrow> config \<Rightarrow> string \<Rightarrow> path option \<Rightarrow> php_version \<Rightarrow> mutation" where
  "apply_link disp cfg name canonical default_php =
     (case canonical of
        None \<Rightarrow> refused (InvalidError ''link requires a path'') cfg
      | Some p \<Rightarrow>
          (case site_linked name p default_php of
             Err e \<Rightarrow> refused (InvalidError (''invalid site name: '' @ disp e)) cfg
           | Ok s \<Rightarrow>
               (let n = site_name s
                in if is_linked cfg n then refused (AlreadyExistsError (''site already linked: '' @ n)) cfg
                   else (let cfg' = promote (override_key s) n cfg
                         in applied_with (''linked '' @ n) (cfg'\<lparr>cfg_linked := cfg_linked cfg' @ [s]\<rparr>)))))"

definition is_under_root :: "string \<Rightarrow> string \<Rightarrow> bool" where
  "is_under_root docroot root \<longleftrightarrow>
     docroot = root \<or> (case strip_prefix root docroot of Some rest \<Rightarrow> starts_with ''/'' rest | None \<Rightarrow> False)"

definition retain_outside :: "string \<Rightarrow> (string, 'v) btree_map \<Rightarrow> (string, 'v) btree_map" where
  "retain_outside root m = filter (\<lambda>(docroot, _). \<not> is_under_root docroot root) m"

definition apply_unpark :: "config \<Rightarrow> string \<Rightarrow> mutation" where
  "apply_unpark cfg p =
     (let removed = bt_contains_key (parked_paths (cfg_parked cfg)) p;
          cfg' = cfg\<lparr>cfg_parked := (cfg_parked cfg)\<lparr>parked_paths := bt_remove p (parked_paths (cfg_parked cfg))\<rparr>,
                     cfg_domains := (cfg_domains cfg)\<lparr>dom_parked := retain_outside p (dom_parked (cfg_domains cfg))\<rparr>,
                     cfg_proxy_rules := (cfg_proxy_rules cfg)\<lparr>prs_parked := retain_outside p (prs_parked (cfg_proxy_rules cfg))\<rparr>,
                     cfg_route_rules := (cfg_route_rules cfg)\<lparr>rrs_parked := retain_outside p (rrs_parked (cfg_route_rules cfg))\<rparr>\<rparr>
      in applied_with (if removed then ''un-parked '' @ p else p @ '' was not parked'') cfg')"

text \<open>
  \<open>Path::parent\<close>: the path up to its last component, without trailing separators; none for a root
  or an empty path.
\<close>

definition path_parent :: "path \<Rightarrow> path option" where
  "path_parent p =
     (case rev (path_components p) of
        [] \<Rightarrow> None
      | RootDir # _ \<Rightarrow> None
      | _ \<Rightarrow>
          (let skip = (\<lambda>(i, w). w = [] \<or> (w = ''.'' \<and> \<not> (i = 0 \<and> \<not> is_absolute p)));
               back = dropWhile skip (tl (dropWhile skip (rev (enumerate (0::nat) (split_on (CHR ''/'') p)))))
           in Some (if back = [] \<and> is_absolute p then ''/'' else join_with ''/'' (map snd (rev back)))))"

definition parent_is_parked_root :: "config \<Rightarrow> string \<Rightarrow> bool" where
  "parent_is_parked_root cfg docroot \<longleftrightarrow>
     (case path_parent docroot of
        Some parent \<Rightarrow> bt_contains_key (parked_paths (cfg_parked cfg)) parent
      | None \<Rightarrow> False)"

definition demote :: "string \<Rightarrow> string option \<Rightarrow> config \<Rightarrow> config" where
  "demote n docroot cfg =
     (case (move_entry n docroot (dom_linked (cfg_domains cfg), dom_parked (cfg_domains cfg)),
            move_entry n docroot (prs_linked (cfg_proxy_rules cfg), prs_parked (cfg_proxy_rules cfg)),
            move_entry n docroot (rrs_linked (cfg_route_rules cfg), rrs_parked (cfg_route_rules cfg))) of
        ((dl, dp), (pl, pp), (rl, rp)) \<Rightarrow>
          cfg\<lparr>cfg_domains := (cfg_domains cfg)\<lparr>dom_linked := dl, dom_parked := dp\<rparr>,
              cfg_proxy_rules := (cfg_proxy_rules cfg)\<lparr>prs_linked := pl, prs_parked := pp\<rparr>,
              cfg_route_rules := (cfg_route_rules cfg)\<lparr>rrs_linked := rl, rrs_parked := rp\<rparr>\<rparr>)"

text \<open>The dash in the first message is the three bytes of U+2014.\<close>

definition apply_unlink :: "config \<Rightarrow> site_router \<Rightarrow> string \<Rightarrow> mutation" where
  "apply_unlink cfg router name =
     (let n = to_ascii_lowercase name
      in case find (\<lambda>s. site_name s = n) (cfg_linked cfg) of
           None \<Rightarrow>
             if is_some (router_get router n)
             then refused (NotFoundError (n @ '' is a parked site, not linked '' @ [CHR 0xE2, CHR 0x80, CHR 0x94]
                    @ '' unpark its directory instead'')) cfg
             else refused (not_found_site cfg n) cfg
         | Some s \<Rightarrow>
             (let docroot = override_key s;
                  reparks = parent_is_parked_root cfg docroot;
                  cfg1 = cfg\<lparr>cfg_linked := filter (\<lambda>s. site_name s \<noteq> n) (cfg_linked cfg)\<rparr>
              in applied_with (''unlinked '' @ n) (demote n (if reparks then Some docroot else None) cfg1)))"

section \<open>Settings of one site\<close>

text \<open>A setting goes to the linked site, else to the override of the parked site the router serves.\<close>

definition set_linked :: "string \<Rightarrow> (site \<Rightarrow> site) \<Rightarrow> config \<Rightarrow> config" where
  "set_linked n f cfg = cfg\<lparr>cfg_linked := update_first (\<lambda>s. site_name s = n) f (cfg_linked cfg)\<rparr>"

definition set_override :: "string \<Rightarrow> (site_override \<Rightarrow> site_override) \<Rightarrow> config \<Rightarrow> config" where
  "set_override key f cfg = cfg\<lparr>cfg_overrides := bt_entry key override_default f (cfg_overrides cfg)\<rparr>"

definition apply_set_php :: "config \<Rightarrow> site_router \<Rightarrow> string \<Rightarrow> php_version \<Rightarrow> mutation" where
  "apply_set_php cfg router name version =
     (let n = to_ascii_lowercase name; msg = n @ '' now uses PHP '' @ show_php_version version
      in if is_linked cfg n then applied_with msg (set_linked n (set_php version) cfg)
         else (case router_get router n of
             Some parked \<Rightarrow>
               applied_with msg (set_override (override_key parked) (\<lambda>ov. ov\<lparr>ov_php := Some version\<rparr>) cfg)
           | None \<Rightarrow> refused (not_found_site cfg n) cfg))"

definition apply_set_secure :: "config \<Rightarrow> site_router \<Rightarrow> string \<Rightarrow> bool \<Rightarrow> mutation" where
  "apply_set_secure cfg router name secure =
     (let n = to_ascii_lowercase name; msg = n @ '' secure='' @ show_bool secure
      in if is_linked cfg n then applied_with msg (set_linked n (set_site_secure secure) cfg)
         else (case router_get router n of
             Some parked \<Rightarrow>
               applied_with msg (set_override (override_key parked) (\<lambda>ov. ov\<lparr>ov_secure := Some secure\<rparr>) cfg)
           | None \<Rightarrow>
               if is_proxy cfg n
               then applied_with (''proxy '' @ msg)
                      (cfg\<lparr>cfg_proxies := update_first (\<lambda>p. ps_name p = n) (proxy_set_secure secure) (cfg_proxies cfg)\<rparr>)
               else refused (NotFoundError (''no site named '' @ n)) cfg))"

definition apply_set_wordpress_auto_login ::
    "config \<Rightarrow> site_router \<Rightarrow> string \<Rightarrow> bool \<Rightarrow> string option \<Rightarrow> mutation" where
  "apply_set_wordpress_auto_login cfg router name enabled user =
     (let n = to_ascii_lowercase name; msg = n @ '' wp_auto_login='' @ show_bool enabled
      in if is_linked cfg n
         then applied_with msg (set_linked n (\<lambda>s. set_wp_auto_login_user user (set_wp_auto_login enabled s)) cfg)
         else (case router_get router n of
             Some parked \<Rightarrow>
               applied_with msg (set_override (override_key parked)
                 (\<lambda>ov. ov\<lparr>ov_wp_auto_login := Some enabled, ov_wp_auto_login_user := user\<rparr>) cfg)
           | None \<Rightarrow> refused (not_found_site cfg n) cfg))"

definition apply_set_front_controller :: "config \<Rightarrow> site_router \<Rightarrow> string \<Rightarrow> bool \<Rightarrow> mutation" where
  "apply_set_front_controller cfg router name enabled =
     (let n = to_ascii_lowercase name; msg = n @ '' front_controller='' @ show_bool enabled
      in if is_linked cfg n then applied_with msg (set_linked n (set_front_controller (Some enabled)) cfg)
         else (case router_get router n of
             Some parked \<Rightarrow>
               applied_with msg (set_override (override_key parked) (\<lambda>ov. ov\<lparr>ov_front_controller := Some enabled\<rparr>) cfg)
           | None \<Rightarrow> refused (not_found_site cfg n) cfg))"

section \<open>Proxies and rules\<close>

definition reject_loop_target :: "config \<Rightarrow> upstream_target \<Rightarrow> (mutate_error, unit) result" where
  "reject_loop_target cfg target =
     (if up_host target = cfg_tld cfg \<or> ends_with (''.'' @ cfg_tld cfg) (up_host target)
      then Err (InvalidError (''proxy target must not be a .'' @ cfg_tld cfg @ '' host (routing loop)''))
      else Ok ())"

definition normalize_prefix :: "string \<Rightarrow> string" where
  "normalize_prefix pre = pop_slashes pre"

definition apply_add_proxy :: "error_display \<Rightarrow> config \<Rightarrow> site_router \<Rightarrow> string \<Rightarrow> string \<Rightarrow> mutation" where
  "apply_add_proxy disp cfg router name url =
     (case from_url_str url of
        Err e \<Rightarrow> refused (InvalidError (''invalid proxy target: '' @ disp e)) cfg
      | Ok target \<Rightarrow>
          (case reject_loop_target cfg target of
             Err e \<Rightarrow> refused e cfg
           | Ok _ \<Rightarrow>
               (case proxy_site_new name target of
                  Err e \<Rightarrow> refused (InvalidError (disp e)) cfg
                | Ok proxy \<Rightarrow>
                    (let n = ps_name proxy
                     in if is_some (router_get router n) \<or> is_proxy cfg n
                        then refused (AlreadyExistsError (''a site or proxy named '' @ n @ '' already exists'')) cfg
                        else (case domain_owner router (apex n) of
                            Some owner \<Rightarrow>
                              refused (AlreadyExistsError (to_fqdn (apex n) (cfg_tld cfg) @ '' already routes to '' @ owner)) cfg
                          | None \<Rightarrow>
                              applied_with (''added proxy '' @ n @ '' -> '' @ url)
                                (cfg\<lparr>cfg_proxies := cfg_proxies cfg @ [proxy]\<rparr>))))))"

definition apply_remove_proxy :: "config \<Rightarrow> string \<Rightarrow> mutation" where
  "apply_remove_proxy cfg name =
     (let n = to_ascii_lowercase name;
          cfg1 = cfg\<lparr>cfg_proxies := filter (\<lambda>p. ps_name p \<noteq> n) (cfg_proxies cfg)\<rparr>
      in if length (cfg_proxies cfg1) = length (cfg_proxies cfg)
         then refused (NotFoundError (''no proxy named '' @ n)) cfg1
         else applied_with (''removed proxy '' @ n)
                (cfg1\<lparr>cfg_domains := (cfg_domains cfg1)\<lparr>dom_proxy := bt_remove n (dom_proxy (cfg_domains cfg1))\<rparr>\<rparr>))"

definition site_rule_key :: "site_router \<Rightarrow> string \<Rightarrow> (bool \<times> string) option" where
  "site_rule_key router n =
     (case router_get router n of
        None \<Rightarrow> None
      | Some s \<Rightarrow> (case kind s of Linked \<Rightarrow> Some (True, n) | Parked \<Rightarrow> Some (False, override_key s)))"

text \<open>The map a rule key selects, and storing it back.\<close>

definition proxy_rule_side :: "bool \<Rightarrow> config \<Rightarrow> (string, proxy_rule list) btree_map" where
  "proxy_rule_side linked cfg = (if linked then prs_linked (cfg_proxy_rules cfg) else prs_parked (cfg_proxy_rules cfg))"

definition put_proxy_rules :: "bool \<Rightarrow> (string, proxy_rule list) btree_map \<Rightarrow> config \<Rightarrow> config" where
  "put_proxy_rules linked m cfg =
     cfg\<lparr>cfg_proxy_rules := (if linked then (cfg_proxy_rules cfg)\<lparr>prs_linked := m\<rparr>
                             else (cfg_proxy_rules cfg)\<lparr>prs_parked := m\<rparr>)\<rparr>"

definition route_rule_side :: "bool \<Rightarrow> config \<Rightarrow> (string, route_rule list) btree_map" where
  "route_rule_side linked cfg = (if linked then rrs_linked (cfg_route_rules cfg) else rrs_parked (cfg_route_rules cfg))"

definition put_route_rules :: "bool \<Rightarrow> (string, route_rule list) btree_map \<Rightarrow> config \<Rightarrow> config" where
  "put_route_rules linked m cfg =
     cfg\<lparr>cfg_route_rules := (if linked then (cfg_route_rules cfg)\<lparr>rrs_linked := m\<rparr>
                             else (cfg_route_rules cfg)\<lparr>rrs_parked := m\<rparr>)\<rparr>"

text \<open>The rules under a key after \<open>entry(key).or_default()\<close>.\<close>

definition rules_of :: "(string, 'r list) btree_map \<Rightarrow> string \<Rightarrow> 'r list" where
  "rules_of m key = (case bt_get m key of Some rs \<Rightarrow> rs | None \<Rightarrow> [])"

definition apply_add_proxy_rule ::
    "error_display \<Rightarrow> config \<Rightarrow> site_router \<Rightarrow> string \<Rightarrow> string \<Rightarrow> string \<Rightarrow> mutation" where
  "apply_add_proxy_rule disp cfg router site_arg pre url =
     (let n = to_ascii_lowercase site_arg
      in case from_url_str url of
           Err e \<Rightarrow> refused (InvalidError (''invalid proxy target: '' @ disp e)) cfg
         | Ok target \<Rightarrow>
             (case reject_loop_target cfg target of
                Err e \<Rightarrow> refused e cfg
              | Ok _ \<Rightarrow>
                  (case proxy_rule_new pre target of
                     Err e \<Rightarrow> refused (InvalidError (''invalid rule prefix: '' @ disp e)) cfg
                   | Ok rule \<Rightarrow>
                       (case site_rule_key router n of
                          None \<Rightarrow> refused (not_found_site cfg n) cfg
                        | Some (linked, key) \<Rightarrow>
                            (let m = proxy_rule_side linked cfg; rules = rules_of m key
                             in if list_ex (\<lambda>r. pr_prefix r = pr_prefix rule) rules
                                then refused (AlreadyExistsError (''site '' @ n @ '' already has a proxy rule for '' @ pr_prefix rule))
                                       (put_proxy_rules linked (bt_insert key rules m) cfg)
                                else applied_with (''added proxy rule '' @ n @ pr_prefix rule @ '' -> '' @ url)
                                       (put_proxy_rules linked (bt_insert key (rules @ [rule]) m) cfg))))))"

definition apply_remove_proxy_rule :: "config \<Rightarrow> site_router \<Rightarrow> string \<Rightarrow> string \<Rightarrow> mutation" where
  "apply_remove_proxy_rule cfg router site_arg pre =
     (let n = to_ascii_lowercase site_arg; wanted = normalize_prefix pre;
          missing = NotFoundError (''site '' @ n @ '' has no proxy rule for '' @ wanted)
      in case site_rule_key router n of
           None \<Rightarrow> refused (not_found_site cfg n) cfg
         | Some (linked, key) \<Rightarrow>
             (let m = proxy_rule_side linked cfg
              in case bt_get m key of
                   None \<Rightarrow> refused missing cfg
                 | Some rules \<Rightarrow>
                     (let kept = filter (\<lambda>r. pr_prefix r \<noteq> wanted) rules
                      in if length kept = length rules
                         then refused missing (put_proxy_rules linked (bt_insert key kept m) cfg)
                         else applied_with (''removed proxy rule '' @ n @ wanted)
                                (put_proxy_rules linked
                                  (if kept = [] then bt_remove key m else bt_insert key kept m) cfg))))"

definition apply_add_route_rule ::
    "error_display \<Rightarrow> config \<Rightarrow> site_router \<Rightarrow> string \<Rightarrow> string \<Rightarrow> string \<Rightarrow> mutation" where
  "apply_add_route_rule disp cfg router site_arg pre target =
     (let n = to_ascii_lowercase site_arg
      in case route_rule_new pre target of
           Err e \<Rightarrow> refused (InvalidError (''invalid routing rule: '' @ disp e)) cfg
         | Ok rule \<Rightarrow>
             (case site_rule_key router n of
                None \<Rightarrow> refused (not_found_site cfg n) cfg
              | Some (linked, key) \<Rightarrow>
                  (let m = route_rule_side linked cfg; rules = rules_of m key
                   in if list_ex (\<lambda>r. rr_prefix r = rr_prefix rule) rules
                      then refused (AlreadyExistsError (''site '' @ n @ '' already has a routing rule for '' @ rr_prefix rule))
                             (put_route_rules linked (bt_insert key rules m) cfg)
                      else applied_with (''added route '' @ n @ rr_prefix rule @ '' -> '' @ target)
                             (put_route_rules linked (bt_insert key (rules @ [rule]) m) cfg))))"

definition apply_remove_route_rule :: "config \<Rightarrow> site_router \<Rightarrow> string \<Rightarrow> string \<Rightarrow> mutation" where
  "apply_remove_route_rule cfg router site_arg pre =
     (let n = to_ascii_lowercase site_arg; wanted = normalize_prefix pre;
          missing = NotFoundError (''site '' @ n @ '' has no routing rule for '' @ wanted)
      in case site_rule_key router n of
           None \<Rightarrow> refused (not_found_site cfg n) cfg
         | Some (linked, key) \<Rightarrow>
             (let m = route_rule_side linked cfg
              in case bt_get m key of
                   None \<Rightarrow> refused missing cfg
                 | Some rules \<Rightarrow>
                     (let kept = filter (\<lambda>r. rr_prefix r \<noteq> wanted) rules
                      in if length kept = length rules
                         then refused missing (put_route_rules linked (bt_insert key kept m) cfg)
                         else applied_with (''removed route '' @ n @ wanted)
                                (put_route_rules linked
                                  (if kept = [] then bt_remove key m else bt_insert key kept m) cfg))))"

section \<open>Domains\<close>

datatype domain_target = LinkedTarget string | ParkedTarget string | ProxyTarget string

definition resolve_domain_target :: "config \<Rightarrow> site_router \<Rightarrow> string \<Rightarrow> (mutate_error, domain_target) result" where
  "resolve_domain_target cfg router n =
     (if is_linked cfg n then Ok (LinkedTarget n)
      else (case router_get router n of
          Some parked \<Rightarrow> Ok (ParkedTarget (override_key parked))
        | None \<Rightarrow>
            if is_proxy cfg n then Ok (ProxyTarget n)
            else Err (NotFoundError (''no site named '' @ n))))"

text \<open>The deltas a target selects, and storing them back.\<close>

fun deltas_at :: "config \<Rightarrow> domain_target \<Rightarrow> string \<times> (string, domain_delta) btree_map" where
  "deltas_at cfg (LinkedTarget n) = (n, dom_linked (cfg_domains cfg))"
| "deltas_at cfg (ParkedTarget k) = (k, dom_parked (cfg_domains cfg))"
| "deltas_at cfg (ProxyTarget n) = (n, dom_proxy (cfg_domains cfg))"

fun put_deltas :: "domain_target \<Rightarrow> (string, domain_delta) btree_map \<Rightarrow> config \<Rightarrow> config" where
  "put_deltas (LinkedTarget _) m cfg = cfg\<lparr>cfg_domains := (cfg_domains cfg)\<lparr>dom_linked := m\<rparr>\<rparr>"
| "put_deltas (ParkedTarget _) m cfg = cfg\<lparr>cfg_domains := (cfg_domains cfg)\<lparr>dom_parked := m\<rparr>\<rparr>"
| "put_deltas (ProxyTarget _) m cfg = cfg\<lparr>cfg_domains := (cfg_domains cfg)\<lparr>dom_proxy := m\<rparr>\<rparr>"

definition delta_at :: "config \<Rightarrow> domain_target \<Rightarrow> domain_delta" where
  "delta_at cfg t =
     (case deltas_at cfg t of (k, m) \<Rightarrow> (case bt_get m k of Some d \<Rightarrow> d | None \<Rightarrow> delta_default))"

text \<open>\<open>delta_mut\<close> and a change to what it gives.\<close>

definition delta_mut :: "domain_target \<Rightarrow> (domain_delta \<Rightarrow> domain_delta) \<Rightarrow> config \<Rightarrow> config" where
  "delta_mut t f cfg = (case deltas_at cfg t of (k, m) \<Rightarrow> put_deltas t (bt_entry k delta_default f m) cfg)"

definition prune_delta :: "domain_target \<Rightarrow> config \<Rightarrow> config" where
  "prune_delta t cfg =
     (case deltas_at cfg t of (k, m) \<Rightarrow>
        (case bt_get m k of
           Some d \<Rightarrow> if delta_is_empty d then put_deltas t (bt_remove k m) cfg else cfg
         | None \<Rightarrow> cfg))"

definition mutate_parse_domain :: "error_display \<Rightarrow> config \<Rightarrow> string \<Rightarrow> (mutate_error, domain) result" where
  "mutate_parse_domain disp cfg d =
     map_err (\<lambda>e. InvalidError (''invalid domain: '' @ disp e)) (domain_parse d (cfg_tld cfg))"

definition reject_if_claimed_elsewhere ::
    "site_router \<Rightarrow> string \<Rightarrow> domain \<Rightarrow> string \<Rightarrow> (mutate_error, unit) result" where
  "reject_if_claimed_elsewhere router n dmn tld =
     (case domain_owner router dmn of
        Some owner \<Rightarrow>
          if owner \<noteq> n then Err (AlreadyExistsError (to_fqdn dmn tld @ '' already routes to '' @ owner)) else Ok ()
      | None \<Rightarrow> Ok ())"

definition exact_count :: "string \<Rightarrow> domain list \<Rightarrow> domain list \<Rightarrow> nat" where
  "exact_count n ad sd =
     (if apex n \<in> set sd then 0 else 1) + length (filter (\<lambda>d. \<not> is_wildcard d) ad)"

definition apply_add_domain :: "error_display \<Rightarrow> config \<Rightarrow> site_router \<Rightarrow> string \<Rightarrow> string \<Rightarrow> mutation" where
  "apply_add_domain disp cfg router name dom_arg =
     (let n = to_ascii_lowercase name
      in case resolve_domain_target cfg router n of
           Err e \<Rightarrow> refused e cfg
         | Ok target \<Rightarrow>
             (case mutate_parse_domain disp cfg dom_arg of
                Err e \<Rightarrow> refused e cfg
              | Ok dmn \<Rightarrow>
                  (case reject_if_claimed_elsewhere router n dmn (cfg_tld cfg) of
                     Err e \<Rightarrow> refused e cfg
                   | Ok _ \<Rightarrow>
                       applied_with (''added '' @ to_fqdn dmn (cfg_tld cfg) @ '' to '' @ n)
                         (prune_delta target
                           (delta_mut target (\<lambda>delta.
                              if dmn = apex n then delta\<lparr>suppressed := filter (\<lambda>d. d \<noteq> apex n) (suppressed delta)\<rparr>
                              else if dmn \<notin> set (added delta) then delta\<lparr>added := added delta @ [dmn]\<rparr>
                              else delta) cfg)))))"

definition apply_remove_domain :: "error_display \<Rightarrow> config \<Rightarrow> site_router \<Rightarrow> string \<Rightarrow> string \<Rightarrow> mutation" where
  "apply_remove_domain disp cfg router name dom_arg =
     (let n = to_ascii_lowercase name
      in case resolve_domain_target cfg router n of
           Err e \<Rightarrow> refused e cfg
         | Ok target \<Rightarrow>
             (case mutate_parse_domain disp cfg dom_arg of
                Err e \<Rightarrow> refused e cfg
              | Ok dmn \<Rightarrow>
                  (let fqdn = to_fqdn dmn (cfg_tld cfg);
                       delta = delta_at cfg target;
                       touched = delta_mut target (\<lambda>d. d) cfg
                   in case (if dmn \<in> set (added delta)
                            then Some (filter (\<lambda>d. d \<noteq> dmn) (added delta), suppressed delta)
                            else if dmn = apex n
                            then Some (added delta,
                                   if apex n \<in> set (suppressed delta) then suppressed delta
                                   else suppressed delta @ [apex n])
                            else None) of
                        None \<Rightarrow> refused (InvalidError (fqdn @ '' is not a domain of '' @ n)) touched
                      | Some (ad, sd) \<Rightarrow>
                          if exact_count n ad sd = 0
                          then refused (InvalidError (n @ '' must keep at least one exact domain'')) touched
                          else applied_with (''removed '' @ fqdn @ '' from '' @ n)
                                 (prune_delta target
                                   (delta_mut target (\<lambda>d. \<lparr>added = ad, suppressed = sd,
                                      delta_primary = (if delta_primary d = Some dmn then None else delta_primary d)\<rparr>) cfg)))))"

definition apply_set_primary_domain ::
    "error_display \<Rightarrow> config \<Rightarrow> site_router \<Rightarrow> string \<Rightarrow> string \<Rightarrow> mutation" where
  "apply_set_primary_domain disp cfg router name dom_arg =
     (let n = to_ascii_lowercase name
      in case resolve_domain_target cfg router n of
           Err e \<Rightarrow> refused e cfg
         | Ok target \<Rightarrow>
             (case mutate_parse_domain disp cfg dom_arg of
                Err e \<Rightarrow> refused e cfg
              | Ok dmn \<Rightarrow>
                  if is_wildcard dmn
                  then refused (InvalidError ''a primary domain must be exact, not a wildcard'') cfg
                  else (case reject_if_claimed_elsewhere router n dmn (cfg_tld cfg) of
                      Err e \<Rightarrow> refused e cfg
                    | Ok _ \<Rightarrow>
                        applied_with (n @ '' primary domain is '' @ to_fqdn dmn (cfg_tld cfg))
                          (prune_delta target
                            (delta_mut target (\<lambda>delta.
                               if dmn = apex n
                               then delta\<lparr>suppressed := filter (\<lambda>d. d \<noteq> apex n) (suppressed delta), delta_primary := None\<rparr>
                               else delta\<lparr>added := (if dmn \<notin> set (added delta) then added delta @ [dmn] else added delta),
                                          delta_primary := Some dmn\<rparr>) cfg)))))"

definition apply_reset_domains :: "config \<Rightarrow> site_router \<Rightarrow> string \<Rightarrow> mutation" where
  "apply_reset_domains cfg router name =
     (let n = to_ascii_lowercase name
      in case resolve_domain_target cfg router n of
           Err e \<Rightarrow> refused e cfg
         | Ok target \<Rightarrow>
             applied_with (n @ '' domains reset to default'')
               (case deltas_at cfg target of (k, m) \<Rightarrow> put_deltas target (bt_remove k m) cfg))"

section \<open>Groups\<close>

abbreviation put_groups :: "groups_section \<Rightarrow> config \<Rightarrow> config" where
  "put_groups g cfg \<equiv> cfg\<lparr>cfg_groups := g\<rparr>"

definition reserved_group_error :: mutate_error where
  "reserved_group_error = InvalidError ([CHR 0x22] @ RESERVED_GROUP_NAME @ [CHR 0x22] @ '' is a reserved group name'')"

definition apply_create_group :: "config \<Rightarrow> string \<Rightarrow> mutation" where
  "apply_create_group cfg raw =
     (let name = trim raw; g = cfg_groups cfg
      in if name = [] then refused (InvalidError ''group name must not be empty'') cfg
         else if eq_ignore_ascii_case name RESERVED_GROUP_NAME then refused reserved_group_error cfg
         else if list_ex (\<lambda>x. eq_ignore_ascii_case x name) (group_order g)
         then refused (AlreadyExistsError (''group already exists: '' @ name)) cfg
         else applied_with (''created group '' @ name) (put_groups (g\<lparr>group_order := group_order g @ [name]\<rparr>) cfg))"

definition apply_delete_group :: "config \<Rightarrow> string \<Rightarrow> mutation" where
  "apply_delete_group cfg name =
     (let g = cfg_groups cfg;
          existed = list_ex (\<lambda>x. eq_ignore_ascii_case x name) (group_order g)
      in applied_with (if existed then ''deleted group '' @ name else name @ '' was not a group'')
           (put_groups (g\<lparr>group_order := filter (\<lambda>x. \<not> eq_ignore_ascii_case x name) (group_order g),
                           group_members := filter (\<lambda>(_, x). \<not> eq_ignore_ascii_case x name) (group_members g)\<rparr>) cfg))"

definition apply_set_group_order :: "config \<Rightarrow> string list \<Rightarrow> mutation" where
  "apply_set_group_order cfg order =
     (let g = cfg_groups cfg
      in if sort order \<noteq> sort (group_order g)
         then refused (InvalidError ''group order must be a permutation of the existing groups'') cfg
         else applied_with ''reordered groups'' (put_groups (g\<lparr>group_order := order\<rparr>) cfg))"

definition apply_set_site_group :: "config \<Rightarrow> string \<Rightarrow> string option \<Rightarrow> mutation" where
  "apply_set_site_group cfg site_arg wanted_group =
     (let n = to_ascii_lowercase site_arg; g = cfg_groups cfg
      in case wanted_group of
           Some wanted \<Rightarrow>
             (case find (\<lambda>existing. eq_ignore_ascii_case existing wanted) (group_order g) of
                None \<Rightarrow> refused (NotFoundError (''no group named '' @ wanted)) cfg
              | Some canonical \<Rightarrow>
                  applied_with (n @ '' added to '' @ canonical)
                    (put_groups (g\<lparr>group_members := bt_insert n canonical (group_members g)\<rparr>) cfg))
         | None \<Rightarrow>
             applied_with (n @ '' ungrouped'') (put_groups (g\<lparr>group_members := bt_remove n (group_members g)\<rparr>) cfg))"

definition apply_rename_group :: "config \<Rightarrow> string \<Rightarrow> string \<Rightarrow> mutation" where
  "apply_rename_group cfg from raw =
     (let to = trim raw; g = cfg_groups cfg
      in if to = [] then refused (InvalidError ''group name must not be empty'') cfg
         else if eq_ignore_ascii_case to RESERVED_GROUP_NAME then refused reserved_group_error cfg
         else (case position (\<lambda>x. eq_ignore_ascii_case x from) (group_order g) of
             None \<Rightarrow> refused (NotFoundError (''no group named '' @ from)) cfg
           | Some idx \<Rightarrow>
               if list_ex (\<lambda>(i, x). i \<noteq> idx \<and> eq_ignore_ascii_case x to) (enumerate 0 (group_order g))
               then refused (AlreadyExistsError (''group already exists: '' @ to)) cfg
               else applied_with (''renamed group '' @ from @ '' to '' @ to)
                      (put_groups (g\<lparr>group_order := (group_order g)[idx := to],
                         group_members := map (\<lambda>(s, x). (s, if eq_ignore_ascii_case x from then to else x)) (group_members g)\<rparr>) cfg)))"

section \<open>Dispatch\<close>

definition mutate_apply ::
    "error_display \<Rightarrow> config \<Rightarrow> site_router \<Rightarrow> request \<Rightarrow> path option \<Rightarrow> php_version \<Rightarrow> mutation" where
  "mutate_apply disp cfg router req canonical default_php =
     (case req of
        Park _ \<Rightarrow> apply_park cfg canonical
      | Link name _ \<Rightarrow> apply_link disp cfg name canonical default_php
      | Unpark p \<Rightarrow> apply_unpark cfg p
      | Unlink name \<Rightarrow> apply_unlink cfg router name
      | SetPhp name version \<Rightarrow> apply_set_php cfg router name version
      | SetSecure name secure \<Rightarrow> apply_set_secure cfg router name secure
      | SetWordpressAutoLogin name enabled user \<Rightarrow> apply_set_wordpress_auto_login cfg router name enabled user
      | SetFrontController name enabled \<Rightarrow> apply_set_front_controller cfg router name enabled
      | AddDomain name d \<Rightarrow> apply_add_domain disp cfg router name d
      | RemoveDomain name d \<Rightarrow> apply_remove_domain disp cfg router name d
      | SetPrimaryDomain name d \<Rightarrow> apply_set_primary_domain disp cfg router name d
      | ResetDomains name \<Rightarrow> apply_reset_domains cfg router name
      | AddProxy name url \<Rightarrow> apply_add_proxy disp cfg router name url
      | RemoveProxy name \<Rightarrow> apply_remove_proxy cfg name
      | AddProxyRule s pre url \<Rightarrow> apply_add_proxy_rule disp cfg router s pre url
      | RemoveProxyRule s pre \<Rightarrow> apply_remove_proxy_rule cfg router s pre
      | AddRouteRule s pre target \<Rightarrow> apply_add_route_rule disp cfg router s pre target
      | RemoveRouteRule s pre \<Rightarrow> apply_remove_route_rule cfg router s pre
      | CreateGroup name \<Rightarrow> apply_create_group cfg name
      | DeleteGroup name \<Rightarrow> apply_delete_group cfg name
      | SetGroupOrder order \<Rightarrow> apply_set_group_order cfg order
      | SetSiteGroup s wanted \<Rightarrow> apply_set_site_group cfg s wanted
      | RenameGroup from to \<Rightarrow> apply_rename_group cfg from to
      | SetWebRoot _ _ \<Rightarrow> refused (InvalidError ''unsupported request'') cfg
      | OtherRequest \<Rightarrow> refused (InvalidError ''unsupported request'') cfg)"

end
