(* ===== verification/Mutate_Valid.thy ===== *)
theory Mutate_Valid
  imports Mutate "HOL-Library.Multiset"
begin

text \<open>
  Every mutation keeps the configuration valid: \<open>Config::validate\<close> accepts what \<open>mutate::apply\<close>
  produces, so the daemon's check after it can only fail in the cases named here.
\<close>

section \<open>The checks a mutation can touch\<close>

text \<open>The sections no mutation of this module changes.\<close>

definition frozen_ok :: "config \<Rightarrow> bool" where
  "frozen_ok c \<longleftrightarrow>
     validate_ports c = Ok () \<and> validate_known_services c = Ok () \<and> validate_php_settings c = Ok ()
     \<and> validate_php_extensions c = Ok () \<and> validate_update_channel c = Ok () \<and> validate_tunnel c = Ok ()"

lemmas frozen_defs = frozen_ok_def validate_ports_def validate_known_services_def validate_php_settings_def
  validate_php_extensions_def validate_update_channel_def validate_tunnel_def

lemma frozen_ok_upd [simp]:
  "frozen_ok (c\<lparr>cfg_parked := pk\<rparr>) = frozen_ok c"
  "frozen_ok (c\<lparr>cfg_linked := ls\<rparr>) = frozen_ok c"
  "frozen_ok (c\<lparr>cfg_overrides := ov\<rparr>) = frozen_ok c"
  "frozen_ok (c\<lparr>cfg_groups := g\<rparr>) = frozen_ok c"
  "frozen_ok (c\<lparr>cfg_domains := d\<rparr>) = frozen_ok c"
  "frozen_ok (c\<lparr>cfg_proxies := p\<rparr>) = frozen_ok c"
  "frozen_ok (c\<lparr>cfg_proxy_rules := pr\<rparr>) = frozen_ok c"
  "frozen_ok (c\<lparr>cfg_route_rules := rr\<rparr>) = frozen_ok c"
  by (simp_all add: frozen_defs cong: result.case_cong)

definition sites_ok :: "site list \<Rightarrow> bool" where
  "sites_ok ls \<longleftrightarrow> distinct (map site_name ls) \<and> (\<forall>s \<in> set ls. is_safe_relative (web_subpath s))"

definition overrides_ok :: "(string, site_override) btree_map \<Rightarrow> bool" where
  "overrides_ok m \<longleftrightarrow>
     (\<forall>(k, ov) \<in> set m. k \<noteq> [] \<and> (\<forall>w. ov_web_root ov = Some w \<longrightarrow> is_safe_relative w))"

definition groups_ok :: "groups_section \<Rightarrow> bool" where
  "groups_ok g \<longleftrightarrow>
     (\<forall>x \<in> set (group_order g). x \<noteq> [] \<and> \<not> eq_ignore_ascii_case x RESERVED_GROUP_NAME)
     \<and> distinct (map to_ascii_lowercase (group_order g))
     \<and> (\<forall>(s, x) \<in> set (group_members g). to_ascii_lowercase x \<in> to_ascii_lowercase ` set (group_order g))"

definition deltas_ok :: "(string, domain_delta) btree_map \<Rightarrow> bool" where
  "deltas_ok m \<longleftrightarrow> (\<forall>(k, d) \<in> set m. check_delta d = Ok ())"

definition loops :: "string \<Rightarrow> upstream_target \<Rightarrow> bool" where
  "loops tld t \<longleftrightarrow> up_host t = tld \<or> ends_with (''.'' @ tld) (up_host t)"

definition proxy_rules_ok :: "string \<Rightarrow> proxy_rule list \<Rightarrow> bool" where
  "proxy_rules_ok tld rs \<longleftrightarrow> distinct (map pr_prefix rs) \<and> (\<forall>r \<in> set rs. \<not> loops tld (pr_target r))"

definition proxies_ok :: "string \<Rightarrow> string set \<Rightarrow> proxy_site list \<Rightarrow> bool" where
  "proxies_ok tld names ps \<longleftrightarrow>
     distinct (map ps_name ps) \<and> (\<forall>p \<in> set ps. ps_name p \<notin> names \<and> \<not> loops tld (ps_target p))"

definition rule_map_ok :: "('r list \<Rightarrow> bool) \<Rightarrow> string set option \<Rightarrow> (string, 'r list) btree_map \<Rightarrow> bool" where
  "rule_map_ok P names m \<longleftrightarrow>
     (\<forall>(k, rs) \<in> set m. P rs \<and> (case names of Some ns \<Rightarrow> k \<in> ns | None \<Rightarrow> True))"

definition route_set_ok :: "route_rule list \<Rightarrow> bool" where
  "route_set_ok rs \<longleftrightarrow> distinct (map rr_prefix rs)"

text \<open>Validity section by section.\<close>

lemma config_valid_iff:
  "config_validate c = Ok () \<longleftrightarrow>
     frozen_ok c \<and> sites_ok (cfg_linked c) \<and> [] \<notin> fst ` set (parked_paths (cfg_parked c))
     \<and> overrides_ok (cfg_overrides c) \<and> groups_ok (cfg_groups c)
     \<and> deltas_ok (dom_linked (cfg_domains c)) \<and> deltas_ok (dom_parked (cfg_domains c)) \<and> deltas_ok (dom_proxy (cfg_domains c))
     \<and> proxies_ok (cfg_tld c) (linked_names c) (cfg_proxies c)
     \<and> rule_map_ok (proxy_rules_ok (cfg_tld c)) (Some (linked_names c)) (prs_linked (cfg_proxy_rules c))
     \<and> rule_map_ok (proxy_rules_ok (cfg_tld c)) None (prs_parked (cfg_proxy_rules c))
     \<and> rule_map_ok route_set_ok (Some (linked_names c)) (rrs_linked (cfg_route_rules c))
     \<and> rule_map_ok route_set_ok None (rrs_parked (cfg_route_rules c))"
proof -
  have loop: "targets_loop c t = loops (cfg_tld c) t" for t
    by (simp add: targets_loop_def loops_def)
  have web: "overrides_ok m \<longleftrightarrow> [] \<notin> fst ` set m \<and>
      (\<forall>(k, ov) \<in> set m. \<forall>w. ov_web_root ov = Some w \<longrightarrow> is_safe_relative w)" for m
    by (force simp: overrides_ok_def)
  have grp: "groups_ok (cfg_groups c) \<longleftrightarrow> validate_groups c = Ok ()"
    by (simp add: validate_groups_iff groups_ok_def bt_values_def case_prod_unfold)
  have deltas: "validate_domains c = Ok () \<longleftrightarrow>
      deltas_ok (dom_linked (cfg_domains c)) \<and> deltas_ok (dom_parked (cfg_domains c)) \<and> deltas_ok (dom_proxy (cfg_domains c))"
    by (simp add: validate_domains_iff deltas_ok_def ball_Un)
  have prox: "validate_proxies c = Ok () \<longleftrightarrow>
      proxies_ok (cfg_tld c) (linked_names c) (cfg_proxies c)
      \<and> rule_map_ok (proxy_rules_ok (cfg_tld c)) (Some (linked_names c)) (prs_linked (cfg_proxy_rules c))
      \<and> rule_map_ok (proxy_rules_ok (cfg_tld c)) None (prs_parked (cfg_proxy_rules c))"
    unfolding validate_proxies_iff validate_rule_set_iff proxies_ok_def rule_map_ok_def proxy_rules_ok_def loop
    by (simp add: ball_Un case_prod_unfold ball_conj_distrib) blast
  have route: "validate_route_rules c = Ok () \<longleftrightarrow>
      rule_map_ok route_set_ok (Some (linked_names c)) (rrs_linked (cfg_route_rules c))
      \<and> rule_map_ok route_set_ok None (rrs_parked (cfg_route_rules c))"
    unfolding validate_route_rules_iff rule_map_ok_def route_set_ok_def
    by (simp add: ball_Un case_prod_unfold ball_conj_distrib) blast
  show ?thesis
    unfolding config_validate_iff validate_checks_def
    by (simp add: frozen_ok_def sites_ok_def web validate_unique_linked_iff validate_nonempty_paths_iff
        validate_web_roots_iff grp deltas prox route) blast
qed

lemma linked_names_upd [simp]:
  "linked_names (c\<lparr>cfg_parked := pk\<rparr>) = linked_names c"
  "linked_names (c\<lparr>cfg_overrides := ov\<rparr>) = linked_names c"
  "linked_names (c\<lparr>cfg_groups := g\<rparr>) = linked_names c"
  "linked_names (c\<lparr>cfg_domains := d\<rparr>) = linked_names c"
  "linked_names (c\<lparr>cfg_proxies := p\<rparr>) = linked_names c"
  "linked_names (c\<lparr>cfg_proxy_rules := pr\<rparr>) = linked_names c"
  "linked_names (c\<lparr>cfg_route_rules := rr\<rparr>) = linked_names c"
  "linked_names (c\<lparr>cfg_linked := ls\<rparr>) = site_name ` set ls"
  by (simp_all add: linked_names_def)

section \<open>Maps\<close>

lemma set_bt_insert: "set (bt_insert k v m) \<subseteq> insert (k, v) (set m)"
  by (induction k v m rule: bt_insert.induct) auto

lemma set_bt_remove: "set (bt_remove k m) \<subseteq> set m"
  by (auto simp: bt_remove_def)

lemma bt_get_member: "bt_get m k = Some v \<Longrightarrow> (k, v) \<in> set m"
  by (simp add: bt_get_def map_of_SomeD)

lemma rule_map_ok_insert:
  assumes "rule_map_ok P names m" "P rs" "case names of Some ns \<Rightarrow> k \<in> ns | None \<Rightarrow> True"
  shows "rule_map_ok P names (bt_insert k rs m)"
  using assms set_bt_insert [of k rs m] unfolding rule_map_ok_def by (fastforce split: option.splits)

lemma rule_map_ok_subset: "rule_map_ok P names m \<Longrightarrow> set m' \<subseteq> set m \<Longrightarrow> rule_map_ok P names m'"
  unfolding rule_map_ok_def by blast

lemma rules_of_ok: "rule_map_ok P names m \<Longrightarrow> P [] \<Longrightarrow> P (rules_of m k)"
  unfolding rules_of_def rule_map_ok_def by (auto split: option.split dest!: bt_get_member)

lemma deltas_ok_insert: "deltas_ok m \<Longrightarrow> check_delta d = Ok () \<Longrightarrow> deltas_ok (bt_insert k d m)"
  using set_bt_insert [of k d m] unfolding deltas_ok_def by fastforce

lemma deltas_ok_subset: "deltas_ok m \<Longrightarrow> set m' \<subseteq> set m \<Longrightarrow> deltas_ok m'"
  unfolding deltas_ok_def by blast

lemma move_entry_sets:
  assumes "move_entry k l (src, dst) = (src', dst')"
  shows "set src' \<subseteq> set src" "k \<notin> fst ` set src'"
    "\<And>x v. (x, v) \<in> set dst' \<Longrightarrow> (x, v) \<in> set dst \<or> l = Some x \<and> (k, v) \<in> set src"
proof -
  show "set src' \<subseteq> set src" "k \<notin> fst ` set src'"
    using assms set_bt_remove [of k src]
    by (auto simp: move_entry_def bt_get_def bt_remove_def map_of_eq_None_iff split: option.splits)
  fix x v assume x: "(x, v) \<in> set dst'"
  show "(x, v) \<in> set dst \<or> l = Some x \<and> (k, v) \<in> set src"
  proof (cases "bt_get src k")
    case None
    then show ?thesis using assms x by (simp add: move_entry_def)
  next
    case (Some w)
    then have "(k, w) \<in> set src" by (rule bt_get_member)
    moreover have "dst' = (case l of Some y \<Rightarrow> bt_insert y w dst | None \<Rightarrow> dst)"
      using assms Some by (simp add: move_entry_def)
    ultimately show ?thesis
      using x set_bt_insert [of _ w dst] by (cases l) auto
  qed
qed

lemma deltas_ok_move:
  assumes "move_entry k l (src, dst) = (src', dst')" "deltas_ok src" "deltas_ok dst"
  shows "deltas_ok src' \<and> deltas_ok dst'"
  using move_entry_sets [OF assms(1)] assms(2,3) unfolding deltas_ok_def by blast

text \<open>An entry that moves to the linked side lands on a linked name; one that leaves it frees its key.\<close>

lemma rule_map_okD: "rule_map_ok P names m \<Longrightarrow> (k, rs) \<in> set m \<Longrightarrow> P rs \<and> (\<forall>ns. names = Some ns \<longrightarrow> k \<in> ns)"
  unfolding rule_map_ok_def by auto

lemma rule_map_okI: "(\<And>k rs. (k, rs) \<in> set m \<Longrightarrow> P rs \<and> (\<forall>ns. names = Some ns \<longrightarrow> k \<in> ns)) \<Longrightarrow> rule_map_ok P names m"
  unfolding rule_map_ok_def by (auto split: option.split)

lemma rule_map_ok_promote:
  assumes "move_entry k (Some n) (src, dst) = (src', dst')"
    and "rule_map_ok P None src" "rule_map_ok P (Some ns) dst"
  shows "rule_map_ok P None src' \<and> rule_map_ok P (Some (insert n ns)) dst'"
proof
  show "rule_map_ok P None src'"
    by (rule rule_map_ok_subset [OF assms(2) move_entry_sets(1) [OF assms(1)]])
  show "rule_map_ok P (Some (insert n ns)) dst'"
    using move_entry_sets(3) [OF assms(1)] rule_map_okD [OF assms(2)] rule_map_okD [OF assms(3)]
    by (intro rule_map_okI) blast
qed

lemma rule_map_ok_demote:
  assumes m: "move_entry n l (src, dst) = (src', dst')"
    and src: "rule_map_ok P (Some ns) src" and dst: "rule_map_ok P None dst" and ns: "ns - {n} \<subseteq> ns'"
  shows "rule_map_ok P (Some ns') src' \<and> rule_map_ok P None dst'"
proof
  show "rule_map_ok P (Some ns') src'"
  proof (rule rule_map_okI)
    fix k rs assume k: "(k, rs) \<in> set src'"
    then have "(k, rs) \<in> set src" "k \<noteq> n"
      using move_entry_sets(1,2) [OF m] by force+
    then show "P rs \<and> (\<forall>s. Some ns' = Some s \<longrightarrow> k \<in> s)"
      using rule_map_okD [OF src] ns by auto
  qed
  show "rule_map_ok P None dst'"
    using move_entry_sets(3) [OF m] rule_map_okD [OF src] rule_map_okD [OF dst]
    by (intro rule_map_okI) blast
qed

section \<open>One lemma per handler\<close>

definition keeps_valid :: "mutation \<Rightarrow> bool" where
  "keeps_valid m \<longleftrightarrow> (case m of (Ok _, c) \<Rightarrow> config_validate c = Ok () | (Err _, _) \<Rightarrow> True)"

lemma keeps_valid_simps [simp]:
  "keeps_valid (Err e, c)" "keeps_valid (Ok a, c) \<longleftrightarrow> config_validate c = Ok ()"
  by (simp_all add: keeps_valid_def)

lemma park_valid:
  assumes "config_validate cfg = Ok ()" "canonical \<noteq> Some []"
  shows "keeps_valid (apply_park cfg canonical)"
  using assms bt_keys_insert [of _ "()" "parked_paths (cfg_parked cfg)"]
  by (auto simp: apply_park_def config_valid_iff Let_def split: option.split)

lemma linked_names_iff: "is_linked cfg n \<longleftrightarrow> n \<in> linked_names cfg"
  by (auto simp: linked_names_def list_ex_iff)

lemma link_valid:
  assumes v: "config_validate cfg = Ok ()"
    and fresh: "\<And>p s. canonical = Some p \<Longrightarrow> site_linked name p php = Ok s \<Longrightarrow> \<not> is_proxy cfg (site_name s)"
  shows "keeps_valid (apply_link disp cfg name canonical php)"
proof (cases "\<exists>p s. canonical = Some p \<and> site_linked name p php = Ok s \<and> \<not> is_linked cfg (site_name s)")
  case True
  then obtain p s where s: "canonical = Some p" "site_linked name p php = Ok s" "\<not> is_linked cfg (site_name s)"
    by blast
  let ?n = "site_name s" and ?k = "override_key s"
  obtain dp dl where d: "move_entry ?k (Some ?n) (dom_parked (cfg_domains cfg), dom_linked (cfg_domains cfg)) = (dp, dl)"
    by (cases "move_entry ?k (Some ?n) (dom_parked (cfg_domains cfg), dom_linked (cfg_domains cfg))")
  obtain pp pl where pr: "move_entry ?k (Some ?n) (prs_parked (cfg_proxy_rules cfg), prs_linked (cfg_proxy_rules cfg)) = (pp, pl)"
    by (cases "move_entry ?k (Some ?n) (prs_parked (cfg_proxy_rules cfg), prs_linked (cfg_proxy_rules cfg))")
  obtain rp rl where rr: "move_entry ?k (Some ?n) (rrs_parked (cfg_route_rules cfg), rrs_linked (cfg_route_rules cfg)) = (rp, rl)"
    by (cases "move_entry ?k (Some ?n) (rrs_parked (cfg_route_rules cfg), rrs_linked (cfg_route_rules cfg))")
  note V = v [unfolded config_valid_iff]
  have names: "site_name ` set (cfg_linked cfg @ [s]) = insert ?n (linked_names cfg)"
    by (auto simp: linked_names_def)
  have "web_subpath s = []"
    using s(2) by (auto simp: site_linked_def new_site_def split: result.splits)
  then have "is_safe_relative (web_subpath s)"
    by (simp add: is_safe_relative_def path_components_def is_absolute_def starts_with_singleton)
  then have "sites_ok (cfg_linked cfg @ [s])"
    using V s(3) by (auto simp: sites_ok_def list_ex_iff)
  moreover have "proxies_ok (cfg_tld cfg) (insert ?n (linked_names cfg)) (cfg_proxies cfg)"
    using V fresh [OF s(1,2)] by (auto simp: proxies_ok_def list_ex_iff)
  ultimately show ?thesis
    using s V deltas_ok_move [OF d] rule_map_ok_promote [OF pr, of "proxy_rules_ok (cfg_tld cfg)" "linked_names cfg"]
      rule_map_ok_promote [OF rr, of route_set_ok "linked_names cfg"]
    by (simp add: apply_link_def promote_def d pr rr config_valid_iff names del: set_append)
next
  case False
  then show ?thesis
    by (auto simp: apply_link_def Let_def split: option.splits result.splits)
qed

lemma set_retain_outside: "set (retain_outside p m) \<subseteq> set m"
  by (auto simp: retain_outside_def)

lemma unpark_valid:
  assumes v: "config_validate cfg = Ok ()"
  shows "keeps_valid (apply_unpark cfg p)"
proof -
  have "[] \<notin> fst ` set (bt_remove p (parked_paths (cfg_parked cfg)))"
    using v set_bt_remove [of p "parked_paths (cfg_parked cfg)"] by (auto simp: config_valid_iff)
  then show ?thesis
    using v by (simp add: apply_unpark_def config_valid_iff deltas_ok_subset [OF _ set_retain_outside]
        rule_map_ok_subset [OF _ set_retain_outside])
qed

lemma unlink_valid:
  assumes v: "config_validate cfg = Ok ()"
  shows "keeps_valid (apply_unlink cfg router name)"
proof (cases "find (\<lambda>s. site_name s = to_ascii_lowercase name) (cfg_linked cfg)")
  case None
  then show ?thesis by (simp add: apply_unlink_def Let_def)
next
  case (Some s)
  let ?n = "to_ascii_lowercase name"
  define t where "t = (if parent_is_parked_root cfg (override_key s) then Some (override_key s) else None)"
  let ?ls = "filter (\<lambda>s. site_name s \<noteq> ?n) (cfg_linked cfg)"
  obtain dl dp where d: "move_entry ?n t (dom_linked (cfg_domains cfg), dom_parked (cfg_domains cfg)) = (dl, dp)"
    by (cases "move_entry ?n t (dom_linked (cfg_domains cfg), dom_parked (cfg_domains cfg))")
  obtain pl pp where pr: "move_entry ?n t (prs_linked (cfg_proxy_rules cfg), prs_parked (cfg_proxy_rules cfg)) = (pl, pp)"
    by (cases "move_entry ?n t (prs_linked (cfg_proxy_rules cfg), prs_parked (cfg_proxy_rules cfg))")
  obtain rl rp where rr: "move_entry ?n t (rrs_linked (cfg_route_rules cfg), rrs_parked (cfg_route_rules cfg)) = (rl, rp)"
    by (cases "move_entry ?n t (rrs_linked (cfg_route_rules cfg), rrs_parked (cfg_route_rules cfg))")
  note V = v [unfolded config_valid_iff]
  have names: "linked_names cfg - {?n} \<subseteq> site_name ` set ?ls" "site_name ` set ?ls \<subseteq> linked_names cfg"
    by (auto simp: linked_names_def)
  have "sites_ok ?ls"
    using V by (auto simp: sites_ok_def distinct_map_filter)
  moreover have "proxies_ok (cfg_tld cfg) (site_name ` set ?ls) (cfg_proxies cfg)"
    using V names(2) unfolding proxies_ok_def by blast
  ultimately show ?thesis
    using Some V deltas_ok_move [OF d] rule_map_ok_demote [OF pr _ _ names(1), of "proxy_rules_ok (cfg_tld cfg)"]
      rule_map_ok_demote [OF rr _ _ names(1), of route_set_ok]
    by (simp add: apply_unlink_def Let_def demote_def t_def [symmetric] d pr rr config_valid_iff del: set_filter)
qed


text \<open>
  What the live router owes the configuration it was built from: it serves every linked site under
  its name, and any other site it serves is a parked one with a document root.
\<close>

definition router_matches :: "config \<Rightarrow> site_router \<Rightarrow> bool" where
  "router_matches cfg r \<longleftrightarrow>
     (\<forall>n \<in> linked_names cfg. router_get r n \<noteq> None)
     \<and> (\<forall>n s. router_get r n = Some s \<and> n \<notin> linked_names cfg \<longrightarrow> kind s = Parked \<and> document_root s \<noteq> [])"

lemma router_matchesD:
  assumes "router_matches cfg r"
  shows "n \<in> linked_names cfg \<Longrightarrow> router_get r n \<noteq> None"
    and "router_get r n = Some s \<Longrightarrow> n \<notin> linked_names cfg \<Longrightarrow> document_root s \<noteq> []"
    and "router_get r n = Some s \<Longrightarrow> kind s = Linked \<Longrightarrow> n \<in> linked_names cfg"
  using assms unfolding router_matches_def by (blast, blast, metis site_kind.distinct(1))

lemma update_first_map: "(\<And>x. g (f x) = g x) \<Longrightarrow> map g (update_first P f xs) = map g xs"
  by (induction xs) auto

lemma update_first_all: "\<forall>x \<in> set xs. Q x \<Longrightarrow> (\<And>x. Q x \<Longrightarrow> Q (f x)) \<Longrightarrow> \<forall>x \<in> set (update_first P f xs). Q x"
  by (induction xs) auto

text \<open>A setter that keeps a site's name and a safe web root, and an override change that keeps a safe one.\<close>

lemma set_linked_valid:
  assumes v: "config_validate cfg = Ok ()"
    and f: "\<And>s. site_name (f s) = site_name s"
      "\<And>s. is_safe_relative (web_subpath s) \<Longrightarrow> is_safe_relative (web_subpath (f s))"
  shows "config_validate (set_linked n f cfg) = Ok ()"
proof -
  let ?ls = "update_first (\<lambda>s. site_name s = n) f (cfg_linked cfg)"
  have names: "map site_name ?ls = map site_name (cfg_linked cfg)"
    by (rule update_first_map) (rule f)
  have "site_name ` set ?ls = linked_names cfg"
    using arg_cong [OF names, of set] by (simp add: linked_names_def)
  moreover have "sites_ok ?ls"
    using v names f(2) update_first_all [of "cfg_linked cfg" "\<lambda>s. is_safe_relative (web_subpath s)" f]
    by (simp add: config_valid_iff sites_ok_def)
  ultimately show ?thesis
    using v by (simp add: set_linked_def config_valid_iff)
qed

lemma set_override_valid:
  assumes v: "config_validate cfg = Ok ()" and k: "key \<noteq> []"
    and f: "\<And>ov w. (\<And>w. ov_web_root ov = Some w \<Longrightarrow> is_safe_relative w) \<Longrightarrow> ov_web_root (f ov) = Some w \<Longrightarrow> is_safe_relative w"
  shows "config_validate (set_override key f cfg) = Ok ()"
proof -
  let ?old = "case bt_get (cfg_overrides cfg) key of Some v \<Rightarrow> v | None \<Rightarrow> override_default"
  have ok: "\<forall>(k, ov) \<in> set (cfg_overrides cfg). k \<noteq> [] \<and> (\<forall>w. ov_web_root ov = Some w \<longrightarrow> is_safe_relative w)"
    using v by (simp add: config_valid_iff overrides_ok_def)
  have "\<forall>w. ov_web_root ?old = Some w \<longrightarrow> is_safe_relative w"
    using ok by (auto simp: override_default_def split: option.split dest!: bt_get_member)
  then have new: "\<forall>w. ov_web_root (f ?old) = Some w \<longrightarrow> is_safe_relative w"
    using f by blast
  have "overrides_ok (bt_entry key override_default f (cfg_overrides cfg))"
    unfolding overrides_ok_def bt_entry_def
  proof (rule ballI)
    fix e assume "e \<in> set (bt_insert key (f ?old) (cfg_overrides cfg))"
    then have "e = (key, f ?old) \<or> e \<in> set (cfg_overrides cfg)"
      using set_bt_insert [of key "f ?old" "cfg_overrides cfg"] by blast
    then show "case e of (k, ov) \<Rightarrow> k \<noteq> [] \<and> (\<forall>w. ov_web_root ov = Some w \<longrightarrow> is_safe_relative w)"
      using k new ok by (elim disjE) (simp, blast)
  qed
  then show ?thesis
    using v by (simp add: set_override_def config_valid_iff)
qed

lemma set_proxy_secure_valid:
  assumes v: "config_validate cfg = Ok ()"
  shows "config_validate (cfg\<lparr>cfg_proxies := update_first (\<lambda>p. ps_name p = n) (proxy_set_secure b) (cfg_proxies cfg)\<rparr>) = Ok ()"
proof -
  let ?ps = "update_first (\<lambda>p. ps_name p = n) (proxy_set_secure b) (cfg_proxies cfg)"
  have "map ps_name ?ps = map ps_name (cfg_proxies cfg)"
    by (rule update_first_map) (simp add: proxy_set_secure_def)
  moreover have "\<forall>p \<in> set ?ps. ps_name p \<notin> linked_names cfg \<and> \<not> loops (cfg_tld cfg) (ps_target p)"
    using v by (intro update_first_all) (auto simp: config_valid_iff proxies_ok_def proxy_set_secure_def)
  ultimately show ?thesis
    using v by (simp add: config_valid_iff proxies_ok_def)
qed

lemma settings_valid:
  assumes v: "config_validate cfg = Ok ()" and r: "router_matches cfg router"
  shows "keeps_valid (apply_set_php cfg router name version)"
    and "keeps_valid (apply_set_secure cfg router name b)"
    and "keeps_valid (apply_set_wordpress_auto_login cfg router name b user)"
    and "keeps_valid (apply_set_front_controller cfg router name b)"
proof -
  have key: "override_key s \<noteq> []" if "router_get router n = Some s" "\<not> is_linked cfg n" for n s
    using router_matchesD(2) [OF r that(1)] that(2) by (simp add: override_key_def linked_names_iff)
  note intros = set_linked_valid [OF v] set_override_valid [OF v key] set_proxy_secure_valid [OF v]
  show "keeps_valid (apply_set_php cfg router name version)"
    by (auto simp: apply_set_php_def Let_def set_php_def split: option.split intro!: intros)
  show "keeps_valid (apply_set_secure cfg router name b)"
    by (auto simp: apply_set_secure_def Let_def set_site_secure_def split: option.split intro!: intros)
  show "keeps_valid (apply_set_wordpress_auto_login cfg router name b user)"
    by (auto simp: apply_set_wordpress_auto_login_def Let_def set_wp_auto_login_def set_wp_auto_login_user_def
        split: option.split intro!: intros)
  show "keeps_valid (apply_set_front_controller cfg router name b)"
    by (auto simp: apply_set_front_controller_def Let_def set_front_controller_def split: option.split intro!: intros)
qed

lemma reject_loop_iff: "reject_loop_target cfg t = Ok u \<longleftrightarrow> \<not> loops (cfg_tld cfg) t"
  by (auto simp: reject_loop_target_def loops_def)

lemma add_proxy_valid:
  assumes v: "config_validate cfg = Ok ()" and r: "router_matches cfg router"
  shows "keeps_valid (apply_add_proxy disp cfg router name url)"
proof -
  have "config_validate (cfg\<lparr>cfg_proxies := cfg_proxies cfg @ [p]\<rparr>) = Ok ()"
    if "reject_loop_target cfg t = Ok u" "proxy_site_new name t = Ok p"
      "\<not> is_some (router_get router (ps_name p))" "\<not> is_proxy cfg (ps_name p)" for t u p
  proof -
    have "ps_name p \<notin> linked_names cfg"
      using router_matchesD(1) [OF r, of "ps_name p"] that(3) by auto
    moreover have "ps_target p = t"
      using that(2) by (auto simp: proxy_site_new_def split: result.splits)
    ultimately show ?thesis
      using v that(1,4) by (auto simp: config_valid_iff proxies_ok_def reject_loop_iff list_ex_iff)
  qed
  then show ?thesis
    by (auto simp: apply_add_proxy_def Let_def split: result.split option.split)
qed

lemma remove_proxy_valid:
  assumes v: "config_validate cfg = Ok ()"
  shows "keeps_valid (apply_remove_proxy cfg name)"
proof -
  let ?n = "to_ascii_lowercase name"
  have "proxies_ok (cfg_tld cfg) (linked_names cfg) (filter (\<lambda>p. ps_name p \<noteq> ?n) (cfg_proxies cfg))"
    using v by (auto simp: config_valid_iff proxies_ok_def distinct_map_filter)
  then show ?thesis
    using v by (simp add: apply_remove_proxy_def Let_def config_valid_iff deltas_ok_subset [OF _ set_bt_remove])
qed

text \<open>The rules of a site live on its own side, under a name that is linked.\<close>

lemma site_rule_key_linked:
  assumes "router_matches cfg router" "site_rule_key router n = Some (True, key)"
  shows "key \<in> linked_names cfg"
  using assms(2) router_matchesD(3) [OF assms(1)]
  by (auto simp: site_rule_key_def split: option.splits site_kind.splits)

abbreviation side_names :: "config \<Rightarrow> bool \<Rightarrow> string set option" where
  "side_names cfg linked \<equiv> (if linked then Some (linked_names cfg) else None)"

lemma put_proxy_rules_valid:
  assumes "config_validate cfg = Ok ()" "rule_map_ok (proxy_rules_ok (cfg_tld cfg)) (side_names cfg linked) m"
  shows "config_validate (put_proxy_rules linked m cfg) = Ok ()"
  using assms by (auto simp: put_proxy_rules_def config_valid_iff)

lemma proxy_side_ok:
  "config_validate cfg = Ok () \<Longrightarrow>
     rule_map_ok (proxy_rules_ok (cfg_tld cfg)) (side_names cfg linked) (proxy_rule_side linked cfg)"
  by (simp add: proxy_rule_side_def config_valid_iff)

lemma put_route_rules_valid:
  assumes "config_validate cfg = Ok ()" "rule_map_ok route_set_ok (side_names cfg linked) m"
  shows "config_validate (put_route_rules linked m cfg) = Ok ()"
  using assms by (auto simp: put_route_rules_def config_valid_iff)

lemma route_side_ok:
  "config_validate cfg = Ok () \<Longrightarrow> rule_map_ok route_set_ok (side_names cfg linked) (route_rule_side linked cfg)"
  by (simp add: route_rule_side_def config_valid_iff)

lemma rule_map_ok_put:
  assumes m: "rule_map_ok P (side_names cfg linked) m" and r: "router_matches cfg router"
    and key: "site_rule_key router n = Some (linked, key)" and rs: "P rs"
  shows "rule_map_ok P (side_names cfg linked) (bt_insert key rs m)"
  using m rs site_rule_key_linked [OF r, of n key] key by (intro rule_map_ok_insert) auto

lemma proxy_rule_handlers_valid:
  assumes v: "config_validate cfg = Ok ()" and r: "router_matches cfg router"
  shows "keeps_valid (apply_add_proxy_rule disp cfg router s pre url)"
    and "keeps_valid (apply_remove_proxy_rule cfg router s pre)"
proof -
  note side = proxy_side_ok [OF v]
  let ?P = "proxy_rules_ok (cfg_tld cfg)"
  have old: "?P (rules_of (proxy_rule_side linked cfg) key)" for linked key
    by (rule rules_of_ok [OF side]) (simp add: proxy_rules_ok_def)
  have add: "?P (rs @ [rule])"
    if "?P rs" "proxy_rule_new pre t = Ok rule" "reject_loop_target cfg t = Ok u" "\<not> list_ex (\<lambda>r. pr_prefix r = pr_prefix rule) rs"
    for rs t rule u
  proof -
    have "pr_target rule = t"
      using that(2) by (auto simp: proxy_rule_new_def Let_def split: if_splits)
    then show ?thesis
      using that by (auto simp: proxy_rules_ok_def reject_loop_iff list_ex_iff)
  qed
  show "keeps_valid (apply_add_proxy_rule disp cfg router s pre url)"
    using put_proxy_rules_valid [OF v rule_map_ok_put [OF side r _ add [OF old]]]
    by (auto simp: apply_add_proxy_rule_def Let_def split: result.split option.split)
  have keep: "?P (filter (\<lambda>r. pr_prefix r \<noteq> x) rs)" if "?P rs" for rs x
    using that by (auto simp: proxy_rules_ok_def distinct_map_filter)
  have got: "?P rs" if "bt_get (proxy_rule_side linked cfg) key = Some rs" for linked key rs
    using old [of linked key] that by (simp add: rules_of_def)
  show "keeps_valid (apply_remove_proxy_rule cfg router s pre)"
    using put_proxy_rules_valid [OF v rule_map_ok_put [OF side r _ keep [OF got]]]
      put_proxy_rules_valid [OF v rule_map_ok_subset [OF side set_bt_remove]]
    by (auto simp: apply_remove_proxy_rule_def Let_def split: option.split)
qed

lemma route_rule_handlers_valid:
  assumes v: "config_validate cfg = Ok ()" and r: "router_matches cfg router"
  shows "keeps_valid (apply_add_route_rule disp cfg router s pre target)"
    and "keeps_valid (apply_remove_route_rule cfg router s pre)"
proof -
  note side = route_side_ok [OF v]
  have old: "route_set_ok (rules_of (route_rule_side linked cfg) key)" for linked key
    by (rule rules_of_ok [OF side]) (simp add: route_set_ok_def)
  have add: "route_set_ok (rs @ [rule])"
    if "route_set_ok rs" "\<not> list_ex (\<lambda>r. rr_prefix r = rr_prefix rule) rs" for rs rule
    using that by (auto simp: route_set_ok_def list_ex_iff)
  show "keeps_valid (apply_add_route_rule disp cfg router s pre target)"
    using put_route_rules_valid [OF v rule_map_ok_put [OF side r _ add [OF old]]]
    by (auto simp: apply_add_route_rule_def Let_def split: result.split option.split)
  have keep: "route_set_ok (filter (\<lambda>r. rr_prefix r \<noteq> x) rs)" if "route_set_ok rs" for rs x
    using that by (auto simp: route_set_ok_def distinct_map_filter)
  have got: "route_set_ok rs" if "bt_get (route_rule_side linked cfg) key = Some rs" for linked key rs
    using old [of linked key] that by (simp add: rules_of_def)
  show "keeps_valid (apply_remove_route_rule cfg router s pre)"
    using put_route_rules_valid [OF v rule_map_ok_put [OF side r _ keep [OF got]]]
      put_route_rules_valid [OF v rule_map_ok_subset [OF side set_bt_remove]]
    by (auto simp: apply_remove_route_rule_def Let_def split: option.split)
qed

text \<open>A domain mutation puts one delta back and may drop it again when nothing is left in it.\<close>

lemma put_deltas_valid:
  assumes "config_validate cfg = Ok ()" "deltas_ok m"
  shows "config_validate (put_deltas t m cfg) = Ok ()"
  using assms by (cases t) (auto simp: config_valid_iff)

lemma deltas_at_ok: "config_validate cfg = Ok () \<Longrightarrow> deltas_ok (snd (deltas_at cfg t))"
  by (cases t) (auto simp: config_valid_iff)

lemma delta_at_ok:
  assumes "config_validate cfg = Ok ()"
  shows "check_delta (delta_at cfg t) = Ok ()"
proof -
  obtain k m where km: "deltas_at cfg t = (k, m)" by fastforce
  show ?thesis
  proof (cases "bt_get m k")
    case None
    with km show ?thesis by (simp add: delta_at_def delta_default_def check_delta_iff)
  next
    case (Some d)
    then have "(k, d) \<in> set m" by (rule bt_get_member)
    then show ?thesis
      using deltas_at_ok [OF assms, of t] km Some by (auto simp: delta_at_def deltas_ok_def)
  qed
qed

lemma delta_mut_valid:
  assumes v: "config_validate cfg = Ok ()" and f: "check_delta (f (delta_at cfg t)) = Ok ()"
  shows "config_validate (delta_mut t f cfg) = Ok ()"
proof -
  obtain k m where km: "deltas_at cfg t = (k, m)" by fastforce
  then have "deltas_ok m" using deltas_at_ok [OF v, of t] by simp
  then have "deltas_ok (bt_insert k (f (delta_at cfg t)) m)" using f by (rule deltas_ok_insert)
  then show ?thesis
    using km put_deltas_valid [OF v, of _ t] by (simp add: delta_mut_def bt_entry_def delta_at_def)
qed

lemma drop_delta_valid:
  assumes v: "config_validate cfg = Ok ()" and km: "deltas_at cfg t = (k, m)"
  shows "config_validate (put_deltas t (bt_remove k m) cfg) = Ok ()"
proof (rule put_deltas_valid [OF v])
  show "deltas_ok (bt_remove k m)"
    using deltas_at_ok [OF v, of t] km by (simp add: deltas_ok_subset [OF _ set_bt_remove])
qed

lemma prune_delta_valid: "config_validate cfg = Ok () \<Longrightarrow> config_validate (prune_delta t cfg) = Ok ()"
  using drop_delta_valid [of cfg t] by (auto simp: prune_delta_def split: prod.splits option.splits)

text \<open>The domain to add is the apex, or not among those the site suppresses.\<close>

definition not_suppressed :: "config \<Rightarrow> site_router \<Rightarrow> string \<Rightarrow> string \<Rightarrow> bool" where
  "not_suppressed cfg router n d \<longleftrightarrow>
     (case resolve_domain_target cfg router n of
        Err _ \<Rightarrow> True
      | Ok t \<Rightarrow>
          (case domain_parse d (cfg_tld cfg) of
             Err _ \<Rightarrow> True
           | Ok dmn \<Rightarrow> dmn = apex n \<or> dmn \<notin> set (suppressed (delta_at cfg t))))"

lemma add_domain_valid:
  assumes v: "config_validate cfg = Ok ()" and free: "not_suppressed cfg router (to_ascii_lowercase name) d"
  shows "keeps_valid (apply_add_domain disp cfg router name d)"
    and "keeps_valid (apply_set_primary_domain disp cfg router name d)"
proof -
  let ?n = "to_ascii_lowercase name"
  have "keeps_valid (apply_add_domain disp cfg router name d) \<and> keeps_valid (apply_set_primary_domain disp cfg router name d)"
  proof (cases "resolve_domain_target cfg router ?n")
    case t: (Ok t)
    show ?thesis
    proof (cases "domain_parse d (cfg_tld cfg)")
      case dmn: (Ok dmn)
      have f: "dmn = apex ?n \<or> dmn \<notin> set (suppressed (delta_at cfg t))"
        using free by (simp add: not_suppressed_def t dmn)
      show ?thesis
        using delta_at_ok [OF v, of t] f
        by (auto simp: apply_add_domain_def apply_set_primary_domain_def Let_def mutate_parse_domain_def t dmn check_delta_iff
            split: result.split intro!: prune_delta_valid delta_mut_valid [OF v])
    qed (simp add: apply_add_domain_def apply_set_primary_domain_def Let_def mutate_parse_domain_def t)
  qed (simp add: apply_add_domain_def apply_set_primary_domain_def Let_def)
  then show "keeps_valid (apply_add_domain disp cfg router name d)"
    and "keeps_valid (apply_set_primary_domain disp cfg router name d)" by blast+
qed

lemma remove_domain_valid:
  assumes v: "config_validate cfg = Ok ()"
  shows "keeps_valid (apply_remove_domain disp cfg router name d)"
proof (cases "resolve_domain_target cfg router (to_ascii_lowercase name)")
  case (Ok t)
  show ?thesis
  proof (cases "mutate_parse_domain disp cfg d")
    case dmn: (Ok dmn)
    let ?p = "\<lambda>x. if delta_primary x = Some dmn then None else delta_primary x"
    obtain A S P where D: "delta_at cfg t = \<lparr>added = A, suppressed = S, delta_primary = P\<rparr>"
      by (cases "delta_at cfg t") simp
    have ok: "distinct A" "set A \<inter> set S = {}" "P = Some p \<Longrightarrow> \<not> is_wildcard p" for p
      using delta_at_ok [OF v, of t] by (simp_all add: D check_delta_iff)
    let ?apex = "apex (to_ascii_lowercase name)"
    have put: "config_validate (prune_delta t (delta_mut t (\<lambda>x. \<lparr>added = ad, suppressed = sd, delta_primary = ?p x\<rparr>) cfg)) = Ok ()"
      if "distinct ad" "set ad \<inter> set sd = {}" for ad sd
      using ok(3) that by (intro prune_delta_valid delta_mut_valid [OF v]) (auto simp: D check_delta_iff)
    consider "dmn \<in> set A" | "dmn \<notin> set A" "dmn = ?apex" "?apex \<in> set S" | "dmn \<notin> set A" "dmn = ?apex" "?apex \<notin> set S"
      | "dmn \<notin> set A" "dmn \<noteq> ?apex" by blast
    then show ?thesis
    proof cases
      case 1
      have "set (filter (\<lambda>d. d \<noteq> dmn) A) \<inter> set S = {}" using ok(2) by auto
      then show ?thesis
        using 1 put [of "filter (\<lambda>d. d \<noteq> dmn) A" S] ok(1) by (simp add: apply_remove_domain_def Let_def Ok dmn D)
    next
      case 2
      then show ?thesis
        using put [OF ok(1,2)] by (simp add: apply_remove_domain_def Let_def Ok dmn D)
    next
      case 3
      then have "set A \<inter> set (S @ [?apex]) = {}" using ok(2) by auto
      then show ?thesis
        using 3 put [OF ok(1), of "S @ [?apex]"] by (simp add: apply_remove_domain_def Let_def Ok dmn D)
    next
      case 4
      then show ?thesis by (simp add: apply_remove_domain_def Let_def Ok dmn D)
    qed
  qed (use Ok in \<open>simp add: apply_remove_domain_def Let_def\<close>)
qed (simp add: apply_remove_domain_def Let_def)

lemma reset_domains_valid:
  assumes v: "config_validate cfg = Ok ()"
  shows "keeps_valid (apply_reset_domains cfg router name)"
  using drop_delta_valid [OF v] by (auto simp: apply_reset_domains_def Let_def split: result.split prod.split)


text \<open>Groups: names stay distinct up to case and every member's group exists.\<close>

lemma put_groups_valid: "config_validate cfg = Ok () \<Longrightarrow> groups_ok g \<Longrightarrow> config_validate (put_groups g cfg) = Ok ()"
  by (simp add: config_valid_iff)

lemma groups_valid: "config_validate cfg = Ok () \<Longrightarrow> groups_ok (cfg_groups cfg)"
  by (simp add: config_valid_iff)

lemma create_group_valid:
  assumes v: "config_validate cfg = Ok ()"
  shows "keeps_valid (apply_create_group cfg raw)"
proof -
  have "groups_ok (g\<lparr>group_order := group_order g @ [x]\<rparr>)"
    if "groups_ok g" "x \<noteq> []" "\<not> eq_ignore_ascii_case x RESERVED_GROUP_NAME"
      "\<not> list_ex (\<lambda>y. eq_ignore_ascii_case y x) (group_order g)" for g x
  proof -
    have "to_ascii_lowercase x \<notin> to_ascii_lowercase ` set (group_order g)"
      using that(4) by (force simp: eq_ignore_ascii_case_def list_ex_iff)
    with that(1-3) show ?thesis by (auto simp: groups_ok_def)
  qed
  then show ?thesis
    using groups_valid [OF v] by (auto simp: apply_create_group_def Let_def intro!: put_groups_valid [OF v])
qed

lemma delete_group_valid:
  assumes v: "config_validate cfg = Ok ()"
  shows "keeps_valid (apply_delete_group cfg name)"
  using groups_valid [OF v]
  by (fastforce simp: apply_delete_group_def Let_def groups_ok_def eq_ignore_ascii_case_def distinct_map_filter
      intro!: put_groups_valid [OF v])

lemma set_group_order_valid:
  assumes v: "config_validate cfg = Ok ()"
  shows "keeps_valid (apply_set_group_order cfg order)"
proof -
  have "set order = set xs \<and> (distinct (map to_ascii_lowercase order) \<longleftrightarrow> distinct (map to_ascii_lowercase xs))"
    if "sort order = sort xs" for xs
  proof -
    have "mset order = mset xs" using that by (metis mset_sort)
    then have "set order = set xs" "mset (map to_ascii_lowercase order) = mset (map to_ascii_lowercase xs)"
      by (auto dest: mset_eq_setD)
    then show ?thesis using mset_eq_imp_distinct_iff by blast
  qed
  then show ?thesis
    using groups_valid [OF v]
    by (auto simp: apply_set_group_order_def Let_def groups_ok_def intro!: put_groups_valid [OF v])
qed

lemma set_site_group_valid:
  assumes v: "config_validate cfg = Ok ()"
  shows "keeps_valid (apply_set_site_group cfg s wanted)"
proof -
  let ?g = "cfg_groups cfg"
  have "groups_ok (?g\<lparr>group_members := m\<rparr>)"
    if "\<forall>(s, x) \<in> set m. (s, x) \<in> set (group_members ?g) \<or> x \<in> set (group_order ?g)" for m
    using that groups_valid [OF v] by (auto simp: groups_ok_def)
  moreover have "\<forall>(s, x) \<in> set (bt_insert n c (group_members ?g)). (s, x) \<in> set (group_members ?g) \<or> x \<in> set (group_order ?g)"
    if "find P (group_order ?g) = Some c" for n c P
    using that set_bt_insert [of n c "group_members ?g"] by (auto simp: find_Some_iff)
  moreover have "\<forall>(s, x) \<in> set (bt_remove n (group_members ?g)). (s, x) \<in> set (group_members ?g) \<or> x \<in> set (group_order ?g)" for n
    using set_bt_remove [of n "group_members ?g"] by auto
  ultimately show ?thesis
    by (auto simp: apply_set_site_group_def Let_def split: option.split intro!: put_groups_valid [OF v])
qed

lemma distinct_map_update:
  assumes d: "distinct (map f xs)" and i: "i < length xs" and y: "\<And>j. j < length xs \<Longrightarrow> j \<noteq> i \<Longrightarrow> f (xs ! j) \<noteq> f y"
  shows "distinct (map f (xs[i := y]))"
  unfolding distinct_conv_nth length_map length_list_update
proof (intro allI impI)
  fix a b assume ab: "a < length xs" "b < length xs" "a \<noteq> b"
  then have "f (xs ! a) \<noteq> f (xs ! b)" using d by (auto simp: distinct_conv_nth)
  then show "map f (xs[i := y]) ! a \<noteq> map f (xs[i := y]) ! b"
    using ab i y [of a] y [of b] by (auto simp: nth_list_update)
qed

lemma rename_group_valid:
  assumes v: "config_validate cfg = Ok ()"
  shows "keeps_valid (apply_rename_group cfg src raw)"
proof -
  let ?g = "cfg_groups cfg" and ?to = "trim raw" and ?lc = to_ascii_lowercase
  let ?os = "group_order ?g"
  have "groups_ok (?g\<lparr>group_order := ?os[i := ?to],
      group_members := map (\<lambda>(s, x). (s, if eq_ignore_ascii_case x src then ?to else x)) (group_members ?g)\<rparr>)"
    if to: "?to \<noteq> []" "\<not> eq_ignore_ascii_case ?to RESERVED_GROUP_NAME"
      and i: "position (\<lambda>x. eq_ignore_ascii_case x src) ?os = Some i"
      and new: "\<not> list_ex (\<lambda>(j, x). j \<noteq> i \<and> eq_ignore_ascii_case x ?to) (enumerate 0 ?os)" for i
  proof -
    note g = groups_valid [OF v, unfolded groups_ok_def]
    have il: "i < length ?os" "?lc (?os ! i) = ?lc src"
      using position_Some [OF i] by (auto simp: eq_ignore_ascii_case_def)
    have other: "?lc (?os ! j) \<noteq> ?lc ?to" if "j < length ?os" "j \<noteq> i" for j
      using new that by (auto simp: list_ex_iff in_set_enumerate_eq eq_ignore_ascii_case_def)
    have "distinct (map ?lc (?os[i := ?to]))"
      using g il(1) other by (intro distinct_map_update) auto
    moreover have "?lc x \<in> ?lc ` set (?os[i := ?to])" if x: "x \<in> set ?os" "?lc x \<noteq> ?lc src" for x
    proof -
      obtain j where j: "j < length ?os" "?os ! j = x" using x(1) by (auto simp: in_set_conv_nth)
      then have "?os[i := ?to] ! j = x" using x(2) il by (metis nth_list_update_neq)
      then show ?thesis using j(1) by (metis imageI length_list_update nth_mem)
    qed
    moreover have "?to \<in> set (?os[i := ?to])" using il(1) by (rule set_update_memI)
    ultimately show ?thesis
      using g to set_update_subset_insert [of ?os i ?to]
      by (auto simp: groups_ok_def eq_ignore_ascii_case_def)
  qed
  then show ?thesis
    by (auto simp: apply_rename_group_def Let_def split: option.split intro!: put_groups_valid [OF v])
qed


section \<open>All of them\<close>

text \<open>What a request must satisfy for its mutation to keep the configuration valid.\<close>

definition mutation_pre :: "config \<Rightarrow> site_router \<Rightarrow> request \<Rightarrow> path option \<Rightarrow> bool" where
  "mutation_pre cfg router req canonical \<longleftrightarrow>
     (case req of
        Park _ \<Rightarrow> canonical \<noteq> Some []
      | Link name _ \<Rightarrow> \<not> is_proxy cfg (to_ascii_lowercase name)
      | AddDomain name d \<Rightarrow> not_suppressed cfg router (to_ascii_lowercase name) d
      | SetPrimaryDomain name d \<Rightarrow> not_suppressed cfg router (to_ascii_lowercase name) d
      | _ \<Rightarrow> True)"

lemma site_linked_name: "site_linked name p php = Ok s \<Longrightarrow> site_name s = to_ascii_lowercase name"
  by (auto simp: site_linked_def new_site_def dest!: validate_name_sound split: result.splits)

lemma mutate_apply_valid:
  assumes v: "config_validate cfg = Ok ()" and r: "router_matches cfg router"
    and pre: "mutation_pre cfg router req canonical"
  shows "keeps_valid (mutate_apply disp cfg router req canonical php)"
proof (cases req)
  case (Park p)
  then show ?thesis using park_valid [OF v] pre by (simp add: mutate_apply_def mutation_pre_def)
next
  case (Link name p)
  then have "\<not> is_proxy cfg (site_name s)" if "site_linked name q php = Ok s" for q s
    using pre site_linked_name [OF that] by (simp add: mutation_pre_def)
  with Link show ?thesis using link_valid [OF v] by (simp add: mutate_apply_def)
next
  case (AddDomain name d)
  then show ?thesis using add_domain_valid(1) [OF v] pre by (simp add: mutate_apply_def mutation_pre_def)
next
  case (SetPrimaryDomain name d)
  then show ?thesis using add_domain_valid(2) [OF v] pre by (simp add: mutate_apply_def mutation_pre_def)
qed (simp_all add: mutate_apply_def unpark_valid [OF v] unlink_valid [OF v] settings_valid [OF v r]
    remove_domain_valid [OF v] reset_domains_valid [OF v] add_proxy_valid [OF v r] remove_proxy_valid [OF v]
    proxy_rule_handlers_valid [OF v r] route_rule_handlers_valid [OF v r] create_group_valid [OF v]
    delete_group_valid [OF v] set_group_order_valid [OF v] set_site_group_valid [OF v] rename_group_valid [OF v])

end
