(* ===== verification/Scan.thy ===== *)
theory Scan
  imports Detect Site_Domains Mutate_Valid
begin

text \<open>
  Scanning and routing of \<open>bin/yerdd/src/startup.rs\<close>: parked directories become parked sites, linked
  sites are taken from the configuration, and \<open>site_domains::build\<close> makes the router. The detection
  cache and the list of roots to watch, which the source changes in place, are passed along. Log
  statements are left out.
\<close>

datatype scan_error = ScanIo path string

definition is_wordpress :: "filesystem \<Rightarrow> path \<Rightarrow> bool" where
  "is_wordpress fs root \<longleftrightarrow>
     fs_is_file fs (path_join root ''wp-config.php'') \<or> fs_is_file fs (path_join root ''wp-load.php'')"

definition is_laravel :: "filesystem \<Rightarrow> path \<Rightarrow> bool" where
  "is_laravel fs root \<longleftrightarrow> fs_is_file fs (path_join root ''artisan'')"

definition parked_site_name :: "dir_entry \<Rightarrow> string set \<Rightarrow> string option" where
  "parked_site_name e names =
     (case de_name e of
        None \<Rightarrow> None
      | Some name \<Rightarrow>
          if starts_with ''.'' name then None
          else (case de_is_dir e of
              None \<Rightarrow> None
            | Some d \<Rightarrow>
                if \<not> d then None
                else (case normalize_site_name name of
                    None \<Rightarrow> None
                  | Some n \<Rightarrow> if n \<in> names then None else Some n)))"

text \<open>The settings a stored override puts on a parked site.\<close>

definition apply_override :: "site_override \<Rightarrow> site \<Rightarrow> site" where
  "apply_override ov s0 =
     (let s1 = (case ov_php ov of Some v \<Rightarrow> set_php v s0 | None \<Rightarrow> s0);
          s2 = (case ov_secure ov of Some b \<Rightarrow> set_site_secure b s1 | None \<Rightarrow> s1);
          s3 = (case ov_wp_auto_login ov of Some b \<Rightarrow> set_wp_auto_login b s2 | None \<Rightarrow> s2);
          s4 = (if is_some (ov_wp_auto_login_user ov) then set_wp_auto_login_user (ov_wp_auto_login_user ov) s3 else s3)
      in if is_some (ov_front_controller ov) then set_front_controller (ov_front_controller ov) s4 else s4)"

type_synonym scan_state = "detect_cache \<times> path list"

definition build_parked_site ::
    "filesystem \<Rightarrow> string \<Rightarrow> path \<Rightarrow> php_version \<Rightarrow> config \<Rightarrow> scan_state \<Rightarrow> site option \<times> scan_state" where
  "build_parked_site fs name doc_root php cfg st =
     (case site_parked name doc_root php of
        Err _ \<Rightarrow> (None, st)
      | Ok s0 \<Rightarrow>
          (let ov = bt_get (cfg_overrides cfg) doc_root;
               s1 = (case ov of Some o' \<Rightarrow> apply_override o' s0 | None \<Rightarrow> s0)
           in case Option.bind ov ov_web_root of
                Some rel \<Rightarrow> (Some (set_web_subpath rel s1), st)
              | None \<Rightarrow>
                  (case st of (cache, watch) \<Rightarrow>
                     (case cache_detect fs doc_root cache of (det, cache') \<Rightarrow>
                        (Some (set_web_subpath (det_subpath det) s1),
                         cache', if det_resolved det then watch else watch @ [doc_root])))))"

fun scan_entries ::
    "filesystem \<Rightarrow> config \<Rightarrow> php_version \<Rightarrow> string set \<Rightarrow> path \<Rightarrow> dir_entry list \<Rightarrow> scan_state \<Rightarrow> site list \<times> scan_state" where
  "scan_entries fs cfg php names root [] st = ([], st)"
| "scan_entries fs cfg php names root (e # es) st =
     (case (parked_site_name e names, de_name e) of
        (Some n, Some file) \<Rightarrow>
          (case build_parked_site fs n (path_join root file) php cfg st of
             (s, st1) \<Rightarrow>
               (case scan_entries fs cfg php names root es st1 of
                  (ss, st2) \<Rightarrow> ((case s of Some x \<Rightarrow> x # ss | None \<Rightarrow> ss), st2)))
      | _ \<Rightarrow> scan_entries fs cfg php names root es st)"

fun scan_roots ::
    "filesystem \<Rightarrow> config \<Rightarrow> php_version \<Rightarrow> string set \<Rightarrow> path list \<Rightarrow> scan_state
      \<Rightarrow> (scan_error, site list) result \<times> scan_state" where
  "scan_roots fs cfg php names [] st = (Ok [], st)"
| "scan_roots fs cfg php names (root # roots) st =
     (case fs_read_dir fs root of
        Err DirNotFound \<Rightarrow> scan_roots fs cfg php names roots st
      | Err (DirUnreadable m) \<Rightarrow> (Err (ScanIo root m), st)
      | Ok es \<Rightarrow>
          (case scan_entries fs cfg php names root es st of
             (ss, st1) \<Rightarrow>
               (case scan_roots fs cfg php names roots st1 of
                  (Err e, st2) \<Rightarrow> (Err e, st2)
                | (Ok ts, st2) \<Rightarrow> (Ok (ss @ ts), st2))))"

definition scan_sites ::
    "filesystem \<Rightarrow> config \<Rightarrow> php_version \<Rightarrow> detect_cache \<Rightarrow> (scan_error, site list \<times> path list) result \<times> detect_cache" where
  "scan_sites fs cfg php cache =
     (case scan_roots fs cfg php (set (map site_name (cfg_linked cfg))) (map fst (parked_paths (cfg_parked cfg))) (cache, []) of
        (Err e, cache', _) \<Rightarrow> (Err e, cache')
      | (Ok ss, cache', watch) \<Rightarrow> (Ok (ss @ cfg_linked cfg, watch), cache'))"

record routing =
  rt_router :: site_router
  rt_wordpress :: "(string, bool) hash_map"
  rt_laravel :: "(string, bool) hash_map"
  rt_watch :: "path list"

definition collect_flags :: "(site \<Rightarrow> bool) \<Rightarrow> site list \<Rightarrow> (string, bool) hash_map" where
  "collect_flags f ss = fold (\<lambda>s m. hm_insert (site_name s) (f s) m) ss hm_empty"

definition build_routing :: "filesystem \<Rightarrow> config \<Rightarrow> detect_cache \<Rightarrow> (scan_error, routing) result \<times> detect_cache" where
  "build_routing fs cfg cache =
     (case scan_sites fs cfg (php_default (cfg_php cfg)) cache of
        (Err e, cache') \<Rightarrow> (Err e, cache')
      | (Ok (ss, watch), cache') \<Rightarrow>
          (let router = build cfg ss
           in (Ok \<lparr>rt_router = router,
                   rt_wordpress = collect_flags (\<lambda>s. is_wordpress fs (served_root s)) (router_iter router),
                   rt_laravel = collect_flags (\<lambda>s. is_laravel fs (document_root s)) (router_iter router),
                   rt_watch = watch\<rparr>, cache')))"


section \<open>What a scan finds\<close>

definition entry_ident :: "string set \<Rightarrow> path \<Rightarrow> dir_entry \<Rightarrow> (string \<times> path) option" where
  "entry_ident names root e =
     (case (parked_site_name e names, de_name e) of
        (Some n, Some file) \<Rightarrow> Some (n, path_join root file)
      | _ \<Rightarrow> None)"

definition root_idents :: "filesystem \<Rightarrow> string set \<Rightarrow> path \<Rightarrow> (string \<times> path) list" where
  "root_idents fs names root =
     (case fs_read_dir fs root of Ok es \<Rightarrow> List.map_filter (entry_ident names root) es | Err _ \<Rightarrow> [])"

text \<open>The name and directory of every parked site, in scan order.\<close>

definition parked_idents :: "filesystem \<Rightarrow> config \<Rightarrow> (string \<times> path) list" where
  "parked_idents fs cfg =
     concat (map (root_idents fs (linked_names cfg)) (map fst (parked_paths (cfg_parked cfg))))"

abbreviation site_ident :: "site \<Rightarrow> string \<times> path" where
  "site_ident s \<equiv> (site_name s, document_root s)"

lemma apply_override_keeps [simp]:
  "site_name (apply_override ov s) = site_name s" "document_root (apply_override ov s) = document_root s"
  "kind (apply_override ov s) = kind s"
  by (simp_all add: apply_override_def Let_def set_php_def set_site_secure_def set_wp_auto_login_def
      set_wp_auto_login_user_def set_front_controller_def split: option.split)

lemma parked_site_name_Some:
  "parked_site_name e names = Some n \<Longrightarrow> n \<notin> names \<and> dns_label n \<and> (\<exists>f. de_name e = Some f)"
  using normalize_facts
  by (auto simp: parked_site_name_def split: option.splits if_splits)

lemma build_parked_site_some:
  assumes "dns_label n"
  shows "\<exists>s. fst (build_parked_site fs n doc_root php cfg st) = Some s
    \<and> site_ident s = (n, doc_root) \<and> kind s = Parked"
proof -
  have "site_parked n doc_root php = Ok (new_site Parked n doc_root php)"
    by (simp add: site_parked_def validate_name_accepts [OF assms])
  then show ?thesis
    by (auto simp: build_parked_site_def Let_def new_site_def set_web_subpath_def split: option.split prod.split)
qed

lemma scan_entries_idents:
  "map site_ident (fst (scan_entries fs cfg php names root es st)) = List.map_filter (entry_ident names root) es
   \<and> (\<forall>s \<in> set (fst (scan_entries fs cfg php names root es st)). kind s = Parked)"
proof (induction es arbitrary: st)
  case (Cons e es)
  show ?case
  proof (cases "parked_site_name e names")
    case None
    then show ?thesis using Cons by (simp add: entry_ident_def)
  next
    case (Some n)
    note facts = parked_site_name_Some [OF Some]
    then obtain f where f: "de_name e = Some f" by blast
    obtain s where s: "fst (build_parked_site fs n (path_join root f) php cfg st) = Some s"
        "site_ident s = (n, path_join root f)" "kind s = Parked"
      using build_parked_site_some facts by blast
    show ?thesis
      using Cons [of "snd (build_parked_site fs n (path_join root f) php cfg st)"] s
      by (simp add: Some f entry_ident_def case_prod_unfold)
  qed
qed simp

lemma scan_roots_idents:
  "fst (scan_roots fs cfg php names roots st) = Ok ss \<Longrightarrow>
     map site_ident ss = concat (map (root_idents fs names) roots) \<and> (\<forall>s \<in> set ss. kind s = Parked)"
proof (induction roots arbitrary: st ss)
  case (Cons root roots)
  show ?case
  proof (cases "fs_read_dir fs root")
    case (Err e)
    then show ?thesis
      using Cons by (cases e) (auto simp: root_idents_def)
  next
    case (Ok es)
    obtain ss1 st1 where e: "scan_entries fs cfg php names root es st = (ss1, st1)" by (rule prod.exhaust)
    from Cons.prems Ok e obtain ss2 where
      ss: "fst (scan_roots fs cfg php names roots st1) = Ok ss2" "ss = ss1 @ ss2"
      by (auto split: prod.splits result.splits)
    show ?thesis
      using Cons.IH [OF ss(1)] scan_entries_idents [of fs cfg php names root es st] ss(2) e Ok
      by (auto simp: root_idents_def)
  qed
qed simp

lemma scan_sites_idents:
  assumes "scan_sites fs cfg php cache = (Ok (ss, watch), cache')"
  obtains ps where "ss = ps @ cfg_linked cfg" "map site_ident ps = parked_idents fs cfg" "\<forall>s \<in> set ps. kind s = Parked"
proof -
  from assms obtain ps where
    "fst (scan_roots fs cfg php (linked_names cfg) (map fst (parked_paths (cfg_parked cfg))) (cache, [])) = Ok ps"
    "ss = ps @ cfg_linked cfg"
    by (auto simp: scan_sites_def linked_names_def split: prod.splits result.splits)
  then show thesis
    using that scan_roots_idents unfolding parked_idents_def by blast
qed


lemma parked_idents_unlinked:
  assumes "(n, d) \<in> set (parked_idents fs cfg)"
  shows "n \<notin> linked_names cfg"
proof -
  obtain root where "(n, d) \<in> set (root_idents fs (linked_names cfg) root)"
    using assms by (auto simp: parked_idents_def)
  then obtain e where "entry_ident (linked_names cfg) root e = Some (n, d)"
    by (auto simp: root_idents_def List.map_filter_def split: result.splits)
  then have "parked_site_name e (linked_names cfg) = Some n"
    by (auto simp: entry_ident_def split: option.splits)
  then show ?thesis using parked_site_name_Some by blast
qed

lemma parked_idents_nonempty:
  assumes "(n, d) \<in> set (parked_idents fs cfg)" "[] \<notin> fst ` set (parked_paths (cfg_parked cfg))"
  shows "d \<noteq> []"
proof -
  obtain root where root: "root \<in> fst ` set (parked_paths (cfg_parked cfg))"
      "(n, d) \<in> set (root_idents fs (linked_names cfg) root)"
    using assms(1) by (auto simp: parked_idents_def)
  then obtain f where "d = path_join root f"
    by (auto simp: root_idents_def List.map_filter_def entry_ident_def split: result.splits option.splits)
  moreover have "root \<noteq> []" using root(1) assms(2) by blast
  ultimately show ?thesis
    by (auto simp: path_join_def is_absolute_def starts_with_singleton)
qed

lemma find_append_option: "find P (xs @ ys) = (case find P xs of Some x \<Rightarrow> Some x | None \<Rightarrow> find P ys)"
  by (induction xs) auto

lemma find_ident:
  "map_option site_ident (find (\<lambda>s. site_name s = n) ss) = map_option (\<lambda>d. (n, d)) (map_of (map site_ident ss) n)"
  by (induction ss) auto

text \<open>Which sites the router serves: the linked ones, and the first parked directory of each other name.\<close>

lemma scan_router_get:
  assumes scan: "scan_sites fs cfg php cache = (Ok (ss, watch), cache')"
  shows "n \<in> linked_names cfg \<Longrightarrow> router_get (build cfg ss) n = find (\<lambda>s. site_name s = n) (cfg_linked cfg)"
    and "n \<notin> linked_names cfg \<Longrightarrow> map_option document_root (router_get (build cfg ss) n) = map_of (parked_idents fs cfg) n"
    and "n \<notin> linked_names cfg \<Longrightarrow> router_get (build cfg ss) n = Some s \<Longrightarrow> kind s = Parked"
proof -
  obtain ps where ps: "ss = ps @ cfg_linked cfg" "map site_ident ps = parked_idents fs cfg" "\<forall>s \<in> set ps. kind s = Parked"
    using scan by (rule scan_sites_idents)
  let ?P = "\<lambda>s. site_name s = n"
  have none: "find ?P ps = None" if "n \<in> linked_names cfg"
  proof (rule ccontr)
    assume "find ?P ps \<noteq> None"
    then obtain s where s: "s \<in> set ps" "site_name s = n" by (auto simp: find_None_iff)
    have "site_ident s \<in> set (map site_ident ps)" using s(1) by simp
    then have "(n, document_root s) \<in> set (parked_idents fs cfg)"
      unfolding ps(2) s(2) .
    then show False using parked_idents_unlinked that by blast
  qed
  then show "n \<in> linked_names cfg \<Longrightarrow> router_get (build cfg ss) n = find ?P (cfg_linked cfg)"
    by (simp add: build_router_get ps(1) find_append_option)
  assume n: "n \<notin> linked_names cfg"
  then have "find ?P (cfg_linked cfg) = None" by (auto simp: find_None_iff linked_names_def)
  then have get: "router_get (build cfg ss) n = find ?P ps"
    by (simp add: build_router_get ps(1) find_append_option split: option.split)
  have "map_option site_ident (find ?P ps) = map_option (\<lambda>d. (n, d)) (map_of (parked_idents fs cfg) n)"
    using find_ident [of n ps] ps(2) by simp
  then show "map_option document_root (router_get (build cfg ss) n) = map_of (parked_idents fs cfg) n"
    unfolding get by (cases "find ?P ps"; cases "map_of (parked_idents fs cfg) n") auto
  show "kind s = Parked" if "router_get (build cfg ss) n = Some s"
    using that get ps(3) by (auto simp: find_Some_iff)
qed

lemma scan_router_matches:
  assumes v: "config_validate cfg = Ok ()" and scan: "scan_sites fs cfg php cache = (Ok (ss, watch), cache')"
  shows "router_matches cfg (build cfg ss)"
  unfolding router_matches_def
proof (intro conjI ballI allI impI)
  fix n assume n: "n \<in> linked_names cfg"
  then have "find (\<lambda>s. site_name s = n) (cfg_linked cfg) \<noteq> None"
    by (auto simp: find_None_iff linked_names_def)
  then show "router_get (build cfg ss) n \<noteq> None"
    using scan_router_get(1) [OF scan n] by simp
next
  fix n s assume "router_get (build cfg ss) n = Some s \<and> n \<notin> linked_names cfg"
  then have s: "router_get (build cfg ss) n = Some s" "n \<notin> linked_names cfg" by auto
  show "kind s = Parked" by (rule scan_router_get(3) [OF scan s(2,1)])
  have "map_of (parked_idents fs cfg) n = Some (document_root s)"
    using scan_router_get(2) [OF scan s(2)] s(1) by simp
  then have "(n, document_root s) \<in> set (parked_idents fs cfg)" by (rule map_of_SomeD)
  then show "document_root s \<noteq> []"
    using parked_idents_nonempty v by (simp add: config_valid_iff)
qed


section \<open>Flags of the served sites\<close>

lemma collect_flags_fold:
  assumes "\<forall>(n, s) \<in> set m. site_name s = n" "distinct (map fst m)"
  shows "hm_get (fold (\<lambda>s h. hm_insert (site_name s) (f s) h) (map snd m) h\<^sub>0) n
    = (case map_of m n of Some s \<Rightarrow> Some (f s) | None \<Rightarrow> hm_get h\<^sub>0 n)"
  using assms
proof (induction m arbitrary: h\<^sub>0)
  case (Cons e m)
  obtain k s where e: "e = (k, s)" by (rule prod.exhaust)
  have "map_of m k = None" using Cons.prems(2) e by (auto simp: map_of_eq_None_iff)
  then show ?case using Cons e by (auto split: option.split)
qed simp

lemma collect_flags_get:
  assumes "router_inv r"
  shows "hm_get (collect_flags f (router_iter r)) n = map_option f (router_get r n)"
proof -
  have bt: "bt_inv (sites r)"
    using assms by (simp add: router_inv_def router_maps_sorted_def)
  have "\<forall>(k, s) \<in> set (sites r). site_name s = k"
    using assms bt_get_in_set [OF bt] by (auto simp: router_inv_def)
  from collect_flags_fold [OF this bt_inv_distinct [OF bt], of f hm_empty n]
  show ?thesis
    by (simp add: collect_flags_def router_iter_def bt_values_def router_get_def bt_get_def split: option.split)
qed

text \<open>
  C29: a successful scan serves exactly the right sites. Every linked site is served from the
  configuration, every other name from the first parked directory that yields it, as a parked site
  with that document root; a visible directory of a parked root whose name gives a site name is
  always served unless a linked site has the name. The WordPress and Laravel flags describe the
  sites the router serves.
\<close>

theorem scan_serves_directories:
  assumes "fst (build_routing fs cfg cache) = Ok rt"
  shows "(if n \<in> linked_names cfg
          then router_get (rt_router rt) n = find (\<lambda>s. site_name s = n) (cfg_linked cfg)
          else map_option document_root (router_get (rt_router rt) n) = map_of (parked_idents fs cfg) n)
    \<and> (root \<in> fst ` set (parked_paths (cfg_parked cfg)) \<and> fs_read_dir fs root = Ok es \<and> e \<in> set es
        \<and> de_name e = Some f \<and> \<not> starts_with ''.'' f \<and> de_is_dir e = Some True \<and> normalize_site_name f = Some n
        \<longrightarrow> router_get (rt_router rt) n \<noteq> None)
    \<and> hm_get (rt_wordpress rt) n = map_option (\<lambda>s. is_wordpress fs (served_root s)) (router_get (rt_router rt) n)
    \<and> hm_get (rt_laravel rt) n = map_option (\<lambda>s. is_laravel fs (document_root s)) (router_get (rt_router rt) n)"
proof -
  obtain ss watch cache' where scan: "scan_sites fs cfg (php_default (cfg_php cfg)) cache = (Ok (ss, watch), cache')"
    and r: "rt_router rt = build cfg ss"
      "rt_wordpress rt = collect_flags (\<lambda>s. is_wordpress fs (served_root s)) (router_iter (build cfg ss))"
      "rt_laravel rt = collect_flags (\<lambda>s. is_laravel fs (document_root s)) (router_iter (build cfg ss))"
    using assms by (auto simp: build_routing_def Let_def split: prod.splits result.splits)
  note get = scan_router_get [OF scan]
  have "router_get (build cfg ss) n \<noteq> None"
    if "root \<in> fst ` set (parked_paths (cfg_parked cfg))" "fs_read_dir fs root = Ok es" "e \<in> set es"
      "de_name e = Some f" "\<not> starts_with ''.'' f" "de_is_dir e = Some True" "normalize_site_name f = Some n"
  proof (cases "n \<in> linked_names cfg")
    case True
    then show ?thesis using get(1) by (auto simp: find_None_iff linked_names_def)
  next
    case False
    then have "entry_ident (linked_names cfg) root e = Some (n, path_join root f)"
      using that by (simp add: entry_ident_def parked_site_name_def)
    then have "(n, path_join root f) \<in> set (root_idents fs (linked_names cfg) root)"
      using that(2,3) by (force simp: root_idents_def List.map_filter_def)
    then have "n \<in> fst ` set (parked_idents fs cfg)"
      using that(1) by (force simp: parked_idents_def)
    then have "map_of (parked_idents fs cfg) n \<noteq> None"
      by (simp only: map_of_eq_None_iff not_not)
    then show ?thesis using get(2) [OF False] by auto
  qed
  then show ?thesis
    using get(1,2) collect_flags_get [OF build_basic(1)] unfolding r by auto
qed

definition demo_disk :: filesystem where
  "demo_disk = empty_disk\<lparr>fs_read_dir := (\<lambda>p. if p = ''/srv'' then Ok [\<lparr>de_name = Some ''My_Blog'', de_is_dir = Some True\<rparr>]
                                               else Err DirNotFound)\<rparr>"

definition demo_config :: config where
  "demo_config = config_default_value\<lparr>cfg_parked := \<lparr>parked_paths = [(''/srv'', ())]\<rparr>\<rparr>"

theorem scan_serves_directories_witness:
  "\<exists>rt. fst (build_routing demo_disk demo_config hm_empty) = Ok rt \<and> router_get (rt_router rt) ''my-blog'' \<noteq> None"
proof -
  have scan: "is_ok (fst (scan_sites demo_disk demo_config (php_default (cfg_php demo_config)) hm_empty))"
    by code_simp
  then obtain ss w c where
    "scan_sites demo_disk demo_config (php_default (cfg_php demo_config)) hm_empty = (Ok (ss, w), c)"
    by (metis is_ok_iff prod.collapse)
  then obtain rt where rt: "fst (build_routing demo_disk demo_config hm_empty) = Ok rt"
    by (simp add: build_routing_def Let_def)
  have "normalize_site_name ''My_Blog'' = Some ''my-blog''"
    by code_simp
  moreover have "''/srv'' \<in> fst ` set (parked_paths (cfg_parked demo_config))"
    by (simp add: demo_config_def)
  moreover have "fs_read_dir demo_disk ''/srv'' = Ok [\<lparr>de_name = Some ''My_Blog'', de_is_dir = Some True\<rparr>]"
    by (simp add: demo_disk_def)
  ultimately show ?thesis
    using rt scan_serves_directories [OF rt, of "''my-blog''" "''/srv''"
        "[\<lparr>de_name = Some ''My_Blog'', de_is_dir = Some True\<rparr>]" "\<lparr>de_name = Some ''My_Blog'', de_is_dir = Some True\<rparr>" "''My_Blog''"]
    by (auto simp: starts_with_singleton)
qed

end
