(* ===== verification/Daemon.thy ===== *)
theory Daemon
  imports Scan
begin

text \<open>
  The configuration and routing core of \<open>bin/yerdd/src/ipc_server.rs\<close>: every handler clones the
  configuration, changes the clone, validates it, saves it and only then replaces the live one. The
  handlers hold the configuration lock throughout, so they are atomic steps on the record
  \<open>daemon\<close>. What lies outside (the disk, saving, PHP binaries, the FPM manager, the text of error
  values) is the record \<open>environment\<close>, one per request; calls into unmodelled parts are recorded in
  order in \<open>st_calls\<close>. Log statements are left out.
\<close>

section \<open>State and environment\<close>

datatype outside_call =
    MgrSetIni string_map
  | MgrSetOverrides "(php_version, string_map) btree_map"
  | MgrSetDirectives "(php_version, string_map) btree_map"
  | MgrSetPool "(php_version, string_map) btree_map"
  | MgrSetExtensions "(php_version, (path \<times> bool) list) btree_map"
  | MgrRestart php_version
  | WriteCliIni
  | SetDefaultShim
  | ReconcileShims
  | WatchDirty
  | SyncSiteUrl site

record setup_code =
  code_value :: string
  code_expires_at :: nat
  code_used :: bool

record daemon =
  st_config :: config
  st_file :: "config option"
  st_router :: site_router
  st_wordpress :: "(string, bool) hash_map"
  st_laravel :: "(string, bool) hash_map"
  st_cache :: detect_cache
  st_http_bound :: u16
  st_https_bound :: u16
  st_symlink_protection :: bool
  st_setup_code :: "setup_code option"
  st_calls :: "outside_call list"

record environment =
  env_fs :: filesystem
  env_save_fails :: "config \<Rightarrow> string option"
  env_show_core :: error_display
  env_show_validate :: "validate_error_reason \<Rightarrow> string"
  env_show_scan :: "scan_error \<Rightarrow> string"
  env_show_setting :: "php_setting_error \<Rightarrow> string"
  env_show_directive :: "directive_error \<Rightarrow> string"
  env_show_pool :: "pool_setting_error \<Rightarrow> string"
  env_show_ext :: "ext_error \<Rightarrow> string"
  env_redirect_active :: "bool option"
  env_installed :: "php_version \<Rightarrow> bool"
  env_yerd_bin :: bool
  env_shim_fails :: "string option"
  env_pools :: "php_version list"
  env_probe_fails :: "php_version \<Rightarrow> path \<Rightarrow> bool \<Rightarrow> string option"

datatype response = RespOk | RespError error_code string | RespPhpVersions | RespPhpExtensions

type_synonym handler = "environment \<Rightarrow> daemon \<Rightarrow> response \<times> daemon"

definition internal :: "string \<Rightarrow> response" where
  "internal m = RespError CodeInternal m"

definition invalid_path :: "string \<Rightarrow> response" where
  "invalid_path m = RespError CodeInvalidPath m"

definition call :: "outside_call \<Rightarrow> daemon \<Rightarrow> daemon" where
  "call c st = st\<lparr>st_calls := st_calls st @ [c]\<rparr>"

text \<open>
  \<open>Config::save\<close>: serialise, create the directory, write a temporary file and rename it over the
  destination. \<open>env_save_fails\<close> is the message of the first of these steps that fails; the
  destination changes only in the last, which is atomic.
\<close>

definition config_save :: "environment \<Rightarrow> config \<Rightarrow> config option \<Rightarrow> (string, unit) result \<times> config option" where
  "config_save env new file = (case env_save_fails env new of Some m \<Rightarrow> (Err m, file) | None \<Rightarrow> (Ok (), Some new))"

text \<open>The two early returns the handlers share, each with the code that follows it.\<close>

definition or_invalid :: "environment \<Rightarrow> config \<Rightarrow> daemon \<Rightarrow> response \<times> daemon \<Rightarrow> response \<times> daemon" where
  "or_invalid env new st cont =
     (case config_validate new of
        Err e \<Rightarrow> (internal (''config validation failed: '' @ env_show_validate env e), st)
      | Ok _ \<Rightarrow> cont)"

definition save_commit :: "environment \<Rightarrow> config \<Rightarrow> daemon \<Rightarrow> (daemon \<Rightarrow> response \<times> daemon) \<Rightarrow> response \<times> daemon" where
  "save_commit env new st cont =
     (case config_save env new (st_file st) of
        (Err m, file) \<Rightarrow> (internal (''config save failed: '' @ m), st\<lparr>st_file := file\<rparr>)
      | (Ok _, file) \<Rightarrow> cont (st\<lparr>st_file := file, st_config := new\<rparr>))"

section \<open>Paths\<close>

definition canonicalize_dir :: "filesystem \<Rightarrow> path \<Rightarrow> (response, path) result" where
  "canonicalize_dir fs p =
     (case fs_canonicalize fs p of
        Ok q \<Rightarrow> if fs_is_dir fs q then Ok q else Err (invalid_path (''not a directory: '' @ q))
      | Err e \<Rightarrow> Err (invalid_path (''cannot resolve '' @ p @ '': '' @ e)))"

text \<open>
  \<open>Path::strip_prefix\<close> compares components; what is left is a slice of the path, which for a
  canonical path is its remaining names with one separator between them.
\<close>

fun component_str :: "component \<Rightarrow> string" where
  "component_str RootDir = ''/''"
| "component_str CurDir = ''.''"
| "component_str ParentDir = ''..''"
| "component_str (Normal w) = w"

definition path_strip_prefix :: "path \<Rightarrow> path \<Rightarrow> path option" where
  "path_strip_prefix base p =
     (let b = path_components base; c = path_components p
      in if take (length b) c = b then Some (join_with ''/'' (map component_str (drop (length b) c))) else None)"

definition resolve_web_root_within :: "filesystem \<Rightarrow> path \<Rightarrow> string \<Rightarrow> (response, string) result" where
  "resolve_web_root_within fs doc_root input =
     (let candidate = (if is_absolute input then input else path_join doc_root input)
      in case fs_canonicalize fs candidate of
           Err e \<Rightarrow> Err (invalid_path (''cannot resolve '' @ candidate @ '': '' @ e))
         | Ok canon \<Rightarrow>
             if \<not> fs_is_dir fs canon then Err (invalid_path (''served path is not a directory: '' @ canon))
             else (case fs_canonicalize fs doc_root of
                 Err e \<Rightarrow> Err (invalid_path (''cannot resolve '' @ doc_root @ '': '' @ e))
               | Ok root \<Rightarrow>
                   (case path_strip_prefix root canon of
                      None \<Rightarrow> Err (invalid_path (''served path must be inside the site directory ('' @ root @ '')''))
                    | Some rel \<Rightarrow> Ok rel)))"

definition detect_web_subpath :: "filesystem \<Rightarrow> path \<Rightarrow> string" where
  "detect_web_subpath fs doc_root = det_subpath (detect (gather_project_signals fs doc_root))"

definition web_root_summary :: "string \<Rightarrow> string \<Rightarrow> string" where
  "web_root_summary name rel =
     (if rel = [] then name @ '' now served from its project root'' else name @ '' now served from '' @ rel)"

fun mutate_error_message :: "mutate_error \<Rightarrow> string" where
  "mutate_error_message (NotFoundError m) = m"
| "mutate_error_message (AlreadyExistsError m) = m"
| "mutate_error_message (InvalidError m) = m"

definition resolve_web_root_mutation ::
    "filesystem \<Rightarrow> config \<Rightarrow> site_router \<Rightarrow> string \<Rightarrow> string option \<Rightarrow> (response, applied) result \<times> config" where
  "resolve_web_root_mutation fs new router name p =
     (let n = to_ascii_lowercase name
      in case find (\<lambda>s. site_name s = n) (cfg_linked new) of
           Some s \<Rightarrow>
             (case (case p of
                 Some q \<Rightarrow> resolve_web_root_within fs (document_root s) q
               | None \<Rightarrow> Ok (detect_web_subpath fs (document_root s))) of
                Err e \<Rightarrow> (Err e, new)
              | Ok rel \<Rightarrow> (Ok \<lparr>summary = web_root_summary n rel\<rparr>, set_linked n (set_web_subpath rel) new))
         | None \<Rightarrow>
             (case router_get router n of
                Some parked \<Rightarrow>
                  (let key = document_root parked
                   in case p of
                        Some q \<Rightarrow>
                          (case resolve_web_root_within fs (document_root parked) q of
                             Err e \<Rightarrow> (Err e, new)
                           | Ok rel \<Rightarrow>
                               (Ok \<lparr>summary = web_root_summary n rel\<rparr>,
                                set_override key (\<lambda>ov. ov\<lparr>ov_web_root := Some rel\<rparr>) new))
                      | None \<Rightarrow>
                          (Ok \<lparr>summary = n @ '' web root reset to auto-detect''\<rparr>,
                           case bt_get (cfg_overrides new) key of
                             None \<Rightarrow> new
                           | Some ov \<Rightarrow>
                               new\<lparr>cfg_overrides :=
                                 (if ov_php ov = None \<and> ov_secure ov = None then bt_remove key (cfg_overrides new)
                                  else bt_insert key (ov\<lparr>ov_web_root := None\<rparr>) (cfg_overrides new))\<rparr>))
              | None \<Rightarrow> (Err (RespError CodeNotFound (mutate_error_message (not_found_site new n))), new)))"

section \<open>Mutations of sites\<close>

definition request_path :: "request \<Rightarrow> path option" where
  "request_path req = (case req of Park p \<Rightarrow> Some p | Link _ p \<Rightarrow> Some p | _ \<Rightarrow> None)"

definition site_needing_url_sync :: "request \<Rightarrow> site_router \<Rightarrow> site option" where
  "site_needing_url_sync req candidate =
     (case req of
        SetSecure name _ \<Rightarrow> router_get candidate (to_ascii_lowercase name)
      | AddDomain name _ \<Rightarrow> router_get candidate (to_ascii_lowercase name)
      | RemoveDomain name _ \<Rightarrow> router_get candidate (to_ascii_lowercase name)
      | SetPrimaryDomain name _ \<Rightarrow> router_get candidate (to_ascii_lowercase name)
      | ResetDomains name \<Rightarrow> router_get candidate (to_ascii_lowercase name)
      | _ \<Rightarrow> None)"

text \<open>The clone a request leaves, or its error response: \<open>mutate::apply\<close>, and the web root.\<close>

definition apply_request ::
    "environment \<Rightarrow> daemon \<Rightarrow> request \<Rightarrow> path option \<Rightarrow> (response, applied) result \<times> config" where
  "apply_request env st req canonical =
     (let cfg = st_config st
      in case req of
           SetWebRoot name p \<Rightarrow> resolve_web_root_mutation (env_fs env) cfg (st_router st) name p
         | _ \<Rightarrow>
             (case mutate_apply (env_show_core env) cfg (st_router st) req canonical (php_default (cfg_php cfg)) of
                (Ok a, new) \<Rightarrow> (Ok a, new)
              | (Err e, new) \<Rightarrow> (Err (RespError (error_code_of e) (mutate_error_message e)), new)))"

definition set_link_web_subpath :: "request \<Rightarrow> string option \<Rightarrow> config \<Rightarrow> config" where
  "set_link_web_subpath req subpath new =
     (case (req, subpath) of
        (Link name _, Some rel) \<Rightarrow> set_linked (to_ascii_lowercase name) (set_web_subpath rel) new
      | _ \<Rightarrow> new)"

definition commit_routing :: "request \<Rightarrow> routing \<Rightarrow> daemon \<Rightarrow> response \<times> daemon" where
  "commit_routing req rt st =
     (let st1 = call WatchDirty (st\<lparr>st_router := rt_router rt, st_wordpress := rt_wordpress rt, st_laravel := rt_laravel rt\<rparr>)
      in (RespOk, case site_needing_url_sync req (rt_router rt) of Some s \<Rightarrow> call (SyncSiteUrl s) st1 | None \<Rightarrow> st1))"

definition handle_mutation :: "request \<Rightarrow> handler" where
  "handle_mutation req env st =
     (case (case request_path req of
          None \<Rightarrow> Ok None
        | Some p \<Rightarrow> (case canonicalize_dir (env_fs env) p of Ok q \<Rightarrow> Ok (Some q) | Err r \<Rightarrow> Err r)) of
        Err resp \<Rightarrow> (resp, st)
      | Ok canonical \<Rightarrow>
          (let subpath = (case req of Link _ _ \<Rightarrow> map_option (detect_web_subpath (env_fs env)) canonical | _ \<Rightarrow> None)
           in case apply_request env st req canonical of
                (Err resp, _) \<Rightarrow> (resp, st)
              | (Ok _, new1) \<Rightarrow>
                  (let new = set_link_web_subpath req subpath new1
                   in or_invalid env new st
                        (case build_routing (env_fs env) new (st_cache st) of
                           (Err e, cache) \<Rightarrow>
                             (internal (''router rebuild failed: '' @ env_show_scan env e), st\<lparr>st_cache := cache\<rparr>)
                         | (Ok rt, cache) \<Rightarrow> save_commit env new (st\<lparr>st_cache := cache\<rparr>) (commit_routing req rt)))))"

definition handle_group_mutation :: "request \<Rightarrow> handler" where
  "handle_group_mutation req env st =
     (let cfg = st_config st
      in case mutate_apply (env_show_core env) cfg (st_router st) req None (php_default (cfg_php cfg)) of
           (Err e, _) \<Rightarrow> (RespError (error_code_of e) (mutate_error_message e), st)
         | (Ok _, new) \<Rightarrow> or_invalid env new st (save_commit env new st (\<lambda>st'. (RespOk, st'))))"

definition is_self_forward :: "string \<Rightarrow> u16 list \<Rightarrow> bool" where
  "is_self_forward url bound =
     (case from_url_str url of
        Err _ \<Rightarrow> False
      | Ok target \<Rightarrow>
          (up_host target = ''localhost''
           \<or> (case parse_ip (up_host target) of
                Some (V4 a b c d) \<Rightarrow> v4_is_loopback a b c d
              | Some (V6 gs) \<Rightarrow> v6_is_loopback gs
              | None \<Rightarrow> False))
          \<and> up_port target \<in> set (map unat bound))"

text \<open>\<open>fs_watch::recompute\<close>: the watcher's rebuild after a change on disk; none when the scan fails.\<close>

definition recompute :: "environment \<Rightarrow> daemon \<Rightarrow> path set option \<times> daemon" where
  "recompute env st =
     (case build_routing (env_fs env) (st_config st) (st_cache st) of
        (Err _, cache) \<Rightarrow> (None, st\<lparr>st_cache := cache\<rparr>)
      | (Ok rt, cache) \<Rightarrow>
          (Some (set (rt_watch rt) \<union> set (map fst (parked_paths (cfg_parked (st_config st))))),
           st\<lparr>st_cache := cache, st_router := rt_router rt, st_wordpress := rt_wordpress rt, st_laravel := rt_laravel rt\<rparr>))"

section \<open>Ports and switches\<close>

definition set_mail_port :: "u16 \<Rightarrow> handler" where
  "set_mail_port p env st =
     (let cfg = st_config st; new = cfg\<lparr>cfg_mail := (cfg_mail cfg)\<lparr>mail_port := p\<rparr>\<rparr>
      in or_invalid env new st (save_commit env new st (\<lambda>st'. (RespOk, st'))))"

definition elevated_message :: string where
  "elevated_message = ''ports are elevated - remove the privileged-port redirect first (un-elevate ports), change the ports, then re-elevate''"

definition set_fallback_ports :: "u16 \<Rightarrow> u16 \<Rightarrow> handler" where
  "set_fallback_ports http https env st =
     (if env_redirect_active env = Some True then (internal elevated_message, st)
      else
        let cfg = st_config st;
            new = cfg\<lparr>cfg_ports := (cfg_ports cfg)\<lparr>fallback_http := http, fallback_https := https\<rparr>\<rparr>
        in or_invalid env new st (save_commit env new st (\<lambda>st'. (RespOk, st'))))"

definition set_dns_port :: "u16 \<Rightarrow> handler" where
  "set_dns_port p env st =
     (if p = 0 then (RespError CodeInternal ''DNS port must be non-zero'', st)
      else
        let new = (st_config st)\<lparr>cfg_dns_port := p\<rparr>
        in or_invalid env new st (save_commit env new st (\<lambda>st'. (RespOk, st'))))"

definition set_mail_enabled :: "bool \<Rightarrow> handler" where
  "set_mail_enabled b env st =
     (let cfg = st_config st; new = cfg\<lparr>cfg_mail := (cfg_mail cfg)\<lparr>mail_enabled := b\<rparr>\<rparr>
      in save_commit env new st (\<lambda>st'. (RespOk, st')))"

definition set_symlink_protection :: "bool \<Rightarrow> handler" where
  "set_symlink_protection b env st =
     save_commit env ((st_config st)\<lparr>cfg_symlink_protection := b\<rparr>) st
       (\<lambda>st'. (RespOk, st'\<lparr>st_symlink_protection := b\<rparr>))"

definition set_mcp_enabled :: "bool \<Rightarrow> handler" where
  "set_mcp_enabled b env st =
     save_commit env ((st_config st)\<lparr>cfg_mcp_enabled := b\<rparr>) st (\<lambda>st'. (RespOk, st'))"

definition set_lan_enabled :: "bool \<Rightarrow> handler" where
  "set_lan_enabled b env st =
     save_commit env ((st_config st)\<lparr>cfg_lan_enabled := b\<rparr>) st
       (\<lambda>st'. (RespOk, if b then st' else st'\<lparr>st_setup_code := None\<rparr>))"

definition not_installed :: "php_version \<Rightarrow> response" where
  "not_installed v =
     RespError CodeNotFound (''PHP '' @ show_php_version v @ '' is not installed - run `yerd install php '' @ show_php_version v @ ''`'')"

definition require_installed :: "environment \<Rightarrow> php_version \<Rightarrow> response option" where
  "require_installed env v = (if env_installed env v then None else Some (not_installed v))"

definition set_default_php :: "php_version \<Rightarrow> handler" where
  "set_default_php v env st =
     (if is_legacy v
      then (RespError CodeLegacyRestricted
              (''PHP '' @ show_php_version v @ '' is an out-of-support legacy version and cannot be the global default. ''
               @ ''It can still serve individual sites and run via `php'' @ show_php_version v @ ''`.''), st)
      else if \<not> env_installed env v then (not_installed v, st)
      else
        let cfg = st_config st; new = cfg\<lparr>cfg_php := (cfg_php cfg)\<lparr>php_default := v\<rparr>\<rparr>;
            st1 = (if env_yerd_bin env then call SetDefaultShim st else st)
        in case (if env_yerd_bin env then env_shim_fails env else None) of
             Some m \<Rightarrow> (internal (''update php shim failed: '' @ m), st1)
           | None \<Rightarrow> save_commit env new st1 (\<lambda>st'. (RespOk, call ReconcileShims st')))"

definition adopt_default_if_unset :: "php_version \<Rightarrow> environment \<Rightarrow> daemon \<Rightarrow> daemon" where
  "adopt_default_if_unset v env st =
     (if is_legacy v then st
      else if env_installed env (php_default (cfg_php (st_config st))) then st
      else
        let cfg = st_config st; new = cfg\<lparr>cfg_php := (cfg_php cfg)\<lparr>php_default := v\<rparr>\<rparr>;
            st1 = (if env_yerd_bin env then call SetDefaultShim st else st)
        in snd (save_commit env new st1 (\<lambda>st'. (RespOk, st'))))"

section \<open>PHP settings\<close>

text \<open>One pass of each loop over the requested entries; an empty value removes a key.\<close>

definition merge_setting :: "environment \<Rightarrow> string_map \<Rightarrow> string \<times> string \<Rightarrow> (response, string_map) result" where
  "merge_setting env m kv =
     (case kv of (key, val) \<Rightarrow>
        if val = [] then Ok (bt_remove key m)
        else (case settings_validate_value key val of
            Err e \<Rightarrow> Err (RespError CodeInvalidPath (env_show_setting env e))
          | Ok _ \<Rightarrow> Ok (bt_insert key (canonical_value key val) m)))"

definition restart_pools :: "environment \<Rightarrow> daemon \<Rightarrow> daemon" where
  "restart_pools env st = fold (\<lambda>v. call (MgrRestart v)) (env_pools env) st"

definition set_php_settings :: "string_map \<Rightarrow> handler" where
  "set_php_settings settings env st =
     (let cfg = st_config st; old = php_settings (cfg_php cfg)
      in case try_fold (merge_setting env) old settings of
           Err r \<Rightarrow> (r, st)
         | Ok m \<Rightarrow>
             if m = old then (RespPhpVersions, st)
             else
               let new = cfg\<lparr>cfg_php := (cfg_php cfg)\<lparr>php_settings := m\<rparr>\<rparr>
               in or_invalid env new st
                    (save_commit env new st (\<lambda>st1.
                       (RespPhpVersions, call WriteCliIni (restart_pools env (call (MgrSetIni m) st1))))))"

type_synonym version_map = "(php_version, string_map) btree_map"

definition version_remove :: "php_version \<Rightarrow> string \<Rightarrow> version_map \<Rightarrow> version_map" where
  "version_remove v key m =
     (case bt_get m v of Some inner \<Rightarrow> bt_insert v (bt_remove key inner) m | None \<Rightarrow> m)"

definition version_insert :: "php_version \<Rightarrow> string \<Rightarrow> string \<Rightarrow> version_map \<Rightarrow> version_map" where
  "version_insert v key val m = bt_entry v bt_empty (bt_insert key val) m"

definition version_prune :: "php_version \<Rightarrow> version_map \<Rightarrow> version_map" where
  "version_prune v m =
     (case bt_get m v of Some inner \<Rightarrow> if inner = bt_empty then bt_remove v m else m | None \<Rightarrow> m)"

definition merge_version_setting ::
    "environment \<Rightarrow> php_version \<Rightarrow> version_map \<Rightarrow> string \<times> string \<Rightarrow> (response, version_map) result" where
  "merge_version_setting env v m kv =
     (case kv of (key, val) \<Rightarrow>
        if val = [] then Ok (version_remove v key m)
        else (case settings_validate_value key val of
            Err e \<Rightarrow> Err (RespError CodeInvalidPath (env_show_setting env e))
          | Ok _ \<Rightarrow> Ok (version_insert v key (canonical_value key val) m)))"

definition merge_directive ::
    "environment \<Rightarrow> php_version \<Rightarrow> version_map \<Rightarrow> string \<times> string \<Rightarrow> (response, version_map) result" where
  "merge_directive env v m kv =
     (case kv of (key, val) \<Rightarrow>
        (case directive_validate_name key of
           Err e \<Rightarrow> Err (RespError CodeInvalidPath (env_show_directive env e))
         | Ok _ \<Rightarrow>
             (case directive_reserved key of
                Some hint \<Rightarrow> Err (RespError CodeInvalidPath (key @ '' is managed by Yerd: '' @ hint))
              | None \<Rightarrow>
                  if val = [] then Ok (version_remove v key m)
                  else (case directive_validate_value val of
                      Err e \<Rightarrow> Err (RespError CodeInvalidPath (env_show_directive env e))
                    | Ok _ \<Rightarrow> Ok (version_insert v key (trim val) m)))))"

definition merge_pool_setting ::
    "environment \<Rightarrow> php_version \<Rightarrow> version_map \<Rightarrow> string \<times> string \<Rightarrow> (response, version_map) result" where
  "merge_pool_setting env v m kv =
     (case kv of (key, val) \<Rightarrow>
        (case pool_validate_name key of
           Err e \<Rightarrow> Err (RespError CodeInvalidPath (env_show_pool env e))
         | Ok _ \<Rightarrow>
             if val = [] then Ok (version_remove v key m)
             else (case pool_validate_value val of
                 Err e \<Rightarrow> Err (RespError CodeInvalidPath (env_show_pool env e))
               | Ok n \<Rightarrow> Ok (version_insert v key (show_nat n) m))))"

definition restart_if_running :: "environment \<Rightarrow> php_version \<Rightarrow> daemon \<Rightarrow> daemon" where
  "restart_if_running env v st = (if v \<in> set (env_pools env) then call (MgrRestart v) st else st)"

definition apply_version_php_config :: "environment \<Rightarrow> php_version \<Rightarrow> daemon \<Rightarrow> daemon" where
  "apply_version_php_config env v st =
     (let php = cfg_php (st_config st)
      in call WriteCliIni
           (restart_if_running env v
             (call (MgrSetPool (php_pool php))
               (call (MgrSetDirectives (php_directives php))
                 (call (MgrSetOverrides (php_version_settings php)) st)))))"

definition set_php_version_settings :: "php_version \<Rightarrow> string_map \<Rightarrow> handler" where
  "set_php_version_settings v settings env st =
     (case require_installed env v of
        Some r \<Rightarrow> (r, st)
      | None \<Rightarrow>
          (let cfg = st_config st; old = php_version_settings (cfg_php cfg)
           in case try_fold (merge_version_setting env v) old settings of
                Err r \<Rightarrow> (r, st)
              | Ok m1 \<Rightarrow>
                  (let m = version_prune v m1; new = cfg\<lparr>cfg_php := (cfg_php cfg)\<lparr>php_version_settings := m\<rparr>\<rparr>
                   in if m = old then (RespPhpVersions, st)
                      else or_invalid env new st
                             (save_commit env new st (\<lambda>st1. (RespPhpVersions, apply_version_php_config env v st1))))))"

definition set_php_directives :: "php_version \<Rightarrow> string_map \<Rightarrow> handler" where
  "set_php_directives v directives env st =
     (case require_installed env v of
        Some r \<Rightarrow> (r, st)
      | None \<Rightarrow>
          (let cfg = st_config st; old = php_directives (cfg_php cfg)
           in case try_fold (merge_directive env v) old directives of
                Err r \<Rightarrow> (r, st)
              | Ok m1 \<Rightarrow>
                  (let m = version_prune v m1; new = cfg\<lparr>cfg_php := (cfg_php cfg)\<lparr>php_directives := m\<rparr>\<rparr>
                   in if m = old then (RespPhpVersions, st)
                      else or_invalid env new st
                             (save_commit env new st (\<lambda>st1. (RespPhpVersions, apply_version_php_config env v st1))))))"

definition set_php_pool_settings :: "php_version \<Rightarrow> string_map \<Rightarrow> handler" where
  "set_php_pool_settings v settings env st =
     (case require_installed env v of
        Some r \<Rightarrow> (r, st)
      | None \<Rightarrow>
          (let cfg = st_config st; old = php_pool (cfg_php cfg)
           in case try_fold (merge_pool_setting env v) old settings of
                Err r \<Rightarrow> (r, st)
              | Ok m1 \<Rightarrow>
                  (let m = version_prune v m1; new = cfg\<lparr>cfg_php := (cfg_php cfg)\<lparr>php_pool := m\<rparr>\<rparr>
                   in if m = old then (RespPhpVersions, st)
                      else or_invalid env new st
                             (save_commit env new st (\<lambda>st1. (RespPhpVersions, apply_version_php_config env v st1))))))"

section \<open>PHP extensions\<close>

definition extension_load_map :: "config \<Rightarrow> (php_version, (path \<times> bool) list) btree_map" where
  "extension_load_map cfg = map (\<lambda>(v, es). (v, map (\<lambda>e. (ext_path e, ext_zend e)) es)) (php_extensions (cfg_php cfg))"

definition apply_extensions :: "environment \<Rightarrow> php_version \<Rightarrow> daemon \<Rightarrow> daemon" where
  "apply_extensions env v st =
     call WriteCliIni (restart_if_running env v (call (MgrSetExtensions (extension_load_map (st_config st))) st))"

definition already_registered :: "string \<Rightarrow> php_version \<Rightarrow> response" where
  "already_registered name v =
     RespError CodeAlreadyExists (''an extension named '' @ name @ '' is already registered for PHP '' @ show_php_version v)"

definition extensions_of :: "config \<Rightarrow> php_version \<Rightarrow> ext_entry list" where
  "extensions_of cfg v = (case bt_get (php_extensions (cfg_php cfg)) v of Some es \<Rightarrow> es | None \<Rightarrow> [])"

text \<open>
  The check before the probe reads the configuration and releases the lock; the one after it repeats
  the check under the lock it keeps. With handlers as atomic steps both see the same list.
\<close>

definition add_php_extension :: "php_version \<Rightarrow> path \<Rightarrow> string option \<Rightarrow> bool \<Rightarrow> handler" where
  "add_php_extension v p name_arg zend env st =
     (if \<not> env_installed env v then (not_installed v, st)
      else
        let name = (case name_arg of
              Some n \<Rightarrow> n
            | None \<Rightarrow> (case default_name_from_path p of Some n \<Rightarrow> n | None \<Rightarrow> []));
            cfg = st_config st
        in case validate_entry name p zend of
             Err e \<Rightarrow> (RespError CodeInvalidPath (env_show_ext env e), st)
           | Ok _ \<Rightarrow>
               if list_ex (\<lambda>e. ext_name e = name) (extensions_of cfg v) then (already_registered name v, st)
               else (case env_probe_fails env v p zend of
                   Some m \<Rightarrow>
                     (RespError CodeExtensionLoadFailed
                       (''extension failed to load into PHP '' @ show_php_version v @ '': '' @ m), st)
                 | None \<Rightarrow>
                     (let new = cfg\<lparr>cfg_php := (cfg_php cfg)\<lparr>php_extensions :=
                            bt_insert v (extensions_of cfg v @ [\<lparr>ext_name = name, ext_path = p, ext_zend = zend\<rparr>])
                              (php_extensions (cfg_php cfg))\<rparr>\<rparr>
                      in or_invalid env new st
                           (save_commit env new st (\<lambda>st1. (RespPhpExtensions, apply_extensions env v st1))))))"

definition remove_php_extension :: "php_version \<Rightarrow> string \<Rightarrow> handler" where
  "remove_php_extension v name env st =
     (let cfg = st_config st; exts = php_extensions (cfg_php cfg);
          missing = RespError CodeNotFound (''no extension named '' @ name @ '' registered for PHP '' @ show_php_version v)
      in case bt_get exts v of
           None \<Rightarrow> (missing, st)
         | Some es \<Rightarrow>
             (let kept = filter (\<lambda>e. ext_name e \<noteq> name) es
              in if length kept = length es then (missing, st)
                 else
                   let new = cfg\<lparr>cfg_php := (cfg_php cfg)\<lparr>php_extensions :=
                         (if kept = [] then bt_remove v exts else bt_insert v kept exts)\<rparr>\<rparr>
                   in save_commit env new st (\<lambda>st1. (RespPhpExtensions, apply_extensions env v st1))))"

section \<open>Dispatch\<close>

text \<open>
  The requests of the modelled handlers. \<open>SiteOp OtherRequest\<close> stands for a request that is handled
  elsewhere; here it ends in the refusal of \<open>mutate::apply\<close>.
\<close>

datatype daemon_op =
    SiteOp request
  | SetMailPort u16
  | SetFallbackPorts u16 u16
  | SetDnsPort u16
  | SetMailEnabled bool
  | SetSymlinkProtection bool
  | SetMcpEnabled bool
  | SetLanEnabled bool
  | SetDefaultPhp php_version
  | SetPhpSettings string_map
  | SetPhpVersionSettings php_version string_map
  | SetPhpDirectives php_version string_map
  | SetPhpPoolSettings php_version string_map
  | AddPhpExtension php_version path "string option" bool
  | RemovePhpExtension php_version string

definition self_forward_refusal :: response where
  "self_forward_refusal =
     RespError CodeInvalidPath ''proxy target points at yerd's own listening port (routing loop)''"

definition dispatch_site :: "request \<Rightarrow> handler" where
  "dispatch_site req env st =
     (let guarded = (\<lambda>url. if is_self_forward url [st_http_bound st, st_https_bound st]
                           then (self_forward_refusal, st) else handle_mutation req env st)
      in case req of
           AddProxy _ url \<Rightarrow> guarded url
         | AddProxyRule _ _ url \<Rightarrow> guarded url
         | CreateGroup _ \<Rightarrow> handle_group_mutation req env st
         | DeleteGroup _ \<Rightarrow> handle_group_mutation req env st
         | SetGroupOrder _ \<Rightarrow> handle_group_mutation req env st
         | SetSiteGroup _ _ \<Rightarrow> handle_group_mutation req env st
         | RenameGroup _ _ \<Rightarrow> handle_group_mutation req env st
         | _ \<Rightarrow> handle_mutation req env st)"

fun dispatch :: "daemon_op \<Rightarrow> handler" where
  "dispatch (SiteOp req) = dispatch_site req"
| "dispatch (SetMailPort p) = set_mail_port p"
| "dispatch (SetFallbackPorts p q) = set_fallback_ports p q"
| "dispatch (SetDnsPort p) = set_dns_port p"
| "dispatch (SetMailEnabled b) = set_mail_enabled b"
| "dispatch (SetSymlinkProtection b) = set_symlink_protection b"
| "dispatch (SetMcpEnabled b) = set_mcp_enabled b"
| "dispatch (SetLanEnabled b) = set_lan_enabled b"
| "dispatch (SetDefaultPhp v) = set_default_php v"
| "dispatch (SetPhpSettings m) = set_php_settings m"
| "dispatch (SetPhpVersionSettings v m) = set_php_version_settings v m"
| "dispatch (SetPhpDirectives v m) = set_php_directives v m"
| "dispatch (SetPhpPoolSettings v m) = set_php_pool_settings v m"
| "dispatch (AddPhpExtension v p n z) = add_php_extension v p n z"
| "dispatch (RemovePhpExtension v n) = remove_php_extension v n"

end
