(* ===== verification/Daemon_Inv.thy ===== *)
theory Daemon_Inv
  imports Daemon
begin

text \<open>
  What the daemon keeps true: the configuration is valid, the file is the configuration, and the
  router is the one the configuration and some state of the disk give. Errors change nothing.
\<close>

section \<open>The router a configuration gives\<close>

text \<open>The fields routing depends on; PHP, ports, groups and switches are not among them.\<close>

definition same_view :: "config \<Rightarrow> config \<Rightarrow> bool" where
  "same_view a b \<longleftrightarrow>
     cfg_tld a = cfg_tld b \<and> cfg_parked a = cfg_parked b \<and> cfg_linked a = cfg_linked b
     \<and> cfg_overrides a = cfg_overrides b \<and> cfg_domains a = cfg_domains b \<and> cfg_proxies a = cfg_proxies b
     \<and> cfg_proxy_rules a = cfg_proxy_rules b \<and> cfg_route_rules a = cfg_route_rules b"

lemma view_eqs:
  assumes "same_view a b"
  shows "cfg_tld a = cfg_tld b" "cfg_parked a = cfg_parked b" "cfg_linked a = cfg_linked b"
    "cfg_overrides a = cfg_overrides b" "cfg_domains a = cfg_domains b" "cfg_proxies a = cfg_proxies b"
    "cfg_proxy_rules a = cfg_proxy_rules b" "cfg_route_rules a = cfg_route_rules b"
  using assms by (simp_all add: same_view_def)

lemma build_parked_site_view:
  assumes "same_view a b"
  shows "build_parked_site fs n d php a st = build_parked_site fs n d php b st"
  unfolding build_parked_site_def view_eqs [OF assms] ..

lemma scan_entries_view:
  assumes "same_view a b"
  shows "scan_entries fs a php names root es st = scan_entries fs b php names root es st"
  by (induction es arbitrary: st) (simp_all add: build_parked_site_view [OF assms] case_prod_unfold split: option.split)

lemma scan_roots_view:
  assumes "same_view a b"
  shows "scan_roots fs a php names roots st = scan_roots fs b php names roots st"
  by (induction roots arbitrary: st)
    (simp_all add: scan_entries_view [OF assms] case_prod_unfold split: result.split read_dir_error.split)

lemma scan_sites_view:
  assumes "same_view a b"
  shows "scan_sites fs a php cache = scan_sites fs b php cache"
  unfolding scan_sites_def view_eqs [OF assms] scan_roots_view [OF assms] ..

lemma plan_sites_view:
  assumes "same_view a b"
  shows "plan_sites_loop a seen ss = plan_sites_loop b seen ss"
proof -
  have "plan_site a s = plan_site b s" for s
    unfolding plan_site_def delta_for_def view_eqs [OF assms] ..
  then show ?thesis by (induction ss arbitrary: seen) simp_all
qed

lemma plan_proxies_view:
  assumes "same_view a b"
  shows "plan_proxies_loop a names seen ps = plan_proxies_loop b names seen ps"
proof -
  have "plan_proxy a names p = plan_proxy b names p" for p
    unfolding plan_proxy_def view_eqs [OF assms] ..
  then show ?thesis by (induction ps arbitrary: seen) simp_all
qed

lemma attach_rules_view:
  assumes "same_view a b"
  shows "attach_rules a p r = attach_rules b p r"
  unfolding attach_rules_def view_eqs [OF assms] ..

lemma build_view:
  assumes "same_view a b"
  shows "build a ss = build b ss"
proof -
  have rules: "attach_rules a = attach_rules b"
    using attach_rules_view [OF assms] by (intro ext)
  show ?thesis
    unfolding build_def plan_sites_def plan_proxies_def rules view_eqs [OF assms]
      plan_sites_view [OF assms] plan_proxies_view [OF assms] ..
qed

section \<open>The invariant and the contract of a handler\<close>

definition routing_current :: "daemon \<Rightarrow> bool" where
  "routing_current st \<longleftrightarrow>
     (\<exists>fs php cache ss watch cache'.
        scan_sites fs (st_config st) php cache = (Ok (ss, watch), cache') \<and> st_router st = build (st_config st) ss)"

definition daemon_ok :: "daemon \<Rightarrow> bool" where
  "daemon_ok st \<longleftrightarrow>
     config_validate (st_config st) = Ok () \<and> routing_current st
     \<and> (st_file st = None \<or> st_file st = Some (st_config st))"

text \<open>What a client of the daemon can observe; the detection cache and outside calls are not part of it.\<close>

definition core :: "daemon \<Rightarrow> config \<times> config option \<times> site_router \<times> (string, bool) hash_map \<times> (string, bool) hash_map
    \<times> bool \<times> setup_code option" where
  "core st = (st_config st, st_file st, st_router st, st_wordpress st, st_laravel st, st_symlink_protection st, st_setup_code st)"

fun run_ops :: "('p \<Rightarrow> handler) \<Rightarrow> ('p \<times> environment) list \<Rightarrow> daemon \<Rightarrow> response list \<times> daemon" where
  "run_ops serve [] st = ([], st)"
| "run_ops serve ((p, env) # ps) st =
     (case serve p env st of (r, st1) \<Rightarrow> (case run_ops serve ps st1 of (rs, st2) \<Rightarrow> (r # rs, st2)))"

locale daemon_service =
  fixes serve :: "'p \<Rightarrow> handler"
  assumes serve_ok: "daemon_ok st \<Longrightarrow> daemon_ok (snd (serve p env st))"
    and serve_error: "fst (serve p env st) = RespError c m \<Longrightarrow> core (snd (serve p env st)) = core st"
begin

lemma run_ok: "daemon_ok st \<Longrightarrow> daemon_ok (snd (run_ops serve ps st))"
proof (induction ps arbitrary: st)
  case (Cons q ps)
  then show ?case using serve_ok by (cases q) (simp add: case_prod_unfold)
qed simp

lemma run_errors:
  "\<forall>r \<in> set (fst (run_ops serve ps st)). \<exists>c m. r = RespError c m \<Longrightarrow> core (snd (run_ops serve ps st)) = core st"
  by (induction ps arbitrary: st)
    (use serve_error in \<open>fastforce simp: case_prod_unfold split: prod.splits\<close>)+

end

lemma routing_matches:
  assumes "daemon_ok st"
  shows "router_matches (st_config st) (st_router st)" "router_inv (st_router st)"
proof -
  obtain fs php cache ss watch cache' where
    s: "scan_sites fs (st_config st) php cache = (Ok (ss, watch), cache')" "st_router st = build (st_config st) ss"
    using assms unfolding daemon_ok_def routing_current_def by blast
  have v: "config_validate (st_config st) = Ok ()"
    using assms by (simp add: daemon_ok_def)
  show "router_matches (st_config st) (st_router st)"
    unfolding s(2) by (rule scan_router_matches [OF v s(1)])
  show "router_inv (st_router st)"
    unfolding s(2) by (rule build_basic(1))
qed

lemma call_ok [simp]: "daemon_ok (call c st) = daemon_ok st" "core (call c st) = core st"
  by (simp_all add: call_def daemon_ok_def routing_current_def core_def)

lemma call_config [simp]: "st_config (call c st) = st_config st"
  by (simp add: call_def)

lemma cache_ok [simp]: "daemon_ok (st\<lparr>st_cache := c\<rparr>) = daemon_ok st" "core (st\<lparr>st_cache := c\<rparr>) = core st"
  by (simp_all add: daemon_ok_def routing_current_def core_def)

lemma flags_ok [simp]:
  "daemon_ok (st\<lparr>st_symlink_protection := b\<rparr>) = daemon_ok st" "daemon_ok (st\<lparr>st_setup_code := sc\<rparr>) = daemon_ok st"
  "daemon_ok (st\<lparr>st_wordpress := w\<rparr>) = daemon_ok st" "daemon_ok (st\<lparr>st_laravel := w\<rparr>) = daemon_ok st"
  by (simp_all add: daemon_ok_def routing_current_def)

text \<open>A committed change outside the routing fields keeps the router current.\<close>

lemma commit_ok:
  assumes "daemon_ok st" "config_validate new = Ok ()" "same_view new (st_config st)"
  shows "daemon_ok (st\<lparr>st_file := Some new, st_config := new\<rparr>)"
proof -
  have "routing_current (st\<lparr>st_file := Some new, st_config := new\<rparr>)"
    using assms(1) unfolding daemon_ok_def routing_current_def
    by (simp add: scan_sites_view [OF assms(3)] build_view [OF assms(3)])
  then show ?thesis using assms(2) by (simp add: daemon_ok_def)
qed

lemma save_commit_alt:
  "save_commit env new st k =
     (case env_save_fails env new of
        Some m \<Rightarrow> (internal (''config save failed: '' @ m), st)
      | None \<Rightarrow> k (st\<lparr>st_file := Some new, st_config := new\<rparr>))"
  by (simp add: save_commit_def config_save_def split: option.split)

lemma save_commit_ok:
  assumes "daemon_ok st" "\<And>st'. st' = st\<lparr>st_file := Some new, st_config := new\<rparr> \<Longrightarrow> daemon_ok (snd (k st'))"
  shows "daemon_ok (snd (save_commit env new st k))"
  using assms by (simp add: save_commit_alt split: option.split)

lemma save_commit_error:
  assumes "fst (save_commit env new st k) = RespError c m" "\<And>st' c m. fst (k st') \<noteq> RespError c m"
  shows "core (snd (save_commit env new st k)) = core st"
  using assms by (auto simp: save_commit_alt split: option.splits)

lemma or_invalid_ok:
  assumes "daemon_ok st" "config_validate new = Ok () \<Longrightarrow> daemon_ok (snd cont)"
  shows "daemon_ok (snd (or_invalid env new st cont))"
  using assms by (auto simp: or_invalid_def split: result.split)

lemma or_invalid_error:
  assumes "fst (or_invalid env new st cont) = RespError c m" "fst cont = RespError c m \<Longrightarrow> core (snd cont) = core st"
  shows "core (snd (or_invalid env new st cont)) = core st"
  using assms by (auto simp: or_invalid_def split: result.splits)

section \<open>Handlers\<close>

lemmas handler_ok = or_invalid_ok save_commit_ok commit_ok
lemmas handler_error = or_invalid_error save_commit_error

lemma view_refl [simp]: "same_view a a"
  by (simp add: same_view_def)

text \<open>The switches that skip validation change nothing it looks at.\<close>

lemma frozen_switches:
  "frozen_ok (c\<lparr>cfg_mail := (cfg_mail c)\<lparr>mail_enabled := b\<rparr>\<rparr>) = frozen_ok c"
  "frozen_ok (c\<lparr>cfg_symlink_protection := b\<rparr>) = frozen_ok c"
  "frozen_ok (c\<lparr>cfg_mcp_enabled := b\<rparr>) = frozen_ok c"
  "frozen_ok (c\<lparr>cfg_lan_enabled := b\<rparr>) = frozen_ok c"
  "frozen_ok (c\<lparr>cfg_php := (cfg_php c)\<lparr>php_default := v\<rparr>\<rparr>) = frozen_ok c"
  by (simp_all add: frozen_defs cong: result.case_cong)

lemma valid_switches:
  assumes "config_validate c = Ok ()"
  shows "config_validate (c\<lparr>cfg_mail := (cfg_mail c)\<lparr>mail_enabled := b\<rparr>\<rparr>) = Ok ()"
    "config_validate (c\<lparr>cfg_symlink_protection := b\<rparr>) = Ok ()"
    "config_validate (c\<lparr>cfg_mcp_enabled := b\<rparr>) = Ok ()"
    "config_validate (c\<lparr>cfg_lan_enabled := b\<rparr>) = Ok ()"
    "config_validate (c\<lparr>cfg_php := (cfg_php c)\<lparr>php_default := v\<rparr>\<rparr>) = Ok ()"
  using assms by (simp_all add: config_valid_iff frozen_switches linked_names_def)

lemma port_handlers_ok:
  assumes "daemon_ok st"
  shows "daemon_ok (snd (set_mail_port p env st))" "daemon_ok (snd (set_fallback_ports p q env st))"
    "daemon_ok (snd (set_dns_port p env st))"
  using assms
  by (auto simp: set_mail_port_def set_fallback_ports_def set_dns_port_def Let_def same_view_def intro!: handler_ok)

lemma port_handlers_error:
  "fst (set_mail_port p env st) = RespError c m \<Longrightarrow> core (snd (set_mail_port p env st)) = core st"
  "fst (set_fallback_ports p q env st) = RespError c m \<Longrightarrow> core (snd (set_fallback_ports p q env st)) = core st"
  "fst (set_dns_port p env st) = RespError c m \<Longrightarrow> core (snd (set_dns_port p env st)) = core st"
  by (auto simp: set_mail_port_def set_fallback_ports_def set_dns_port_def Let_def elim!: handler_error split: if_splits)

lemma switch_handlers_ok:
  assumes ok: "daemon_ok st"
  shows "daemon_ok (snd (set_mail_enabled b env st))" "daemon_ok (snd (set_symlink_protection b env st))"
    "daemon_ok (snd (set_mcp_enabled b env st))" "daemon_ok (snd (set_lan_enabled b env st))"
    "daemon_ok (snd (set_default_php v env st))" "daemon_ok (adopt_default_if_unset v env st)"
proof -
  have v: "config_validate (st_config st) = Ok ()" using ok by (simp add: daemon_ok_def)
  have c: "daemon_ok (st\<lparr>st_file := Some new, st_config := new\<rparr>)"
    if "config_validate new = Ok ()" "same_view new (st_config st)" for new
    using commit_ok [OF ok] that .
  have shim: "daemon_ok ((call SetDefaultShim st)\<lparr>st_file := Some new, st_config := new\<rparr>)"
    if "config_validate new = Ok ()" "same_view new (st_config st)" for new
    by (rule commit_ok) (use ok that in simp_all)
  show "daemon_ok (snd (set_mail_enabled b env st))" "daemon_ok (snd (set_symlink_protection b env st))"
    "daemon_ok (snd (set_mcp_enabled b env st))" "daemon_ok (snd (set_lan_enabled b env st))"
    using ok c valid_switches [OF v]
    by (simp_all add: set_mail_enabled_def set_symlink_protection_def set_mcp_enabled_def set_lan_enabled_def
        Let_def save_commit_alt same_view_def split: option.split)
  show "daemon_ok (snd (set_default_php v env st))" "daemon_ok (adopt_default_if_unset v env st)"
    using ok c shim valid_switches(5) [OF v]
    by (simp_all add: set_default_php_def adopt_default_if_unset_def Let_def save_commit_alt same_view_def split: option.split)
qed

lemma switch_handlers_error:
  "fst (set_mail_enabled b env st) = RespError c m \<Longrightarrow> core (snd (set_mail_enabled b env st)) = core st"
  "fst (set_symlink_protection b env st) = RespError c m \<Longrightarrow> core (snd (set_symlink_protection b env st)) = core st"
  "fst (set_mcp_enabled b env st) = RespError c m \<Longrightarrow> core (snd (set_mcp_enabled b env st)) = core st"
  "fst (set_lan_enabled b env st) = RespError c m \<Longrightarrow> core (snd (set_lan_enabled b env st)) = core st"
  "fst (set_default_php v env st) = RespError c m \<Longrightarrow> core (snd (set_default_php v env st)) = core st"
  by (auto simp: set_mail_enabled_def set_symlink_protection_def set_mcp_enabled_def set_lan_enabled_def
      set_default_php_def Let_def save_commit_alt split: option.splits if_splits)

lemma fold_call [simp]:
  "daemon_ok (fold (\<lambda>v. call (f v)) vs st) = daemon_ok st" "core (fold (\<lambda>v. call (f v)) vs st) = core st"
  by (induction vs arbitrary: st) simp_all

lemma php_calls_ok [simp]:
  "daemon_ok (restart_pools env st) = daemon_ok st" "daemon_ok (restart_if_running env v st) = daemon_ok st"
  "daemon_ok (apply_version_php_config env v st) = daemon_ok st" "daemon_ok (apply_extensions env v st) = daemon_ok st"
  by (simp_all add: restart_pools_def restart_if_running_def apply_version_php_config_def apply_extensions_def Let_def)

lemma php_handlers_ok:
  assumes ok: "daemon_ok st"
  shows "daemon_ok (snd (set_php_settings m env st))" "daemon_ok (snd (set_php_version_settings v m env st))"
    "daemon_ok (snd (set_php_directives v m env st))" "daemon_ok (snd (set_php_pool_settings v m env st))"
    "daemon_ok (snd (add_php_extension v p n z env st))"
  using ok
  by (auto simp: set_php_settings_def set_php_version_settings_def set_php_directives_def set_php_pool_settings_def
      add_php_extension_def Let_def same_view_def split: result.split option.split intro!: handler_ok)

lemma php_handlers_error:
  "fst (set_php_settings m env st) = RespError c e \<Longrightarrow> core (snd (set_php_settings m env st)) = core st"
  "fst (set_php_version_settings v m env st) = RespError c e \<Longrightarrow> core (snd (set_php_version_settings v m env st)) = core st"
  "fst (set_php_directives v m env st) = RespError c e \<Longrightarrow> core (snd (set_php_directives v m env st)) = core st"
  "fst (set_php_pool_settings v m env st) = RespError c e \<Longrightarrow> core (snd (set_php_pool_settings v m env st)) = core st"
  "fst (add_php_extension v p n z env st) = RespError c e \<Longrightarrow> core (snd (add_php_extension v p n z env st)) = core st"
  "fst (remove_php_extension v x env st) = RespError c e \<Longrightarrow> core (snd (remove_php_extension v x env st)) = core st"
  by (auto simp: set_php_settings_def set_php_version_settings_def set_php_directives_def set_php_pool_settings_def
      add_php_extension_def remove_php_extension_def Let_def split: result.splits option.splits if_splits
      elim!: handler_error)

text \<open>Dropping an extension is not validated either: what is left of a list still passes.\<close>

lemma extensions_valid_iff:
  "validate_php_extensions c = Ok () \<longleftrightarrow> (\<forall>(v, es) \<in> set (php_extensions (cfg_php c)). check_ext_entries es = Ok ())"
  by (simp add: validate_php_extensions_def check_all_Ok_iff bt_values_def case_prod_unfold)

lemma valid_extensions_update:
  assumes v: "config_validate c = Ok ()" and m: "\<forall>(v, es) \<in> set m. check_ext_entries es = Ok ()"
  shows "config_validate (c\<lparr>cfg_php := (cfg_php c)\<lparr>php_extensions := m\<rparr>\<rparr>) = Ok ()"
proof -
  let ?c = "c\<lparr>cfg_php := (cfg_php c)\<lparr>php_extensions := m\<rparr>\<rparr>"
  have "validate_ports ?c = validate_ports c" "validate_known_services ?c = validate_known_services c"
    "validate_php_settings ?c = validate_php_settings c" "validate_update_channel ?c = validate_update_channel c"
    "validate_tunnel ?c = validate_tunnel c"
    by (simp_all add: frozen_defs cong: result.case_cong)
  then have "frozen_ok ?c"
    using v m unfolding config_valid_iff frozen_ok_def extensions_valid_iff by simp
  then show ?thesis using v by (simp add: config_valid_iff linked_names_def)
qed

lemma ball_bt_remove: "\<forall>e \<in> set m. P e \<Longrightarrow> \<forall>e \<in> set (bt_remove k m). P e"
  using set_bt_remove [of k m] by auto

lemma ball_bt_insert: "\<forall>e \<in> set m. P e \<Longrightarrow> P (k, x) \<Longrightarrow> \<forall>e \<in> set (bt_insert k x m). P e"
  using set_bt_insert [of k x m] by auto

lemma remove_php_extension_ok:
  assumes ok: "daemon_ok st"
  shows "daemon_ok (snd (remove_php_extension v x env st))"
proof -
  let ?c = "st_config st"
  let ?m = "php_extensions (cfg_php ?c)"
  have valid: "config_validate ?c = Ok ()" using ok by (simp add: daemon_ok_def)
  then have old: "\<forall>(v, es) \<in> set ?m. check_ext_entries es = Ok ()"
    unfolding config_valid_iff frozen_ok_def extensions_valid_iff by blast
  have "daemon_ok (st\<lparr>st_file := Some (?c\<lparr>cfg_php := (cfg_php ?c)\<lparr>php_extensions := m\<rparr>\<rparr>),
      st_config := ?c\<lparr>cfg_php := (cfg_php ?c)\<lparr>php_extensions := m\<rparr>\<rparr>\<rparr>)"
    if "\<forall>(v, es) \<in> set m. check_ext_entries es = Ok ()" for m
    by (rule commit_ok [OF ok valid_extensions_update [OF valid that]]) (simp add: same_view_def)
  moreover have "\<forall>(v, es) \<in> set (bt_remove v ?m). check_ext_entries es = Ok ()"
    by (rule ball_bt_remove [OF old])
  moreover have "\<forall>(v, es) \<in> set (bt_insert v (filter P es) ?m). check_ext_entries es = Ok ()"
    if "bt_get ?m v = Some es" for P es
  proof -
    have "(v, es) \<in> set ?m" using that by (rule bt_get_member)
    then have "check_ext_entries es = Ok ()" using old by blast
    then have "check_ext_entries (filter P es) = Ok ()"
      by (auto simp: check_ext_entries_iff distinct_map_filter)
    then show ?thesis by (intro ball_bt_insert [OF old]) simp
  qed
  ultimately show ?thesis
    using ok by (simp add: remove_php_extension_def Let_def save_commit_alt split: option.split)
qed

section \<open>Mutations\<close>

lemma build_routing_Ok:
  assumes "build_routing fs cfg cache = (Ok rt, cache')"
  obtains ss watch where "scan_sites fs cfg (php_default (cfg_php cfg)) cache = (Ok (ss, watch), cache')"
    "rt_router rt = build cfg ss"
  using assms by (auto simp: build_routing_def Let_def split: prod.splits result.splits)

lemma routing_ok:
  assumes "build_routing fs new cache = (Ok rt, cache')" "config_validate new = Ok ()"
    and "st_config st = new" "st_file st = Some new" "st_router st = rt_router rt"
  shows "daemon_ok st"
  using assms(2-) build_routing_Ok [OF assms(1)] unfolding daemon_ok_def routing_current_def by metis

lemma commit_routing_state:
  "daemon_ok (snd (commit_routing req rt st)) = daemon_ok (st\<lparr>st_router := rt_router rt\<rparr>)"
  "fst (commit_routing req rt st) = RespOk"
  by (simp_all add: commit_routing_def Let_def daemon_ok_def routing_current_def call_def split: option.split)

lemma handle_mutation_ok:
  assumes ok: "daemon_ok st"
  shows "daemon_ok (snd (handle_mutation req env st))"
proof -
  have "daemon_ok (snd (save_commit env new (st\<lparr>st_cache := cache\<rparr>) (commit_routing req rt)))"
    if "build_routing (env_fs env) new (st_cache st) = (Ok rt, cache)" "config_validate new = Ok ()" for new rt cache
    using ok routing_ok [OF that] by (intro save_commit_ok) (simp_all add: commit_routing_state)
  then show ?thesis
    using ok by (auto simp: handle_mutation_def Let_def split: result.split prod.split intro!: or_invalid_ok)
qed

lemma handle_mutation_error:
  assumes "fst (handle_mutation req env st) = RespError c m"
  shows "core (snd (handle_mutation req env st)) = core st"
proof -
  have "core (snd (save_commit env new (st\<lparr>st_cache := cache\<rparr>) (commit_routing req rt))) = core st"
    if "fst (save_commit env new (st\<lparr>st_cache := cache\<rparr>) (commit_routing req rt)) = RespError c m" for new cache rt
    using save_commit_error [OF that] by (simp add: commit_routing_state)
  then show ?thesis
    using assms
    by (auto simp: handle_mutation_def Let_def split: result.splits prod.splits elim!: or_invalid_error)
qed

definition is_group_request :: "request \<Rightarrow> bool" where
  "is_group_request req \<longleftrightarrow>
     (case req of CreateGroup _ \<Rightarrow> True | DeleteGroup _ \<Rightarrow> True | SetGroupOrder _ \<Rightarrow> True
      | SetSiteGroup _ _ \<Rightarrow> True | RenameGroup _ _ \<Rightarrow> True | _ \<Rightarrow> False)"

lemma group_request_view:
  assumes "is_group_request req"
  shows "same_view (snd (mutate_apply disp cfg router req canonical php)) cfg"
  using assms
  by (cases req)
    (simp_all add: is_group_request_def mutate_apply_def apply_create_group_def apply_delete_group_def
      apply_set_group_order_def apply_set_site_group_def apply_rename_group_def Let_def same_view_def
      split: option.split)

lemma handle_group_mutation_ok:
  assumes ok: "daemon_ok st" and g: "is_group_request req"
  shows "daemon_ok (snd (handle_group_mutation req env st))"
proof (cases "mutate_apply (env_show_core env) (st_config st) (st_router st) req None (php_default (cfg_php (st_config st)))")
  case (Pair r new)
  have "same_view new (st_config st)"
    using group_request_view [OF g, of "env_show_core env" "st_config st" "st_router st" None] Pair by (metis snd_conv)
  then show ?thesis
    using ok by (auto simp: handle_group_mutation_def Let_def Pair split: result.split intro!: handler_ok)
qed

lemma handle_group_mutation_error:
  "fst (handle_group_mutation req env st) = RespError c m \<Longrightarrow> core (snd (handle_group_mutation req env st)) = core st"
  by (auto simp: handle_group_mutation_def Let_def split: result.splits prod.splits elim!: handler_error)

lemma dispatch_site_cases:
  "dispatch_site req env st =
     (if is_group_request req then handle_group_mutation req env st
      else if dispatch_site req env st = (self_forward_refusal, st) then (self_forward_refusal, st)
      else handle_mutation req env st)"
  by (cases req) (auto simp: dispatch_site_def is_group_request_def Let_def)

interpretation requests: daemon_service dispatch
proof unfold_locales
  fix st p env
  assume ok: "daemon_ok st"
  show "daemon_ok (snd (dispatch p env st))"
  proof (cases p)
    case (SiteOp req)
    then show ?thesis
      using ok handle_mutation_ok [OF ok] handle_group_mutation_ok [OF ok] dispatch_site_cases [of req env st]
      by (auto split: if_splits)
  qed (simp_all add: ok port_handlers_ok switch_handlers_ok php_handlers_ok remove_php_extension_ok)
next
  fix p env st c m
  assume e: "fst (dispatch p env st) = RespError c m"
  show "core (snd (dispatch p env st)) = core st"
  proof (cases p)
    case (SiteOp req)
    then show ?thesis
      using e handle_mutation_error [of req env st c m] handle_group_mutation_error [of req env st c m]
        dispatch_site_cases [of req env st]
      by (auto split: if_splits)
  qed (use e in \<open>auto dest: port_handlers_error switch_handlers_error php_handlers_error\<close>)
qed

section \<open>The daemon as a state machine\<close>

text \<open>
  The daemon starts from a configuration that loading accepted, or from the default one when there
  is no file, with the routing of a first scan. It then serves requests, rescans when the watcher
  wakes it, and adopts a first installed PHP as the default.
\<close>

definition booted :: "daemon \<Rightarrow> bool" where
  "booted st \<longleftrightarrow>
     config_validate (st_config st) = Ok () \<and> (st_file st = None \<or> st_file st = Some (st_config st))
     \<and> (\<exists>fs rt. fst (build_routing fs (st_config st) hm_empty) = Ok rt \<and> st_router st = rt_router rt
          \<and> st_wordpress st = rt_wordpress rt \<and> st_laravel st = rt_laravel rt)"

inductive daemon_step :: "daemon \<Rightarrow> daemon \<Rightarrow> bool" where
  step_request: "daemon_step st (snd (dispatch p env st))"
| step_watch: "daemon_step st (snd (recompute env st))"
| step_adopt: "daemon_step st (adopt_default_if_unset v env st)"

inductive_cases daemon_stepE: "daemon_step st st'"

inductive daemon_reachable :: "daemon \<Rightarrow> bool" where
  reach_boot: "booted st \<Longrightarrow> daemon_reachable st"
| reach_step: "daemon_reachable st \<Longrightarrow> daemon_step st st' \<Longrightarrow> daemon_reachable st'"

lemma booted_ok:
  assumes "booted st"
  shows "daemon_ok st"
proof -
  obtain fs rt where rt: "fst (build_routing fs (st_config st) hm_empty) = Ok rt" "st_router st = rt_router rt"
    using assms unfolding booted_def by blast
  then have b: "build_routing fs (st_config st) hm_empty = (Ok rt, snd (build_routing fs (st_config st) hm_empty))"
    by (metis prod.collapse)
  have "routing_current st"
    using build_routing_Ok [OF b] rt(2) unfolding routing_current_def by metis
  then show ?thesis using assms by (simp add: booted_def daemon_ok_def)
qed

lemma recompute_ok:
  assumes ok: "daemon_ok st"
  shows "daemon_ok (snd (recompute env st))"
proof (cases "build_routing (env_fs env) (st_config st) (st_cache st)")
  case (Pair r cache)
  show ?thesis
  proof (cases r)
    case (Err e)
    then show ?thesis using ok Pair by (simp add: recompute_def)
  next
    case (Ok rt)
    with Pair obtain ss w where "scan_sites (env_fs env) (st_config st) (php_default (cfg_php (st_config st))) (st_cache st)
        = (Ok (ss, w), cache)" "rt_router rt = build (st_config st) ss"
      using build_routing_Ok by metis
    then have "routing_current (snd (recompute env st))"
      using Pair Ok unfolding routing_current_def recompute_def by (simp, blast)
    then show ?thesis
      using ok Pair Ok by (simp add: recompute_def daemon_ok_def)
  qed
qed

lemma step_ok: "daemon_step st st' \<Longrightarrow> daemon_ok st \<Longrightarrow> daemon_ok st'"
  by (auto elim!: daemon_stepE intro: requests.serve_ok recompute_ok switch_handlers_ok(6))

lemma daemon_reachable_ok: "daemon_reachable st \<Longrightarrow> daemon_ok st"
  by (induction rule: daemon_reachable.induct) (auto intro: booted_ok step_ok)

text \<open>A daemon that starts without a file on an empty disk, and an environment in which nothing fails.\<close>

definition demo_env :: environment where
  "demo_env =
     \<lparr>env_fs = empty_disk, env_save_fails = (\<lambda>_. None), env_show_core = (\<lambda>_. ''error''),
      env_show_validate = (\<lambda>_. ''error''), env_show_scan = (\<lambda>_. ''error''), env_show_setting = (\<lambda>_. ''error''),
      env_show_directive = (\<lambda>_. ''error''), env_show_pool = (\<lambda>_. ''error''), env_show_ext = (\<lambda>_. ''error''),
      env_redirect_active = None, env_installed = (\<lambda>_. True), env_yerd_bin = True, env_shim_fails = None,
      env_pools = [], env_probe_fails = (\<lambda>_ _ _. None)\<rparr>"

definition demo_daemon :: daemon where
  "demo_daemon =
     \<lparr>st_config = config_default_value, st_file = None, st_router = build config_default_value [],
      st_wordpress = hm_empty, st_laravel = hm_empty, st_cache = hm_empty, st_http_bound = 8080, st_https_bound = 8443,
      st_symlink_protection = True, st_setup_code = None, st_calls = []\<rparr>"

lemma demo_valid: "config_validate config_default_value = Ok ()"
  by code_simp

lemma demo_booted: "booted demo_daemon"
proof -
  let ?c = config_default_value
  have empty: "scan_sites empty_disk ?c php hm_empty = (Ok ([], []), hm_empty)" for php
    by (simp add: scan_sites_def config_default_value_def bt_empty_def)
  have "router_iter (build ?c []) = []" by code_simp
  then have "build_routing empty_disk ?c hm_empty
      = (Ok \<lparr>rt_router = build ?c [], rt_wordpress = hm_empty, rt_laravel = hm_empty, rt_watch = []\<rparr>, hm_empty)"
    by (simp add: build_routing_def empty collect_flags_def)
  then show ?thesis
    unfolding booted_def demo_daemon_def
    by (intro conjI exI [of _ empty_disk]
        exI [of _ "\<lparr>rt_router = build ?c [], rt_wordpress = hm_empty, rt_laravel = hm_empty, rt_watch = []\<rparr>"])
      (simp_all add: demo_valid)
qed





end
