(* ===== verification/Daemon_Accept.thy ===== *)
theory Daemon_Accept
  imports Daemon_Inv
begin

text \<open>
  What a request achieves. A mutation the pure layer accepts is committed: the validation after it
  cannot fail, except in the two cases that \<open>mutation_pre\<close> names.
\<close>

section \<open>Web roots stay inside the site\<close>

text \<open>What \<open>fs::canonicalize\<close> promises: an absolute path of ordinary components.\<close>

definition canonical :: "path \<Rightarrow> bool" where
  "canonical p \<longleftrightarrow> (\<exists>ws. path_components p = RootDir # map Normal ws)"

definition canonical_disk :: "filesystem \<Rightarrow> bool" where
  "canonical_disk fs \<longleftrightarrow> (\<forall>p q. fs_canonicalize fs p = Ok q \<longrightarrow> canonical q)"

lemma canonical_not_Nil: "canonical p \<Longrightarrow> p \<noteq> []"
  by (auto simp: canonical_def path_components_def is_absolute_def starts_with_singleton)

definition plain_name :: "string \<Rightarrow> bool" where
  "plain_name w \<longleftrightarrow> w \<noteq> [] \<and> w \<noteq> ''.'' \<and> w \<noteq> ''..'' \<and> CHR ''/'' \<notin> set w"

lemma segment_components_Normal:
  "Normal w \<in> set (segment_components ws) \<Longrightarrow> w \<in> set ws \<and> w \<noteq> [] \<and> w \<noteq> ''.'' \<and> w \<noteq> ''..''"
  by (induction ws) (auto split: if_splits)

lemma path_components_Normal:
  assumes "Normal w \<in> set (path_components p)"
  shows "plain_name w"
proof -
  let ?ws = "split_on (CHR ''/'') p"
  have "set (path_components p) \<subseteq> {RootDir, CurDir} \<union> set (segment_components ?ws)"
    by (cases ?ws) (auto simp: path_components_def Let_def)
  then have "Normal w \<in> set (segment_components ?ws)"
    using assms by auto
  then show ?thesis
    using segment_components_Normal [of w ?ws] split_on_no_sep [of w] by (auto simp: plain_name_def)
qed

lemma segment_components_plain: "\<forall>w \<in> set ws. plain_name w \<Longrightarrow> segment_components ws = map Normal ws"
  by (induction ws) (auto simp: plain_name_def)

lemma plain_names_path:
  assumes "\<forall>w \<in> set ws. plain_name w"
  shows "path_components (join_with ''/'' ws) = map Normal ws"
proof (cases "ws = []")
  case True
  then show ?thesis by (simp add: path_components_def is_absolute_def starts_with_singleton)
next
  case False
  have sp: "split_on (CHR ''/'') (join_with ''/'' ws) = ws"
    using assms False by (intro split_on_join) (auto simp: plain_name_def)
  have w: "plain_name (hd ws)" using assms False by simp
  have "\<not> is_absolute (join_with ''/'' ws)"
  proof
    assume "is_absolute (join_with ''/'' ws)"
    then have "hd ws = []" using is_absolute_hd_split sp by metis
    with w show False by (simp add: plain_name_def)
  qed
  then show ?thesis
    using w segment_components_plain [OF assms] by (simp add: path_components_def sp plain_name_def)
qed

lemma plain_names_safe: "\<forall>w \<in> set ws. plain_name w \<Longrightarrow> is_safe_relative (join_with ''/'' ws)"
  by (simp add: is_safe_relative_def plain_names_path list_all_iff)

lemma strip_prefix_safe:
  assumes "canonical root" "canonical p" "path_strip_prefix root p = Some rel"
  shows "is_safe_relative rel \<and> path_components p = path_components root @ path_components rel"
proof -
  obtain ws where ws: "path_components p = RootDir # map Normal ws"
    using assms(2) by (auto simp: canonical_def)
  obtain us where us: "path_components root = RootDir # map Normal us"
    using assms(1) by (auto simp: canonical_def)
  let ?k = "length us"
  have rel: "rel = join_with ''/'' (drop ?k ws)" and pre: "map Normal us = map Normal (take ?k ws)"
    using assms(3) by (auto simp: path_strip_prefix_def ws us take_map drop_map comp_def split: if_splits)
  have plain: "\<forall>w \<in> set (drop ?k ws). plain_name w"
    using path_components_Normal [of _ p] ws by (auto dest: in_set_dropD)
  show ?thesis
    using plain_names_safe [OF plain] plain_names_path [OF plain] ws us pre unfolding rel
    by (simp add: take_map drop_map flip: map_append)
qed

lemma resolve_web_root_within_safe:
  assumes d: "canonical_disk fs" and r: "resolve_web_root_within fs doc_root input = Ok rel"
  shows "is_safe_relative rel"
    and "\<exists>root p. fs_canonicalize fs doc_root = Ok root \<and> fs_is_dir fs p
      \<and> path_components p = path_components root @ path_components rel"
proof -
  obtain root p where rp: "fs_canonicalize fs doc_root = Ok root" "fs_is_dir fs p" "path_strip_prefix root p = Some rel"
      "canonical root" "canonical p"
    using d r by (auto simp: resolve_web_root_within_def canonical_disk_def Let_def split: result.splits if_splits option.splits)
  note safe = strip_prefix_safe [OF rp(4,5,3)]
  then show "is_safe_relative rel" by blast
  show "\<exists>root p. fs_canonicalize fs doc_root = Ok root \<and> fs_is_dir fs p
      \<and> path_components p = path_components root @ path_components rel"
    using rp safe by blast
qed

section \<open>Accepted mutations are valid\<close>

lemma drop_web_root_override_ok:
  assumes ok: "overrides_ok m" and get: "bt_get m key = Some ov"
  shows "overrides_ok (bt_remove key m)" "overrides_ok (bt_insert key (ov\<lparr>ov_web_root := None\<rparr>) m)"
proof -
  have k: "key \<noteq> []"
    using bt_get_member [OF get] ok by (auto simp: overrides_ok_def)
  show "overrides_ok (bt_remove key m)"
    using ok unfolding overrides_ok_def by (rule ball_bt_remove)
  show "overrides_ok (bt_insert key (ov\<lparr>ov_web_root := None\<rparr>) m)"
    using ok k unfolding overrides_ok_def by (intro ball_bt_insert) auto
qed

lemma web_root_mutation_valid:
  assumes v: "config_validate cfg = Ok ()" and r: "router_matches cfg router" and d: "canonical_disk fs"
    and res: "resolve_web_root_mutation fs cfg router name p = (Ok a, new)"
  shows "config_validate new = Ok ()"
proof (cases "find (\<lambda>s. site_name s = to_ascii_lowercase name) (cfg_linked cfg)")
  case (Some s)
  have "is_safe_relative rel"
    if "(case p of Some q \<Rightarrow> resolve_web_root_within fs (document_root s) q | None \<Rightarrow> Ok (detect_web_subpath fs (document_root s))) = Ok rel" for rel
    using that resolve_web_root_within_safe(1) [OF d] detect_safe by (auto simp: detect_web_subpath_def split: option.splits)
  then show ?thesis
    using res Some by (auto simp: resolve_web_root_mutation_def Let_def set_web_subpath_def split: result.splits
        intro!: set_linked_valid [OF v])
next
  case None
  then obtain parked where parked: "router_get router (to_ascii_lowercase name) = Some parked"
    using res by (auto simp: resolve_web_root_mutation_def Let_def split: option.splits)
  have "to_ascii_lowercase name \<notin> linked_names cfg"
    using None by (auto simp: find_None_iff linked_names_def)
  then have key: "document_root parked \<noteq> []"
    using router_matchesD(2) [OF r parked] by blast
  show ?thesis
  proof (cases p)
    case (Some q)
    then show ?thesis
      using res None parked key resolve_web_root_within_safe(1) [OF d]
      by (auto simp: resolve_web_root_mutation_def Let_def split: result.splits intro!: set_override_valid [OF v])
  next
    case p: None
    show ?thesis
    proof (cases "bt_get (cfg_overrides cfg) (document_root parked)")
      case None': None
      then show ?thesis using v res None parked p by (simp add: resolve_web_root_mutation_def)
    next
      case (Some ov)
      have "overrides_ok (cfg_overrides cfg)" using v by (simp add: config_valid_iff)
      note o = drop_web_root_override_ok [OF this Some]
      show ?thesis
        using v res None parked p Some o by (auto simp: resolve_web_root_mutation_def config_valid_iff Let_def)
    qed
  qed
qed

text \<open>What the pure layer accepts passes validation, with the web root a link detects put in.\<close>

lemma apply_request_valid:
  assumes v: "config_validate (st_config st) = Ok ()" and r: "router_matches (st_config st) (st_router st)"
    and d: "canonical_disk (env_fs env)" and pre: "mutation_pre (st_config st) (st_router st) req can"
    and res: "apply_request env st req can = (Ok a, new)"
  shows "config_validate new = Ok ()"
proof (cases "\<exists>name p. req = SetWebRoot name p")
  case True
  then show ?thesis
    using res web_root_mutation_valid [OF v r d] by (auto simp: apply_request_def Let_def)
next
  case False
  let ?m = "mutate_apply (env_show_core env) (st_config st) (st_router st) req can (php_default (cfg_php (st_config st)))"
  have "?m = (Ok a, new)"
    using res False by (cases req) (auto simp: apply_request_def Let_def split: prod.splits result.splits)
  then show ?thesis
    using mutate_apply_valid [OF v r pre, of "env_show_core env" "php_default (cfg_php (st_config st))"] by simp
qed

lemma set_link_web_subpath_valid:
  assumes "config_validate new = Ok ()" "\<And>rel. subpath = Some rel \<Longrightarrow> is_safe_relative rel"
  shows "config_validate (set_link_web_subpath req subpath new) = Ok ()"
  using assms
  by (cases req; cases subpath)
    (simp_all add: set_link_web_subpath_def set_linked_valid set_web_subpath_def)

definition link_subpath :: "environment \<Rightarrow> request \<Rightarrow> path option \<Rightarrow> string option" where
  "link_subpath env req can = (case req of Link _ _ \<Rightarrow> map_option (detect_web_subpath (env_fs env)) can | _ \<Rightarrow> None)"

lemma link_subpath_safe: "link_subpath env req can = Some rel \<Longrightarrow> is_safe_relative rel"
  using detect_safe by (cases req) (auto simp: link_subpath_def detect_web_subpath_def)

text \<open>The directory of a request once it is resolved.\<close>

definition resolved :: "environment \<Rightarrow> request \<Rightarrow> path option \<Rightarrow> bool" where
  "resolved env req can \<longleftrightarrow>
     (case request_path req of
        None \<Rightarrow> can = None
      | Some p \<Rightarrow> (\<exists>q. canonicalize_dir (env_fs env) p = Ok q \<and> can = Some q))"

lemma handle_mutation_resolved:
  assumes "resolved env req can"
  shows "handle_mutation req env st =
     (case apply_request env st req can of
        (Err resp, _) \<Rightarrow> (resp, st)
      | (Ok _, new1) \<Rightarrow>
          (let new = set_link_web_subpath req (link_subpath env req can) new1
           in or_invalid env new st
                (case build_routing (env_fs env) new (st_cache st) of
                   (Err e, cache) \<Rightarrow>
                     (internal (''router rebuild failed: '' @ env_show_scan env e), st\<lparr>st_cache := cache\<rparr>)
                 | (Ok rt, cache) \<Rightarrow> save_commit env new (st\<lparr>st_cache := cache\<rparr>) (commit_routing req rt))))"
proof -
  have r: "(case request_path req of
          None \<Rightarrow> Ok None
        | Some p \<Rightarrow> (case canonicalize_dir (env_fs env) p of Ok q \<Rightarrow> Ok (Some q) | Err r \<Rightarrow> Err r)) = Ok can"
    using assms by (auto simp: resolved_def split: option.splits)
  show ?thesis
    unfolding handle_mutation_def r Let_def link_subpath_def by simp
qed


definition demo_proxied :: config where
  "demo_proxied = snd (apply_request demo_env demo_daemon (AddProxy ''api'' ''http://127.0.0.1:3000'') None)"


end
