(* ===== verification/Catalogue.thy ===== *)
theory Catalogue
  imports Daemon_Accept
begin

text \<open>
  The daemon as its user sees it: a catalogue of linked sites with their directories, parked
  directories, and proxies with their targets. The abstract requests of the catalogue are partial
  functions of a few lines; every request the daemon accepts refines one of them.
\<close>

section \<open>The abstract daemon\<close>

record catalogue =
  cat_sites :: "string \<Rightarrow> path option"
  cat_roots :: "path set"
  cat_proxies :: "string \<Rightarrow> upstream_target option"

definition catalogue_of :: "config \<Rightarrow> catalogue" where
  "catalogue_of cfg =
     \<lparr>cat_sites = map_of (map (\<lambda>s. (site_name s, document_root s)) (cfg_linked cfg)),
      cat_roots = dom (bt_get (parked_paths (cfg_parked cfg))),
      cat_proxies = map_of (map (\<lambda>p. (ps_name p, ps_target p)) (cfg_proxies cfg))\<rparr>"

definition cat_free :: "string \<Rightarrow> catalogue \<Rightarrow> bool" where
  "cat_free n c \<longleftrightarrow> cat_sites c n = None \<and> cat_proxies c n = None"

text \<open>\<open>None\<close> when the request cannot be granted; \<open>dir\<close> is the directory the request names, resolved.\<close>

fun cat_request :: "request \<Rightarrow> path option \<Rightarrow> catalogue \<Rightarrow> catalogue option" where
  "cat_request (Park _) dir c = map_option (\<lambda>q. c\<lparr>cat_roots := insert q (cat_roots c)\<rparr>) dir"
| "cat_request (Unpark p) dir c = Some (c\<lparr>cat_roots := cat_roots c - {p}\<rparr>)"
| "cat_request (Link name _) dir c =
     (let n = to_ascii_lowercase name
      in if cat_free n c then map_option (\<lambda>q. c\<lparr>cat_sites := (cat_sites c)(n \<mapsto> q)\<rparr>) dir else None)"
| "cat_request (Unlink name) dir c =
     (let n = to_ascii_lowercase name
      in if cat_sites c n = None then None else Some (c\<lparr>cat_sites := (cat_sites c)(n := None)\<rparr>))"
| "cat_request (AddProxy name url) dir c =
     (case (validate_proxy_name name, from_url_str url) of
        (Ok n, Ok t) \<Rightarrow> if cat_free n c then Some (c\<lparr>cat_proxies := (cat_proxies c)(n \<mapsto> t)\<rparr>) else None
      | _ \<Rightarrow> None)"
| "cat_request (RemoveProxy name) dir c =
     (let n = to_ascii_lowercase name
      in if cat_proxies c n = None then None else Some (c\<lparr>cat_proxies := (cat_proxies c)(n := None)\<rparr>))"
| "cat_request _ dir c = Some c"

definition request_dir :: "environment \<Rightarrow> request \<Rightarrow> path option" where
  "request_dir env req =
     (case request_path req of
        None \<Rightarrow> None
      | Some p \<Rightarrow> (case canonicalize_dir (env_fs env) p of Ok q \<Rightarrow> Some q | Err _ \<Rightarrow> None))"

fun cat_serve :: "daemon_op \<Rightarrow> environment \<Rightarrow> catalogue \<Rightarrow> catalogue option" where
  "cat_serve (SiteOp req) env c = cat_request req (request_dir env req) c"
| "cat_serve _ env c = Some c"

text \<open>A run of the catalogue: a request answered with an error is skipped, the others are granted.\<close>

fun cat_run :: "('p \<Rightarrow> environment \<Rightarrow> catalogue \<Rightarrow> catalogue option) \<Rightarrow> ('p \<times> environment) list \<Rightarrow> response list \<Rightarrow> catalogue \<Rightarrow> catalogue option" where
  "cat_run grant ((p, env) # ps) (r # rs) c =
     (case r of
        RespError _ _ \<Rightarrow> cat_run grant ps rs c
      | _ \<Rightarrow> (case grant p env c of Some c' \<Rightarrow> cat_run grant ps rs c' | None \<Rightarrow> None))"
| "cat_run grant _ _ c = Some c"

section \<open>Requests of the pure layer\<close>

lemma cat_sites_None: "cat_sites (catalogue_of cfg) n = None \<longleftrightarrow> n \<notin> linked_names cfg"
  by (force simp: catalogue_of_def map_of_eq_None_iff linked_names_def)

lemma cat_proxies_None: "cat_proxies (catalogue_of cfg) n = None \<longleftrightarrow> \<not> is_proxy cfg n"
  by (force simp: catalogue_of_def map_of_eq_None_iff list_ex_iff)

lemma map_of_remove_key: "map_of (map h (filter P xs)) = (map_of (map h xs))(n := None)"
  if "\<And>x. P x \<longleftrightarrow> fst (h x) \<noteq> n"
  by (induction xs) (auto simp: that fun_upd_twist)

lemma map_of_append_fresh: "map_of xs k = None \<Longrightarrow> map_of (xs @ [(k, v)]) = (map_of xs)(k \<mapsto> v)"
  by (auto simp: fun_eq_iff map_add_def split: option.splits)

lemma dom_bt_insert: "dom (bt_get (bt_insert k v m)) = insert k (dom (bt_get m))"
  by (auto simp: dom_def)

lemma dom_bt_remove: "dom (bt_get (bt_remove k m)) = dom (bt_get m) - {k}"
  by (auto simp: dom_def)

lemma catalogue_cong:
  assumes "map (\<lambda>s. (site_name s, document_root s)) (cfg_linked a) = map (\<lambda>s. (site_name s, document_root s)) (cfg_linked b)"
    and "parked_paths (cfg_parked a) = parked_paths (cfg_parked b)"
    and "map (\<lambda>p. (ps_name p, ps_target p)) (cfg_proxies a) = map (\<lambda>p. (ps_name p, ps_target p)) (cfg_proxies b)"
  shows "catalogue_of a = catalogue_of b"
  using assms by (simp add: catalogue_of_def)

lemma view_catalogue: "same_view a b \<Longrightarrow> catalogue_of a = catalogue_of b"
  by (intro catalogue_cong) (simp_all add: view_eqs)

lemma set_linked_catalogue:
  "(\<And>s. site_name (f s) = site_name s \<and> document_root (f s) = document_root s) \<Longrightarrow>
     catalogue_of (set_linked n f cfg) = catalogue_of cfg"
  by (intro catalogue_cong) (simp_all add: set_linked_def update_first_map)

lemma put_deltas_catalogue: "catalogue_of (put_deltas t m cfg) = catalogue_of cfg"
  by (cases t) (simp_all add: catalogue_of_def)

lemma frame_catalogue:
  "catalogue_of (set_override k g cfg) = catalogue_of cfg"
  "catalogue_of (put_proxy_rules b pm cfg) = catalogue_of cfg"
  "catalogue_of (put_route_rules b rm cfg) = catalogue_of cfg"
  "catalogue_of (delta_mut t d cfg) = catalogue_of cfg"
  "catalogue_of (prune_delta t cfg) = catalogue_of cfg"
  "catalogue_of (promote p n cfg) = catalogue_of cfg"
  "catalogue_of (demote n q cfg) = catalogue_of cfg"
  by (simp_all add: set_override_def put_proxy_rules_def put_route_rules_def delta_mut_def prune_delta_def
      put_deltas_catalogue case_prod_unfold split: option.split)
    (simp_all add: promote_def demote_def catalogue_of_def case_prod_unfold)


definition names_disjoint :: "config \<Rightarrow> bool" where
  "names_disjoint cfg \<longleftrightarrow> (\<forall>n \<in> linked_names cfg. \<not> is_proxy cfg n)"

lemma valid_names_disjoint: "config_validate cfg = Ok () \<Longrightarrow> names_disjoint cfg"
  by (auto simp: names_disjoint_def config_valid_iff proxies_ok_def list_ex_iff)

lemma apply_link_catalogue:
  assumes "apply_link disp cfg name dir php = (Ok a, new)" "names_disjoint new"
  shows "cat_request (Link name p) dir (catalogue_of cfg) = Some (catalogue_of new)"
proof -
  obtain q s where s: "dir = Some q" "site_linked name q php = Ok s" "\<not> is_linked cfg (site_name s)"
      "new = (promote (override_key s) (site_name s) cfg)\<lparr>cfg_linked := cfg_linked (promote (override_key s) (site_name s) cfg) @ [s]\<rparr>"
    using assms(1) by (auto simp: apply_link_def Let_def split: option.splits result.splits if_splits)
  let ?n = "to_ascii_lowercase name"
  have n: "site_name s = ?n" "document_root s = q"
    using site_linked_name [OF s(2)] s(2) by (auto simp: site_linked_def new_site_def split: result.splits)
  have fields: "cfg_linked (promote d m cfg) = cfg_linked cfg" "cfg_proxies (promote d m cfg) = cfg_proxies cfg"
    "cfg_parked (promote d m cfg) = cfg_parked cfg" for d m
    by (simp_all add: promote_def case_prod_unfold)
  have "?n \<in> linked_names new" using s(4) n by (simp add: linked_names_def)
  then have "\<not> is_proxy new ?n"
    using assms(2) by (simp add: names_disjoint_def)
  then have free: "cat_free ?n (catalogue_of cfg)"
    using s(3,4) n by (auto simp: cat_free_def cat_sites_None cat_proxies_None fields linked_names_iff)
  then show ?thesis
    using s n map_of_append_fresh [of "map (\<lambda>s. (site_name s, document_root s)) (cfg_linked cfg)" ?n q]
    by (simp add: Let_def catalogue_of_def cat_free_def fields)
qed

lemma apply_unlink_catalogue:
  assumes "apply_unlink cfg router name = (Ok a, new)"
  shows "cat_request (Unlink name) dir (catalogue_of cfg) = Some (catalogue_of new)"
proof -
  let ?n = "to_ascii_lowercase name"
  obtain s q where s: "find (\<lambda>s. site_name s = ?n) (cfg_linked cfg) = Some s"
      "new = demote ?n q (cfg\<lparr>cfg_linked := filter (\<lambda>s. site_name s \<noteq> ?n) (cfg_linked cfg)\<rparr>)"
    using assms by (auto simp: apply_unlink_def Let_def split: option.splits if_splits)
  have "cat_sites (catalogue_of cfg) ?n \<noteq> None"
    using s(1) unfolding cat_sites_None by (force simp: linked_names_def find_Some_iff in_set_conv_nth)
  moreover have "catalogue_of new = (catalogue_of cfg)\<lparr>cat_sites := (cat_sites (catalogue_of cfg))(?n := None)\<rparr>"
    using map_of_remove_key [of "\<lambda>s. site_name s \<noteq> ?n" "\<lambda>s. (site_name s, document_root s)" ?n "cfg_linked cfg"]
    unfolding s(2) frame_catalogue by (simp add: catalogue_of_def)
  ultimately show ?thesis by (simp add: Let_def)
qed

lemma apply_add_proxy_catalogue:
  assumes "apply_add_proxy disp cfg router name url = (Ok a, new)" "router_matches cfg router"
  shows "cat_request (AddProxy name url) dir (catalogue_of cfg) = Some (catalogue_of new)"
proof -
  obtain t p where p: "from_url_str url = Ok t" "proxy_site_new name t = Ok p"
      "router_get router (ps_name p) = None" "\<not> is_proxy cfg (ps_name p)" "new = cfg\<lparr>cfg_proxies := cfg_proxies cfg @ [p]\<rparr>"
    using assms(1) by (auto simp: apply_add_proxy_def Let_def is_some_def split: option.splits result.splits if_splits)
  have n: "validate_proxy_name name = Ok (ps_name p)" "ps_target p = t"
    using p(2) by (auto simp: proxy_site_new_def split: result.splits)
  have free: "cat_free (ps_name p) (catalogue_of cfg)"
    using p(3,4) router_matchesD(1) [OF assms(2), of "ps_name p"] by (auto simp: cat_free_def cat_sites_None cat_proxies_None)
  then show ?thesis
    using p n map_of_append_fresh [of "map (\<lambda>p. (ps_name p, ps_target p)) (cfg_proxies cfg)" "ps_name p" t]
    by (simp add: catalogue_of_def cat_free_def)
qed

lemma apply_remove_proxy_catalogue:
  assumes "apply_remove_proxy cfg name = (Ok a, new)"
  shows "cat_request (RemoveProxy name) dir (catalogue_of cfg) = Some (catalogue_of new)"
proof -
  let ?n = "to_ascii_lowercase name" and ?ps = "filter (\<lambda>p. ps_name p \<noteq> to_ascii_lowercase name) (cfg_proxies cfg)"
  have ps: "length ?ps \<noteq> length (cfg_proxies cfg)" "cfg_proxies new = ?ps" "cfg_linked new = cfg_linked cfg"
      "cfg_parked new = cfg_parked cfg"
    using assms by (auto simp: apply_remove_proxy_def Let_def split: if_splits)
  then have "cat_proxies (catalogue_of cfg) ?n \<noteq> None"
    unfolding cat_proxies_None list_ex_iff by (metis (mono_tags, lifting) filter_True)
  then show ?thesis
    using ps(2-) map_of_remove_key [of "\<lambda>p. ps_name p \<noteq> ?n" "\<lambda>p. (ps_name p, ps_target p)" ?n "cfg_proxies cfg"]
    by (simp add: Let_def catalogue_of_def)
qed


lemma setter_catalogue:
  "catalogue_of (snd (apply_set_php cfg router name v)) = catalogue_of cfg"
  "catalogue_of (snd (apply_set_secure cfg router name b)) = catalogue_of cfg"
  "catalogue_of (snd (apply_set_wordpress_auto_login cfg router name b user)) = catalogue_of cfg"
  "catalogue_of (snd (apply_set_front_controller cfg router name b)) = catalogue_of cfg"
proof -
  have secure: "catalogue_of (cfg\<lparr>cfg_proxies := update_first P (proxy_set_secure b) (cfg_proxies cfg)\<rparr>) = catalogue_of cfg" for P
    by (intro catalogue_cong) (simp_all add: update_first_map proxy_set_secure_def)
  show "catalogue_of (snd (apply_set_php cfg router name v)) = catalogue_of cfg"
    "catalogue_of (snd (apply_set_secure cfg router name b)) = catalogue_of cfg"
    "catalogue_of (snd (apply_set_wordpress_auto_login cfg router name b user)) = catalogue_of cfg"
    "catalogue_of (snd (apply_set_front_controller cfg router name b)) = catalogue_of cfg"
    by (simp_all add: apply_set_php_def apply_set_secure_def apply_set_wordpress_auto_login_def
        apply_set_front_controller_def Let_def set_linked_catalogue frame_catalogue secure 
        set_php_def set_site_secure_def set_wp_auto_login_def set_wp_auto_login_user_def set_front_controller_def split: option.split)
qed

lemma rule_catalogue:
  "catalogue_of (snd (apply_add_proxy_rule disp cfg router name pre url)) = catalogue_of cfg"
  "catalogue_of (snd (apply_remove_proxy_rule cfg router name pre)) = catalogue_of cfg"
  "catalogue_of (snd (apply_add_route_rule disp cfg router name pre url)) = catalogue_of cfg"
  "catalogue_of (snd (apply_remove_route_rule cfg router name pre)) = catalogue_of cfg"
  by (simp_all add: apply_add_proxy_rule_def apply_remove_proxy_rule_def apply_add_route_rule_def
      apply_remove_route_rule_def Let_def case_prod_unfold frame_catalogue split: option.split result.split)

lemma domain_catalogue:
  "catalogue_of (snd (apply_add_domain disp cfg router name d)) = catalogue_of cfg"
  "catalogue_of (snd (apply_remove_domain disp cfg router name d)) = catalogue_of cfg"
  "catalogue_of (snd (apply_set_primary_domain disp cfg router name d)) = catalogue_of cfg"
  "catalogue_of (snd (apply_reset_domains cfg router name)) = catalogue_of cfg"
  by (simp_all add: apply_add_domain_def apply_remove_domain_def apply_set_primary_domain_def apply_reset_domains_def
      Let_def case_prod_unfold frame_catalogue put_deltas_catalogue split: option.split result.split)

lemmas frame_requests = setter_catalogue rule_catalogue domain_catalogue

lemma mutate_apply_catalogue:
  assumes res: "mutate_apply disp cfg router req dir php = (Ok a, new)" and v: "names_disjoint new"
    and r: "router_matches cfg router"
  shows "cat_request req dir (catalogue_of cfg) = Some (catalogue_of new)"
proof (cases "is_group_request req")
  case True
  then have "catalogue_of new = catalogue_of cfg"
    using view_catalogue [OF group_request_view] res by (metis snd_conv)
  with True show ?thesis by (cases req) (simp_all add: is_group_request_def)
next
  case False
  have new: "new = snd (mutate_apply disp cfg router req dir php)" using res by simp
  show ?thesis
  proof (cases req)
    case (Park p)
    then show ?thesis
      using res by (auto simp: mutate_apply_def apply_park_def Let_def catalogue_of_def dom_bt_insert split: option.splits)
  next
    case (Unpark p)
    then show ?thesis
      using res by (auto simp: mutate_apply_def apply_unpark_def Let_def catalogue_of_def dom_bt_remove split: if_splits)
  next
    case (Link name p)
    then show ?thesis using res v apply_link_catalogue by (simp add: mutate_apply_def)
  next
    case (Unlink name)
    then show ?thesis using res apply_unlink_catalogue by (simp add: mutate_apply_def)
  next
    case (AddProxy name url)
    then show ?thesis using res r apply_add_proxy_catalogue by (simp add: mutate_apply_def)
  next
    case (RemoveProxy name)
    then show ?thesis using res apply_remove_proxy_catalogue by (simp add: mutate_apply_def)
  qed (use False in \<open>simp_all add: new mutate_apply_def frame_requests is_group_request_def\<close>)
qed


section \<open>The daemon refines the catalogue\<close>

lemma web_root_catalogue:
  "catalogue_of (snd (resolve_web_root_mutation fs cfg router name p)) = catalogue_of cfg"
proof -
  have "catalogue_of (cfg\<lparr>cfg_overrides := m\<rparr>) = catalogue_of cfg" for m
    by (simp add: catalogue_of_def)
  then show ?thesis
    by (simp add: resolve_web_root_mutation_def Let_def set_linked_catalogue set_web_subpath_def frame_catalogue
        split: option.split result.split)
qed

lemma apply_request_catalogue:
  assumes res: "apply_request env st req dir = (Ok a, new)" and v: "names_disjoint new"
    and r: "router_matches (st_config st) (st_router st)"
  shows "cat_request req dir (catalogue_of (st_config st)) = Some (catalogue_of new)"
proof (cases "\<exists>name p. req = SetWebRoot name p")
  case True
  then obtain name p where p: "req = SetWebRoot name p" by blast
  then show ?thesis
    using res web_root_catalogue [of "env_fs env" "st_config st" "st_router st" name p] by (simp add: apply_request_def)
next
  case False
  let ?m = "mutate_apply (env_show_core env) (st_config st) (st_router st) req dir (php_default (cfg_php (st_config st)))"
  have "?m = (Ok a, new)"
    using res False by (cases req) (auto simp: apply_request_def Let_def split: prod.splits result.splits)
  then show ?thesis using v r by (rule mutate_apply_catalogue)
qed

abbreviation is_error :: "response \<Rightarrow> bool" where
  "is_error r \<equiv> (\<exists>c m. r = RespError c m)"

lemma apply_request_Err: "apply_request env st req dir = (Err r, new) \<Longrightarrow> is_error r"
  by (cases req)
    (auto simp: apply_request_def Let_def resolve_web_root_mutation_def resolve_web_root_within_def invalid_path_def
      split: prod.splits result.splits option.splits if_splits)

lemma link_subpath_names:
  "catalogue_of (set_link_web_subpath req wr cfg) = catalogue_of cfg"
  "names_disjoint (set_link_web_subpath req wr cfg) = names_disjoint cfg"
proof -
  have sub: "set_link_web_subpath req wr cfg = cfg \<or> (\<exists>n rel. set_link_web_subpath req wr cfg = set_linked n (set_web_subpath rel) cfg)"
    by (auto simp: set_link_web_subpath_def split: request.split option.split)
  have c: "catalogue_of (set_linked n (set_web_subpath rel) cfg) = catalogue_of cfg" for n rel
    by (simp add: set_linked_catalogue set_web_subpath_def)
  then show "catalogue_of (set_link_web_subpath req wr cfg) = catalogue_of cfg" using sub by auto
  then show "names_disjoint (set_link_web_subpath req wr cfg) = names_disjoint cfg"
    unfolding names_disjoint_def by (metis cat_sites_None cat_proxies_None)
qed

lemma handle_mutation_dir:
  assumes "\<not> is_error (fst (handle_mutation req env st))"
  shows "resolved env req (request_dir env req)"
proof (rule ccontr)
  assume "\<not> resolved env req (request_dir env req)"
  then obtain p r where "request_path req = Some p" "canonicalize_dir (env_fs env) p = Err r"
    by (auto simp: resolved_def request_dir_def split: option.splits) (metis result.exhaust)
  then have "fst (handle_mutation req env st) = r \<and> is_error r"
    by (auto simp: handle_mutation_def canonicalize_dir_def invalid_path_def split: result.splits if_splits)
  with assms show False by simp
qed

lemma handle_mutation_accepted:
  assumes ok: "\<not> is_error (fst (handle_mutation req env st))"
  obtains a new1 wr where "apply_request env st req (request_dir env req) = (Ok a, new1)"
    "config_validate (set_link_web_subpath req wr new1) = Ok ()"
    "st_config (snd (handle_mutation req env st)) = set_link_web_subpath req wr new1"
proof -
  let ?dir = "request_dir env req"
  note h = handle_mutation_resolved [OF handle_mutation_dir [OF ok], of st]
  obtain r new1 where app: "apply_request env st req ?dir = (r, new1)" by (rule prod.exhaust)
  obtain a where r: "r = Ok a"
    using ok apply_request_Err [of env st req ?dir] app unfolding h by (cases r) auto
  let ?new = "set_link_web_subpath req (link_subpath env req ?dir) new1"
  obtain b cache where scan: "build_routing (env_fs env) ?new (st_cache st) = (b, cache)" by (rule prod.exhaust)
  have "config_validate ?new = Ok () \<and> st_config (snd (handle_mutation req env st)) = ?new"
    using ok unfolding h
    by (cases b) (auto simp: app r scan Let_def or_invalid_def save_commit_alt commit_routing_def call_def internal_def
        split: result.splits option.splits)
  with app r that show thesis by blast
qed

lemma handle_mutation_catalogue:
  assumes ok: "daemon_ok st" and acc: "\<not> is_error (fst (handle_mutation req env st))"
  shows "cat_request req (request_dir env req) (catalogue_of (st_config st))
    = Some (catalogue_of (st_config (snd (handle_mutation req env st))))"
proof -
  obtain a new1 wr where new: "apply_request env st req (request_dir env req) = (Ok a, new1)"
    "config_validate (set_link_web_subpath req wr new1) = Ok ()"
    "st_config (snd (handle_mutation req env st)) = set_link_web_subpath req wr new1"
    using handle_mutation_accepted [OF acc] .
  have "names_disjoint new1"
    using valid_names_disjoint [OF new(2)] by (simp add: link_subpath_names)
  then show ?thesis
    using apply_request_catalogue [OF new(1) _ routing_matches(1) [OF ok]] by (simp add: new(3) link_subpath_names)
qed

text \<open>Every other request leaves the fields of the catalogue alone.\<close>

lemma fold_call_config [simp]: "st_config (fold (\<lambda>v. call (f v)) vs st) = st_config st"
  by (induction vs arbitrary: st) (simp_all add: call_def)

lemma php_calls_config [simp]:
  "st_config (call c st) = st_config st" "st_config (restart_pools env st) = st_config st"
  "st_config (restart_if_running env v st) = st_config st"
  "st_config (apply_version_php_config env v st) = st_config st" "st_config (apply_extensions env v st) = st_config st"
  by (simp_all add: call_def restart_pools_def restart_if_running_def apply_version_php_config_def apply_extensions_def Let_def)

lemma settings_view:
  assumes "\<And>req. p \<noteq> SiteOp req"
  shows "same_view (st_config (snd (dispatch p env st))) (st_config st)"
  using assms
  by (cases p)
    (auto simp: set_mail_port_def set_fallback_ports_def set_dns_port_def set_mail_enabled_def set_symlink_protection_def
      set_mcp_enabled_def set_lan_enabled_def set_default_php_def set_php_settings_def set_php_version_settings_def
      set_php_directives_def set_php_pool_settings_def add_php_extension_def remove_php_extension_def Let_def
      save_commit_alt or_invalid_def same_view_def
      split: result.split option.split)

lemma dispatch_catalogue:
  assumes ok: "daemon_ok st" and acc: "\<not> is_error (fst (dispatch p env st))"
  shows "cat_serve p env (catalogue_of (st_config st)) = Some (catalogue_of (st_config (snd (dispatch p env st))))"
proof (cases "\<exists>req. p = SiteOp req")
  case False
  then have "cat_serve p env c = Some c" for c by (cases p) auto
  then show ?thesis
    using False view_catalogue [OF settings_view, of p env st] by auto
next
  case True
  then obtain req where p: "p = SiteOp req" by blast
  note d = dispatch_site_cases [of req env st]
  show ?thesis
  proof (cases "is_group_request req")
    case True
    have "same_view (st_config (snd (handle_group_mutation req env st))) (st_config st)"
      using group_request_view [OF True, of "env_show_core env" "st_config st" "st_router st" None "php_default (cfg_php (st_config st))"]
      by (auto simp: handle_group_mutation_def Let_def or_invalid_def save_commit_alt split: prod.split result.split option.split)
    moreover have "cat_request req dir c = Some c" for dir c
      using True by (cases req) (simp_all add: is_group_request_def)
    ultimately show ?thesis using True d view_catalogue by (simp add: p)
  next
    case False
    have "dispatch_site req env st = handle_mutation req env st"
      using d False acc by (auto simp: p self_forward_refusal_def split: if_splits)
    then show ?thesis using handle_mutation_catalogue [OF ok, of req env] acc by (simp add: p)
  qed
qed

locale catalogue_service = daemon_service serve
  for serve :: "'p \<Rightarrow> handler" +
  fixes grant :: "'p \<Rightarrow> environment \<Rightarrow> catalogue \<Rightarrow> catalogue option"
  assumes serve_grants: "daemon_ok st \<Longrightarrow> \<not> is_error (fst (serve p env st)) \<Longrightarrow>
    grant p env (catalogue_of (st_config st)) = Some (catalogue_of (st_config (snd (serve p env st))))"
begin

lemma error_keeps_catalogue:
  "fst (serve p env st) = RespError c m \<Longrightarrow> catalogue_of (st_config (snd (serve p env st))) = catalogue_of (st_config st)"
  using serve_error by (simp add: core_def)

lemma run_refines:
  "daemon_ok st \<Longrightarrow>
     cat_run grant ps (fst (run_ops serve ps st)) (catalogue_of (st_config st))
       = Some (catalogue_of (st_config (snd (run_ops serve ps st))))"
proof (induction ps arbitrary: st)
  case (Cons q ps)
  obtain p env where q: "q = (p, env)" by (rule prod.exhaust)
  note ih = Cons.IH [OF serve_ok [OF Cons.prems, of p env]]
  show ?case
  proof (cases "is_error (fst (serve p env st))")
    case True
    then show ?thesis
      using ih error_keeps_catalogue [of p env st] by (auto simp: q case_prod_unfold)
  next
    case False
    then show ?thesis
      using ih serve_grants [OF Cons.prems False]
      by (cases "fst (serve p env st)") (simp_all add: q case_prod_unfold)
  qed
qed simp

end

interpretation granted: catalogue_service dispatch cat_serve
  by unfold_locales (rule dispatch_catalogue)

text \<open>
  C3: the daemon refines the catalogue. From every reachable state, the requests of a run that were
  not answered with an error, granted one after the other by the abstract catalogue, are all
  possible and lead to exactly the catalogue of the daemon's final configuration: names stay unique
  across sites and proxies, each request changes the entry it names and no other. A rescan and the
  adoption of a first PHP change nothing of it.
\<close>

theorem daemon_refines_catalogue:
  assumes "daemon_reachable st"
  shows "cat_run cat_serve ps (fst (run_ops dispatch ps st)) (catalogue_of (st_config st))
      = Some (catalogue_of (st_config (snd (run_ops dispatch ps st))))
    \<and> catalogue_of (st_config (snd (recompute env st))) = catalogue_of (st_config st)
    \<and> catalogue_of (st_config (adopt_default_if_unset v env st)) = catalogue_of (st_config st)"
proof (intro conjI)
  show "cat_run cat_serve ps (fst (run_ops dispatch ps st)) (catalogue_of (st_config st))
      = Some (catalogue_of (st_config (snd (run_ops dispatch ps st))))"
    using daemon_reachable_ok [OF assms] by (rule granted.run_refines)
  show "catalogue_of (st_config (snd (recompute env st))) = catalogue_of (st_config st)"
    by (simp add: recompute_def case_prod_unfold split: result.split)
  show "catalogue_of (st_config (adopt_default_if_unset v env st)) = catalogue_of (st_config st)"
    by (intro view_catalogue) (simp add: adopt_default_if_unset_def Let_def save_commit_alt same_view_def split: option.split)
qed

definition demo_run :: "(daemon_op \<times> environment) list" where
  "demo_run =
     [(SiteOp (AddProxy ''api'' ''http://127.0.0.1:3000''), demo_env),
      (SiteOp (AddProxy ''API'' ''http://127.0.0.1:4000''), demo_env),
      (SetDnsPort 0, demo_env)]"

theorem daemon_refines_catalogue_witness:
  "map (\<lambda>r. r = RespOk) (fst (run_ops dispatch demo_run demo_daemon)) = [True, False, False]
   \<and> cat_run cat_serve demo_run (fst (run_ops dispatch demo_run demo_daemon)) (catalogue_of (st_config demo_daemon))
      = Some (catalogue_of (st_config (snd (run_ops dispatch demo_run demo_daemon))))"
proof
  show "map (\<lambda>r. r = RespOk) (fst (run_ops dispatch demo_run demo_daemon)) = [True, False, False]"
    by code_simp
  show "cat_run cat_serve demo_run (fst (run_ops dispatch demo_run demo_daemon)) (catalogue_of (st_config demo_daemon))
      = Some (catalogue_of (st_config (snd (run_ops dispatch demo_run demo_daemon))))"
    using daemon_refines_catalogue [OF reach_boot [OF demo_booted], of demo_run] by blast
qed

end
