(* ===== verification/Toml.thy ===== *)
theory Toml
  imports Rust_Map "HOL-Library.Monad_Syntax"
begin

text \<open>
  The document model of the \<open>toml\<close> crate, \<open>toml::Value\<close>, and what \<open>#[derive(Deserialize)]\<close> and
  \<open>#[derive(Serialize)]\<close> make of it. A reader gives none where deserialisation fails with a
  \<open>toml::de::Error\<close>; the text of that error is not modelled. A derived struct is read from a table
  without unknown keys (\<open>deny_unknown_fields\<close>), or from an array of its fields in order.
  A derived writer leaves out a field whose \<open>skip_serializing_if\<close> holds.
\<close>

section \<open>Documents\<close>

text \<open>\<open>TOther\<close> is a float or a datetime; no field of the configuration takes one.\<close>

datatype toml =
    TString string
  | TInteger int
  | TBoolean bool
  | TArray "toml list"
  | TTable "(string \<times> toml) list"
  | TOther string

type_synonym 'a reader = "toml \<Rightarrow> 'a option"

fun as_table :: "toml \<Rightarrow> (string, toml) btree_map option" where
  "as_table (TTable m) = Some m"
| "as_table _ = None"

fun as_integer :: "toml \<Rightarrow> int option" where
  "as_integer (TInteger n) = Some n"
| "as_integer _ = None"

section \<open>Reading\<close>

fun read_string :: "string reader" where
  "read_string (TString s) = Some s"
| "read_string _ = None"

fun read_bool :: "bool reader" where
  "read_bool (TBoolean b) = Some b"
| "read_bool _ = None"

fun read_u16 :: "u16 reader" where
  "read_u16 (TInteger n) = (if 0 \<le> n \<and> n < 2 ^ 16 then Some (word_of_int n) else None)"
| "read_u16 _ = None"

fun read_u32 :: "nat reader" where
  "read_u32 (TInteger n) = (if 0 \<le> n \<and> n < 2 ^ 32 then Some (nat n) else None)"
| "read_u32 _ = None"

fun read_vec :: "'a reader \<Rightarrow> 'a list reader" where
  "read_vec f (TArray xs) = those (map f xs)"
| "read_vec f _ = None"

fun read_map :: "'a reader \<Rightarrow> (string, 'a) btree_map reader" where
  "read_map f (TTable m) = map_option bt_collect (those (map (\<lambda>(k, v). map_option (Pair k) (f v)) m))"
| "read_map f _ = None"

definition read_set :: "(string, unit) btree_map reader" where
  "read_set v = map_option (\<lambda>xs. bt_collect (map (\<lambda>x. (x, ())) xs)) (read_vec read_string v)"

text \<open>The entries of a struct with the given fields.\<close>

fun struct_fields :: "string list \<Rightarrow> (string, toml) btree_map reader" where
  "struct_fields names (TTable m) = (if list_all (\<lambda>e. fst e \<in> set names) m then Some m else None)"
| "struct_fields names (TArray xs) = (if length xs \<le> length names then Some (zip names xs) else None)"
| "struct_fields names _ = None"

definition required :: "(string, toml) btree_map \<Rightarrow> string \<Rightarrow> 'a reader \<Rightarrow> 'a option" where
  "required m k f = (case bt_get m k of Some v \<Rightarrow> f v | None \<Rightarrow> None)"

definition defaulted :: "(string, toml) btree_map \<Rightarrow> string \<Rightarrow> 'a reader \<Rightarrow> 'a \<Rightarrow> 'a option" where
  "defaulted m k f d = (case bt_get m k of Some v \<Rightarrow> f v | None \<Rightarrow> Some d)"

definition optional :: "(string, toml) btree_map \<Rightarrow> string \<Rightarrow> 'a reader \<Rightarrow> 'a option option" where
  "optional m k f = (case bt_get m k of Some v \<Rightarrow> map_option Some (f v) | None \<Rightarrow> Some None)"

section \<open>Writing\<close>

definition write_u16 :: "u16 \<Rightarrow> toml" where
  "write_u16 w = TInteger (uint w)"

definition write_map :: "('a \<Rightarrow> toml) \<Rightarrow> (string, 'a) btree_map \<Rightarrow> toml" where
  "write_map f m = TTable (map (\<lambda>(k, v). (k, f v)) m)"

definition write_struct :: "(string \<times> toml option) list \<Rightarrow> toml" where
  "write_struct fields = TTable (bt_collect (List.map_filter (\<lambda>(k, v). map_option (Pair k) v) fields))"

text \<open>\<open>skip_serializing_if\<close> for an empty collection.\<close>

definition unless_empty :: "('a list \<Rightarrow> toml) \<Rightarrow> 'a list \<Rightarrow> toml option" where
  "unless_empty f xs = (if xs = [] then None else Some (f xs))"

section \<open>What is written is read back\<close>

named_theorems read_back \<open>a reader undoes its writer\<close>

lemma read_u16_write [read_back]: "read_u16 (write_u16 w) = Some w"
  using uint_lt2p [of w] by (simp add: write_u16_def)

lemma those_Some: "those (map f xs) = Some ys \<longleftrightarrow> list_all2 (\<lambda>x y. f x = Some y) xs ys"
  by (induction xs arbitrary: ys) (auto simp: list_all2_Cons1 split: option.splits)

lemma those_map_Some: "\<forall>x \<in> set xs. f x = Some (g x) \<Longrightarrow> those (map f xs) = Some (map g xs)"
  by (simp add: those_Some list_all2_map2 list.rel_refl_strong)

lemma read_vec_write [read_back]:
  "\<forall>x \<in> set xs. f (w x) = Some (g x) \<Longrightarrow> read_vec f (TArray (map w xs)) = Some (map g xs)"
  by (simp add: comp_def those_map_Some)

lemma map_of_rev_distinct:
  assumes "distinct (map fst m)"
  shows "map_of (rev m) = map_of m"
proof
  fix k
  have "map_of (rev m) k = Some v \<longleftrightarrow> map_of m k = Some v" for v
    using assms by (simp add: map_of_eq_Some_iff rev_map flip: rev_map)
  then show "map_of (rev m) k = map_of m k" by (metis option.exhaust)
qed

lemma bt_collect_id: "bt_inv m \<Longrightarrow> bt_collect m = m"
proof (rule bt_ext)
  fix k
  assume m: "bt_inv m"
  then have "distinct (map fst m)" by (rule bt_inv_distinct)
  then show "bt_get (bt_collect m) k = bt_get m k"
    by (simp add: bt_get_def [of m] bt_get_collect map_of_rev_distinct)
qed simp_all

lemma bt_inv_map_values: "bt_inv (map (\<lambda>(k, v). (k, f k v)) m) = bt_inv m"
  by (simp add: bt_inv_def comp_def case_prod_unfold)

lemma read_map_write [read_back]:
  assumes "bt_inv m" "\<forall>(k, v) \<in> set m. f (w v) = Some (g v)"
  shows "read_map f (write_map w m) = Some (map (\<lambda>(k, v). (k, g v)) m)"
proof -
  have "those (map ((\<lambda>(k, v). map_option (Pair k) (f v)) \<circ> (\<lambda>(k, v). (k, w v))) m) = Some (map (\<lambda>(k, v). (k, g v)) m)"
    using assms(2) by (intro those_map_Some) auto
  then show ?thesis
    using assms(1) by (simp add: write_map_def bt_collect_id bt_inv_map_values)
qed

lemma read_set_write [read_back]:
  assumes "bt_inv m"
  shows "read_set (TArray (map (\<lambda>e. TString (fst e)) m)) = Some m"
proof -
  have "map (\<lambda>x. (x, ())) (map fst m) = m" by (induction m) auto
  then show ?thesis
    using assms read_vec_write [of m read_string "\<lambda>e. TString (fst e)" fst] bt_collect_id [of m]
    by (simp add: read_set_def)
qed

text \<open>A written struct, as its readers see it.\<close>

abbreviation present_fields :: "(string \<times> toml option) list \<Rightarrow> (string \<times> toml) list" where
  "present_fields fields \<equiv> List.map_filter (\<lambda>(k, v). map_option (Pair k) v) fields"

definition struct_entries :: "(string \<times> toml option) list \<Rightarrow> (string, toml) btree_map" where
  "struct_entries fields = bt_collect (present_fields fields)"

lemma present_keys: "fst ` set (present_fields fields) \<subseteq> fst ` set fields"
  by (force simp: List.map_filter_def)

lemma present_distinct: "distinct (map fst fields) \<Longrightarrow> distinct (map fst (present_fields fields))"
proof (induction fields)
  case (Cons e es)
  then show ?case
    using present_keys [of es] by (cases e; cases "snd e") (auto simp: map_filter_simps)
qed (simp add: map_filter_simps)

lemma present_get: "distinct (map fst fields) \<Longrightarrow> map_of (present_fields fields) k = Option.bind (map_of fields k) id"
proof (induction fields)
  case (Cons e es)
  then show ?case
    by (cases e; cases "snd e") (auto simp: map_filter_simps map_of_eq_None_iff bind_eq_None_conv)
qed (simp add: map_filter_simps)

lemma struct_get:
  assumes "distinct (map fst fields)"
  shows "bt_get (struct_entries fields) k = Option.bind (map_of fields k) id"
  using map_of_rev_distinct [OF present_distinct [OF assms]] present_get [OF assms] by (simp add: struct_entries_def bt_get_collect)

lemma read_struct_write [read_back]:
  assumes "list_all (\<lambda>e. fst e \<in> set names) fields"
  shows "struct_fields names (write_struct fields) = Some (struct_entries fields)"
proof -
  have "k \<in> fst ` set fields" if "k \<in> fst ` set (struct_entries fields)" for k
  proof -
    have "bt_get (struct_entries fields) k \<noteq> None"
      using that by (simp add: bt_get_def map_of_eq_None_iff)
    then have "k \<in> fst ` set (present_fields fields)"
      unfolding struct_entries_def bt_get_collect map_of_eq_None_iff by simp
    then show ?thesis using present_keys by blast
  qed
  moreover have "fst ` set fields \<subseteq> set names"
    using assms by (auto simp: list_all_iff)
  ultimately have "list_all (\<lambda>e. fst e \<in> set names) (struct_entries fields)"
    unfolding list_all_iff by (meson image_eqI subsetD)
  then show ?thesis by (simp add: write_struct_def struct_entries_def)
qed

lemma read_field_write [read_back]:
  assumes "distinct (map fst fields)"
  shows "required (struct_entries fields) k f = (case Option.bind (map_of fields k) id of Some v \<Rightarrow> f v | None \<Rightarrow> None)"
    and "defaulted (struct_entries fields) k f d = (case Option.bind (map_of fields k) id of Some v \<Rightarrow> f v | None \<Rightarrow> Some d)"
    and "optional (struct_entries fields) k f
      = (case Option.bind (map_of fields k) id of Some v \<Rightarrow> map_option Some (f v) | None \<Rightarrow> Some None)"
  by (simp_all add: required_def defaulted_def optional_def struct_get [OF assms])

lemma read_optional_write [read_back]:
  "(case x of None \<Rightarrow> Some None | Some y \<Rightarrow> ((\<lambda>v. map_option Some (f v)) \<circ> w) y) = Some x"
  if "\<And>y. f (w y) = Some y"
  using that by (cases x) auto

lemma read_optional_shown [read_back]:
  "(case x of None \<Rightarrow> Some None | Some y \<Rightarrow> ((\<lambda>v. map_option Some (read_string v)) \<circ> (\<lambda>y. TString (h y))) y)
    = Some (map_option h x)"
  by (cases x) auto

lemma map_option_same [read_back]: "map_option (\<lambda>y. y) x = x"
  by (cases x) auto

lemma read_unless_empty_write [read_back]:
  "(case unless_empty w xs of Some v \<Rightarrow> f v | None \<Rightarrow> Some []) = Some ys"
  if "f (w xs) = Some ys" "xs = [] \<Longrightarrow> ys = []"
  using that by (simp add: unless_empty_def)

end
