(* ===== verification/Service_Directives.thy ===== *)
theory Service_Directives
  imports Php_Directives
begin

text \<open>
  \<open>crates/yerd-core/src/service_directives.rs\<close>: configuration overrides for the database and cache
  services, rendered into a file the engine includes, and the scan of the user's own file.
\<close>

definition override_max_name_len :: nat where "override_max_name_len = 128"
definition override_max_value_len :: nat where "override_max_value_len = 512"

datatype override_dialect = MyCnf | PostgresConf | RedisConf

definition dialect_for :: "string \<Rightarrow> override_dialect option" where
  "dialect_for type_id =
     (if type_id = ''mysql'' \<or> type_id = ''mariadb'' then Some MyCnf
      else if type_id = ''postgres'' then Some PostgresConf
      else if type_id = ''redis'' then Some RedisConf
      else None)"

fun file_ext :: "override_dialect \<Rightarrow> string" where
  "file_ext MyCnf = ''cnf''"
| "file_ext PostgresConf = ''conf''"
| "file_ext RedisConf = ''conf''"

definition INCLUDE_HINT :: string where
  "INCLUDE_HINT =
     ''overrides may not load other config files; put hand edits in the 50-local file instead''"

abbreviation quote :: char where "quote \<equiv> CHR 0x27"

definition RESERVED_MY_CNF :: "(string \<times> string) list" where
  "RESERVED_MY_CNF =
     [(''port'', ''the port is managed with `yerd service set-port <service>`''),
      (''datadir'', ''Yerd owns this service'' @ [quote] @ ''s data directory''),
      (''socket'', ''Yerd owns this service'' @ [quote] @ ''s socket path''),
      (''pid-file'', ''Yerd owns this service'' @ [quote] @ ''s pid file''),
      (''log-error'', ''Yerd owns the log path: read it with `yerd service logs <service>`''),
      (''init-file'', ''Yerd runs its own bootstrap SQL from this file (passwordless root over loopback)''),
      (''bind-address'', ''Yerd pins this service to loopback''),
      (''skip-name-resolve'', ''Yerd pins this service to loopback'')]"

definition RESERVED_POSTGRES_CONF :: "(string \<times> string) list" where
  "RESERVED_POSTGRES_CONF =
     [(''port'', ''the port is managed with `yerd service set-port <service>`''),
      (''listen_addresses'', ''Yerd pins this service to loopback''),
      (''unix_socket_directories'', ''Yerd owns this service'' @ [quote] @ ''s socket configuration''),
      (''logging_collector'', ''Yerd owns the log path: read it with `yerd service logs <service>`''),
      (''hba_file'', ''Yerd pins authentication to the data directory it initialised''),
      (''ident_file'', ''Yerd pins authentication to the data directory it initialised''),
      (''shared_preload_libraries'', ''Yerd resolves preloaded libraries from the install tree''),
      (''data_directory'', ''Yerd owns this service'' @ [quote] @ ''s data directory''),
      (''config_file'', ''Yerd owns this service'' @ [quote] @ ''s config file''),
      (''include'', INCLUDE_HINT), (''include_dir'', INCLUDE_HINT), (''include_if_exists'', INCLUDE_HINT)]"

definition RESERVED_REDIS_CONF :: "(string \<times> string) list" where
  "RESERVED_REDIS_CONF =
     [(''port'', ''the port is managed with `yerd service set-port <service>`''),
      (''bind'', ''Yerd pins this service to loopback''),
      (''protected-mode'', ''Yerd pins this service to loopback''),
      (''dir'', ''Yerd owns this service'' @ [quote] @ ''s data directory''),
      (''logfile'', ''Yerd owns the log path: read it with `yerd service logs <service>`''),
      (''daemonize'', ''Yerd supervises this service in the foreground''),
      (''include'', INCLUDE_HINT),
      (''unixsocket'', ''Yerd owns this service'' @ [quote] @ ''s socket path'')]"

definition underscores :: "string \<Rightarrow> string" where
  "underscores s = replace_byte (CHR ''-'') ''_'' s"

fun reserved_table :: "override_dialect \<Rightarrow> (string \<times> string) list" where
  "reserved_table MyCnf = RESERVED_MY_CNF"
| "reserved_table PostgresConf = RESERVED_POSTGRES_CONF"
| "reserved_table RedisConf = RESERVED_REDIS_CONF"

definition override_reserved :: "override_dialect \<Rightarrow> string \<Rightarrow> string option" where
  "override_reserved dialect name =
     (let needle = (if dialect = MyCnf then underscores name else name)
      in map_option snd (find (\<lambda>(n, _). eq_ignore_ascii_case (if dialect = MyCnf then underscores n else n) needle)
           (reserved_table dialect)))"

datatype override_name_error_reason =
  OverrideNameEmpty | OverrideNameTooLong | OverrideNameIllegalStart | OverrideNameIllegalCharacter

datatype override_value_error_reason =
  OverrideValueEmpty | OverrideValueTooLong | OverrideValueIllegalCharacter | OverrideValueQuote

datatype override_error = OverrideName override_name_error_reason | OverrideValue override_value_error_reason

fun show_override_name_reason :: "override_name_error_reason \<Rightarrow> string" where
  "show_override_name_reason OverrideNameEmpty = ''name must not be empty''"
| "show_override_name_reason OverrideNameTooLong = ''name is too long''"
| "show_override_name_reason OverrideNameIllegalStart =
     ''name must start with a letter or '' @ [quote] @ ''_'' @ [quote]"
| "show_override_name_reason OverrideNameIllegalCharacter =
     ''name may only contain letters, digits, '' @ [quote] @ ''.'' @ [quote] @ '', ''
       @ [quote] @ ''_'' @ [quote] @ '' and '' @ [quote] @ ''-'' @ [quote]"

fun show_override_value_reason :: "override_value_error_reason \<Rightarrow> string" where
  "show_override_value_reason OverrideValueEmpty = ''value must not be empty''"
| "show_override_value_reason OverrideValueTooLong = ''value is too long''"
| "show_override_value_reason OverrideValueIllegalCharacter =
     ''value may not contain control characters, '' @ [quote] @ '';'' @ [quote] @ '' or '' @ [quote] @ ''#'' @ [quote]"
| "show_override_value_reason OverrideValueQuote = ''value may not contain quote characters''"

definition override_validate_name :: "string \<Rightarrow> (override_error, unit) result" where
  "override_validate_name name =
     (case utf8_chars name of
        [] \<Rightarrow> Err (OverrideName OverrideNameEmpty)
      | first # _ \<Rightarrow>
          if length name > override_max_name_len then Err (OverrideName OverrideNameTooLong)
          else if \<not> ascii_char (\<lambda>c. is_ascii_alphabetic c \<or> c = CHR ''_'') first
          then Err (OverrideName OverrideNameIllegalStart)
          else if \<not> list_all name_byte name then Err (OverrideName OverrideNameIllegalCharacter)
          else Ok ())"

definition override_validate_value :: "override_dialect \<Rightarrow> string \<Rightarrow> (override_error, unit) result" where
  "override_validate_value dialect val =
     (if val = [] \<or> all_whitespace val then Err (OverrideValue OverrideValueEmpty)
      else if length val > override_max_value_len then Err (OverrideValue OverrideValueTooLong)
      else if has_illegal '';#'' val then Err (OverrideValue OverrideValueIllegalCharacter)
      else if dialect \<noteq> PostgresConf \<and> list_ex (\<lambda>c. c = [quote] \<or> c = [CHR 0x22]) (utf8_chars val)
      then Err (OverrideValue OverrideValueQuote)
      else Ok ())"

section \<open>Rendering\<close>

definition override_ok :: "override_dialect \<Rightarrow> string \<times> string \<Rightarrow> bool" where
  "override_ok dialect e \<longleftrightarrow>
     (case e of (name, val) \<Rightarrow>
        is_ok (override_validate_name name) \<and> is_ok (override_validate_value dialect val)
        \<and> override_reserved dialect name = None)"

definition override_line :: "override_dialect \<Rightarrow> string \<times> string \<Rightarrow> string" where
  "override_line dialect e =
     (case e of (name, raw) \<Rightarrow>
        (let val = trim raw
         in name @ (case dialect of
              MyCnf \<Rightarrow> '' = '' @ val
            | PostgresConf \<Rightarrow> '' = '' @ [quote] @ replace_byte quote [quote, quote] val @ [quote]
            | RedisConf \<Rightarrow> '' '' @ val)))"

text \<open>The dash in the first line is the three bytes of U+2014.\<close>

definition managed_header :: "override_dialect \<Rightarrow> string list" where
  "managed_header dialect =
     [''# Managed by Yerd '' @ [CHR 0xE2, CHR 0x80, CHR 0x94] @ '' regenerated on every start; do not edit by hand.'',
      ''# Set these with `yerd service set <service> <key> <value>`.'',
      ''# Your own edits belong in 50-local.'' @ file_ext dialect @ '' beside this file.'']
     @ (if dialect = MyCnf then [''[mysqld]''] else [])"

definition render_managed :: "override_dialect \<Rightarrow> string_map \<Rightarrow> string" where
  "render_managed dialect overrides =
     concat (map (\<lambda>l. l @ [LF]) (managed_header dialect))
     @ render_lines (override_ok dialect) (override_line dialect) overrides"

fun stub_syntax :: "override_dialect \<Rightarrow> string" where
  "stub_syntax MyCnf = ''name = value''"
| "stub_syntax PostgresConf = ''name = value''"
| "stub_syntax RedisConf = ''name value''"

fun stub_notes :: "override_dialect \<Rightarrow> string list" where
  "stub_notes MyCnf =
     [''# Accumulating directives (plugin-load-add) append rather than replace,'',
      ''# so setting one here adds to Yerd'' @ [quote] @ ''s value.'', [], ''[mysqld]'']"
| "stub_notes PostgresConf =
     [''# postgresql.auto.conf (written by ALTER SYSTEM) is read after every'',
      ''# include, so a directive set there outranks this file.'']"
| "stub_notes RedisConf =
     [''# Accumulating directives (save, client-output-buffer-limit) append'',
      ''# rather than replace, so setting one here adds to Yerd'' @ [quote] @ ''s value.'']"

definition stub_lines :: "override_dialect \<Rightarrow> string list" where
  "stub_lines dialect =
       [''# Your own overrides. This file belongs to you: Yerd created it once and'',
         ''# never rewrites it, so hand edits survive restarts.'',
         ''#'',
         ''# It is read after Yerd'' @ [quote] @ ''s own settings and after 10-yerd.'' @ file_ext dialect @ '', so a'',
         ''# directive here wins. One directive per line, `'' @ stub_syntax dialect @ ''`.'',
         ''#'',
         ''# Restart the service to apply: `yerd service restart <service>`'',
         ''#'',
         ''# Directives Yerd manages itself (the port, data directory, socket,'',
         ''# logging, loopback binding) are still refused here: `yerd doctor`'',
         ''# flags them.'']
        @ stub_notes dialect"

definition render_local_stub :: "override_dialect \<Rightarrow> string" where
  "render_local_stub dialect = concat (map (\<lambda>l. l @ [LF]) (stub_lines dialect))"

section \<open>Scanning the user's file\<close>

datatype local_override_problem = ReservedDirective string | Malformed

record local_override_issue =
  issue_line :: nat
  issue_key :: "string option"
  issue_problem :: local_override_problem

fun show_local_override_problem :: "local_override_problem \<Rightarrow> string" where
  "show_local_override_problem (ReservedDirective hint) = ''this directive is managed by Yerd: '' @ hint"
| "show_local_override_problem Malformed = ''this line is not a directive''"

definition local_line_key :: "override_dialect \<Rightarrow> string \<Rightarrow> string option" where
  "local_line_key dialect line =
     (case (case dialect of
              MyCnf \<Rightarrow>
                (case split_once (CHR ''='') line of Some (k, v) \<Rightarrow> Some (trim k, trim v) | None \<Rightarrow> Some (line, []))
            | PostgresConf \<Rightarrow>
                map_option (\<lambda>(k, v). (trim k, trim v))
                  (case split_once (CHR ''='') line of Some kv \<Rightarrow> Some kv | None \<Rightarrow> split_once_ws line)
            | RedisConf \<Rightarrow> map_option (\<lambda>(k, v). (trim k, trim v)) (split_once_ws line)) of
        None \<Rightarrow> None
      | Some (key, val) \<Rightarrow>
          if \<not> is_ok (override_validate_name key) then None
          else if val = [] \<and> dialect \<noteq> MyCnf then None
          else Some key)"

definition scan_line :: "override_dialect \<Rightarrow> nat \<times> string \<Rightarrow> local_override_issue list" where
  "scan_line dialect ir =
     (case ir of (index, raw) \<Rightarrow>
        (let line = trim raw
         in if line = [] \<or> starts_with ''#'' line then []
            else if dialect = MyCnf \<and> (starts_with '';'' line \<or> starts_with ''['' line \<or> starts_with ''!'' line) then []
            else (case local_line_key dialect line of
                None \<Rightarrow> [\<lparr>issue_line = index + 1, issue_key = None, issue_problem = Malformed\<rparr>]
              | Some key \<Rightarrow>
                  (case override_reserved dialect key of
                     Some hint \<Rightarrow> [\<lparr>issue_line = index + 1, issue_key = Some key, issue_problem = ReservedDirective hint\<rparr>]
                   | None \<Rightarrow> []))))"

definition scan_local :: "override_dialect \<Rightarrow> string \<Rightarrow> local_override_issue list" where
  "scan_local dialect content = concat (map (scan_line dialect) (enumerate 0 (str_lines content)))"

section \<open>What the engines read\<close>

text \<open>
  How an engine takes a line apart. A quoted PostgreSQL value may hold two quotes for one, and a
  backslash makes the next character literal.
\<close>

fun pg_body :: "string \<Rightarrow> string option" where
  "pg_body [] = None"
| "pg_body (c # cs) =
     (if c = quote then
        (case cs of
           [] \<Rightarrow> Some []
         | d # ds \<Rightarrow> if d = quote then map_option ((#) quote) (pg_body ds) else None)
      else if c = CHR 0x5C then
        (case cs of [] \<Rightarrow> None | d # ds \<Rightarrow> map_option ((#) d) (pg_body ds))
      else map_option ((#) c) (pg_body cs))"

fun engine_read :: "override_dialect \<Rightarrow> string \<Rightarrow> (string \<times> string) option" where
  "engine_read MyCnf l = ini_read l"
| "engine_read RedisConf l = split_once (CHR 0x20) l"
| "engine_read PostgresConf l =
     (case ini_read l of
        Some (n, q # body) \<Rightarrow> if q = quote then map_option (Pair n) (pg_body body) else None
      | _ \<Rightarrow> None)"

definition readable_override :: "override_dialect \<Rightarrow> string \<times> string \<Rightarrow> bool" where
  "readable_override dialect e \<longleftrightarrow>
     override_ok dialect e \<and> (dialect = PostgresConf \<longrightarrow> CHR 0x5C \<notin> set (snd e))"

lemma pg_body_quoted:
  "CHR 0x5C \<notin> set v \<Longrightarrow> pg_body (replace_byte quote [quote, quote] v @ [quote]) = Some v"
  unfolding replace_byte_def by (induction v) (auto split: list.split)

lemma override_name_plain:
  assumes "override_validate_name n = Ok ()"
  shows "n \<noteq> [] \<and> (\<forall>b \<in> set n. name_byte b)"
  using assms by (cases n) (auto simp: override_validate_name_def list_all_iff split: list.splits if_splits)

lemma override_ok_facts:
  assumes "override_ok d (n, v)"
  shows "n \<noteq> []" "\<forall>b \<in> set n. name_byte b" "is_ok (override_validate_name n)"
    "LF \<notin> set v" "\<not> any_control v" "trim v \<noteq> []" "override_reserved d n = None"
proof -
  have o: "override_validate_name n = Ok ()" "override_reserved d n = None"
      "\<not> all_whitespace v" "\<not> has_illegal '';#'' v"
    using assms by (auto simp: override_ok_def is_ok_iff override_validate_value_def split: if_splits)
  show "n \<noteq> []" "\<forall>b \<in> set n. name_byte b" "is_ok (override_validate_name n)"
    "LF \<notin> set v" "\<not> any_control v" "trim v \<noteq> []" "override_reserved d n = None"
    using o override_name_plain has_illegal_LF has_illegal_control trim_Nil_iff by auto
qed

lemma set_replace_byte: "set (replace_byte c t s) \<subseteq> set s \<union> set t"
  by (auto simp: replace_byte_def split: if_splits)

lemma line_bytes:
  assumes "override_ok d (n, v)" "c \<notin> set v" "\<not> name_byte c" "c \<notin> {CHR 0x20, CHR ''='', quote}"
  shows "c \<notin> set (override_line d (n, v))"
  using override_ok_facts(2) [OF assms(1)] assms(2-4) set_trim_subset [of v]
    set_replace_byte [of quote "[quote, quote]" "trim v"]
  by (auto simp: override_line_def Let_def split: override_dialect.split)

lemma quoted_trim: "trim (quote # s @ [quote]) = quote # s @ [quote]"
  using utf8_chars_snoc_ascii [of quote s] by (simp add: trim_def is_ascii_def)

interpretation overrides: line_file "readable_override d" "override_line d" "engine_read d" "\<lambda>(n, v). (n, trim v)"
  for d
proof
  fix e
  assume ok: "readable_override d e"
  obtain n v where e: "e = (n, v)" by (cases e)
  have o: "override_ok d (n, v)"
    using ok by (simp add: readable_override_def e)
  note f = override_ok_facts [OF o]
  show "LF \<notin> set (override_line d e)"
    unfolding e using line_bytes [OF o f(4)] name_byte_facts(2) by auto
  show "engine_read d (override_line d e) = Some (case e of (n, v) \<Rightarrow> (n, trim v))"
  proof (cases d)
    case MyCnf
    then show ?thesis
      using ini_read_line [OF f(1,2), of "trim v"] by (simp add: e override_line_def)
  next
    case PostgresConf
    let ?q = "replace_byte quote [quote, quote] (trim v)"
    have "CHR 0x5C \<notin> set (trim v)"
      using ok PostgresConf set_trim_subset [of v] by (auto simp: readable_override_def e)
    then have "pg_body (?q @ [quote]) = Some (trim v)"
      by (rule pg_body_quoted)
    moreover have "ini_read (n @ '' = '' @ quote # ?q @ [quote]) = Some (n, quote # ?q @ [quote])"
      using ini_read_line [OF f(1,2), of "quote # ?q @ [quote]"] quoted_trim by simp
    ultimately show ?thesis
      using PostgresConf by (simp add: e override_line_def)
  next
    case RedisConf
    have "CHR 0x20 \<notin> set n"
      using f(2) name_byte_facts(4) by auto
    then show ?thesis
      using RedisConf split_once_append [of "CHR 0x20" n "trim v"] by (simp add: e override_line_def)
  qed
qed

section \<open>The scan agrees with the renderer\<close>

lemma split_once_ws_name:
  assumes "n \<noteq> []" "\<forall>b \<in> set n. name_byte b"
  shows "split_once_ws (n @ CHR 0x20 # w) = Some (n, w)"
proof -
  have "\<forall>c \<in> set (n @ '' ''). is_ascii c"
    using assms(2) name_byte_facts(1) by (auto simp: is_ascii_def)
  from utf8_chars_ascii_append [OF this, of w]
  have c: "utf8_chars (n @ CHR 0x20 # w) = map (\<lambda>c. [c]) n @ [CHR 0x20] # utf8_chars w"
    by simp
  have "\<forall>b \<in> set n. \<not> is_whitespace [b]"
    using assms(2) name_byte_facts(5) by blast
  then have "takeWhile (\<lambda>w. \<not> is_whitespace w) (map (\<lambda>c. [c]) n @ [CHR 0x20] # utf8_chars w) = map (\<lambda>c. [c]) n"
      "dropWhile (\<lambda>w. \<not> is_whitespace w) (map (\<lambda>c. [c]) n @ [CHR 0x20] # utf8_chars w) = [CHR 0x20] # utf8_chars w"
    by (induction n) (simp_all del: is_whitespace.simps(1), simp_all)
  then show ?thesis
    unfolding split_once_ws_def c by simp
qed

lemma line_is_trimmed:
  assumes "override_ok d (n, v)"
  shows "trim (override_line d (n, v)) = override_line d (n, v)"
proof -
  note f = override_ok_facts [OF assms]
  have a: "\<forall>c \<in> set (n @ sep). is_ascii c" "n @ sep \<noteq> []" "\<not> is_whitespace [hd (n @ sep)]"
    if "\<forall>c \<in> set sep. is_ascii c" for sep
    using f(1,2) that name_byte_facts(1,5) by (auto simp: hd_append)
  show ?thesis
  proof (cases d)
    case PostgresConf
    let ?w = "quote # replace_byte quote [quote, quote] (trim v) @ [quote]"
    show ?thesis
      using trim_prefixed [OF a [of "'' = ''"], of ?w] quoted_trim PostgresConf
      by (simp add: override_line_def is_ascii_def)
  next
    case MyCnf
    then show ?thesis
      using trim_prefixed [OF a [of "'' = ''"], of "trim v"] f(6) by (simp add: override_line_def is_ascii_def)
  next
    case RedisConf
    then show ?thesis
      using trim_prefixed [OF a [of "'' ''"], of "trim v"] f(6) by (simp add: override_line_def is_ascii_def)
  qed
qed

lemma key_of_line:
  assumes "override_ok d (n, v)"
  shows "local_line_key d (override_line d (n, v)) = Some n"
proof -
  note f = override_ok_facts [OF assms]
  have eq: "split_once (CHR ''='') (n @ '' = '' @ x) = Some (n @ '' '', CHR 0x20 # x)" for x
    using split_once_append [of "CHR ''=''" "n @ '' ''" "CHR 0x20 # x"] f(2) name_byte_facts(3) by auto
  show ?thesis
    using f(3,6) eq name_bytes_trim [OF f(1,2)] split_once_ws_name [OF f(1,2), of "trim v"] quoted_trim
    by (cases d) (simp_all add: local_line_key_def override_line_def)
qed

lemma scan_override_line:
  assumes "override_ok d (n, v)"
  shows "scan_line d (i, override_line d (n, v)) = []"
proof -
  note f = override_ok_facts [OF assms]
  obtain b r where n: "n = b # r" "name_byte b"
    using f(1,2) by (cases n) auto
  then have "b \<notin> {CHR ''#'', CHR '';'', CHR ''['', CHR ''!''}"
    using name_byte_code [of b] by auto
  moreover have "\<exists>t. override_line d (n, v) = b # t"
    using n by (simp add: override_line_def Let_def)
  ultimately show ?thesis
    using line_is_trimmed [OF assms] key_of_line [OF assms] f(7)
    by (auto simp: scan_line_def starts_with_singleton)
qed

lemma scan_comment: "scan_line d (i, CHR ''#'' # s) = []"
  using trim_keeps_head [of "CHR ''#''" s] by (auto simp: scan_line_def starts_with_singleton is_ascii_def)

lemma scan_group: "scan_line MyCnf (i, CHR ''['' # s) = []"
  using trim_keeps_head [of "CHR ''[''" s] by (auto simp: scan_line_def starts_with_singleton is_ascii_def)

lemma scan_blank: "scan_line d (i, []) = []"
  by (simp add: scan_line_def trim_def)

lemma scan_clean_lines:
  assumes clean: "\<And>l i. l \<in> set ls \<Longrightarrow> LF \<notin> set l \<and> CR \<notin> set l \<and> scan_line d (i, l) = []"
  shows "scan_local d (concat (map (\<lambda>l. l @ [LF]) ls)) = []"
proof -
  have "str_lines (concat (map (\<lambda>l. l @ [LF]) ls)) = ls"
    using clean by (intro str_lines_terminated) blast
  then show ?thesis
    using clean by (auto simp: scan_local_def in_set_enumerate_eq)
qed

definition harmless_line :: "override_dialect \<Rightarrow> string \<Rightarrow> bool" where
  "harmless_line d l \<longleftrightarrow>
     LF \<notin> set l \<and> CR \<notin> set l \<and> (l = [] \<or> hd l = CHR ''#'' \<or> d = MyCnf \<and> hd l = CHR ''['')"

lemma harmless_scan: "harmless_line d l \<Longrightarrow> scan_line d (i, l) = []"
  by (cases l) (auto simp: harmless_line_def scan_comment scan_group scan_blank)

lemma harmless_clean: "harmless_line d l \<Longrightarrow> LF \<notin> set l \<and> CR \<notin> set l \<and> scan_line d (i, l) = []"
  using harmless_scan by (simp add: harmless_line_def)

lemma harmless_headers:
  assumes "l \<in> set (managed_header d) \<union> set (stub_lines d)"
  shows "harmless_line d l"
proof -
  have "list_all (\<lambda>d. list_all (harmless_line d) (managed_header d @ stub_lines d)) [MyCnf, PostgresConf, RedisConf]"
    by code_simp
  then have "list_all (harmless_line d) (managed_header d @ stub_lines d)"
    by (cases d) simp_all
  with assms show ?thesis
    by (auto simp: list_all_iff)
qed

lemma render_managed_lines:
  "render_managed d m = concat (map (\<lambda>l. l @ [LF]) (managed_header d @ map (override_line d) (filter (override_ok d) m)))"
  by (simp add: render_managed_def render_lines_def comp_def)

lemma lowercase_underscores: "to_ascii_lowercase (underscores s) = underscores (to_ascii_lowercase s)"
proof (induction s)
  case (Cons c s)
  have "lower_byte c = CHR ''-'' \<longleftrightarrow> c = CHR ''-''" "lower_byte (CHR ''_'') = CHR ''_''"
    by (simp_all add: lower_byte_eq_nonletter lower_byte_id is_ascii_uppercase_def)
  with Cons show ?case
    by (simp add: underscores_def replace_byte_def)
qed (simp add: underscores_def replace_byte_def)

lemma not_reserved:
  assumes "override_reserved d n = None" "(r, h) \<in> set (reserved_table d)"
  shows "\<not> eq_ignore_ascii_case r n" "d = MyCnf \<Longrightarrow> \<not> eq_ignore_ascii_case (underscores r) (underscores n)"
  using assms by (auto simp: override_reserved_def Let_def find_None_iff eq_ignore_ascii_case_def
      lowercase_underscores split: if_splits)

lemma override_line_no_break:
  assumes "override_ok d (n, v)"
  shows "LF \<notin> set (override_line d (n, v)) \<and> CR \<notin> set (override_line d (n, v))"
proof -
  have "CR \<notin> set v"
    using no_control_byte [OF override_ok_facts(5) [OF assms], of CR] by auto
  moreover have "\<not> name_byte LF" "\<not> name_byte CR"
    using name_byte_code by fastforce+
  ultimately show ?thesis
    using line_bytes [OF assms] override_ok_facts(4) [OF assms] by auto
qed

lemma managed_line_clean:
  assumes "l \<in> set (managed_header d @ map (override_line d) (filter (override_ok d) m))"
  shows "LF \<notin> set l \<and> CR \<notin> set l \<and> scan_line d (i, l) = []"
proof (cases "l \<in> set (managed_header d)")
  case True
  then show ?thesis
    using harmless_clean harmless_headers by blast
next
  case False
  then obtain n v where "override_ok d (n, v)" "l = override_line d (n, v)"
    using assms by auto
  then show ?thesis
    using override_line_no_break scan_override_line by blast
qed



text \<open>
  The restriction is needed: a PostgreSQL value that ends in a backslash validates and is written,
  and its closing quote is then read as part of the value.
\<close>

lemma postgres_backslash_unreadable:
  "override_ok PostgresConf (''search_path'', ''a'' @ [CHR 0x5C])
   \<and> engine_read PostgresConf (override_line PostgresConf (''search_path'', ''a'' @ [CHR 0x5C])) = None"
  by code_simp

end
