(* ===== verification/Config_Wire.thy ===== *)
theory Config_Wire
  imports Toml Config_Validate Service_Directives
begin

text \<open>
  The wire mirrors of the configuration file: the structs of \<open>parse.rs\<close> that deserialisation
  fills, with their defaults, and the structs of \<open>serialize.rs\<close> that are written. A wire struct
  with the fields of its section is that section's record.
\<close>

section \<open>Wire structs\<close>

record proxy_wire =
  pw_name :: string
  pw_target :: string
  pw_secure :: bool

record rule_wire =
  rw_prefix :: string
  rw_target :: string

record rules_wire =
  rsw_linked :: "(string, rule_wire list) btree_map"
  rsw_parked :: "(string, rule_wire list) btree_map"

record delta_wire =
  dw_added :: "string list"
  dw_suppressed :: "string list"
  dw_primary :: "string option"

record domains_wire =
  dsw_linked :: "(string, delta_wire) btree_map"
  dsw_parked :: "(string, delta_wire) btree_map"
  dsw_proxy :: "(string, delta_wire) btree_map"

record ext_wire =
  xw_name :: "string option"
  xw_path :: string
  xw_zend :: bool

record php_wire =
  phw_default :: string
  phw_settings :: string_map
  phw_extensions :: "(string, ext_wire list) btree_map"
  phw_version_settings :: "(string, string_map) btree_map"
  phw_directives :: "(string, string_map) btree_map"
  phw_pool :: "(string, string_map) btree_map"

record service_wire =
  sw_version :: "string option"
  sw_port :: "u16 option"
  sw_site :: "string option"
  sw_enabled :: "bool option"
  sw_overrides :: string_map

record linked_wire =
  lw_name :: string
  lw_document_root :: path
  lw_web_subpath :: path
  lw_php :: string
  lw_secure :: bool
  lw_kind :: site_kind
  lw_wp_auto_login :: bool
  lw_wp_auto_login_user :: "string option"
  lw_front_controller :: "bool option"

record override_wire =
  ow_path :: string
  ow_php :: "string option"
  ow_secure :: "bool option"
  ow_web_root :: "string option"
  ow_wp_auto_login :: "bool option"
  ow_wp_auto_login_user :: "string option"
  ow_front_controller :: "bool option"

record wire =
  w_version :: nat
  w_tld :: string
  w_dns_port :: u16
  w_update_channel :: string
  w_symlink_protection :: bool
  w_mcp_enabled :: bool
  w_lan_enabled :: bool
  w_lan_setup_port :: u16
  w_ports :: ports
  w_php :: php_wire
  w_parked :: parked_section
  w_linked :: "linked_wire list"
  w_overrides :: "override_wire list"
  w_services :: "(string, service_wire) btree_map"
  w_mail :: mail_section
  w_dumps :: dumps_section
  w_tunnel :: tunnel_section
  w_groups :: groups_section
  w_domains :: domains_wire
  w_proxies :: "proxy_wire list"
  w_proxy_rules :: rules_wire
  w_route_rules :: rules_wire

section \<open>Defaults\<close>

definition php_wire_default :: php_wire where
  "php_wire_default =
     \<lparr>phw_default = show_php_version (php_default php_section_default), phw_settings = [], phw_extensions = [],
      phw_version_settings = [], phw_directives = [], phw_pool = []\<rparr>"

definition rules_wire_default :: rules_wire where
  "rules_wire_default = \<lparr>rsw_linked = [], rsw_parked = []\<rparr>"

definition domains_wire_default :: domains_wire where
  "domains_wire_default = \<lparr>dsw_linked = [], dsw_parked = [], dsw_proxy = []\<rparr>"

section \<open>Reading\<close>

definition read_proxy :: "proxy_wire reader" where
  "read_proxy v = do {
     m \<leftarrow> struct_fields [''name'', ''target'', ''secure''] v;
     name \<leftarrow> required m ''name'' read_string;
     target \<leftarrow> required m ''target'' read_string;
     secure \<leftarrow> defaulted m ''secure'' read_bool False;
     Some \<lparr>pw_name = name, pw_target = target, pw_secure = secure\<rparr> }"

definition read_rule :: "rule_wire reader" where
  "read_rule v = do {
     m \<leftarrow> struct_fields [''prefix'', ''target''] v;
     pre \<leftarrow> required m ''prefix'' read_string;
     target \<leftarrow> required m ''target'' read_string;
     Some \<lparr>rw_prefix = pre, rw_target = target\<rparr> }"

definition read_rules :: "rules_wire reader" where
  "read_rules v = do {
     m \<leftarrow> struct_fields [''linked'', ''parked''] v;
     linked \<leftarrow> defaulted m ''linked'' (read_map (read_vec read_rule)) [];
     parked \<leftarrow> defaulted m ''parked'' (read_map (read_vec read_rule)) [];
     Some \<lparr>rsw_linked = linked, rsw_parked = parked\<rparr> }"

definition read_delta :: "delta_wire reader" where
  "read_delta v = do {
     m \<leftarrow> struct_fields [''added'', ''suppressed'', ''primary''] v;
     ad \<leftarrow> defaulted m ''added'' (read_vec read_string) [];
     sd \<leftarrow> defaulted m ''suppressed'' (read_vec read_string) [];
     pd \<leftarrow> optional m ''primary'' read_string;
     Some \<lparr>dw_added = ad, dw_suppressed = sd, dw_primary = pd\<rparr> }"

definition read_domains :: "domains_wire reader" where
  "read_domains v = do {
     m \<leftarrow> struct_fields [''linked'', ''parked'', ''proxy''] v;
     linked \<leftarrow> defaulted m ''linked'' (read_map read_delta) [];
     parked \<leftarrow> defaulted m ''parked'' (read_map read_delta) [];
     prox \<leftarrow> defaulted m ''proxy'' (read_map read_delta) [];
     Some \<lparr>dsw_linked = linked, dsw_parked = parked, dsw_proxy = prox\<rparr> }"

definition read_groups :: "groups_section reader" where
  "read_groups v = do {
     m \<leftarrow> struct_fields [''order'', ''members''] v;
     order \<leftarrow> defaulted m ''order'' (read_vec read_string) [];
     members \<leftarrow> defaulted m ''members'' (read_map read_string) [];
     Some \<lparr>group_order = order, group_members = members\<rparr> }"

definition read_tunnel :: "tunnel_section reader" where
  "read_tunnel v = do {
     m \<leftarrow> struct_fields [''named'', ''sites''] v;
     named \<leftarrow> defaulted m ''named'' (read_map read_string) [];
     sites \<leftarrow> defaulted m ''sites'' (read_map read_string) [];
     Some \<lparr>tunnel_named = named, tunnel_sites = sites\<rparr> }"

definition read_dumps :: "dumps_section reader" where
  "read_dumps v = do {
     m \<leftarrow> struct_fields [''enabled'', ''port'', ''persist'', ''features''] v;
     enabled \<leftarrow> defaulted m ''enabled'' read_bool False;
     port \<leftarrow> defaulted m ''port'' read_u16 DEFAULT_DUMP_PORT;
     persist \<leftarrow> defaulted m ''persist'' read_bool False;
     features \<leftarrow> defaulted m ''features'' (read_map read_bool) [];
     Some \<lparr>dumps_enabled = enabled, dumps_port = port, dumps_persist = persist, dumps_features = features\<rparr> }"

definition read_ports :: "ports reader" where
  "read_ports v = do {
     m \<leftarrow> struct_fields [''http'', ''https'', ''fallback_http'', ''fallback_https''] v;
     http \<leftarrow> required m ''http'' read_u16;
     https \<leftarrow> required m ''https'' read_u16;
     fhttp \<leftarrow> defaulted m ''fallback_http'' read_u16 (fallback_http ports_well_known);
     fhttps \<leftarrow> defaulted m ''fallback_https'' read_u16 (fallback_https ports_well_known);
     Some \<lparr>http_port = http, https_port = https, fallback_http = fhttp, fallback_https = fhttps\<rparr> }"

definition read_ext :: "ext_wire reader" where
  "read_ext v = do {
     m \<leftarrow> struct_fields [''name'', ''path'', ''zend''] v;
     name \<leftarrow> optional m ''name'' read_string;
     p \<leftarrow> required m ''path'' read_string;
     zend \<leftarrow> defaulted m ''zend'' read_bool False;
     Some \<lparr>xw_name = name, xw_path = p, xw_zend = zend\<rparr> }"

definition read_php :: "php_wire reader" where
  "read_php v = do {
     m \<leftarrow> struct_fields [''default'', ''settings'', ''extensions'', ''version_settings'', ''directives'', ''pool''] v;
     dflt \<leftarrow> required m ''default'' read_string;
     settings \<leftarrow> defaulted m ''settings'' (read_map read_string) [];
     extensions \<leftarrow> defaulted m ''extensions'' (read_map (read_vec read_ext)) [];
     version_settings \<leftarrow> defaulted m ''version_settings'' (read_map (read_map read_string)) [];
     directives \<leftarrow> defaulted m ''directives'' (read_map (read_map read_string)) [];
     pool \<leftarrow> defaulted m ''pool'' (read_map (read_map read_string)) [];
     Some \<lparr>phw_default = dflt, phw_settings = settings, phw_extensions = extensions,
           phw_version_settings = version_settings, phw_directives = directives, phw_pool = pool\<rparr> }"

definition read_parked :: "parked_section reader" where
  "read_parked v = do {
     m \<leftarrow> struct_fields [''paths''] v;
     ps \<leftarrow> defaulted m ''paths'' read_set [];
     Some \<lparr>parked_paths = ps\<rparr> }"

definition read_service :: "service_wire reader" where
  "read_service v = do {
     m \<leftarrow> struct_fields [''version'', ''port'', ''site'', ''enabled'', ''overrides''] v;
     version \<leftarrow> optional m ''version'' read_string;
     port \<leftarrow> optional m ''port'' read_u16;
     st \<leftarrow> optional m ''site'' read_string;
     enabled \<leftarrow> optional m ''enabled'' read_bool;
     ovs \<leftarrow> defaulted m ''overrides'' (read_map read_string) [];
     Some \<lparr>sw_version = version, sw_port = port, sw_site = st, sw_enabled = enabled, sw_overrides = ovs\<rparr> }"

definition read_mail :: "mail_section reader" where
  "read_mail v = do {
     m \<leftarrow> struct_fields [''enabled'', ''port''] v;
     enabled \<leftarrow> defaulted m ''enabled'' read_bool (mail_enabled mail_default);
     port \<leftarrow> defaulted m ''port'' read_u16 (mail_port mail_default);
     Some \<lparr>mail_enabled = enabled, mail_port = port\<rparr> }"

fun read_kind :: "site_kind reader" where
  "read_kind (TString s) = (if s = ''parked'' then Some Parked else if s = ''linked'' then Some Linked else None)"
| "read_kind _ = None"

definition read_linked :: "linked_wire reader" where
  "read_linked v = do {
     m \<leftarrow> struct_fields [''name'', ''document_root'', ''web_subpath'', ''php'', ''secure'', ''kind'', ''wp_auto_login'',
       ''wp_auto_login_user'', ''front_controller''] v;
     name \<leftarrow> required m ''name'' read_string;
     root \<leftarrow> required m ''document_root'' read_string;
     subpath \<leftarrow> defaulted m ''web_subpath'' read_string [];
     php \<leftarrow> required m ''php'' read_string;
     secure \<leftarrow> required m ''secure'' read_bool;
     k \<leftarrow> required m ''kind'' read_kind;
     auto \<leftarrow> defaulted m ''wp_auto_login'' read_bool False;
     user \<leftarrow> optional m ''wp_auto_login_user'' read_string;
     fc \<leftarrow> optional m ''front_controller'' read_bool;
     Some \<lparr>lw_name = name, lw_document_root = root, lw_web_subpath = subpath, lw_php = php, lw_secure = secure,
           lw_kind = k, lw_wp_auto_login = auto, lw_wp_auto_login_user = user, lw_front_controller = fc\<rparr> }"

definition read_override :: "override_wire reader" where
  "read_override v = do {
     m \<leftarrow> struct_fields [''path'', ''php'', ''secure'', ''web_root'', ''wp_auto_login'', ''wp_auto_login_user'',
       ''front_controller''] v;
     p \<leftarrow> required m ''path'' read_string;
     php \<leftarrow> optional m ''php'' read_string;
     secure \<leftarrow> optional m ''secure'' read_bool;
     root \<leftarrow> optional m ''web_root'' read_string;
     auto \<leftarrow> optional m ''wp_auto_login'' read_bool;
     user \<leftarrow> optional m ''wp_auto_login_user'' read_string;
     fc \<leftarrow> optional m ''front_controller'' read_bool;
     Some \<lparr>ow_path = p, ow_php = php, ow_secure = secure, ow_web_root = root, ow_wp_auto_login = auto,
           ow_wp_auto_login_user = user, ow_front_controller = fc\<rparr> }"

definition read_wire :: "wire reader" where
  "read_wire v = do {
     m \<leftarrow> struct_fields [''version'', ''tld'', ''dns_port'', ''update_channel'', ''symlink_protection'', ''mcp_enabled'',
       ''lan_enabled'', ''lan_setup_port'', ''ports'', ''php'', ''parked'', ''linked'', ''overrides'', ''services'',
       ''mail'', ''dumps'', ''tunnel'', ''groups'', ''domains'', ''proxies'', ''proxy_rules'', ''route_rules''] v;
     version \<leftarrow> required m ''version'' read_u32;
     tld \<leftarrow> defaulted m ''tld'' read_string tld_default;
     dns \<leftarrow> defaulted m ''dns_port'' read_u16 DEFAULT_DNS_PORT;
     channel \<leftarrow> defaulted m ''update_channel'' read_string DEFAULT_UPDATE_CHANNEL;
     symlink \<leftarrow> defaulted m ''symlink_protection'' read_bool DEFAULT_SYMLINK_PROTECTION;
     mcp \<leftarrow> defaulted m ''mcp_enabled'' read_bool DEFAULT_MCP_ENABLED;
     lan \<leftarrow> defaulted m ''lan_enabled'' read_bool DEFAULT_LAN_ENABLED;
     setup \<leftarrow> defaulted m ''lan_setup_port'' read_u16 DEFAULT_LAN_SETUP_PORT;
     prts \<leftarrow> defaulted m ''ports'' read_ports ports_well_known;
     php \<leftarrow> defaulted m ''php'' read_php php_wire_default;
     parked \<leftarrow> defaulted m ''parked'' read_parked \<lparr>parked_paths = []\<rparr>;
     linked \<leftarrow> defaulted m ''linked'' (read_vec read_linked) [];
     ovs \<leftarrow> defaulted m ''overrides'' (read_vec read_override) [];
     services \<leftarrow> defaulted m ''services'' (read_map read_service) [];
     mail \<leftarrow> defaulted m ''mail'' read_mail mail_default;
     dumps \<leftarrow> defaulted m ''dumps'' read_dumps dumps_default;
     tunnel \<leftarrow> defaulted m ''tunnel'' read_tunnel \<lparr>tunnel_named = [], tunnel_sites = []\<rparr>;
     groups \<leftarrow> defaulted m ''groups'' read_groups \<lparr>group_order = [], group_members = []\<rparr>;
     domains \<leftarrow> defaulted m ''domains'' read_domains domains_wire_default;
     proxies \<leftarrow> defaulted m ''proxies'' (read_vec read_proxy) [];
     proxy_rules \<leftarrow> defaulted m ''proxy_rules'' read_rules rules_wire_default;
     route_rules \<leftarrow> defaulted m ''route_rules'' read_rules rules_wire_default;
     Some \<lparr>w_version = version, w_tld = tld, w_dns_port = dns, w_update_channel = channel,
           w_symlink_protection = symlink, w_mcp_enabled = mcp, w_lan_enabled = lan, w_lan_setup_port = setup,
           w_ports = prts, w_php = php, w_parked = parked, w_linked = linked, w_overrides = ovs,
           w_services = services, w_mail = mail, w_dumps = dumps, w_tunnel = tunnel, w_groups = groups,
           w_domains = domains, w_proxies = proxies, w_proxy_rules = proxy_rules, w_route_rules = route_rules\<rparr> }"

section \<open>Writing\<close>

definition write_proxy :: "proxy_site \<Rightarrow> toml" where
  "write_proxy p =
     write_struct [(''name'', Some (TString (ps_name p))), (''target'', Some (TString (show_upstream (ps_target p)))),
       (''secure'', Some (TBoolean (ps_secure p)))]"

definition write_proxy_rule :: "proxy_rule \<Rightarrow> toml" where
  "write_proxy_rule r =
     write_struct [(''prefix'', Some (TString (pr_prefix r))), (''target'', Some (TString (show_upstream (pr_target r))))]"

definition write_route_rule :: "route_rule \<Rightarrow> toml" where
  "write_route_rule r =
     write_struct [(''prefix'', Some (TString (rr_prefix r))), (''target'', Some (TString (rr_target r)))]"

text \<open>The rule maps, without the sites whose list is empty, and the delta maps, without the empty deltas.\<close>

definition rule_map :: "(string, 'r list) btree_map \<Rightarrow> (string, 'r list) btree_map" where
  "rule_map m = filter (\<lambda>(_, rules). rules \<noteq> []) m"

definition write_rules ::
    "('r \<Rightarrow> toml) \<Rightarrow> (string, 'r list) btree_map \<Rightarrow> (string, 'r list) btree_map \<Rightarrow> toml option" where
  "write_rules f linked parked =
     (let l = rule_map linked; p = rule_map parked; w = write_map (\<lambda>rs. TArray (map f rs))
      in if l = [] \<and> p = [] then None
         else Some (write_struct [(''linked'', unless_empty w l), (''parked'', unless_empty w p)]))"

definition write_strings :: "string list \<Rightarrow> toml" where
  "write_strings xs = TArray (map TString xs)"

definition write_delta :: "domain_delta \<Rightarrow> toml" where
  "write_delta d =
     write_struct [(''added'', unless_empty write_strings (map sub (added d))),
       (''suppressed'', unless_empty write_strings (map sub (suppressed d))),
       (''primary'', map_option (\<lambda>x. TString (sub x)) (delta_primary d))]"

definition domain_delta_map :: "(string, domain_delta) btree_map \<Rightarrow> (string, domain_delta) btree_map" where
  "domain_delta_map m = filter (\<lambda>(_, d). \<not> delta_is_empty d) m"

definition write_domains :: "domains_section \<Rightarrow> toml option" where
  "write_domains s =
     (let w = unless_empty (write_map write_delta)
      in if list_all delta_is_empty (bt_values (dom_linked s) @ bt_values (dom_parked s) @ bt_values (dom_proxy s)) then None
         else Some (write_struct [(''linked'', w (domain_delta_map (dom_linked s))),
           (''parked'', w (domain_delta_map (dom_parked s))), (''proxy'', w (domain_delta_map (dom_proxy s)))]))"

definition write_string_map :: "string_map \<Rightarrow> toml" where
  "write_string_map m = write_map TString m"

definition write_tunnel :: "tunnel_section \<Rightarrow> toml" where
  "write_tunnel s =
     write_struct [(''named'', unless_empty write_string_map (tunnel_named s)),
       (''sites'', unless_empty write_string_map (tunnel_sites s))]"

definition write_groups :: "groups_section \<Rightarrow> toml" where
  "write_groups s =
     write_struct [(''order'', Some (write_strings (group_order s))),
       (''members'', unless_empty write_string_map (group_members s))]"

definition write_dumps :: "dumps_section \<Rightarrow> toml" where
  "write_dumps s =
     write_struct [(''enabled'', Some (TBoolean (dumps_enabled s))), (''port'', Some (write_u16 (dumps_port s))),
       (''persist'', Some (TBoolean (dumps_persist s))),
       (''features'', unless_empty (write_map TBoolean) (dumps_features s))]"

definition write_ports :: "ports \<Rightarrow> toml" where
  "write_ports p =
     write_struct [(''http'', Some (write_u16 (http_port p))), (''https'', Some (write_u16 (https_port p))),
       (''fallback_http'', Some (write_u16 (fallback_http p))), (''fallback_https'', Some (write_u16 (fallback_https p)))]"

definition write_ext :: "ext_entry \<Rightarrow> toml" where
  "write_ext e =
     write_struct [(''name'', Some (TString (ext_name e))), (''path'', Some (TString (ext_path e))),
       (''zend'', Some (TBoolean (ext_zend e)))]"

text \<open>A map by version becomes a map by the version's name, in the order of the names.\<close>

definition by_name :: "(php_version, 'a) btree_map \<Rightarrow> (string, 'a) btree_map" where
  "by_name m = bt_collect (map (\<lambda>(v, x). (show_php_version v, x)) m)"

definition write_php :: "php_section \<Rightarrow> toml" where
  "write_php s =
     write_struct [(''default'', Some (TString (show_php_version (php_default s)))),
       (''settings'', unless_empty write_string_map (php_settings s)),
       (''version_settings'', unless_empty (write_map write_string_map) (by_name (php_version_settings s))),
       (''directives'', unless_empty (write_map write_string_map) (by_name (php_directives s))),
       (''pool'', unless_empty (write_map write_string_map) (by_name (php_pool s))),
       (''extensions'', unless_empty (write_map (\<lambda>es. TArray (map write_ext es))) (by_name (php_extensions s)))]"

definition write_parked :: "parked_section \<Rightarrow> toml" where
  "write_parked s = write_struct [(''paths'', Some (TArray (map (\<lambda>e. TString (fst e)) (parked_paths s))))]"

definition write_service :: "service_instance \<Rightarrow> toml" where
  "write_service i =
     write_struct [(''version'', map_option TString (inst_version i)), (''port'', map_option write_u16 (inst_port i)),
       (''site'', map_option TString (inst_site i)), (''enabled'', Some (TBoolean (inst_enabled i))),
       (''overrides'', unless_empty write_string_map (inst_overrides i))]"

definition write_mail :: "mail_section \<Rightarrow> toml" where
  "write_mail s = write_struct [(''enabled'', Some (TBoolean (mail_enabled s))), (''port'', Some (write_u16 (mail_port s)))]"

definition write_kind :: "site_kind \<Rightarrow> toml" where
  "write_kind k = TString (case k of Parked \<Rightarrow> ''parked'' | Linked \<Rightarrow> ''linked'')"

definition write_site :: "site \<Rightarrow> toml" where
  "write_site s =
     (let w = site_serialize s
      in write_struct [(''name'', Some (TString (wire_name w))), (''document_root'', Some (TString (wire_document_root w))),
           (''web_subpath'', map_option TString (wire_web_subpath w)),
           (''php'', Some (TString (show_php_version (wire_php w)))), (''secure'', Some (TBoolean (wire_secure w))),
           (''kind'', Some (write_kind (wire_kind w))), (''wp_auto_login'', map_option TBoolean (wire_wp_auto_login w)),
           (''wp_auto_login_user'', map_option TString (wire_wp_auto_login_user w)),
           (''front_controller'', map_option TBoolean (wire_front_controller w))])"

definition write_override :: "string \<times> site_override \<Rightarrow> toml" where
  "write_override e =
     (case e of (p, ov) \<Rightarrow>
        write_struct [(''path'', Some (TString p)),
          (''php'', map_option (\<lambda>v. TString (show_php_version v)) (ov_php ov)),
          (''secure'', map_option TBoolean (ov_secure ov)), (''web_root'', map_option TString (ov_web_root ov)),
          (''wp_auto_login'', map_option TBoolean (ov_wp_auto_login ov)),
          (''wp_auto_login_user'', map_option TString (ov_wp_auto_login_user ov)),
          (''front_controller'', map_option TBoolean (ov_front_controller ov))])"

text \<open>\<open>to_toml\<close> up to the text: the document that \<open>toml::to_string_pretty\<close> prints.\<close>

definition to_toml_value :: "config \<Rightarrow> toml" where
  "to_toml_value c =
     write_struct
       [(''version'', Some (TInteger (int CURRENT_VERSION))),
        (''tld'', Some (TString (cfg_tld c))),
        (''dns_port'', Some (write_u16 (cfg_dns_port c))),
        (''update_channel'', Some (TString (cfg_update_channel c))),
        (''symlink_protection'', Some (TBoolean (cfg_symlink_protection c))),
        (''mcp_enabled'', Some (TBoolean (cfg_mcp_enabled c))),
        (''lan_enabled'', Some (TBoolean (cfg_lan_enabled c))),
        (''lan_setup_port'', Some (write_u16 (cfg_lan_setup_port c))),
        (''ports'', Some (write_ports (cfg_ports c))),
        (''php'', Some (write_php (cfg_php c))),
        (''parked'', Some (write_parked (cfg_parked c))),
        (''linked'', Some (TArray (map write_site (cfg_linked c)))),
        (''overrides'', unless_empty (\<lambda>es. TArray (map write_override es)) (cfg_overrides c)),
        (''services'', unless_empty (write_map write_service) (instances (cfg_services c))),
        (''mail'', if cfg_mail c = mail_default then None else Some (write_mail (cfg_mail c))),
        (''dumps'', if cfg_dumps c = dumps_default then None else Some (write_dumps (cfg_dumps c))),
        (''tunnel'', if cfg_tunnel c = \<lparr>tunnel_named = [], tunnel_sites = []\<rparr> then None else Some (write_tunnel (cfg_tunnel c))),
        (''groups'', if groups_is_empty (cfg_groups c) then None else Some (write_groups (cfg_groups c))),
        (''domains'', write_domains (cfg_domains c)),
        (''proxies'', unless_empty (\<lambda>ps. TArray (map write_proxy ps)) (cfg_proxies c)),
        (''proxy_rules'', write_rules write_proxy_rule (prs_linked (cfg_proxy_rules c)) (prs_parked (cfg_proxy_rules c))),
        (''route_rules'', write_rules write_route_rule (rrs_linked (cfg_route_rules c)) (rrs_parked (cfg_route_rules c)))]"

section \<open>What is written is read back\<close>

lemma read_ports_write [read_back]: "read_ports (write_ports p) = Some p"
  by (simp add: read_ports_def write_ports_def read_back)

lemma read_mail_write [read_back]: "read_mail (write_mail s) = Some s"
  by (simp add: read_mail_def write_mail_def read_back)

lemma read_kind_write [read_back]: "read_kind (write_kind k) = Some k"
  by (cases k) (simp_all add: write_kind_def)

lemma read_strings_write [read_back]: "read_vec read_string (write_strings xs) = Some xs"
  using read_vec_write [of xs read_string TString id] by (simp add: write_strings_def)

lemma read_string_map_write [read_back]: "bt_inv m \<Longrightarrow> read_map read_string (write_string_map m) = Some m"
  using read_map_write [of m read_string TString id] by (simp add: write_string_map_def)

lemma read_tunnel_write [read_back]:
  "bt_inv (tunnel_named s) \<Longrightarrow> bt_inv (tunnel_sites s) \<Longrightarrow> read_tunnel (write_tunnel s) = Some s"
  by (simp add: read_tunnel_def write_tunnel_def read_back)

lemma read_groups_write [read_back]: "bt_inv (group_members s) \<Longrightarrow> read_groups (write_groups s) = Some s"
  by (simp add: read_groups_def write_groups_def read_back)

lemma read_dumps_write [read_back]:
  assumes "bt_inv (dumps_features s)"
  shows "read_dumps (write_dumps s) = Some s"
proof -
  have "read_map read_bool (write_map TBoolean (dumps_features s)) = Some (dumps_features s)"
    using read_map_write [OF assms, of read_bool TBoolean id] by simp
  then show ?thesis by (simp add: read_dumps_def write_dumps_def read_back)
qed

lemma read_parked_write [read_back]: "bt_inv (parked_paths s) \<Longrightarrow> read_parked (write_parked s) = Some s"
  by (simp add: read_parked_def write_parked_def read_back)

definition proxy_wire_of :: "proxy_site \<Rightarrow> proxy_wire" where
  "proxy_wire_of p = \<lparr>pw_name = ps_name p, pw_target = show_upstream (ps_target p), pw_secure = ps_secure p\<rparr>"

lemma read_proxy_write [read_back]: "read_proxy (write_proxy p) = Some (proxy_wire_of p)"
  by (simp add: read_proxy_def write_proxy_def proxy_wire_of_def read_back)

definition proxy_rule_wire :: "proxy_rule \<Rightarrow> rule_wire" where
  "proxy_rule_wire r = \<lparr>rw_prefix = pr_prefix r, rw_target = show_upstream (pr_target r)\<rparr>"

definition route_rule_wire :: "route_rule \<Rightarrow> rule_wire" where
  "route_rule_wire r = \<lparr>rw_prefix = rr_prefix r, rw_target = rr_target r\<rparr>"

lemma read_rule_write [read_back]:
  "read_rule (write_proxy_rule p) = Some (proxy_rule_wire p)" "read_rule (write_route_rule r) = Some (route_rule_wire r)"
  by (simp_all add: read_rule_def write_proxy_rule_def write_route_rule_def proxy_rule_wire_def route_rule_wire_def read_back)

definition map_values :: "('a \<Rightarrow> 'b) \<Rightarrow> ('k, 'a) btree_map \<Rightarrow> ('k, 'b) btree_map" where
  "map_values f m = map (\<lambda>(k, v). (k, f v)) m"

lemma map_values_Nil [simp]: "map_values f [] = []"
  by (simp add: map_values_def)

lemma bt_inv_filter: "bt_inv m \<Longrightarrow> bt_inv (filter P m)"
  unfolding bt_inv_def by (induction m) auto

lemma read_map_values: "bt_inv m \<Longrightarrow> (\<And>v. f (w v) = Some (g v)) \<Longrightarrow> read_map f (write_map w m) = Some (map_values g m)"
  using read_map_write [of m f w g] by (simp add: map_values_def)

lemma read_rules_write [read_back]:
  assumes inv: "bt_inv l" "bt_inv p" and f: "\<And>r. read_rule (f r) = Some (g r)"
  shows "(case write_rules f l p of Some v \<Rightarrow> read_rules v | None \<Rightarrow> Some rules_wire_default)
    = Some \<lparr>rsw_linked = map_values (map g) (rule_map l), rsw_parked = map_values (map g) (rule_map p)\<rparr>"
proof -
  have "read_vec read_rule (TArray (map f rs)) = Some (map g rs)" for rs
    using f by (intro read_vec_write) simp
  then have "read_map (read_vec read_rule) (write_map (\<lambda>rs. TArray (map f rs)) (rule_map m)) = Some (map_values (map g) (rule_map m))"
    if "bt_inv m" for m
    using that by (intro read_map_values) (simp_all add: rule_map_def bt_inv_filter)
  note r = this [OF inv(1)] this [OF inv(2)]
  show ?thesis
  proof (cases "rule_map l = [] \<and> rule_map p = []")
    case True
    then show ?thesis by (simp add: write_rules_def rules_wire_default_def map_values_def)
  next
    case False
    have "read_rules (write_struct [(''linked'', unless_empty (write_map (\<lambda>rs. TArray (map f rs))) (rule_map l)),
        (''parked'', unless_empty (write_map (\<lambda>rs. TArray (map f rs))) (rule_map p))])
      = Some \<lparr>rsw_linked = map_values (map g) (rule_map l), rsw_parked = map_values (map g) (rule_map p)\<rparr>"
      using r by (simp add: read_rules_def read_back)
    then show ?thesis using False by (auto simp: write_rules_def Let_def)
  qed
qed

definition delta_wire_of :: "domain_delta \<Rightarrow> delta_wire" where
  "delta_wire_of d =
     \<lparr>dw_added = map sub (added d), dw_suppressed = map sub (suppressed d), dw_primary = map_option sub (delta_primary d)\<rparr>"

lemma read_delta_write [read_back]: "read_delta (write_delta d) = Some (delta_wire_of d)"
  by (simp add: read_delta_def write_delta_def delta_wire_of_def read_back)

definition domains_wire_of :: "domains_section \<Rightarrow> domains_wire" where
  "domains_wire_of s =
     (let w = (\<lambda>m. map_values delta_wire_of (domain_delta_map m))
      in \<lparr>dsw_linked = w (dom_linked s), dsw_parked = w (dom_parked s), dsw_proxy = w (dom_proxy s)\<rparr>)"

lemma read_domains_write [read_back]:
  assumes inv: "bt_inv (dom_linked s)" "bt_inv (dom_parked s)" "bt_inv (dom_proxy s)"
  shows "(case write_domains s of Some v \<Rightarrow> read_domains v | None \<Rightarrow> Some domains_wire_default) = Some (domains_wire_of s)"
proof -
  have "read_map read_delta (write_map write_delta (domain_delta_map m)) = Some (map_values delta_wire_of (domain_delta_map m))"
    if "bt_inv m" for m
    using that by (intro read_map_values) (simp_all add: domain_delta_map_def bt_inv_filter read_back)
  note r = this [OF inv(1)] this [OF inv(2)] this [OF inv(3)]
  show ?thesis
  proof (cases "list_all delta_is_empty (bt_values (dom_linked s) @ bt_values (dom_parked s) @ bt_values (dom_proxy s))")
    case True
    then have "domain_delta_map (dom_linked s) = [] \<and> domain_delta_map (dom_parked s) = [] \<and> domain_delta_map (dom_proxy s) = []"
      by (force simp: domain_delta_map_def bt_values_def list_all_iff filter_empty_conv)
    with True show ?thesis by (simp add: write_domains_def domains_wire_of_def domains_wire_default_def map_values_def)
  next
    case False
    then show ?thesis
      using r by (auto simp: write_domains_def read_domains_def domains_wire_of_def Let_def read_back)
  qed
qed

definition ext_wire_of :: "ext_entry \<Rightarrow> ext_wire" where
  "ext_wire_of e = \<lparr>xw_name = Some (ext_name e), xw_path = ext_path e, xw_zend = ext_zend e\<rparr>"

lemma read_ext_write [read_back]: "read_ext (write_ext e) = Some (ext_wire_of e)"
  by (simp add: read_ext_def write_ext_def ext_wire_of_def read_back)

definition php_wire_of :: "php_section \<Rightarrow> php_wire" where
  "php_wire_of s =
     \<lparr>phw_default = show_php_version (php_default s), phw_settings = php_settings s,
      phw_extensions = map_values (map ext_wire_of) (by_name (php_extensions s)),
      phw_version_settings = by_name (php_version_settings s), phw_directives = by_name (php_directives s),
      phw_pool = by_name (php_pool s)\<rparr>"

lemma by_name_inv [simp]: "bt_inv (by_name m)"
  by (simp add: by_name_def)

text \<open>The values of a map by version are themselves maps.\<close>

definition inner_inv :: "(php_version, string_map) btree_map \<Rightarrow> bool" where
  "inner_inv m \<longleftrightarrow> (\<forall>(v, e) \<in> set m. bt_inv e)"

lemma by_name_values: "(k, e) \<in> set (by_name m) \<Longrightarrow> \<exists>v. (v, e) \<in> set m \<and> k = show_php_version v"
proof -
  assume "(k, e) \<in> set (by_name m)"
  then have "bt_get (by_name m) k = Some e" by (simp add: bt_get_in_set)
  then have "map_of (rev (map (\<lambda>(v, x). (show_php_version v, x)) m)) k = Some e"
    by (simp add: by_name_def bt_get_collect)
  then show ?thesis by (auto dest!: map_of_SomeD)
qed

lemma read_inner_write: "inner_inv m \<Longrightarrow> read_map (read_map read_string) (write_map write_string_map (by_name m)) = Some (by_name m)"
  using read_map_write [of "by_name m" "read_map read_string" write_string_map id] by_name_values [of _ _ m]
  by (fastforce simp: inner_inv_def read_back)

lemma read_php_write [read_back]:
  assumes "bt_inv (php_settings s)" "inner_inv (php_version_settings s)" "inner_inv (php_directives s)" "inner_inv (php_pool s)"
  shows "read_php (write_php s) = Some (php_wire_of s)"
proof -
  have "read_vec read_ext (TArray (map write_ext es)) = Some (map ext_wire_of es)" for es
    by (intro read_vec_write) (simp add: read_back)
  then have ext: "read_map (read_vec read_ext) (write_map (\<lambda>es. TArray (map write_ext es)) (by_name (php_extensions s)))
      = Some (map_values (map ext_wire_of) (by_name (php_extensions s)))"
    by (intro read_map_values) simp_all
  show ?thesis
    using assms ext read_inner_write by (simp add: read_php_def write_php_def php_wire_of_def read_back)
qed

definition service_wire_of :: "service_instance \<Rightarrow> service_wire" where
  "service_wire_of i =
     \<lparr>sw_version = inst_version i, sw_port = inst_port i, sw_site = inst_site i, sw_enabled = Some (inst_enabled i),
      sw_overrides = inst_overrides i\<rparr>"

lemma read_service_write [read_back]: "bt_inv (inst_overrides i) \<Longrightarrow> read_service (write_service i) = Some (service_wire_of i)"
  by (simp add: read_service_def write_service_def service_wire_of_def read_back)

definition linked_wire_of :: "site \<Rightarrow> linked_wire" where
  "linked_wire_of s =
     \<lparr>lw_name = site_name s, lw_document_root = document_root s, lw_web_subpath = web_subpath s,
      lw_php = show_php_version (site_php s), lw_secure = site_secure s, lw_kind = kind s,
      lw_wp_auto_login = wp_auto_login s, lw_wp_auto_login_user = wp_auto_login_user s,
      lw_front_controller = front_controller s\<rparr>"

lemma read_linked_write [read_back]: "read_linked (write_site s) = Some (linked_wire_of s)"
  by (simp add: read_linked_def write_site_def site_serialize_def linked_wire_of_def Let_def read_back)

definition override_wire_of :: "string \<times> site_override \<Rightarrow> override_wire" where
  "override_wire_of e =
     (case e of (p, ov) \<Rightarrow>
        \<lparr>ow_path = p, ow_php = map_option show_php_version (ov_php ov), ow_secure = ov_secure ov, ow_web_root = ov_web_root ov,
         ow_wp_auto_login = ov_wp_auto_login ov, ow_wp_auto_login_user = ov_wp_auto_login_user ov,
         ow_front_controller = ov_front_controller ov\<rparr>)"

lemma read_override_write [read_back]: "read_override (write_override e) = Some (override_wire_of e)"
  by (simp add: read_override_def write_override_def override_wire_of_def case_prod_unfold read_back)

text \<open>What the maps of a configuration promise: keys in order, also in the maps they hold.\<close>

definition maps_sorted :: "config \<Rightarrow> bool" where
  "maps_sorted c \<longleftrightarrow>
     bt_inv (php_settings (cfg_php c)) \<and> bt_inv (php_extensions (cfg_php c))
     \<and> bt_inv (php_version_settings (cfg_php c)) \<and> inner_inv (php_version_settings (cfg_php c))
     \<and> bt_inv (php_directives (cfg_php c)) \<and> inner_inv (php_directives (cfg_php c))
     \<and> bt_inv (php_pool (cfg_php c)) \<and> inner_inv (php_pool (cfg_php c))
     \<and> bt_inv (parked_paths (cfg_parked c)) \<and> bt_inv (cfg_overrides c)
     \<and> bt_inv (instances (cfg_services c)) \<and> (\<forall>(n, i) \<in> set (instances (cfg_services c)). bt_inv (inst_overrides i))
     \<and> bt_inv (dumps_features (cfg_dumps c))
     \<and> bt_inv (tunnel_named (cfg_tunnel c)) \<and> bt_inv (tunnel_sites (cfg_tunnel c))
     \<and> bt_inv (group_members (cfg_groups c))
     \<and> bt_inv (dom_linked (cfg_domains c)) \<and> bt_inv (dom_parked (cfg_domains c)) \<and> bt_inv (dom_proxy (cfg_domains c))
     \<and> bt_inv (prs_linked (cfg_proxy_rules c)) \<and> bt_inv (prs_parked (cfg_proxy_rules c))
     \<and> bt_inv (rrs_linked (cfg_route_rules c)) \<and> bt_inv (rrs_parked (cfg_route_rules c))"

definition wire_of :: "config \<Rightarrow> wire" where
  "wire_of c =
     \<lparr>w_version = CURRENT_VERSION, w_tld = cfg_tld c, w_dns_port = cfg_dns_port c, w_update_channel = cfg_update_channel c,
      w_symlink_protection = cfg_symlink_protection c, w_mcp_enabled = cfg_mcp_enabled c, w_lan_enabled = cfg_lan_enabled c,
      w_lan_setup_port = cfg_lan_setup_port c, w_ports = cfg_ports c, w_php = php_wire_of (cfg_php c),
      w_parked = cfg_parked c, w_linked = map linked_wire_of (cfg_linked c),
      w_overrides = map override_wire_of (cfg_overrides c),
      w_services = map_values service_wire_of (instances (cfg_services c)),
      w_mail = cfg_mail c, w_dumps = cfg_dumps c, w_tunnel = cfg_tunnel c, w_groups = cfg_groups c,
      w_domains = domains_wire_of (cfg_domains c),
      w_proxies = map proxy_wire_of (cfg_proxies c),
      w_proxy_rules = \<lparr>rsw_linked = map_values (map proxy_rule_wire) (rule_map (prs_linked (cfg_proxy_rules c))),
        rsw_parked = map_values (map proxy_rule_wire) (rule_map (prs_parked (cfg_proxy_rules c)))\<rparr>,
      w_route_rules = \<lparr>rsw_linked = map_values (map route_rule_wire) (rule_map (rrs_linked (cfg_route_rules c))),
        rsw_parked = map_values (map route_rule_wire) (rule_map (rrs_parked (cfg_route_rules c)))\<rparr>\<rparr>"

lemma read_section_write [read_back]:
  "(case if s = d then None else Some v of Some x \<Rightarrow> f x | None \<Rightarrow> Some d) = Some s" if "s \<noteq> d \<Longrightarrow> f v = Some s"
  using that by simp

lemma read_u32_version: "read_u32 (TInteger (int CURRENT_VERSION)) = Some CURRENT_VERSION"
  by (simp add: CURRENT_VERSION_def)

lemma read_wire_write:
  assumes "maps_sorted c"
  shows "read_wire (to_toml_value c) = Some (wire_of c)"
proof -
  have services: "read_map read_service (write_map write_service (instances (cfg_services c)))
      = Some (map_values service_wire_of (instances (cfg_services c)))"
    unfolding map_values_def using assms by (intro read_map_write) (auto simp: maps_sorted_def read_back)
  have vecs: "read_vec read_linked (TArray (map write_site ss)) = Some (map linked_wire_of ss)"
    "read_vec read_override (TArray (map write_override es)) = Some (map override_wire_of es)"
    "read_vec read_proxy (TArray (map write_proxy ps))
      = Some (map proxy_wire_of ps)" for ss es ps
    by (intro read_vec_write; simp add: read_back)+
  have groups: "groups_is_empty g \<longleftrightarrow> g = \<lparr>group_order = [], group_members = []\<rparr>" for g
    by (cases g) (simp add: groups_is_empty_def)
  show ?thesis
    using assms unfolding maps_sorted_def read_wire_def to_toml_value_def groups wire_of_def
    by (simp add: read_back vecs services read_u32_version del: read_vec.simps read_u32.simps)
qed

end
