(* ===== verification/Config_Migrate.thy ===== *)
theory Config_Migrate
  imports Toml Config_Validate
begin

text \<open>
  \<open>crates/yerd-config/src/migrate.rs\<close> with the errors of \<open>error.rs\<close>: reading the version of a
  document and walking the steps up to the current one. A step is a function on documents.
\<close>

datatype migration_error_reason = MissingVersion | NonIntegerVersion | MissingStep nat

text \<open>\<open>ConfigError\<close>; the errors of the \<open>toml\<close> crate and of the file system carry no detail here.\<close>

datatype config_error =
    ParseError
  | SerializeError
  | ValidateError validate_error_reason
  | CoreError core_error
  | UnsupportedVersion nat nat
  | MigrationError migration_error_reason
  | IoError path

section \<open>Migration\<close>

type_synonym migration_step = "toml \<Rightarrow> (config_error, toml) result"

definition set_version :: "toml \<Rightarrow> int \<Rightarrow> (config_error, toml) result" where
  "set_version v n =
     (case as_table v of
        None \<Rightarrow> Err (MigrationError MissingVersion)
      | Some m \<Rightarrow> Ok (TTable (bt_insert ''version'' (TInteger n) m)))"

definition read_version :: "toml \<Rightarrow> (config_error, nat) result" where
  "read_version v =
     (case as_table v of
        None \<Rightarrow> Err (MigrationError MissingVersion)
      | Some m \<Rightarrow>
          (case bt_get m ''version'' of
             None \<Rightarrow> Err (MigrationError MissingVersion)
           | Some x \<Rightarrow>
               (case as_integer x of
                  None \<Rightarrow> Err (MigrationError NonIntegerVersion)
                | Some n \<Rightarrow> if 0 \<le> n \<and> n < 2 ^ 32 then Ok (nat n) else Err (MigrationError NonIntegerVersion))))"

text \<open>\<open>get_mut\<close> of a table entry that is itself a table, and a change to it.\<close>

definition update_table :: "string \<Rightarrow> ((string, toml) btree_map \<Rightarrow> (string, toml) btree_map) \<Rightarrow> toml \<Rightarrow> toml" where
  "update_table k f v =
     (case as_table v of
        None \<Rightarrow> v
      | Some m \<Rightarrow>
          (case bt_get m k of
             None \<Rightarrow> v
           | Some x \<Rightarrow> (case as_table x of None \<Rightarrow> v | Some t \<Rightarrow> TTable (bt_insert k (TTable (f t)) m))))"

definition enabled_table :: toml where
  "enabled_table = TTable (bt_insert ''enabled'' (TBoolean True) [])"

fun insert_enabled :: "toml \<Rightarrow> (string, toml) btree_map \<Rightarrow> (string, toml) btree_map" where
  "insert_enabled (TString name) m = bt_insert name enabled_table m"
| "insert_enabled _ m = m"

definition split_enabled :: "(string, toml) btree_map \<Rightarrow> (string, toml) btree_map" where
  "split_enabled m =
     (case bt_get m ''enabled'' of
        Some (TArray xs) \<Rightarrow> fold insert_enabled xs (bt_remove ''enabled'' m)
      | _ \<Rightarrow> bt_remove ''enabled'' m)"

definition migrate_v2_to_v3 :: migration_step where
  "migrate_v2_to_v3 v = set_version (update_table ''services'' split_enabled v) 3"

definition enable_engines :: "(string, toml) btree_map \<Rightarrow> (string, toml) btree_map" where
  "enable_engines m =
     map (\<lambda>(k, inst).
       (k, if CHR '':'' \<in> set k then inst
           else (case as_table inst of Some t \<Rightarrow> TTable (bt_insert ''enabled'' (TBoolean True) t) | None \<Rightarrow> inst))) m"

definition migrate_v14_to_v15 :: migration_step where
  "migrate_v14_to_v15 v = set_version (update_table ''services'' enable_engines v) 15"

text \<open>Every other step only bumps the version.\<close>

definition bump_to :: "int \<Rightarrow> migration_step" where
  "bump_to n v = set_version v n"

definition STEPS :: "migration_step list" where
  "STEPS =
     [bump_to 1, bump_to 2, migrate_v2_to_v3, bump_to 4, bump_to 5, bump_to 6, bump_to 7, bump_to 8, bump_to 9,
      bump_to 10, bump_to 11, bump_to 12, bump_to 13, bump_to 14, migrate_v14_to_v15, bump_to 16, bump_to 17,
      bump_to 18, bump_to 19, bump_to 20, bump_to 21, bump_to 22, bump_to 23]"

function up :: "toml \<Rightarrow> nat \<Rightarrow> (config_error, toml) result" where
  "up v current =
     (if current < CURRENT_VERSION
      then (if current < length STEPS
            then (case (STEPS ! current) v of Err e \<Rightarrow> Err e | Ok v' \<Rightarrow> up v' (current + 1))
            else Err (MigrationError (MissingStep current)))
      else Ok v)"
  by pat_completeness auto
termination
  by (relation "measure (\<lambda>(v, c). CURRENT_VERSION - c)") auto

declare up.simps [simp del]

section \<open>Migration reaches the current version\<close>

definition step_of :: "nat \<Rightarrow> migration_step" where
  "step_of i = (if i = 2 then migrate_v2_to_v3 else if i = 14 then migrate_v14_to_v15 else bump_to (int i + 1))"

lemma STEPS_alt: "STEPS = map step_of [0..<23]"
  by (simp add: STEPS_def step_of_def upt_rec [of _ "23"])

lemma STEPS_nth: "i < CURRENT_VERSION \<Longrightarrow> i < length STEPS \<and> STEPS ! i = step_of i"
  by (simp add: STEPS_alt CURRENT_VERSION_def)

text \<open>What one step does to the entries of the document.\<close>

definition services_after :: "nat \<Rightarrow> toml \<Rightarrow> toml" where
  "services_after i x =
     (case x of
        TTable t \<Rightarrow> TTable (if i = 2 then split_enabled t else if i = 14 then enable_engines t else t)
      | _ \<Rightarrow> x)"

lemma update_table_get:
  "\<exists>m'. update_table k f (TTable m) = TTable m'
     \<and> (\<forall>a. bt_get m' a = (if a = k then map_option (\<lambda>x. case x of TTable t \<Rightarrow> TTable (f t) | _ \<Rightarrow> x) (bt_get m k) else bt_get m a))"
  by (cases "bt_get m k"; cases "the (bt_get m k)") (auto simp: update_table_def)

lemma step_table:
  "\<exists>m'. step_of i (TTable m) = Ok (TTable m')
     \<and> (\<forall>a. bt_get m' a = (if a = ''version'' then Some (TInteger (int i + 1))
          else if a = ''services'' then map_option (services_after i) (bt_get m ''services'') else bt_get m a))"
proof -
  obtain m1 where m1: "update_table ''services'' split_enabled (TTable m) = TTable m1"
      "\<And>a. bt_get m1 a = (if a = ''services'' then map_option (\<lambda>x. case x of TTable t \<Rightarrow> TTable (split_enabled t) | _ \<Rightarrow> x) (bt_get m ''services'') else bt_get m a)"
    using update_table_get [of "''services''" split_enabled m] by auto
  obtain m2 where m2: "update_table ''services'' enable_engines (TTable m) = TTable m2"
      "\<And>a. bt_get m2 a = (if a = ''services'' then map_option (\<lambda>x. case x of TTable t \<Rightarrow> TTable (enable_engines t) | _ \<Rightarrow> x) (bt_get m ''services'') else bt_get m a)"
    using update_table_get [of "''services''" enable_engines m] by auto
  have s: "services_after 2 = (\<lambda>x. case x of TTable t \<Rightarrow> TTable (split_enabled t) | _ \<Rightarrow> x)"
    "services_after 14 = (\<lambda>x. case x of TTable t \<Rightarrow> TTable (enable_engines t) | _ \<Rightarrow> x)"
    by (auto simp: fun_eq_iff services_after_def split: toml.split)
  have o: "services_after i x = x" if "i \<noteq> 2" "i \<noteq> 14" for x
    using that by (simp add: services_after_def split: toml.split)
  show ?thesis
    using m1 m2 s o
    by (simp add: step_of_def migrate_v2_to_v3_def migrate_v14_to_v15_def bump_to_def set_version_def option.map_ident_strong)
qed

definition services_from :: "nat \<Rightarrow> toml \<Rightarrow> toml" where
  "services_from n x = fold services_after [n..<CURRENT_VERSION] x"

lemma up_table:
  assumes "n \<le> CURRENT_VERSION"
  shows "\<exists>m'. up (TTable m) n = Ok (TTable m')
     \<and> (\<forall>a. bt_get m' a = (if a = ''version'' then (if n < CURRENT_VERSION then Some (TInteger (int CURRENT_VERSION)) else bt_get m a)
          else if a = ''services'' then map_option (services_from n) (bt_get m ''services'') else bt_get m a))"
  using assms
proof (induction "CURRENT_VERSION - n" arbitrary: n m)
  case 0
  then have n: "n = CURRENT_VERSION" by simp
  then have "services_from n = (\<lambda>x. x)" by (simp add: services_from_def fun_eq_iff)
  then show ?case by (simp add: up.simps n option.map_ident)
next
  case (Suc k)
  then have n: "n < CURRENT_VERSION" "k = CURRENT_VERSION - (n + 1)" "n + 1 \<le> CURRENT_VERSION" by simp_all
  obtain m1 where m1: "step_of n (TTable m) = Ok (TTable m1)"
      "\<And>a. bt_get m1 a = (if a = ''version'' then Some (TInteger (int n + 1))
          else if a = ''services'' then map_option (services_after n) (bt_get m ''services'') else bt_get m a)"
    using step_table [of n m] by blast
  obtain m' where m': "up (TTable m1) (n + 1) = Ok (TTable m')"
      "\<And>a. bt_get m' a = (if a = ''version'' then (if n + 1 < CURRENT_VERSION then Some (TInteger (int CURRENT_VERSION)) else bt_get m1 a)
          else if a = ''services'' then map_option (services_from (n + 1)) (bt_get m1 ''services'') else bt_get m1 a)"
    using Suc.hyps(1) [OF n(2,3), of m1] by blast
  have u: "up (TTable m) n = Ok (TTable m')"
    using n(1) STEPS_nth [OF n(1)] m1(1) m'(1) by (subst up.simps) simp
  have f: "services_from n = (\<lambda>x. services_from (n + 1) (services_after n x))"
    using n(1) by (simp add: fun_eq_iff services_from_def upt_conv_Cons)
  have v: "int n + 1 = int CURRENT_VERSION" if "\<not> n + 1 < CURRENT_VERSION" using that n(3) by simp
  show ?case
    using u m' m1(2) n(1) v by (intro exI [of _ m']) (auto simp: f option.map_comp comp_def)
qed

lemma services_after_id: "i \<noteq> 2 \<Longrightarrow> i \<noteq> 14 \<Longrightarrow> services_after i x = x"
  by (simp add: services_after_def split: toml.split)

lemma services_from_skip: "b \<le> CURRENT_VERSION \<Longrightarrow> a \<le> b \<Longrightarrow> 2 \<notin> {a..<b} \<Longrightarrow> 14 \<notin> {a..<b} \<Longrightarrow> services_from a x = services_from b x"
proof (induction "b - a" arbitrary: a)
  case (Suc k)
  then have a: "a < b" "k = b - (a + 1)" "a \<noteq> 2" "a \<noteq> 14" by auto
  have "services_from a x = services_from (a + 1) x"
    using a Suc.prems by (simp add: services_from_def upt_conv_Cons services_after_id)
  then show ?case using Suc.hyps(1) [OF a(2)] Suc.prems a by simp
qed simp

lemma services_from_late: "15 \<le> n \<Longrightarrow> n \<le> CURRENT_VERSION \<Longrightarrow> services_from n x = x"
  using services_from_skip [of CURRENT_VERSION n x] by (simp add: services_from_def)

lemma services_from_engines:
  assumes "3 \<le> n" "n \<le> 14"
  shows "services_from n (TTable t) = TTable (enable_engines t)"
proof -
  have "services_from n (TTable t) = services_from 14 (TTable t)"
    using assms by (intro services_from_skip) (auto simp: CURRENT_VERSION_def)
  also have "\<dots> = services_from 15 (services_after 14 (TTable t))"
    by (simp add: services_from_def upt_conv_Cons CURRENT_VERSION_def)
  also have "\<dots> = TTable (enable_engines t)"
    by (simp add: services_from_late CURRENT_VERSION_def services_after_def)
  finally show ?thesis .
qed

lemma services_from_legacy:
  assumes "n \<le> 2"
  shows "services_from n (TTable t) = TTable (enable_engines (split_enabled t))"
proof -
  have "services_from n (TTable t) = services_from 2 (TTable t)"
    using assms by (intro services_from_skip) (auto simp: CURRENT_VERSION_def)
  also have "\<dots> = services_from 3 (services_after 2 (TTable t))"
    by (simp add: services_from_def upt_conv_Cons CURRENT_VERSION_def)
  also have "\<dots> = TTable (enable_engines (split_enabled t))"
    by (simp add: services_from_engines services_after_def)
  finally show ?thesis .
qed

lemma enable_engines_get:
  "bt_get (enable_engines m) k = map_option (\<lambda>inst.
     if CHR '':'' \<in> set k then inst
     else (case as_table inst of Some t \<Rightarrow> TTable (bt_insert ''enabled'' (TBoolean True) t) | None \<Rightarrow> inst)) (bt_get m k)"
  unfolding bt_get_def enable_engines_def by (induction m) (auto split: option.split)

lemma insert_enabled_get:
  "bt_get (fold insert_enabled xs m) k = (if TString k \<in> set xs then Some enabled_table else bt_get m k)"
proof (induction xs arbitrary: m)
  case (Cons x xs)
  then show ?case by (cases x) auto
qed simp

text \<open>A table whose \<open>enabled\<close> key is true.\<close>

definition starts :: "toml \<Rightarrow> bool" where
  "starts v \<longleftrightarrow> (\<exists>t. v = TTable t \<and> bt_get t ''enabled'' = Some (TBoolean True))"

lemma engine_starts:
  "bt_get m name = Some (TTable inst) \<Longrightarrow> CHR '':'' \<notin> set name \<Longrightarrow>
     \<exists>v. bt_get (enable_engines m) name = Some v \<and> starts v"
  by (simp add: enable_engines_get starts_def)

lemma legacy_starts:
  assumes "bt_get t ''enabled'' = Some (TArray xs)" "TString name \<in> set xs"
  shows "\<exists>v. bt_get (enable_engines (split_enabled t)) name = Some v \<and> starts v"
proof -
  have "bt_get (split_enabled t) name = Some enabled_table"
    using assms by (simp add: split_enabled_def insert_enabled_get)
  moreover have "starts enabled_table"
    by (simp add: starts_def enabled_table_def bt_get_def)
  moreover have "starts (TTable (bt_insert ''enabled'' (TBoolean True) e))" for e
    by (simp add: starts_def)
  ultimately show ?thesis
    by (simp add: enable_engines_get split: option.split)
qed

text \<open>
  C11: migration always succeeds and loses nothing. A document whose version is at most the current
  one reaches the current version, whatever else it holds: no step is missing and none fails. All
  entries but the version and the services are untouched, the services too from version 15 on. A
  service that a version 2 file lists as enabled, and an engine that a file of version 3 to 14 has
  a table for, starts with the daemon after the upgrade.
\<close>

theorem migration_preserves:
  assumes "read_version v = Ok n" "n \<le> CURRENT_VERSION"
  shows "\<exists>m m'. v = TTable m \<and> up v n = Ok (TTable m') \<and> read_version (TTable m') = Ok CURRENT_VERSION
    \<and> (\<forall>k. k \<noteq> ''version'' \<and> k \<noteq> ''services'' \<longrightarrow> bt_get m' k = bt_get m k)
    \<and> (15 \<le> n \<longrightarrow> bt_get m' ''services'' = bt_get m ''services'')
    \<and> (\<forall>t xs name. n \<le> 2 \<and> bt_get m ''services'' = Some (TTable t) \<and> bt_get t ''enabled'' = Some (TArray xs)
          \<and> TString name \<in> set xs \<longrightarrow>
          (\<exists>t' x. bt_get m' ''services'' = Some (TTable t') \<and> bt_get t' name = Some x \<and> starts x))
    \<and> (\<forall>t name inst. 3 \<le> n \<and> n \<le> 14 \<and> bt_get m ''services'' = Some (TTable t) \<and> bt_get t name = Some (TTable inst)
          \<and> CHR '':'' \<notin> set name \<longrightarrow>
          (\<exists>t' x. bt_get m' ''services'' = Some (TTable t') \<and> bt_get t' name = Some x \<and> starts x))"
proof -
  obtain m where m: "v = TTable m" "bt_get m ''version'' = Some (TInteger (int n))"
    using assms(1) by (cases v) (auto simp: read_version_def split: option.splits if_splits elim!: as_integer.elims)
  obtain m' where m': "up v n = Ok (TTable m')"
      "\<And>a. bt_get m' a = (if a = ''version'' then (if n < CURRENT_VERSION then Some (TInteger (int CURRENT_VERSION)) else bt_get m a)
          else if a = ''services'' then map_option (services_from n) (bt_get m ''services'') else bt_get m a)"
    using up_table [OF assms(2), of m] m(1) by blast
  have "bt_get m' ''version'' = Some (TInteger (int CURRENT_VERSION))"
    using m' m(2) assms(2) by simp
  then have version: "read_version (TTable m') = Ok CURRENT_VERSION"
    by (simp add: read_version_def CURRENT_VERSION_def)
  have late: "bt_get m' ''services'' = bt_get m ''services''" if "15 \<le> n"
    using that assms(2) by (simp add: m'(2) services_from_late option.map_ident_strong)
  show ?thesis
    using m(1) m'(1) version late engine_starts legacy_starts
    by (intro exI [of _ m] exI [of _ m'] conjI) (simp_all add: m'(2) services_from_engines services_from_legacy)
qed

theorem migration_preserves_witness:
  "\<exists>m m'. TTable [(''services'', TTable [(''enabled'', TArray [TString ''redis''])]), (''tld'', TString ''test''), (''version'', TInteger 2)] = TTable m
     \<and> up (TTable m) 2 = Ok (TTable m') \<and> read_version (TTable m') = Ok CURRENT_VERSION
     \<and> bt_get m' ''tld'' = Some (TString ''test'')
     \<and> (\<exists>t' x. bt_get m' ''services'' = Some (TTable t') \<and> bt_get t' ''redis'' = Some x \<and> starts x)"
proof -
  let ?m = "[(''services'', TTable [(''enabled'', TArray [TString ''redis''])]), (''tld'', TString ''test''), (''version'', TInteger 2)]"
  have r: "read_version (TTable ?m) = Ok 2" by code_simp
  have g: "bt_get ?m ''tld'' = Some (TString ''test'')"
    "bt_get ?m ''services'' = Some (TTable [(''enabled'', TArray [TString ''redis''])])"
    "bt_get [(''enabled'', TArray [TString ''redis''])] ''enabled'' = Some (TArray [TString ''redis''])"
    by (simp_all add: bt_get_def)
  obtain m' where "up (TTable ?m) 2 = Ok (TTable m')" "read_version (TTable m') = Ok CURRENT_VERSION"
      "bt_get m' ''tld'' = bt_get ?m ''tld''"
      "\<exists>t' x. bt_get m' ''services'' = Some (TTable t') \<and> bt_get t' ''redis'' = Some x \<and> starts x"
    using migration_preserves [OF r] g by (fastforce simp: CURRENT_VERSION_def)
  then show ?thesis using g(1) by auto
qed

end
