(* ===== verification/Config_File.thy ===== *)
theory Config_File
  imports Config_Wire Config_Migrate
begin

text \<open>
  The configuration file: the conversion of the wire structs in \<open>parse.rs\<close>, loading and saving. The \<open>toml\<close> crate's printer and parser are parameters of \<open>parse_toml\<close> and \<open>to_toml\<close>.
\<close>

section \<open>Conversion\<close>

abbreviation via_core :: "(core_error, 'a) result \<Rightarrow> (config_error, 'a) result" where
  "via_core r \<equiv> map_err CoreError r"

fun try_map :: "('a \<Rightarrow> ('e, 'b) result) \<Rightarrow> 'a list \<Rightarrow> ('e, 'b list) result" where
  "try_map f [] = Ok []"
| "try_map f (x # xs) =
     (case f x of Err e \<Rightarrow> Err e | Ok y \<Rightarrow> (case try_map f xs of Err e \<Rightarrow> Err e | Ok ys \<Rightarrow> Ok (y # ys)))"

definition try_option :: "('a \<Rightarrow> ('e, 'b) result) \<Rightarrow> 'a option \<Rightarrow> ('e, 'b option) result" where
  "try_option f x =
     (case x of None \<Rightarrow> Ok None | Some a \<Rightarrow> (case f a of Err e \<Rightarrow> Err e | Ok b \<Rightarrow> Ok (Some b)))"

definition try_entry :: "('a \<Rightarrow> ('e, 'b) result) \<Rightarrow> string \<times> 'a \<Rightarrow> ('e, string \<times> 'b) result" where
  "try_entry f e = (case f (snd e) of Err x \<Rightarrow> Err x | Ok b \<Rightarrow> Ok (fst e, b))"

text \<open>\<open>map\<close> with \<open>?\<close> and \<open>collect\<close> into a \<open>BTreeMap\<close>.\<close>

definition convert_map ::
    "('a \<Rightarrow> ('e, 'b) result) \<Rightarrow> (string, 'a) btree_map \<Rightarrow> ('e, (string, 'b) btree_map) result" where
  "convert_map f m = (case try_map (try_entry f) m of Err e \<Rightarrow> Err e | Ok es \<Rightarrow> Ok (bt_collect es))"

definition convert_proxy :: "proxy_wire \<Rightarrow> (config_error, proxy_site) result" where
  "convert_proxy p =
     (case via_core (from_url_str (pw_target p)) of
        Err e \<Rightarrow> Err e
      | Ok target \<Rightarrow>
          (case via_core (proxy_site_new (pw_name p) target) of
             Err e \<Rightarrow> Err e
           | Ok prox \<Rightarrow> Ok (proxy_set_secure (pw_secure p) prox)))"

definition convert_proxies :: "proxy_wire list \<Rightarrow> (config_error, proxy_site list) result" where
  "convert_proxies ps = try_map convert_proxy ps"

definition convert_proxy_rule :: "rule_wire \<Rightarrow> (config_error, proxy_rule) result" where
  "convert_proxy_rule r =
     (case via_core (from_url_str (rw_target r)) of
        Err e \<Rightarrow> Err e
      | Ok target \<Rightarrow> via_core (proxy_rule_new (rw_prefix r) target))"

definition convert_proxy_rules ::
    "(string, rule_wire list) btree_map \<Rightarrow> (config_error, (string, proxy_rule list) btree_map) result" where
  "convert_proxy_rules m = convert_map (try_map convert_proxy_rule) m"

definition convert_route_rule :: "rule_wire \<Rightarrow> (config_error, route_rule) result" where
  "convert_route_rule r = via_core (route_rule_new (rw_prefix r) (rw_target r))"

definition convert_route_rules ::
    "(string, rule_wire list) btree_map \<Rightarrow> (config_error, (string, route_rule list) btree_map) result" where
  "convert_route_rules m = convert_map (try_map convert_route_rule) m"

definition parse_domain_list :: "string list \<Rightarrow> (config_error, domain list) result" where
  "parse_domain_list subs = try_map (\<lambda>s. via_core (parse_subpart s)) subs"

definition convert_delta :: "delta_wire \<Rightarrow> (config_error, domain_delta) result" where
  "convert_delta d =
     (case parse_domain_list (dw_added d) of
        Err e \<Rightarrow> Err e
      | Ok ad \<Rightarrow>
          (case parse_domain_list (dw_suppressed d) of
             Err e \<Rightarrow> Err e
           | Ok sd \<Rightarrow>
               (case try_option (\<lambda>s. via_core (parse_subpart s)) (dw_primary d) of
                  Err e \<Rightarrow> Err e
                | Ok p \<Rightarrow> Ok \<lparr>added = ad, suppressed = sd, delta_primary = p\<rparr>)))"

definition convert_domain_deltas ::
    "(string, delta_wire) btree_map \<Rightarrow> (config_error, (string, domain_delta) btree_map) result" where
  "convert_domain_deltas m = convert_map convert_delta m"

definition convert_site :: "linked_wire \<Rightarrow> (config_error, site) result" where
  "convert_site sw =
     (case via_core (php_version_from_str (lw_php sw)) of
        Err e \<Rightarrow> Err e
      | Ok php \<Rightarrow>
          (case via_core (case lw_kind sw of
              Linked \<Rightarrow> site_linked (lw_name sw) (lw_document_root sw) php
            | Parked \<Rightarrow> site_parked (lw_name sw) (lw_document_root sw) php) of
             Err e \<Rightarrow> Err e
           | Ok s \<Rightarrow>
               Ok (set_front_controller (lw_front_controller sw)
                    (set_wp_auto_login_user (lw_wp_auto_login_user sw)
                      (set_wp_auto_login (lw_wp_auto_login sw)
                        (set_web_subpath (lw_web_subpath sw) (set_site_secure (lw_secure sw) s)))))))"

definition convert_linked :: "linked_wire list \<Rightarrow> (config_error, site list) result" where
  "convert_linked ws = try_map convert_site ws"

text \<open>A map by version: a bad version is an error, and a later spelling of the same version wins.\<close>

definition try_version :: "('a \<Rightarrow> 'b) \<Rightarrow> string \<times> 'a \<Rightarrow> (config_error, php_version \<times> 'b) result" where
  "try_version f e = (case via_core (php_version_from_str (fst e)) of Err x \<Rightarrow> Err x | Ok v \<Rightarrow> Ok (v, f (snd e)))"

definition convert_ext :: "ext_wire \<Rightarrow> ext_entry" where
  "convert_ext e =
     \<lparr>ext_name = (case xw_name e of
          Some n \<Rightarrow> n
        | None \<Rightarrow> (case default_name_from_path (xw_path e) of Some n \<Rightarrow> n | None \<Rightarrow> [])),
      ext_path = xw_path e, ext_zend = xw_zend e\<rparr>"

definition convert_extensions ::
    "(string, ext_wire list) btree_map \<Rightarrow> (config_error, (php_version, ext_entry list) btree_map) result" where
  "convert_extensions m =
     (case try_map (try_version (map convert_ext)) m of Err e \<Rightarrow> Err e | Ok es \<Rightarrow> Ok (bt_collect es))"

definition convert_kept ::
    "(string \<times> string \<Rightarrow> bool) \<Rightarrow> (string, string_map) btree_map \<Rightarrow> (config_error, (php_version, string_map) btree_map) result" where
  "convert_kept keep m =
     (case try_map (try_version (filter keep)) m of
        Err e \<Rightarrow> Err e
      | Ok es \<Rightarrow> Ok (bt_collect (filter (\<lambda>(_, kept). kept \<noteq> []) es)))"

definition keep_setting :: "string \<times> string \<Rightarrow> bool" where
  "keep_setting e \<longleftrightarrow> is_ok (settings_validate_value (fst e) (snd e))"

definition keep_pool :: "string \<times> string \<Rightarrow> bool" where
  "keep_pool e \<longleftrightarrow> is_ok (pool_validate_name (fst e)) \<and> is_ok (pool_validate_value (snd e))"

definition convert_version_settings ::
    "(string, string_map) btree_map \<Rightarrow> (config_error, (php_version, string_map) btree_map) result" where
  "convert_version_settings m = convert_kept keep_setting m"

definition convert_directives ::
    "(string, string_map) btree_map \<Rightarrow> (config_error, (php_version, string_map) btree_map) result" where
  "convert_directives m = convert_kept directive_ok m"

definition convert_pool ::
    "(string, string_map) btree_map \<Rightarrow> (config_error, (php_version, string_map) btree_map) result" where
  "convert_pool m = convert_kept keep_pool m"

definition convert_service_overrides :: "string \<Rightarrow> string_map \<Rightarrow> string_map" where
  "convert_service_overrides key m =
     (case dialect_for (fst (split_wire_id key)) of None \<Rightarrow> [] | Some dialect \<Rightarrow> filter (override_ok dialect) m)"

definition convert_service :: "string \<times> service_wire \<Rightarrow> string \<times> service_instance" where
  "convert_service e =
     (case e of (name, inst) \<Rightarrow>
        (name,
         \<lparr>inst_version = sw_version inst, inst_port = sw_port inst, inst_site = sw_site inst,
          inst_enabled = (case sw_enabled inst of Some b \<Rightarrow> b | None \<Rightarrow> default_autostart_for_key name),
          inst_overrides = convert_service_overrides name (sw_overrides inst)\<rparr>))"

definition convert_override :: "override_wire \<Rightarrow> (config_error, string \<times> site_override) result" where
  "convert_override w =
     (case try_option (\<lambda>s. via_core (php_version_from_str s)) (ow_php w) of
        Err e \<Rightarrow> Err e
      | Ok php \<Rightarrow>
          Ok (ow_path w,
            \<lparr>ov_php = php, ov_secure = ow_secure w, ov_web_root = ow_web_root w, ov_wp_auto_login = ow_wp_auto_login w,
             ov_wp_auto_login_user = ow_wp_auto_login_user w, ov_front_controller = ow_front_controller w\<rparr>))"

definition convert_php :: "php_wire \<Rightarrow> (config_error, php_section) result" where
  "convert_php w =
     and_then (via_core (php_version_from_str (phw_default w))) (\<lambda>dflt.
     and_then (convert_extensions (phw_extensions w)) (\<lambda>exts.
     and_then (convert_version_settings (phw_version_settings w)) (\<lambda>vs.
     and_then (convert_directives (phw_directives w)) (\<lambda>ds.
     and_then (convert_pool (phw_pool w)) (\<lambda>pool.
       Ok \<lparr>php_default = dflt, php_settings = phw_settings w, php_extensions = exts, php_version_settings = vs,
           php_directives = ds, php_pool = pool\<rparr>)))))"

definition convert_domains :: "domains_wire \<Rightarrow> (config_error, domains_section) result" where
  "convert_domains w =
     and_then (convert_domain_deltas (dsw_linked w)) (\<lambda>linked.
     and_then (convert_domain_deltas (dsw_parked w)) (\<lambda>parked.
     and_then (convert_domain_deltas (dsw_proxy w)) (\<lambda>prox.
       Ok \<lparr>dom_linked = linked, dom_parked = parked, dom_proxy = prox\<rparr>)))"

text \<open>\<open>TryFrom<Wire> for Config\<close>: the converted parts, and the configuration made of them.\<close>

record parts =
  pt_tld :: string
  pt_php :: php_section
  pt_overrides :: "(string \<times> site_override) list"
  pt_linked :: "site list"
  pt_domains :: domains_section
  pt_proxies :: "proxy_site list"
  pt_proxy_rules :: proxy_rules_section
  pt_route_rules :: route_rules_section

definition convert_parts :: "wire \<Rightarrow> (config_error, parts) result" where
  "convert_parts w =
     and_then (via_core (tld_new (w_tld w))) (\<lambda>tld.
     and_then (convert_php (w_php w)) (\<lambda>php.
     and_then (try_map convert_override (w_overrides w)) (\<lambda>ovs.
     and_then (convert_linked (w_linked w)) (\<lambda>linked.
     and_then (convert_domains (w_domains w)) (\<lambda>domains.
     and_then (convert_proxies (w_proxies w)) (\<lambda>proxies.
     and_then (convert_proxy_rules (rsw_linked (w_proxy_rules w))) (\<lambda>prl.
     and_then (convert_proxy_rules (rsw_parked (w_proxy_rules w))) (\<lambda>prp.
     and_then (convert_route_rules (rsw_linked (w_route_rules w))) (\<lambda>rrl.
     and_then (convert_route_rules (rsw_parked (w_route_rules w))) (\<lambda>rrp.
       Ok \<lparr>pt_tld = tld, pt_php = php, pt_overrides = ovs, pt_linked = linked, pt_domains = domains,
           pt_proxies = proxies, pt_proxy_rules = \<lparr>prs_linked = prl, prs_parked = prp\<rparr>,
           pt_route_rules = \<lparr>rrs_linked = rrl, rrs_parked = rrp\<rparr>\<rparr>))))))))))"

definition config_try_from :: "wire \<Rightarrow> (config_error, config) result" where
  "config_try_from w =
     (if w_version w \<noteq> CURRENT_VERSION then Err (UnsupportedVersion (w_version w) CURRENT_VERSION)
      else (case convert_parts w of
          Err e \<Rightarrow> Err e
        | Ok pt \<Rightarrow>
            Ok \<lparr>cfg_version = CURRENT_VERSION, cfg_tld = pt_tld pt, cfg_dns_port = w_dns_port w,
                cfg_update_channel = w_update_channel w, cfg_symlink_protection = w_symlink_protection w,
                cfg_mcp_enabled = w_mcp_enabled w, cfg_lan_enabled = w_lan_enabled w,
                cfg_lan_setup_port = w_lan_setup_port w, cfg_ports = w_ports w, cfg_php = pt_php pt,
                cfg_parked = w_parked w, cfg_linked = pt_linked pt, cfg_overrides = bt_collect (pt_overrides pt),
                cfg_services = \<lparr>instances = bt_collect (map convert_service (w_services w))\<rparr>,
                cfg_mail = w_mail w, cfg_dumps = w_dumps w, cfg_tunnel = w_tunnel w, cfg_groups = w_groups w,
                cfg_domains = pt_domains pt, cfg_proxies = pt_proxies pt, cfg_proxy_rules = pt_proxy_rules pt,
                cfg_route_rules = pt_route_rules pt\<rparr>))"

section \<open>Loading and saving\<close>

definition of_toml_value :: "toml \<Rightarrow> (config_error, config) result" where
  "of_toml_value v =
     (case read_wire v of
        None \<Rightarrow> Err ParseError
      | Some w \<Rightarrow>
          (case config_try_from w of
             Err e \<Rightarrow> Err e
           | Ok cfg \<Rightarrow> (case config_validate cfg of Err r \<Rightarrow> Err (ValidateError r) | Ok _ \<Rightarrow> Ok cfg)))"

definition parse_toml :: "(string \<Rightarrow> toml option) \<Rightarrow> string \<Rightarrow> (config_error, config) result" where
  "parse_toml toml_parse s =
     (case toml_parse s of
        None \<Rightarrow> Err ParseError
      | Some v \<Rightarrow>
          (case read_version v of
             Err e \<Rightarrow> Err e
           | Ok found \<Rightarrow>
               if found > CURRENT_VERSION then Err (UnsupportedVersion found CURRENT_VERSION)
               else (case (if found < CURRENT_VERSION then up v found else Ok v) of
                   Err e \<Rightarrow> Err e
                 | Ok v' \<Rightarrow> of_toml_value v')))"

definition to_toml :: "(toml \<Rightarrow> string option) \<Rightarrow> config \<Rightarrow> (config_error, string) result" where
  "to_toml toml_print c =
     (case toml_print (to_toml_value c) of None \<Rightarrow> Err SerializeError | Some s \<Rightarrow> Ok s)"

text \<open>\<open>Config::load\<close>: \<open>read_file\<close> stands for \<open>fs::read_to_string\<close>.\<close>

definition config_load ::
    "(path \<Rightarrow> string option) \<Rightarrow> (string \<Rightarrow> toml option) \<Rightarrow> path \<Rightarrow> (config_error, config) result" where
  "config_load read_file toml_parse p =
     (case read_file p of None \<Rightarrow> Err (IoError p) | Some s \<Rightarrow> parse_toml toml_parse s)"

end
