(* ===== verification/Config_Reload.thy ===== *)
theory Config_Reload
  imports Config_File Mutate_Valid
begin

text \<open>
  A configuration that was loaded, saved and loaded again is the same configuration, up to the
  empty deltas and empty rule lists that saving leaves out.
\<close>

section \<open>Converters that accept their own wire form\<close>

locale wire_codec =
  fixes convert :: "'w \<Rightarrow> ('e, 'a) result"
    and mirror :: "'a \<Rightarrow> 'w"
  assumes reconverts: "convert w = Ok a \<Longrightarrow> convert (mirror a) = Ok a"
begin

definition fixed :: "'a \<Rightarrow> bool" where
  "fixed a \<longleftrightarrow> convert (mirror a) = Ok a"

lemma try_map_fixed: "try_map convert ws = Ok xs \<Longrightarrow> list_all fixed xs"
  by (induction ws arbitrary: xs) (auto simp: fixed_def reconverts split: result.splits)

lemma try_map_back: "list_all fixed xs \<Longrightarrow> try_map convert (map mirror xs) = Ok xs"
  by (induction xs) (simp_all add: fixed_def)

lemma try_map_entries_fixed: "try_map (try_entry convert) ws = Ok es \<Longrightarrow> list_all (\<lambda>e. fixed (snd e)) es"
  by (induction ws arbitrary: es) (auto simp: fixed_def reconverts try_entry_def split: result.splits)

lemma try_map_entries_back:
  "list_all (\<lambda>e. fixed (snd e)) m \<Longrightarrow> try_map (try_entry convert) (map_values mirror m) = Ok m"
  by (induction m) (auto simp: fixed_def map_values_def try_entry_def)

lemma convert_map_fixed:
  assumes "convert_map convert ws = Ok m"
  shows "bt_inv m \<and> list_all (\<lambda>e. fixed (snd e)) m"
proof -
  obtain es where es: "try_map (try_entry convert) ws = Ok es" "m = bt_collect es"
    using assms by (auto simp: convert_map_def split: result.splits)
  have "e \<in> set es" if "e \<in> set m" for e
  proof -
    have "bt_get m (fst e) = Some (snd e)" using that by (simp add: es(2) bt_get_in_set)
    then show ?thesis by (auto simp: es(2) bt_get_collect dest: map_of_SomeD)
  qed
  then show ?thesis
    using try_map_entries_fixed [OF es(1)] by (auto simp: es(2) list_all_iff)
qed

lemma convert_map_back:
  "bt_inv m \<Longrightarrow> list_all (\<lambda>e. fixed (snd e)) m \<Longrightarrow> convert_map convert (map_values mirror m) = Ok m"
  by (simp add: convert_map_def try_map_entries_back bt_collect_id)

end

lemma php_version_reparse:
  assumes "php_version_in_range v"
  shows "php_version_from_str (show_php_version v) = Ok v"
  using php_version_numbers_show [OF assms] show_php_version_hd [of v]
    is_ascii_digit_not_alphabetic [of "hd (show_php_version v)"]
  by (simp add: php_version_from_str_def php_version_rest_digit)

lemma php_version_again: "php_version_from_str s = Ok v \<Longrightarrow> php_version_from_str (show_php_version v) = Ok v"
  by (rule php_version_reparse) (rule php_version_from_str_range)

lemma parse_subpart_again: "parse_subpart s = Ok d \<Longrightarrow> parse_subpart (sub d) = Ok d"
  using parse_subpart_accepts [of d] by (auto simp: parse_subpart_Ok_iff)

lemma upstream_again: "from_url_str s = Ok t \<Longrightarrow> from_url_str (show_upstream t) = Ok t"
  by (rule from_url_show) (rule from_url_str_inv)

text \<open>A normalised prefix is accepted as it is.\<close>

lemma pop_slashes_again: "pop_slashes (pop_slashes s) = pop_slashes s"
  using pop_slashes_last [of s] by (subst pop_slashes.simps) (auto simp: ends_with_singleton)

lemma utf8_chars_slashes: "utf8_chars (s @ replicate k (CHR ''/'')) = utf8_chars s @ replicate k ''/''"
proof (induction k arbitrary: s)
  case (Suc k)
  have "is_ascii (CHR ''/'')" by code_simp
  then show ?case
    using Suc.IH [of "s @ ''/''"] utf8_chars_snoc_ascii [of "CHR ''/''" s] by simp
qed simp

lemma prefix_again:
  assumes "starts_with ''/'' p" "\<not> list_ex P (utf8_chars p)" "''..'' \<notin> set (split_on (CHR ''/'') p)"
  shows "pop_slashes p \<noteq> [] \<and> starts_with ''/'' (pop_slashes p) \<and> \<not> list_ex P (utf8_chars (pop_slashes p))
    \<and> ''..'' \<notin> set (split_on (CHR ''/'') (pop_slashes p))"
proof -
  obtain k where k: "p = pop_slashes p @ replicate k (CHR ''/'')"
    using pop_slashes_decomp by blast
  have hd: "pop_slashes p \<noteq> [] \<and> starts_with ''/'' (pop_slashes p)"
    using assms(1) pop_slashes_hd [of p] by (auto simp: starts_with_singleton)
  moreover have "''..'' \<notin> set (split_on (CHR ''/'') (pop_slashes p))"
    using assms(3) split_on_slashes [of "CHR ''/''" "pop_slashes p" k] unfolding k [symmetric] by simp
  moreover have "\<not> list_ex P (utf8_chars (pop_slashes p))"
    using assms(2) utf8_chars_slashes [of "pop_slashes p" k] unfolding k [symmetric] by simp
  ultimately show ?thesis by blast
qed

lemma proxy_rule_again: "proxy_rule_new p t = Ok r \<Longrightarrow> proxy_rule_new (pr_prefix r) (pr_target r) = Ok r"
  using prefix_again [of p "\<lambda>c. is_control c \<or> c = '' '' \<or> c = ''?'' \<or> c = ''#''"]
  by (auto simp: proxy_rule_new_def Let_def pop_slashes_again split: if_splits)

lemma route_rule_again: "route_rule_new p t = Ok r \<Longrightarrow> route_rule_new (rr_prefix r) (rr_target r) = Ok r"
  using prefix_again [of p "\<lambda>c. is_control c \<or> c = '' '' \<or> c = ''?'' \<or> c = ''#''"]
  by (auto simp: route_rule_new_def Let_def pop_slashes_again split: if_splits)

interpretation proxy_codec: wire_codec convert_proxy proxy_wire_of
proof
  fix w a
  assume "convert_proxy w = Ok a"
  then obtain t n where "from_url_str (pw_target w) = Ok t" "validate_proxy_name (pw_name w) = Ok n"
      "a = \<lparr>ps_name = n, ps_target = t, ps_secure = pw_secure w\<rparr>"
    by (auto simp: convert_proxy_def proxy_site_new_def proxy_set_secure_def split: result.splits)
  then show "convert_proxy (proxy_wire_of a) = Ok a"
    using upstream_again proxy_name.revalidates
    by (simp add: convert_proxy_def proxy_site_new_def proxy_set_secure_def proxy_wire_of_def)
qed

interpretation proxy_rule_codec: wire_codec convert_proxy_rule proxy_rule_wire
proof
  fix w a
  assume "convert_proxy_rule w = Ok a"
  then obtain t where t: "from_url_str (rw_target w) = Ok t" "proxy_rule_new (rw_prefix w) t = Ok a"
    by (auto simp: convert_proxy_rule_def split: result.splits)
  moreover have "pr_target a = t"
    using t(2) by (auto simp: proxy_rule_new_def Let_def split: if_splits)
  ultimately show "convert_proxy_rule (proxy_rule_wire a) = Ok a"
    using upstream_again [OF t(1)] proxy_rule_again [OF t(2)] by (simp add: convert_proxy_rule_def proxy_rule_wire_def)
qed

interpretation route_rule_codec: wire_codec convert_route_rule route_rule_wire
  by unfold_locales (auto simp: convert_route_rule_def route_rule_wire_def intro: route_rule_again)

interpretation proxy_rules_codec: wire_codec "try_map convert_proxy_rule" "map proxy_rule_wire"
  by unfold_locales (rule proxy_rule_codec.try_map_back [OF proxy_rule_codec.try_map_fixed])

interpretation route_rules_codec: wire_codec "try_map convert_route_rule" "map route_rule_wire"
  by unfold_locales (rule route_rule_codec.try_map_back [OF route_rule_codec.try_map_fixed])

interpretation domain_codec: wire_codec "\<lambda>s. via_core (parse_subpart s)" sub
  by unfold_locales (simp add: parse_subpart_again)

interpretation delta_codec: wire_codec convert_delta delta_wire_of
proof
  fix w a
  assume "convert_delta w = Ok a"
  then obtain p where d: "parse_domain_list (dw_added w) = Ok (added a)" "parse_domain_list (dw_suppressed w) = Ok (suppressed a)"
      "try_option (\<lambda>s. via_core (parse_subpart s)) (dw_primary w) = Ok p" "delta_primary a = p"
    by (auto simp: convert_delta_def split: result.splits)
  have "parse_domain_list (map sub (added a)) = Ok (added a)" "parse_domain_list (map sub (suppressed a)) = Ok (suppressed a)"
    using d(1,2) domain_codec.try_map_back [OF domain_codec.try_map_fixed] by (simp_all add: parse_domain_list_def)
  moreover have "try_option (\<lambda>s. via_core (parse_subpart s)) (map_option sub p) = Ok p"
    using d(3) parse_subpart_again by (auto simp: try_option_def split: option.splits result.splits)
  ultimately show "convert_delta (delta_wire_of a) = Ok a"
    using d(4) by (simp add: convert_delta_def delta_wire_of_def)
qed

interpretation site_codec: wire_codec convert_site linked_wire_of
proof
  fix w a
  assume "convert_site w = Ok a"
  then obtain v n where "php_version_from_str (lw_php w) = Ok v" "validate_and_lowercase_name (lw_name w) = Ok n"
      "site_name a = n" "site_php a = v" "kind a = lw_kind w" "document_root a = lw_document_root w"
    by (auto simp: convert_site_def site_linked_def site_parked_def new_site_def set_front_controller_def
        set_wp_auto_login_user_def set_wp_auto_login_def set_web_subpath_def set_site_secure_def
        split: result.splits site_kind.splits)
  then show "convert_site (linked_wire_of a) = Ok a"
    using php_version_again site_name.revalidates
    by (cases "kind a") (simp_all add: convert_site_def linked_wire_of_def site_linked_def site_parked_def new_site_def
        set_front_controller_def set_wp_auto_login_user_def set_wp_auto_login_def set_web_subpath_def set_site_secure_def)
qed

interpretation override_codec: wire_codec convert_override override_wire_of
proof
  fix w a
  assume "convert_override w = Ok a"
  then obtain php where o: "try_option (\<lambda>s. via_core (php_version_from_str s)) (ow_php w) = Ok php" "ov_php (snd a) = php"
    by (auto simp: convert_override_def split: result.splits)
  then have "try_option (\<lambda>s. via_core (php_version_from_str s)) (map_option show_php_version php) = Ok php"
    using php_version_again by (auto simp: try_option_def split: option.splits result.splits)
  then show "convert_override (override_wire_of a) = Ok a"
    using o(2) by (cases a) (simp add: convert_override_def override_wire_of_def)
qed

section \<open>Maps by version\<close>

lemma set_bt_collect:
  assumes "distinct (map fst ps)"
  shows "set (bt_collect ps) = set ps"
proof -
  have "(k, v) \<in> set (bt_collect ps) \<longleftrightarrow> (k, v) \<in> set ps" for k v
  proof -
    have "(k, v) \<in> set (bt_collect ps) \<longleftrightarrow> bt_get (bt_collect ps) k = Some v" by (simp add: bt_get_in_set)
    also have "\<dots> \<longleftrightarrow> (k, v) \<in> set ps"
      using assms by (simp add: bt_get_collect map_of_rev_distinct)
    finally show ?thesis .
  qed
  then show ?thesis by auto
qed

lemma bt_collect_eq:
  assumes "distinct (map fst ps)" "bt_inv m" "set ps = set m"
  shows "bt_collect ps = m"
proof (rule bt_ext)
  fix k
  have "bt_get (bt_collect ps) k = Some v \<longleftrightarrow> bt_get m k = Some v" for v
    using set_bt_collect [OF assms(1)] assms(2,3) by (simp add: bt_get_in_set)
  then show "bt_get (bt_collect ps) k = bt_get m k" by (metis option.exhaust)
qed (use assms in simp_all)

definition versions_ok :: "(php_version, 'a) btree_map \<Rightarrow> bool" where
  "versions_ok m \<longleftrightarrow> bt_inv m \<and> (\<forall>v \<in> fst ` set m. php_version_in_range v)"

lemma show_version_inj: "php_version_in_range v \<Longrightarrow> php_version_in_range w \<Longrightarrow> show_php_version v = show_php_version w \<Longrightarrow> v = w"
  using php_version_reparse by (metis result.inject(2))

lemma by_name_set:
  assumes "versions_ok m"
  shows "set (by_name m) = (\<lambda>(v, e). (show_php_version v, e)) ` set m" "distinct (map fst (by_name m))"
proof -
  have "inj_on show_php_version (fst ` set m)"
    using assms show_version_inj by (auto simp: versions_ok_def inj_on_def)
  then have "distinct (map show_php_version (map fst m))"
    using assms bt_inv_distinct [of m] unfolding versions_ok_def distinct_map [of show_php_version] by simp
  then have "distinct (map fst (map (\<lambda>(v, e). (show_php_version v, e)) m))"
    by (simp add: comp_def case_prod_unfold)
  then show "set (by_name m) = (\<lambda>(v, e). (show_php_version v, e)) ` set m"
    by (simp add: by_name_def set_bt_collect)
  show "distinct (map fst (by_name m))"
    by (rule bt_inv_distinct) simp
qed

definition named_version :: "string \<Rightarrow> php_version" where
  "named_version k = (case php_version_from_str k of Ok v \<Rightarrow> v | Err _ \<Rightarrow> PhpVersion 0 0)"

lemma try_map_Ok: "(\<And>x. x \<in> set xs \<Longrightarrow> f x = Ok (g x)) \<Longrightarrow> try_map f xs = Ok (map g xs)"
  by (induction xs) simp_all

lemma versions_back:
  assumes m: "versions_ok m"
  shows "try_map (try_version f) (map_values g (by_name m)) = Ok (map (\<lambda>(k, e). (named_version k, f (g e))) (by_name m))"
    and "distinct (map fst (map (\<lambda>(k, e). (named_version k, h e)) (by_name m)))"
    and "set (map (\<lambda>(k, e). (named_version k, h e)) (by_name m)) = (\<lambda>(v, e). (v, h e)) ` set m"
proof -
  have reparse: "php_version_from_str (show_php_version v) = Ok v" if "(v, e) \<in> set m" for v e
    using m that by (auto simp: versions_ok_def intro!: php_version_reparse)
  then have name: "named_version (show_php_version v) = v" if "(v, e) \<in> set m" for v e
    using that by (simp add: named_version_def)
  have "try_version f e = Ok (named_version (fst e), f (snd e))" if "e \<in> set (map_values g (by_name m))" for e
    using that reparse name by (auto simp: map_values_def by_name_set(1) [OF m] try_version_def)
  then have converted: "try_map (try_version f) (map_values g (by_name m))
      = Ok (map (\<lambda>e. (named_version (fst e), f (snd e))) (map_values g (by_name m)))"
    by (rule try_map_Ok)
  show "try_map (try_version f) (map_values g (by_name m)) = Ok (map (\<lambda>(k, e). (named_version k, f (g e))) (by_name m))"
    using converted by (simp add: map_values_def comp_def case_prod_unfold)
  show s: "set (map (\<lambda>(k, e). (named_version k, h e)) (by_name m)) = (\<lambda>(v, e). (v, h e)) ` set m"
    using name by (force simp: by_name_set(1) [OF m] image_iff)
  have "inj_on named_version (fst ` set (by_name m))"
    using name by (auto simp: inj_on_def by_name_set(1) [OF m])
  then show "distinct (map fst (map (\<lambda>(k, e). (named_version k, h e)) (by_name m)))"
    using by_name_set(2) [OF m] by (simp add: distinct_map comp_def case_prod_unfold inj_on_def)
qed

lemma convert_extensions_back:
  assumes "versions_ok m"
  shows "convert_extensions (map_values (map ext_wire_of) (by_name m)) = Ok m"
proof -
  have "convert_ext \<circ> ext_wire_of = id"
    by (simp add: fun_eq_iff convert_ext_def ext_wire_of_def)
  then have e: "map convert_ext (map ext_wire_of es) = es" for es by simp
  have "set (map (\<lambda>(k, e). (named_version k, e)) (by_name m)) = set m"
    using versions_back(3) [OF assms, of "\<lambda>e. e"] by simp
  then have "bt_collect (map (\<lambda>(k, e). (named_version k, e)) (by_name m)) = m"
    using versions_back(2) [OF assms, of "\<lambda>e. e"] assms by (intro bt_collect_eq) (simp_all add: versions_ok_def)
  then show ?thesis
    by (simp add: convert_extensions_def versions_back(1) [OF assms] e del: map_map)
qed

definition kept_ok :: "(string \<times> string \<Rightarrow> bool) \<Rightarrow> (php_version, string_map) btree_map \<Rightarrow> bool" where
  "kept_ok keep m \<longleftrightarrow> versions_ok m \<and> (\<forall>(v, e) \<in> set m. e \<noteq> [] \<and> list_all keep e)"

lemma convert_kept_back:
  assumes "kept_ok keep m"
  shows "convert_kept keep (by_name m) = Ok m"
proof -
  have m: "versions_ok m" and e: "\<And>v e. (v, e) \<in> set m \<Longrightarrow> e \<noteq> [] \<and> filter keep e = e"
    using assms by (auto simp: kept_ok_def list_all_iff)
  let ?L = "map (\<lambda>(k, e). (named_version k, filter keep e)) (by_name m)"
  have s: "set ?L = set m"
    using versions_back(3) [OF m, of "filter keep"] e by (force simp: image_iff)
  then have f: "filter (\<lambda>(_, kept). kept \<noteq> []) ?L = ?L"
    using e by (auto simp: filter_id_conv)
  have "bt_collect ?L = m"
    using versions_back(2) [OF m, of "filter keep"] s m by (intro bt_collect_eq) (simp_all add: versions_ok_def)
  moreover have "map_values (\<lambda>x. x) (by_name m) = by_name m"
    by (simp add: map_values_def)
  ultimately show ?thesis
    using versions_back(1) [OF m, of "filter keep" "\<lambda>x. x"] f by (simp add: convert_kept_def)
qed

lemma try_version_ranges:
  "try_map (try_version f) ws = Ok es \<Longrightarrow> list_all (\<lambda>e. php_version_in_range (fst e) \<and> (\<exists>x \<in> snd ` set ws. snd e = f x)) es"
proof (induction ws arbitrary: es)
  case (Cons w ws)
  then obtain v rest where v: "php_version_from_str (fst w) = Ok v" "try_map (try_version f) ws = Ok rest"
      "es = (v, f (snd w)) # rest"
    by (cases "php_version_from_str (fst w)") (auto simp: try_version_def [of f w] split: result.splits)
  then show ?case
    using Cons.IH [OF v(2)] php_version_from_str_range [OF v(1)] by (auto simp: list_all_iff)
qed simp

lemma bt_collect_member: "e \<in> set (bt_collect ps) \<Longrightarrow> e \<in> set ps"
proof -
  assume "e \<in> set (bt_collect ps)"
  then have "bt_get (bt_collect ps) (fst e) = Some (snd e)" by (simp add: bt_get_in_set)
  then show ?thesis by (auto simp: bt_get_collect dest: map_of_SomeD)
qed

lemma convert_extensions_fixed:
  assumes "convert_extensions ws = Ok m"
  shows "versions_ok m"
proof -
  obtain es where es: "try_map (try_version (map convert_ext)) ws = Ok es" "m = bt_collect es"
    using assms by (auto simp: convert_extensions_def split: result.splits)
  have "\<forall>e \<in> set es. php_version_in_range (fst e)"
    using try_version_ranges [OF es(1)] by (simp add: list_all_iff)
  then show ?thesis
    using bt_collect_member [of _ es] by (auto simp: versions_ok_def es(2))
qed

lemma convert_kept_fixed:
  assumes "convert_kept keep ws = Ok m" "\<And>k e. (k, e) \<in> set ws \<Longrightarrow> bt_inv e"
  shows "kept_ok keep m \<and> inner_inv m"
proof -
  obtain es where es: "try_map (try_version (filter keep)) ws = Ok es" "m = bt_collect (filter (\<lambda>(_, kept). kept \<noteq> []) es)"
    using assms(1) by (auto simp: convert_kept_def split: result.splits)
  note r = try_version_ranges [OF es(1)]
  have x: "php_version_in_range v \<and> e \<noteq> [] \<and> list_all keep e \<and> bt_inv e" if "(v, e) \<in> set m" for v e
  proof -
    have e: "(v, e) \<in> set es" "e \<noteq> []" using that unfolding es(2) by (auto dest!: bt_collect_member)
    then obtain k y where "php_version_in_range v" "(k, y) \<in> set ws" "e = filter keep y"
      using r unfolding list_all_iff by fastforce
    then show ?thesis using e(2) assms(2) by (simp add: bt_inv_filter list_all_iff)
  qed
  have "bt_inv m" by (simp add: es(2))
  then show ?thesis
    using x by (auto simp: kept_ok_def inner_inv_def versions_ok_def)
qed

section \<open>Writing and converting back\<close>

definition pruned :: "config \<Rightarrow> config" where
  "pruned c =
     c\<lparr>cfg_domains := \<lparr>dom_linked = domain_delta_map (dom_linked (cfg_domains c)),
         dom_parked = domain_delta_map (dom_parked (cfg_domains c)), dom_proxy = domain_delta_map (dom_proxy (cfg_domains c))\<rparr>,
       cfg_proxy_rules := \<lparr>prs_linked = rule_map (prs_linked (cfg_proxy_rules c)), prs_parked = rule_map (prs_parked (cfg_proxy_rules c))\<rparr>,
       cfg_route_rules := \<lparr>rrs_linked = rule_map (rrs_linked (cfg_route_rules c)), rrs_parked = rule_map (rrs_parked (cfg_route_rules c))\<rparr>\<rparr>"

definition service_fixed :: "string \<times> service_instance \<Rightarrow> bool" where
  "service_fixed e \<longleftrightarrow> convert_service (fst e, service_wire_of (snd e)) = e"

text \<open>What loading gives: every value is one its own converter accepts unchanged.\<close>

definition php_fixed :: "php_section \<Rightarrow> bool" where
  "php_fixed p \<longleftrightarrow>
     php_version_in_range (php_default p) \<and> versions_ok (php_extensions p) \<and> kept_ok keep_setting (php_version_settings p)
     \<and> kept_ok directive_ok (php_directives p) \<and> kept_ok keep_pool (php_pool p)"

definition deltas_fixed :: "domains_section \<Rightarrow> bool" where
  "deltas_fixed d \<longleftrightarrow>
     list_all (\<lambda>e. delta_codec.fixed (snd e)) (dom_linked d) \<and> list_all (\<lambda>e. delta_codec.fixed (snd e)) (dom_parked d)
     \<and> list_all (\<lambda>e. delta_codec.fixed (snd e)) (dom_proxy d)"

definition rules_fixed :: "proxy_rules_section \<Rightarrow> route_rules_section \<Rightarrow> bool" where
  "rules_fixed p r \<longleftrightarrow>
     list_all (\<lambda>e. proxy_rules_codec.fixed (snd e)) (prs_linked p) \<and> list_all (\<lambda>e. proxy_rules_codec.fixed (snd e)) (prs_parked p)
     \<and> list_all (\<lambda>e. route_rules_codec.fixed (snd e)) (rrs_linked r) \<and> list_all (\<lambda>e. route_rules_codec.fixed (snd e)) (rrs_parked r)"

definition config_fixed :: "config \<Rightarrow> bool" where
  "config_fixed c \<longleftrightarrow>
     maps_sorted c \<and> cfg_version c = CURRENT_VERSION \<and> tld_new (cfg_tld c) = Ok (cfg_tld c) \<and> php_fixed (cfg_php c)
     \<and> list_all site_codec.fixed (cfg_linked c) \<and> list_all override_codec.fixed (cfg_overrides c)
     \<and> list_all service_fixed (instances (cfg_services c)) \<and> deltas_fixed (cfg_domains c)
     \<and> list_all proxy_codec.fixed (cfg_proxies c) \<and> rules_fixed (cfg_proxy_rules c) (cfg_route_rules c)"

lemma list_all_filter: "list_all P xs \<Longrightarrow> list_all P (filter Q xs)"
  by (simp add: list_all_iff)

lemma convert_php_back: "php_fixed p \<Longrightarrow> convert_php (php_wire_of p) = Ok p"
  by (simp add: php_fixed_def convert_php_def php_wire_of_def php_version_reparse convert_extensions_back
      convert_version_settings_def convert_directives_def convert_pool_def convert_kept_back)

lemma convert_domains_back:
  assumes "deltas_fixed d" "bt_inv (dom_linked d)" "bt_inv (dom_parked d)" "bt_inv (dom_proxy d)"
  shows "convert_domains (domains_wire_of d) = Ok \<lparr>dom_linked = domain_delta_map (dom_linked d),
    dom_parked = domain_delta_map (dom_parked d), dom_proxy = domain_delta_map (dom_proxy d)\<rparr>"
proof -
  have "convert_domain_deltas (map_values delta_wire_of (domain_delta_map m)) = Ok (domain_delta_map m)"
    if "list_all (\<lambda>e. delta_codec.fixed (snd e)) m" "bt_inv m" for m
    using that unfolding convert_domain_deltas_def domain_delta_map_def
    by (intro delta_codec.convert_map_back) (simp_all add: bt_inv_filter list_all_filter)
  then show ?thesis
    using assms by (simp add: convert_domains_def domains_wire_of_def deltas_fixed_def)
qed

lemma convert_rules_back:
  "list_all (\<lambda>e. proxy_rules_codec.fixed (snd e)) m \<Longrightarrow> bt_inv m \<Longrightarrow>
     convert_proxy_rules (map_values (map proxy_rule_wire) (rule_map m)) = Ok (rule_map m)"
  "list_all (\<lambda>e. route_rules_codec.fixed (snd e)) r \<Longrightarrow> bt_inv r \<Longrightarrow>
     convert_route_rules (map_values (map route_rule_wire) (rule_map r)) = Ok (rule_map r)"
  unfolding convert_proxy_rules_def convert_route_rules_def rule_map_def
  by (intro proxy_rules_codec.convert_map_back route_rules_codec.convert_map_back; simp add: bt_inv_filter list_all_filter)+

lemma convert_services_back: "list_all service_fixed m \<Longrightarrow> map convert_service (map_values service_wire_of m) = m"
  by (induction m) (auto simp: service_fixed_def map_values_def)

lemma try_from_wire_of:
  assumes "config_fixed c"
  shows "config_try_from (wire_of c) = Ok (pruned c)"
proof -
  note c = assms [unfolded config_fixed_def rules_fixed_def]
  have sorted: "maps_sorted c" using c by blast
  have lists: "convert_proxies (map proxy_wire_of (cfg_proxies c)) = Ok (cfg_proxies c)"
    "convert_linked (map linked_wire_of (cfg_linked c)) = Ok (cfg_linked c)"
    "try_map convert_override (map override_wire_of (cfg_overrides c)) = Ok (cfg_overrides c)"
    using c by (simp_all add: convert_proxies_def convert_linked_def proxy_codec.try_map_back site_codec.try_map_back
        override_codec.try_map_back)
  show ?thesis
    using c sorted
    by (simp add: config_try_from_def convert_parts_def wire_of_def maps_sorted_def convert_php_back convert_domains_back convert_rules_back
        convert_services_back lists bt_collect_id pruned_def)
qed

section \<open>What loading gives\<close>

lemma defaulted_pred: "defaulted m k f d = Some x \<Longrightarrow> (\<And>v y. f v = Some y \<Longrightarrow> P y) \<Longrightarrow> P d \<Longrightarrow> P x"
  by (auto simp: defaulted_def split: option.splits)

lemma bt_inv_Nil [simp]: "bt_inv []"
  by (simp add: bt_inv_def)

lemma read_map_inv: "read_map f v = Some m \<Longrightarrow> bt_inv m"
  by (cases v) auto

lemma read_map_values_pred:
  assumes "read_map f v = Some m" "\<And>x y. f x = Some y \<Longrightarrow> P y"
  shows "list_all (\<lambda>e. P (snd e)) m"
proof (cases v)
  case (TTable t)
  obtain es where es: "those (map (\<lambda>(k, v). map_option (Pair k) (f v)) t) = Some es" "m = bt_collect es"
    using assms(1) TTable by auto
  have "list_all2 (\<lambda>a e. (case a of (k, v) \<Rightarrow> map_option (Pair k) (f v)) = Some e) t es"
    using es(1) by (simp add: those_Some)
  then have "\<forall>e \<in> set es. P (snd e)"
    using assms(2) by (induction t es rule: list_all2_induct) auto
  then show ?thesis using bt_collect_member [of _ es] by (auto simp: es(2) list_all_iff)
qed (use assms(1) in auto)

text \<open>The maps of a wire struct that end up in the configuration as they are.\<close>

definition wire_sorted :: "wire \<Rightarrow> bool" where
  "wire_sorted w \<longleftrightarrow>
     bt_inv (phw_settings (w_php w)) \<and> list_all (\<lambda>e. bt_inv (snd e)) (phw_version_settings (w_php w))
     \<and> list_all (\<lambda>e. bt_inv (snd e)) (phw_directives (w_php w)) \<and> list_all (\<lambda>e. bt_inv (snd e)) (phw_pool (w_php w))
     \<and> bt_inv (parked_paths (w_parked w)) \<and> list_all (\<lambda>e. bt_inv (sw_overrides (snd e))) (w_services w)
     \<and> bt_inv (dumps_features (w_dumps w)) \<and> bt_inv (tunnel_named (w_tunnel w)) \<and> bt_inv (tunnel_sites (w_tunnel w))
     \<and> bt_inv (group_members (w_groups w))"

lemma read_php_sorted:
  assumes "read_php v = Some p"
  shows "bt_inv (phw_settings p) \<and> list_all (\<lambda>e. bt_inv (snd e)) (phw_version_settings p)
    \<and> list_all (\<lambda>e. bt_inv (snd e)) (phw_directives p) \<and> list_all (\<lambda>e. bt_inv (snd e)) (phw_pool p)"
proof -
  have inner: "list_all (\<lambda>e. bt_inv (snd e)) x" if "defaulted m k (read_map (read_map read_string)) [] = Some x" for m k x
    using that by (rule defaulted_pred) (auto intro: read_map_values_pred read_map_inv)
  have outer: "bt_inv x" if "defaulted m k (read_map read_string) [] = Some x" for m k x
    using that by (rule defaulted_pred) (auto intro: read_map_inv)
  show ?thesis
    using assms unfolding read_php_def bind_eq_Some_conv by (auto intro: inner outer)
qed

lemma read_section_sorted:
  "read_parked v = Some a \<Longrightarrow> bt_inv (parked_paths a)"
  "read_service v = Some b \<Longrightarrow> bt_inv (sw_overrides b)"
  "read_dumps v = Some c \<Longrightarrow> bt_inv (dumps_features c)"
  "read_tunnel v = Some d \<Longrightarrow> bt_inv (tunnel_named d) \<and> bt_inv (tunnel_sites d)"
  "read_groups v = Some e \<Longrightarrow> bt_inv (group_members e)"
proof -
  have b: "bt_inv x" if "defaulted m k (read_map read_bool) [] = Some x" for m k x
    using that by (rule defaulted_pred) (auto intro: read_map_inv)
  have s: "bt_inv x" if "defaulted m k (read_map read_string) [] = Some x" for m k x
    using that by (rule defaulted_pred) (auto intro: read_map_inv)
  have p: "bt_inv x" if "defaulted m k read_set [] = Some x" for m k x
    using that by (rule defaulted_pred) (auto simp: read_set_def)
  show "read_parked v = Some a \<Longrightarrow> bt_inv (parked_paths a)"
    unfolding read_parked_def bind_eq_Some_conv by (auto intro: p)
  show "read_service v = Some b \<Longrightarrow> bt_inv (sw_overrides b)"
    unfolding read_service_def bind_eq_Some_conv by (auto intro: s)
  show "read_dumps v = Some c \<Longrightarrow> bt_inv (dumps_features c)"
    unfolding read_dumps_def bind_eq_Some_conv by (auto intro: b)
  show "read_tunnel v = Some d \<Longrightarrow> bt_inv (tunnel_named d) \<and> bt_inv (tunnel_sites d)"
    unfolding read_tunnel_def bind_eq_Some_conv by (auto intro: s)
  show "read_groups v = Some e \<Longrightarrow> bt_inv (group_members e)"
    unfolding read_groups_def bind_eq_Some_conv by (auto intro: s)
qed

lemma read_wire_sorted:
  assumes "read_wire v = Some w"
  shows "wire_sorted w"
proof -
  obtain m where m: "defaulted m ''php'' read_php php_wire_default = Some (w_php w)"
      "defaulted m ''parked'' read_parked \<lparr>parked_paths = []\<rparr> = Some (w_parked w)"
      "defaulted m ''services'' (read_map read_service) [] = Some (w_services w)"
      "defaulted m ''dumps'' read_dumps dumps_default = Some (w_dumps w)"
      "defaulted m ''tunnel'' read_tunnel \<lparr>tunnel_named = [], tunnel_sites = []\<rparr> = Some (w_tunnel w)"
      "defaulted m ''groups'' read_groups \<lparr>group_order = [], group_members = []\<rparr> = Some (w_groups w)"
    using assms unfolding read_wire_def bind_eq_Some_conv by auto
  have "list_all (\<lambda>e. bt_inv (sw_overrides (snd e))) (w_services w)"
    using m(3) by (rule defaulted_pred) (auto intro: read_map_values_pred read_section_sorted)
  moreover have "bt_inv (phw_settings (w_php w)) \<and> list_all (\<lambda>e. bt_inv (snd e)) (phw_version_settings (w_php w))
      \<and> list_all (\<lambda>e. bt_inv (snd e)) (phw_directives (w_php w)) \<and> list_all (\<lambda>e. bt_inv (snd e)) (phw_pool (w_php w))"
    using m(1) by (rule defaulted_pred) (simp_all add: read_php_sorted php_wire_default_def)
  moreover have "bt_inv (parked_paths (w_parked w))"
    using m(2) by (rule defaulted_pred) (simp_all add: read_section_sorted)
  moreover have "bt_inv (dumps_features (w_dumps w))"
    using m(4) by (rule defaulted_pred) (simp_all add: read_section_sorted dumps_default_def)
  moreover have "bt_inv (tunnel_named (w_tunnel w)) \<and> bt_inv (tunnel_sites (w_tunnel w))"
    using m(5) by (rule defaulted_pred) (simp_all add: read_section_sorted)
  moreover have "bt_inv (group_members (w_groups w))"
    using m(6) by (rule defaulted_pred) (simp_all add: read_section_sorted)
  ultimately show ?thesis by (simp add: wire_sorted_def)
qed

lemma convert_php_fixed:
  assumes "convert_php w = Ok p" "list_all (\<lambda>e. bt_inv (snd e)) (phw_version_settings w)"
    "list_all (\<lambda>e. bt_inv (snd e)) (phw_directives w)" "list_all (\<lambda>e. bt_inv (snd e)) (phw_pool w)"
  shows "php_fixed p \<and> inner_inv (php_version_settings p) \<and> inner_inv (php_directives p) \<and> inner_inv (php_pool p)
    \<and> php_settings p = phw_settings w"
proof -
  obtain dflt where d: "php_version_from_str (phw_default w) = Ok dflt" "php_default p = dflt"
    and e: "convert_extensions (phw_extensions w) = Ok (php_extensions p)"
    and v: "convert_kept keep_setting (phw_version_settings w) = Ok (php_version_settings p)"
    and ds: "convert_kept directive_ok (phw_directives w) = Ok (php_directives p)"
    and pl: "convert_kept keep_pool (phw_pool w) = Ok (php_pool p)"
    and st: "php_settings p = phw_settings w"
    using assms(1)
    by (auto simp: convert_php_def and_then_Ok_iff convert_version_settings_def convert_directives_def convert_pool_def)
  have inner: "bt_inv x" if "list_all (\<lambda>e. bt_inv (snd e)) m" "(k, x) \<in> set m" for k x and m :: "(string \<times> string_map) list"
    using that by (auto simp: list_all_iff)
  show ?thesis
    using d(2) st php_version_from_str_range [OF d(1)] convert_extensions_fixed [OF e]
      convert_kept_fixed [OF v inner [OF assms(2)]] convert_kept_fixed [OF ds inner [OF assms(3)]]
      convert_kept_fixed [OF pl inner [OF assms(4)]]
    by (simp add: php_fixed_def)
qed

lemma convert_service_overrides_again:
  "convert_service_overrides k (convert_service_overrides k m) = convert_service_overrides k m"
  by (simp add: convert_service_overrides_def split: option.split)

lemma convert_service_fixed: "service_fixed (convert_service e)"
  by (simp add: service_fixed_def convert_service_def service_wire_of_def case_prod_unfold convert_service_overrides_again)

lemma convert_services_fixed:
  assumes "list_all (\<lambda>e. bt_inv (sw_overrides (snd e))) ws"
  shows "list_all service_fixed (bt_collect (map convert_service ws))
    \<and> (\<forall>(n, i) \<in> set (bt_collect (map convert_service ws)). bt_inv (inst_overrides i))"
proof -
  have "bt_inv (inst_overrides (snd (convert_service e)))" if "e \<in> set ws" for e
    using assms that by (auto simp: list_all_iff convert_service_def case_prod_unfold convert_service_overrides_def
        bt_inv_filter split: option.split)
  then have "\<forall>x \<in> set (map convert_service ws). service_fixed x \<and> bt_inv (inst_overrides (snd x))"
    using convert_service_fixed by simp
  then have "\<forall>x \<in> set (bt_collect (map convert_service ws)). service_fixed x \<and> bt_inv (inst_overrides (snd x))"
    using bt_collect_member by blast
  then show ?thesis by (simp add: list_all_iff case_prod_unfold)
qed

lemma convert_domains_fixed:
  "convert_domains w = Ok d \<Longrightarrow> deltas_fixed d \<and> bt_inv (dom_linked d) \<and> bt_inv (dom_parked d) \<and> bt_inv (dom_proxy d)"
  by (auto simp: convert_domains_def and_then_Ok_iff convert_domain_deltas_def deltas_fixed_def
      dest!: delta_codec.convert_map_fixed)

lemma convert_parts_Ok:
  assumes "convert_parts w = Ok pt"
  shows "tld_new (w_tld w) = Ok (pt_tld pt)" "convert_php (w_php w) = Ok (pt_php pt)"
    "try_map convert_override (w_overrides w) = Ok (pt_overrides pt)" "convert_linked (w_linked w) = Ok (pt_linked pt)"
    "convert_domains (w_domains w) = Ok (pt_domains pt)" "convert_proxies (w_proxies w) = Ok (pt_proxies pt)"
    "convert_proxy_rules (rsw_linked (w_proxy_rules w)) = Ok (prs_linked (pt_proxy_rules pt))"
    "convert_proxy_rules (rsw_parked (w_proxy_rules w)) = Ok (prs_parked (pt_proxy_rules pt))"
    "convert_route_rules (rsw_linked (w_route_rules w)) = Ok (rrs_linked (pt_route_rules pt))"
    "convert_route_rules (rsw_parked (w_route_rules w)) = Ok (rrs_parked (pt_route_rules pt))"
proof -
  obtain tld php ovs linked domains proxies prl prp rrl rrp where r:
      "via_core (tld_new (w_tld w)) = Ok tld" "convert_php (w_php w) = Ok php" "try_map convert_override (w_overrides w) = Ok ovs"
      "convert_linked (w_linked w) = Ok linked" "convert_domains (w_domains w) = Ok domains" "convert_proxies (w_proxies w) = Ok proxies"
      "convert_proxy_rules (rsw_linked (w_proxy_rules w)) = Ok prl" "convert_proxy_rules (rsw_parked (w_proxy_rules w)) = Ok prp"
      "convert_route_rules (rsw_linked (w_route_rules w)) = Ok rrl" "convert_route_rules (rsw_parked (w_route_rules w)) = Ok rrp"
    and pt: "Ok \<lparr>pt_tld = tld, pt_php = php, pt_overrides = ovs, pt_linked = linked, pt_domains = domains,
      pt_proxies = proxies, pt_proxy_rules = \<lparr>prs_linked = prl, prs_parked = prp\<rparr>,
      pt_route_rules = \<lparr>rrs_linked = rrl, rrs_parked = rrp\<rparr>\<rparr> = (Ok pt :: (config_error, parts) result)"
    using assms unfolding convert_parts_def and_then_Ok_iff by blast
  then have "pt = \<lparr>pt_tld = tld, pt_php = php, pt_overrides = ovs, pt_linked = linked, pt_domains = domains,
      pt_proxies = proxies, pt_proxy_rules = \<lparr>prs_linked = prl, prs_parked = prp\<rparr>,
      pt_route_rules = \<lparr>rrs_linked = rrl, rrs_parked = rrp\<rparr>\<rparr>" by simp
  with r show "tld_new (w_tld w) = Ok (pt_tld pt)" "convert_php (w_php w) = Ok (pt_php pt)"
    "try_map convert_override (w_overrides w) = Ok (pt_overrides pt)" "convert_linked (w_linked w) = Ok (pt_linked pt)"
    "convert_domains (w_domains w) = Ok (pt_domains pt)" "convert_proxies (w_proxies w) = Ok (pt_proxies pt)"
    "convert_proxy_rules (rsw_linked (w_proxy_rules w)) = Ok (prs_linked (pt_proxy_rules pt))"
    "convert_proxy_rules (rsw_parked (w_proxy_rules w)) = Ok (prs_parked (pt_proxy_rules pt))"
    "convert_route_rules (rsw_linked (w_route_rules w)) = Ok (rrs_linked (pt_route_rules pt))"
    "convert_route_rules (rsw_parked (w_route_rules w)) = Ok (rrs_parked (pt_route_rules pt))"
    by simp_all
qed

lemma loaded_fixed:
  assumes w: "wire_sorted w" and c: "config_try_from w = Ok c"
  shows "config_fixed c"
proof -
  obtain pt where pt: "convert_parts w = Ok pt" and
    plain: "cfg_version c = CURRENT_VERSION" "cfg_parked c = w_parked w" "cfg_dumps c = w_dumps w"
      "cfg_tunnel c = w_tunnel w" "cfg_groups c = w_groups w"
      "instances (cfg_services c) = bt_collect (map convert_service (w_services w))"
      "cfg_tld c = pt_tld pt" "cfg_php c = pt_php pt" "cfg_linked c = pt_linked pt" "cfg_overrides c = bt_collect (pt_overrides pt)"
      "cfg_domains c = pt_domains pt" "cfg_proxies c = pt_proxies pt" "cfg_proxy_rules c = pt_proxy_rules pt"
      "cfg_route_rules c = pt_route_rules pt"
    using c by (auto simp: config_try_from_def split: if_splits result.splits)
  note r = convert_parts_Ok [OF pt]
  have tld: "tld_new (w_tld w) = Ok (cfg_tld c)" and php: "convert_php (w_php w) = Ok (cfg_php c)"
    and linked: "convert_linked (w_linked w) = Ok (cfg_linked c)" and domains: "convert_domains (w_domains w) = Ok (cfg_domains c)"
    and proxies: "convert_proxies (w_proxies w) = Ok (cfg_proxies c)"
    and prl: "convert_proxy_rules (rsw_linked (w_proxy_rules w)) = Ok (prs_linked (cfg_proxy_rules c))"
    and prp: "convert_proxy_rules (rsw_parked (w_proxy_rules w)) = Ok (prs_parked (cfg_proxy_rules c))"
    and rrl: "convert_route_rules (rsw_linked (w_route_rules w)) = Ok (rrs_linked (cfg_route_rules c))"
    and rrp: "convert_route_rules (rsw_parked (w_route_rules w)) = Ok (rrs_parked (cfg_route_rules c))"
    and ovs: "try_map convert_override (w_overrides w) = Ok (pt_overrides pt)" "cfg_overrides c = bt_collect (pt_overrides pt)"
    using r by (simp_all add: plain)
  have p: "php_fixed (cfg_php c)" "inner_inv (php_version_settings (cfg_php c))" "inner_inv (php_directives (cfg_php c))"
    "inner_inv (php_pool (cfg_php c))" "php_settings (cfg_php c) = phw_settings (w_php w)"
    using convert_php_fixed [OF php] w by (simp_all add: wire_sorted_def)
  have s: "list_all service_fixed (instances (cfg_services c))" "\<forall>(n, i) \<in> set (instances (cfg_services c)). bt_inv (inst_overrides i)"
    using convert_services_fixed [of "w_services w"] w unfolding plain(6) wire_sorted_def by blast+
  have d: "deltas_fixed (cfg_domains c)" "bt_inv (dom_linked (cfg_domains c))" "bt_inv (dom_parked (cfg_domains c))"
    "bt_inv (dom_proxy (cfg_domains c))"
    using convert_domains_fixed [OF domains] by blast+
  have overrides: "list_all override_codec.fixed (cfg_overrides c)"
    using override_codec.try_map_fixed [OF ovs(1)] bt_collect_member [of _ "pt_overrides pt"]
    by (auto simp: ovs(2) list_all_iff)
  have rules: "rules_fixed (cfg_proxy_rules c) (cfg_route_rules c)" "bt_inv (prs_linked (cfg_proxy_rules c))"
    "bt_inv (prs_parked (cfg_proxy_rules c))" "bt_inv (rrs_linked (cfg_route_rules c))" "bt_inv (rrs_parked (cfg_route_rules c))"
    using proxy_rules_codec.convert_map_fixed [OF prl [unfolded convert_proxy_rules_def]]
      proxy_rules_codec.convert_map_fixed [OF prp [unfolded convert_proxy_rules_def]]
      route_rules_codec.convert_map_fixed [OF rrl [unfolded convert_route_rules_def]]
      route_rules_codec.convert_map_fixed [OF rrp [unfolded convert_route_rules_def]]
    by (simp_all add: rules_fixed_def)
  have versions: "versions_ok (php_extensions (cfg_php c))" "versions_ok (php_version_settings (cfg_php c))"
    "versions_ok (php_directives (cfg_php c))" "versions_ok (php_pool (cfg_php c))"
    using p(1) by (simp_all add: php_fixed_def kept_ok_def)
  have sorted: "maps_sorted c"
    using w versions unfolding maps_sorted_def wire_sorted_def versions_ok_def plain(2-5) p(5)
    by (simp add: p d s rules plain(6) ovs(2))
  show ?thesis
    unfolding config_fixed_def
    using sorted p(1) d(1) s(1) rules(1) overrides plain(1) tld.revalidates [OF tld]
      site_codec.try_map_fixed [OF linked [unfolded convert_linked_def]]
      proxy_codec.try_map_fixed [OF proxies [unfolded convert_proxies_def]]
    by blast
qed

section \<open>Saving and loading again\<close>

lemma no_deltas_iff: "list_all delta_is_empty (bt_values m) \<longleftrightarrow> domain_delta_map m = []"
  by (induction m) (auto simp: domain_delta_map_def bt_values_def)

lemma domain_delta_map_again [simp]: "domain_delta_map (domain_delta_map m) = domain_delta_map m"
  by (simp add: domain_delta_map_def)

lemma rule_map_again [simp]: "rule_map (rule_map m) = rule_map m"
  by (simp add: rule_map_def)

lemma pruned_again: "pruned (pruned c) = pruned c"
  by (simp add: pruned_def)

lemma pruned_written: "to_toml_value (pruned c) = to_toml_value c"
proof -
  have "write_rules f (rule_map l) (rule_map p) = write_rules f l p" for f and l p :: "(string, proxy_rule list) btree_map"
    by (simp add: write_rules_def)
  moreover have "write_rules f (rule_map l) (rule_map p) = write_rules f l p" for f and l p :: "(string, route_rule list) btree_map"
    by (simp add: write_rules_def)
  moreover have "write_domains \<lparr>dom_linked = domain_delta_map (dom_linked s), dom_parked = domain_delta_map (dom_parked s),
      dom_proxy = domain_delta_map (dom_proxy s)\<rparr> = write_domains s" for s
    by (simp add: write_domains_def no_deltas_iff Let_def)
  ultimately show ?thesis by (simp add: to_toml_value_def pruned_def)
qed

lemma pruned_valid:
  assumes "config_validate c = Ok ()"
  shows "config_validate (pruned c) = Ok ()"
proof -
  have "deltas_ok m \<Longrightarrow> deltas_ok (domain_delta_map m)" for m
    by (auto simp: deltas_ok_def domain_delta_map_def)
  moreover have "rule_map_ok P names m \<Longrightarrow> rule_map_ok P names (rule_map m)" for P names and m :: "(string, proxy_rule list) btree_map"
    by (auto simp: rule_map_ok_def rule_map_def)
  moreover have "rule_map_ok P names m \<Longrightarrow> rule_map_ok P names (rule_map m)" for P names and m :: "(string, route_rule list) btree_map"
    by (auto simp: rule_map_ok_def rule_map_def)
  ultimately show ?thesis
    using assms by (simp add: config_valid_iff pruned_def)
qed

lemma of_toml_value_written:
  assumes "of_toml_value v = Ok c"
  shows "of_toml_value (to_toml_value c) = Ok (pruned c)"
proof -
  obtain w where w: "read_wire v = Some w" "config_try_from w = Ok c" "config_validate c = Ok ()"
    using assms by (auto simp: of_toml_value_def split: option.splits result.splits)
  have c: "config_fixed c" using loaded_fixed [OF read_wire_sorted [OF w(1)] w(2)] .
  then have "read_wire (to_toml_value c) = Some (wire_of c)"
    by (intro read_wire_write) (simp add: config_fixed_def)
  then show ?thesis
    using try_from_wire_of [OF c] pruned_valid [OF w(3)] by (simp add: of_toml_value_def)
qed

lemma to_toml_value_version: "read_version (to_toml_value c) = Ok CURRENT_VERSION"
proof -
  have "distinct (map fst fields) \<Longrightarrow> map_of fields ''version'' = Some (Some (TInteger (int CURRENT_VERSION))) \<Longrightarrow>
      read_version (write_struct fields) = Ok CURRENT_VERSION" for fields
    unfolding write_struct_def struct_entries_def [symmetric] by (simp add: read_version_def struct_get CURRENT_VERSION_def)
  then show ?thesis unfolding to_toml_value_def by simp
qed

text \<open>
  C5: the configuration file keeps the configuration. Whatever text loads, of any version, saving
  the loaded configuration and loading the file again gives the same configuration, less the empty
  domain deltas and empty rule lists, which mean nothing; saving that once more writes the same
  document. Of the \<open>toml\<close> crate it is assumed that it parses what it printed.
\<close>

theorem config_survives_reload:
  assumes toml_crate: "\<And>doc out. toml_print doc = Some out \<Longrightarrow> toml_parse out = Some doc"
    and loaded: "parse_toml toml_parse s = Ok c" and saved: "to_toml toml_print c = Ok s'"
  shows "parse_toml toml_parse s' = Ok (pruned c) \<and> to_toml toml_print (pruned c) = Ok s'"
proof -
  obtain v where v: "of_toml_value v = Ok c"
    using loaded by (auto simp: parse_toml_def split: option.splits result.splits if_splits)
  have p: "toml_print (to_toml_value c) = Some s'"
    using saved by (simp add: to_toml_def split: option.splits)
  then have "toml_parse s' = Some (to_toml_value c)" by (rule toml_crate)
  then have "parse_toml toml_parse s' = Ok (pruned c)"
    using of_toml_value_written [OF v] by (simp add: parse_toml_def to_toml_value_version)
  then show ?thesis using p by (simp add: to_toml_def pruned_written)
qed

text \<open>A printer that knows one document, and its parser.\<close>

definition demo_print :: "toml \<Rightarrow> string option" where
  "demo_print doc = (if doc = to_toml_value config_default_value then Some ''yerd.toml'' else None)"

definition demo_parse :: "string \<Rightarrow> toml option" where
  "demo_parse s = (if s = ''yerd.toml'' then Some (to_toml_value config_default_value) else None)"

theorem config_survives_reload_witness:
  "parse_toml demo_parse ''yerd.toml'' = Ok config_default_value
   \<and> to_toml demo_print (pruned config_default_value) = Ok ''yerd.toml''"
proof -
  have p: "pruned config_default_value = config_default_value"
    by (simp add: pruned_def config_default_value_def domain_delta_map_def rule_map_def bt_empty_def)
  have l: "parse_toml demo_parse ''yerd.toml'' = Ok config_default_value"
    by code_simp
  have s: "to_toml demo_print config_default_value = Ok ''yerd.toml''"
    by (simp add: to_toml_def demo_print_def)
  have "demo_parse out = Some doc" if "demo_print doc = Some out" for doc out
    using that by (auto simp: demo_print_def demo_parse_def split: if_splits)
  from config_survives_reload [OF this l s] show ?thesis by (simp add: p)
qed

end
