(* ===== verification/Frame_Codec.thy ===== *)
theory Frame_Codec
  imports Big_Endian
begin

text \<open>
  \<open>crates/yerd-ipc/src/frame.rs\<close>: the length-prefixed frame codec of the daemon's socket. Bytes are
  8-bit words. \<open>usize\<close> values are natural numbers (the buffer length is bounded by memory).
\<close>

datatype frame_error = TooLarge nat nat | PayloadOverflowsLengthPrefix nat

definition DEFAULT_MAX_FRAME :: nat where
  "DEFAULT_MAX_FRAME = 16 * 1024 * 1024"

definition HEADER_LEN :: nat where
  "HEADER_LEN = 4"

definition check_payload_length :: "nat \<Rightarrow> nat \<Rightarrow> (frame_error, nat) result" where
  "check_payload_length len mx =
     (if len > mx then Err (TooLarge len mx)
      else if len \<le> 4294967295 then Ok len else Err (PayloadOverflowsLengthPrefix len))"

definition encode_frame :: "u8 list \<Rightarrow> nat \<Rightarrow> (frame_error, u8 list) result" where
  "encode_frame payload mx =
     (case check_payload_length (length payload) mx of
        Err e \<Rightarrow> Err e
      | Ok len \<Rightarrow> Ok (to_be32 len @ payload))"

record frame_decoder =
  fbuf :: "u8 list"
  fmax :: nat
  poisoned :: "frame_error option"

definition decoder_with_max :: "nat \<Rightarrow> frame_decoder" where
  "decoder_with_max mx = \<lparr>fbuf = [], fmax = mx, poisoned = None\<rparr>"

definition decoder_new :: frame_decoder where
  "decoder_new = decoder_with_max DEFAULT_MAX_FRAME"

definition buffered :: "frame_decoder \<Rightarrow> nat" where
  "buffered d = length (fbuf d)"

definition extend_from_slice :: "u8 list \<Rightarrow> frame_decoder \<Rightarrow> frame_decoder" where
  "extend_from_slice chunk d = (if is_some (poisoned d) then d else d\<lparr>fbuf := fbuf d @ chunk\<rparr>)"

definition next_frame :: "frame_decoder \<Rightarrow> (frame_error, u8 list option) result \<times> frame_decoder" where
  "next_frame d =
     (case poisoned d of
        Some err \<Rightarrow> (Err err, d)
      | None \<Rightarrow>
          if length (fbuf d) < HEADER_LEN then (Ok None, d)
          else
            let declared = from_be (take HEADER_LEN (fbuf d))
            in if declared > fmax d then
                 (let err = TooLarge declared (fmax d)
                  in (Err err, d\<lparr>poisoned := Some err, fbuf := []\<rparr>))
               else
                 let total = HEADER_LEN + declared
                 in if length (fbuf d) < total then (Ok None, d)
                    else (Ok (Some (drop HEADER_LEN (take total (fbuf d)))), d\<lparr>fbuf := drop total (fbuf d)\<rparr>))"

section \<open>A reader that drains the decoder\<close>

text \<open>All the frames that are ready: \<open>next_frame\<close> until it has none, or fails.\<close>

function drain :: "frame_decoder \<Rightarrow> u8 list list \<times> frame_decoder" where
  "drain d =
     (case next_frame d of
        (Ok (Some p), d') \<Rightarrow> (case drain d' of (ps, d'') \<Rightarrow> (p # ps, d''))
      | (_, d') \<Rightarrow> ([], d'))"
  by pat_completeness auto
termination
  by (relation "measure (\<lambda>d. length (fbuf d))")
    (auto simp: next_frame_def HEADER_LEN_def Let_def split: option.splits if_splits)

declare drain.simps [simp del]

text \<open>Reading a stream that arrives in chunks, draining after each.\<close>

fun feed_all :: "frame_decoder \<Rightarrow> u8 list list \<Rightarrow> u8 list list \<times> frame_decoder" where
  "feed_all d [] = ([], d)"
| "feed_all d (c # cs) =
     (case drain (extend_from_slice c d) of
        (ps, d') \<Rightarrow> (case feed_all d' cs of (qs, d'') \<Rightarrow> (ps @ qs, d'')))"

lemma next_frame_cases:
  obtains (poison) err where "poisoned d = Some err" "next_frame d = (Err err, d)"
  | (wait) "poisoned d = None" "next_frame d = (Ok None, d)"
  | (large) err where "poisoned d = None" "next_frame d = (Err err, d\<lparr>poisoned := Some err, fbuf := []\<rparr>)"
      "HEADER_LEN \<le> length (fbuf d)" "err = TooLarge (from_be (take HEADER_LEN (fbuf d))) (fmax d)"
      "from_be (take HEADER_LEN (fbuf d)) > fmax d"
  | (frame) n where "poisoned d = None" "n = HEADER_LEN + from_be (take HEADER_LEN (fbuf d))"
      "n \<le> length (fbuf d)" "from_be (take HEADER_LEN (fbuf d)) \<le> fmax d"
      "next_frame d = (Ok (Some (drop HEADER_LEN (take n (fbuf d)))), d\<lparr>fbuf := drop n (fbuf d)\<rparr>)"
proof (cases "poisoned d")
  case (Some err)
  then show ?thesis by (intro poison) (simp_all add: next_frame_def)
next
  case None
  let ?n = "from_be (take HEADER_LEN (fbuf d))"
  consider "length (fbuf d) < HEADER_LEN" | "HEADER_LEN \<le> length (fbuf d)" "?n > fmax d"
    | "HEADER_LEN \<le> length (fbuf d)" "?n \<le> fmax d" "length (fbuf d) < HEADER_LEN + ?n"
    | "HEADER_LEN \<le> length (fbuf d)" "?n \<le> fmax d" "HEADER_LEN + ?n \<le> length (fbuf d)"
    by linarith
  then show ?thesis
  proof cases
    case 1
    with None show ?thesis by (intro wait) (simp_all add: next_frame_def)
  next
    case 2
    with None show ?thesis by (intro large) (simp_all add: next_frame_def Let_def)
  next
    case 3
    with None show ?thesis by (intro wait) (simp_all add: next_frame_def Let_def)
  next
    case 4
    with None show ?thesis by (intro frame) (simp_all add: next_frame_def Let_def)
  qed
qed

lemma drain_stops: "next_frame d = (x, d') \<Longrightarrow> \<forall>p. x \<noteq> Ok (Some p) \<Longrightarrow> drain d = ([], d')"
  by (cases x; cases "ok x") (auto simp: drain.simps [of d] split: option.splits)

lemma drain_frame:
  "next_frame d = (Ok (Some p), d') \<Longrightarrow> drain d = (case drain d' of (ps, d'') \<Rightarrow> (p # ps, d''))"
  by (simp add: drain.simps [of d])

lemma extend_poisoned: "poisoned d = Some e \<Longrightarrow> extend_from_slice c d = d"
  by (simp add: extend_from_slice_def)

lemma extend_healthy: "poisoned d = None \<Longrightarrow> extend_from_slice c d = d\<lparr>fbuf := fbuf d @ c\<rparr>"
  by (simp add: extend_from_slice_def)

lemma drain_poisoned: "poisoned d = Some e \<Longrightarrow> drain d = ([], d)"
  by (rule drain_stops [of d "Err e"]) (simp_all add: next_frame_def)

text \<open>Draining before more bytes come gives the same frames and the same decoder as waiting.\<close>

lemma drain_extend:
  "drain (extend_from_slice c d) =
     (case drain d of (ps, d') \<Rightarrow>
        (case drain (extend_from_slice c d') of (qs, d'') \<Rightarrow> (ps @ qs, d'')))"
proof (induction d rule: drain.induct)
  case (1 d)
  show ?case
  proof (cases d rule: next_frame_cases)
    case (poison err)
    then show ?thesis by (simp add: extend_poisoned drain_poisoned)
  next
    case wait
    then have "drain d = ([], d)" by (intro drain_stops) auto
    then show ?thesis by (simp split: prod.split)
  next
    case (large err)
    let ?p = "d\<lparr>poisoned := Some err, fbuf := []\<rparr>"
    have d: "drain d = ([], ?p)"
      using large by (intro drain_stops) auto
    have "next_frame (extend_from_slice c d) = (Err err, ?p)"
      using large by (simp add: extend_healthy next_frame_def Let_def)
    then have "drain (extend_from_slice c d) = ([], ?p)"
      by (intro drain_stops) auto
    then show ?thesis
      using d by (simp add: extend_poisoned drain_poisoned)
  next
    case (frame n)
    let ?d = "d\<lparr>fbuf := drop n (fbuf d)\<rparr>" and ?p = "drop HEADER_LEN (take n (fbuf d))"
    have "next_frame (extend_from_slice c d) = (Ok (Some ?p), extend_from_slice c ?d)"
      using frame by (simp add: extend_healthy next_frame_def Let_def)
    then have "drain (extend_from_slice c d) = (case drain (extend_from_slice c ?d) of (ps, d'') \<Rightarrow> (?p # ps, d''))"
      by (rule drain_frame)
    moreover have "drain d = (case drain ?d of (ps, d'') \<Rightarrow> (?p # ps, d''))"
      using frame(5) by (rule drain_frame)
    ultimately show ?thesis
      using 1 [OF frame(5) [symmetric]] by (auto split: prod.split)
  qed
qed

lemma extend_extend: "extend_from_slice b (extend_from_slice a d) = extend_from_slice (a @ b) d"
  by (simp add: extend_from_slice_def)

lemma extend_Nil: "extend_from_slice [] d = d"
  by (simp add: extend_from_slice_def)

lemma drain_idle: "drain d = (ps, d') \<Longrightarrow> drain d' = ([], d')"
proof (induction d arbitrary: ps rule: drain.induct)
  case (1 d)
  show ?case
  proof (cases d rule: next_frame_cases)
    case (poison err)
    with 1 show ?thesis by (simp add: drain_poisoned)
  next
    case wait
    then have "drain d = ([], d)" by (intro drain_stops) auto
    with 1 show ?thesis by simp
  next
    case (large err)
    then have "drain d = ([], d\<lparr>poisoned := Some err, fbuf := []\<rparr>)" by (intro drain_stops) auto
    then have "poisoned d' = Some err" using "1.prems" by auto
    then show ?thesis by (rule drain_poisoned)
  next
    case (frame n)
    obtain qs where "drain (d\<lparr>fbuf := drop n (fbuf d)\<rparr>) = (qs, d')"
      using 1 drain_frame [OF frame(5)] by (auto split: prod.splits)
    then show ?thesis
      by (rule "1.IH" [OF frame(5) [symmetric] refl refl])
  qed
qed

text \<open>How a stream is cut into chunks makes no difference, from any drained decoder.\<close>

lemma feed_all_concat:
  assumes "drain d = ([], d)"
  shows "feed_all d cs = drain (extend_from_slice (concat cs) d)"
  using assms
proof (induction cs arbitrary: d)
  case Nil
  then show ?case by (simp add: extend_Nil)
next
  case (Cons c cs)
  obtain ps d' where p: "drain (extend_from_slice c d) = (ps, d')"
    by (cases "drain (extend_from_slice c d)")
  have "drain d' = ([], d')"
    using p by (rule drain_idle)
  then have "feed_all d' cs = drain (extend_from_slice (concat cs) d')"
    by (rule Cons.IH)
  moreover have "drain (extend_from_slice (c @ concat cs) d) =
      (case drain (extend_from_slice (concat cs) d') of (qs, d'') \<Rightarrow> (ps @ qs, d''))"
    using drain_extend [of "concat cs" "extend_from_slice c d"] p by (simp add: extend_extend)
  ultimately show ?case
    using p by simp
qed

lemma decoder_idle: "drain (decoder_with_max mx) = ([], decoder_with_max mx)"
  by (rule drain_stops [of _ "Ok None"]) (auto simp: next_frame_def decoder_with_max_def HEADER_LEN_def)

lemma drain_encoded:
  assumes "\<forall>p \<in> set ps. length p \<le> mx \<and> length p \<le> 4294967295"
  shows "drain \<lparr>fbuf = concat (map (\<lambda>p. to_be32 (length p) @ p) ps), fmax = mx, poisoned = None\<rparr> =
    (ps, decoder_with_max mx)"
  using assms
proof (induction ps)
  case Nil
  then show ?case using decoder_idle [of mx] by (simp add: decoder_with_max_def)
next
  case (Cons p ps)
  let ?rest = "concat (map (\<lambda>p. to_be32 (length p) @ p) ps)"
  let ?d = "\<lparr>fbuf = to_be32 (length p) @ p @ ?rest, fmax = mx, poisoned = None\<rparr>"
  have "from_be (to_be32 (length p)) = length p"
    using Cons.prems by (intro from_be_to_be32) auto
  then have "next_frame ?d = (Ok (Some p), \<lparr>fbuf = ?rest, fmax = mx, poisoned = None\<rparr>)"
    using Cons.prems by (simp add: next_frame_def HEADER_LEN_def Let_def)
  from drain_frame [OF this] show ?case
    using Cons by simp
qed

lemma encode_frame_Ok_iff:
  "encode_frame p mx = Ok f \<longleftrightarrow> length p \<le> mx \<and> length p \<le> 4294967295 \<and> f = to_be32 (length p) @ p"
  by (auto simp: encode_frame_def check_payload_length_def)

text \<open>
  C40: a sender's frames arrive whole and in order, however the transport cuts the byte stream into
  reads: feeding any chunking of the concatenation of encoded payloads to a fresh decoder yields
  exactly the payloads and leaves the decoder empty.
\<close>

theorem frame_stream_roundtrip:
  assumes "list_all2 (\<lambda>p f. encode_frame p mx = Ok f) ps fs" "concat cs = concat fs"
  shows "feed_all (decoder_with_max mx) cs = (ps, decoder_with_max mx)"
proof -
  have "fs = map (\<lambda>p. to_be32 (length p) @ p) ps"
    using assms(1) by (induction rule: list_all2_induct) (auto simp: encode_frame_Ok_iff)
  moreover have "\<forall>p \<in> set ps. length p \<le> mx \<and> length p \<le> 4294967295"
    using assms(1) by (induction rule: list_all2_induct) (auto simp: encode_frame_Ok_iff)
  ultimately show ?thesis
    using feed_all_concat [OF decoder_idle, of mx cs] drain_encoded [of ps mx] assms(2)
    by (simp add: extend_from_slice_def decoder_with_max_def)
qed

theorem frame_stream_roundtrip_witness:
  "feed_all (decoder_with_max 1024) [[0, 0], [0, 2, 7], [8, 0, 0, 0, 0, 0], [0, 0, 1, 9]] =
     ([[7, 8], [], [9]], decoder_with_max 1024)"
proof -
  have e: "encode_frame [7, 8] 1024 = Ok [0, 0, 0, 2, 7, 8]" "encode_frame [] 1024 = Ok [0, 0, 0, 0]"
    "encode_frame [9] 1024 = Ok [0, 0, 0, 1, 9]"
    by code_simp+
  show ?thesis
    by (rule frame_stream_roundtrip [of 1024 "[[7, 8], [], [9]]" "[[0, 0, 0, 2, 7, 8], [0, 0, 0, 0], [0, 0, 0, 1, 9]]"])
      (simp_all add: e)
qed

section \<open>Oversized frames\<close>

lemma poisoned_feed: "poisoned d = Some e \<Longrightarrow> feed_all d cs = ([], d)"
  by (induction cs) (simp_all add: extend_poisoned drain_poisoned)

text \<open>
  A header that declares more than the receiver's maximum is refused before its body is
  awaited: the error names the declared size, the buffer is released, and from then on every call
  gives the same error whatever bytes arrive.
\<close>

theorem oversized_poisons:
  assumes "poisoned d = None" "4 \<le> length (fbuf d)" "fmax d < from_be (take 4 (fbuf d))"
  shows "\<exists>d'. next_frame d = (Err (TooLarge (from_be (take 4 (fbuf d))) (fmax d)), d')
    \<and> buffered d' = 0
    \<and> feed_all d' cs = ([], d')
    \<and> next_frame (extend_from_slice c d') = (Err (TooLarge (from_be (take 4 (fbuf d))) (fmax d)), d')"
proof -
  let ?e = "TooLarge (from_be (take 4 (fbuf d))) (fmax d)"
  let ?d = "d\<lparr>poisoned := Some ?e, fbuf := []\<rparr>"
  have "next_frame d = (Err ?e, ?d)"
    using assms by (simp add: next_frame_def HEADER_LEN_def Let_def)
  then show ?thesis
    using poisoned_feed [of ?d ?e cs] by (simp add: buffered_def extend_poisoned next_frame_def)
qed

theorem oversized_poisons_witness:
  "\<exists>d'. next_frame \<lparr>fbuf = [0, 0, 1, 0, 5], fmax = 16, poisoned = None\<rparr> = (Err (TooLarge 256 16), d')
    \<and> buffered d' = 0 \<and> feed_all d' [[1], [2]] = ([], d')
    \<and> next_frame (extend_from_slice [3] d') = (Err (TooLarge 256 16), d')"
proof -
  have n: "from_be [0, 0, 1, 0] = 256" by code_simp
  show ?thesis
    using oversized_poisons [of "\<lparr>fbuf = [0, 0, 1, 0, 5], fmax = 16, poisoned = None\<rparr>" "[[1], [2]]" "[3]"]
    by (simp add: n)
qed

end
