(* ===== verification/Cgi_Head.thy ===== *)
theory Cgi_Head
  imports Rust_Str
begin

text \<open>
  \<open>crates/yerd-proxy/src/pure/cgi_head.rs\<close>: finding and parsing the header block of a response that
  arrives in pieces. Bytes are \<open>char\<close>s. Two functions are parameters: \<open>lossy\<close> is
  \<open>String::from_utf8_lossy\<close>, \<open>valid_status\<close> says which numbers \<open>StatusCode::from_u16\<close> of the
  \<open>http\<close> crate accepts.
\<close>

definition MAX_HEAD_BYTES :: nat where
  "MAX_HEAD_BYTES = 64 * 1024"

definition TERMINATOR_OVERLAP :: nat where
  "TERMINATOR_OVERLAP = 3"

record head =
  head_status :: nat
  head_headers :: "(string \<times> string) list"
  body_remainder :: string

datatype head_feed = Pending | Complete head | HeadTooLarge

record head_accumulator =
  head_buf :: string

definition accumulator_new :: head_accumulator where
  "accumulator_new = \<lparr>head_buf = []\<rparr>"

definition parse_cgi_status :: "(nat \<Rightarrow> bool) \<Rightarrow> string \<Rightarrow> nat option" where
  "parse_cgi_status valid_status val =
     (let c = (case split_once (CHR '' '') val of Some (c, _) \<Rightarrow> c | None \<Rightarrow> val)
      in case parse_uint u16_max c of
           Some n \<Rightarrow> if valid_status n then Some n else None
         | None \<Rightarrow> None)"

text \<open>\<open>trim_end_matches('\r')\<close>\<close>

definition trim_end_cr :: "string \<Rightarrow> string" where
  "trim_end_cr s = rev (dropWhile (\<lambda>c. c = CR) (rev s))"

fun parse_head_lines ::
    "(string \<Rightarrow> string) \<Rightarrow> (nat \<Rightarrow> bool) \<Rightarrow> nat \<Rightarrow> (string \<times> string) list \<Rightarrow> string list \<Rightarrow> nat \<times> (string \<times> string) list" where
  "parse_head_lines lossy vs status headers [] = (status, headers)"
| "parse_head_lines lossy vs status headers (raw # rest) =
     (let line = trim_end_cr (lossy raw)
      in if line = [] then parse_head_lines lossy vs status headers rest
         else (case split_once (CHR '':'') line of
             None \<Rightarrow> parse_head_lines lossy vs status headers rest
           | Some (n, v) \<Rightarrow>
               (let name = trim n; val = trim v
                in if eq_ignore_ascii_case name ''Status''
                   then parse_head_lines lossy vs
                     (case parse_cgi_status vs val of Some c \<Rightarrow> c | None \<Rightarrow> status) headers rest
                   else parse_head_lines lossy vs status (headers @ [(name, val)]) rest)))"

definition parse_head :: "(string \<Rightarrow> string) \<Rightarrow> (nat \<Rightarrow> bool) \<Rightarrow> string \<Rightarrow> nat \<times> (string \<times> string) list" where
  "parse_head lossy vs head = parse_head_lines lossy vs 200 [] (split_on LF head)"

text \<open>The loop \<open>for i in from..buf.len()\<close>, with the rest of the buffer at \<open>i\<close>.\<close>

fun scan_terminator :: "nat \<Rightarrow> string \<Rightarrow> (nat \<times> nat) option" where
  "scan_terminator i [] = None"
| "scan_terminator i (b # bs) =
     (if take 4 (b # bs) = [CR, LF, CR, LF] then Some (i, 4)
      else if take 2 (b # bs) = [LF, LF] then Some (i, 2)
      else scan_terminator (Suc i) bs)"

definition find_header_terminator :: "string \<Rightarrow> nat \<Rightarrow> (nat \<times> nat) option" where
  "find_header_terminator buf from = scan_terminator from (drop from buf)"

definition accumulator_feed ::
    "(string \<Rightarrow> string) \<Rightarrow> (nat \<Rightarrow> bool) \<Rightarrow> string \<Rightarrow> head_accumulator \<Rightarrow> head_feed \<times> head_accumulator" where
  "accumulator_feed lossy vs chunk acc =
     (let scan_from = length (head_buf acc) - TERMINATOR_OVERLAP;
          acc = acc\<lparr>head_buf := head_buf acc @ chunk\<rparr>
      in case find_header_terminator (head_buf acc) scan_from of
           Some (offset, terminator_len) \<Rightarrow>
             (case parse_head lossy vs (take offset (head_buf acc)) of
                (status, headers) \<Rightarrow>
                  (Complete \<lparr>head_status = status, head_headers = headers,
                     body_remainder = drop terminator_len (drop offset (head_buf acc))\<rparr>, acc))
         | None \<Rightarrow> (if length (head_buf acc) > MAX_HEAD_BYTES then HeadTooLarge else Pending, acc))"

definition accumulator_finish :: "(string \<Rightarrow> string) \<Rightarrow> (nat \<Rightarrow> bool) \<Rightarrow> head_accumulator \<Rightarrow> head" where
  "accumulator_finish lossy vs acc =
     (case parse_head lossy vs (head_buf acc) of
        (status, headers) \<Rightarrow> \<lparr>head_status = status, head_headers = headers, body_remainder = []\<rparr>)"

section \<open>Where the chunks are cut does not matter\<close>

definition terminator_at :: "string \<Rightarrow> nat \<Rightarrow> nat option" where
  "terminator_at buf i =
     (if take 4 (drop i buf) = [CR, LF, CR, LF] then Some 4
      else if take 2 (drop i buf) = [LF, LF] then Some 2 else None)"

lemma terminator_at_end: "length buf \<le> i \<Longrightarrow> terminator_at buf i = None"
  by (simp add: terminator_at_def)

lemma find_step:
  "i < length buf \<Longrightarrow> find_header_terminator buf i =
     (case terminator_at buf i of Some n \<Rightarrow> Some (i, n) | None \<Rightarrow> find_header_terminator buf (Suc i))"
  by (simp add: find_header_terminator_def terminator_at_def Cons_nth_drop_Suc [symmetric])

lemma find_None_iff_terminator:
  "find_header_terminator buf i = None \<longleftrightarrow> (\<forall>j \<ge> i. terminator_at buf j = None)"
proof (induction "length buf - i" arbitrary: i)
  case 0
  then show ?case by (auto simp: find_header_terminator_def terminator_at_end)
next
  case (Suc n)
  then have "i < length buf" by simp
  moreover have "(\<forall>j \<ge> i. terminator_at buf j = None) \<longleftrightarrow>
      terminator_at buf i = None \<and> (\<forall>j \<ge> Suc i. terminator_at buf j = None)"
    by (metis Suc_leD le_eq_less_or_eq less_eq_Suc_le)
  ultimately show ?case
    using Suc by (auto simp: find_step split: option.split)
qed

text \<open>A scan may start at any point before which there is no terminator.\<close>

lemma find_skip:
  assumes "i \<le> k" "k \<le> length buf" "\<forall>j. i \<le> j \<and> j < k \<longrightarrow> terminator_at buf j = None"
  shows "find_header_terminator buf i = find_header_terminator buf k"
  using assms
proof (induction "k - i" arbitrary: i)
  case (Suc n)
  then have "i < length buf" "terminator_at buf i = None" by auto
  then have "find_header_terminator buf i = find_header_terminator buf (Suc i)"
    by (simp add: find_step)
  with Suc show ?case by simp
qed simp

lemma terminator_at_append:
  assumes "i + 4 \<le> length buf"
  shows "terminator_at (buf @ c) i = terminator_at buf i"
  using assms by (simp add: terminator_at_def)

lemma rescan_complete:
  assumes "find_header_terminator buf 0 = None"
  shows "find_header_terminator (buf @ c) (length buf - TERMINATOR_OVERLAP) = find_header_terminator (buf @ c) 0"
proof -
  have "terminator_at (buf @ c) j = None" if "j < length buf - TERMINATOR_OVERLAP" for j
    using that assms terminator_at_append [of j buf c]
    by (auto simp: find_None_iff_terminator TERMINATOR_OVERLAP_def)
  then show ?thesis
    using find_skip [of 0 "length buf - TERMINATOR_OVERLAP" "buf @ c"] by simp
qed

text \<open>Feeding chunks until the head is complete; the chunks after it are left for the body.\<close>

fun feed_chunks ::
    "(string \<Rightarrow> string) \<Rightarrow> (nat \<Rightarrow> bool) \<Rightarrow> head_accumulator \<Rightarrow> string list \<Rightarrow> head_feed \<times> string list" where
  "feed_chunks lossy vs acc [] = (Pending, [])"
| "feed_chunks lossy vs acc (c # cs) =
     (case accumulator_feed lossy vs c acc of
        (Pending, acc') \<Rightarrow> feed_chunks lossy vs acc' cs
      | (r, _) \<Rightarrow> (r, cs))"

text \<open>What one feed of the whole buffer gives.\<close>

definition head_of :: "(string \<Rightarrow> string) \<Rightarrow> (nat \<Rightarrow> bool) \<Rightarrow> string \<Rightarrow> head_feed" where
  "head_of lossy vs buf = fst (accumulator_feed lossy vs buf accumulator_new)"

lemma head_of_find:
  "head_of lossy vs buf =
     (case find_header_terminator buf 0 of
        Some (offset, n) \<Rightarrow>
          (case parse_head lossy vs (take offset buf) of
             (status, headers) \<Rightarrow>
               Complete \<lparr>head_status = status, head_headers = headers, body_remainder = drop n (drop offset buf)\<rparr>)
      | None \<Rightarrow> if length buf > MAX_HEAD_BYTES then HeadTooLarge else Pending)"
  by (simp add: head_of_def accumulator_feed_def accumulator_new_def Let_def split: option.split prod.split)

lemma accumulator_feed_resumes:
  assumes "find_header_terminator (head_buf acc) 0 = None"
  shows "accumulator_feed lossy vs c acc = (head_of lossy vs (head_buf acc @ c), acc\<lparr>head_buf := head_buf acc @ c\<rparr>)"
  using rescan_complete [OF assms, of c]
  by (simp add: head_of_find accumulator_feed_def Let_def split: option.split prod.split)

lemma take_drop_eq_nth:
  "length ys = n \<Longrightarrow> 0 < n \<Longrightarrow> take n (drop i buf) = ys \<longleftrightarrow> i + n \<le> length buf \<and> (\<forall>k < n. buf ! (i + k) = ys ! k)"
  unfolding list_eq_iff_nth_eq [of "take n (drop i buf)"] length_take length_drop
  by (cases ys; cases "i + n \<le> length buf") auto

lemma terminator_at_nth:
  "terminator_at buf i = Some n \<longleftrightarrow>
     n = 4 \<and> i + 4 \<le> length buf \<and> buf ! i = CR \<and> buf ! (i + 1) = LF \<and> buf ! (i + 2) = CR \<and> buf ! (i + 3) = LF
     \<or> n = 2 \<and> i + 2 \<le> length buf \<and> buf ! i = LF \<and> buf ! (i + 1) = LF"
proof -
  have four: "take 4 (drop i buf) = [CR, LF, CR, LF] \<longleftrightarrow> i + 4 \<le> length buf \<and>
      buf ! i = CR \<and> buf ! (i + 1) = LF \<and> buf ! (i + 2) = CR \<and> buf ! (i + 3) = LF"
    by (subst take_drop_eq_nth) (simp_all add: All_less_Suc numeral_eq_Suc conj_ac)
  have two: "take 2 (drop i buf) = [LF, LF] \<longleftrightarrow> i + 2 \<le> length buf \<and> buf ! i = LF \<and> buf ! (i + 1) = LF"
    by (subst take_drop_eq_nth) (simp_all add: All_less_Suc numeral_eq_Suc conj_ac)
  show ?thesis
    unfolding terminator_at_def four two by auto
qed

lemma find_first:
  assumes "find_header_terminator buf k = Some (i, n)" "\<forall>j < k. terminator_at buf j = None"
  shows "terminator_at buf i = Some n \<and> (\<forall>j < i. terminator_at buf j = None)"
  using assms
proof (induction "length buf - k" arbitrary: k)
  case 0
  then show ?case by (simp add: find_header_terminator_def)
next
  case (Suc m)
  then have "k < length buf" by simp
  note step = find_step [OF this]
  show ?case
  proof (cases "terminator_at buf k")
    case None
    then have "find_header_terminator buf (Suc k) = Some (i, n)" "\<forall>j < Suc k. terminator_at buf j = None"
      using Suc.prems step by (simp_all add: less_Suc_eq)
    then show ?thesis using Suc.hyps by (intro Suc.hyps(1)) simp_all
  next
    case (Some m')
    then show ?thesis using Suc.prems step by simp
  qed
qed

lemma find_first_iff:
  "find_header_terminator buf 0 = Some (i, n) \<longleftrightarrow>
     terminator_at buf i = Some n \<and> (\<forall>j < i. terminator_at buf j = None)"
proof
  assume r: "terminator_at buf i = Some n \<and> (\<forall>j < i. terminator_at buf j = None)"
  then have "i < length buf" using terminator_at_end [of buf i] by (cases "i < length buf") auto
  with r show "find_header_terminator buf 0 = Some (i, n)"
    using find_skip [of 0 i buf] by (simp add: find_step)
qed (use find_first in auto)

text \<open>A terminator that was found stays the first one when more bytes arrive.\<close>

lemma find_append:
  assumes "find_header_terminator buf 0 = Some (i, n)"
  shows "find_header_terminator (buf @ c) 0 = Some (i, n) \<and> i + n \<le> length buf"
proof -
  have t: "terminator_at buf i = Some n" "\<And>j. j < i \<Longrightarrow> terminator_at buf j = None"
    using assms by (auto simp: find_first_iff)
  have n: "i + n \<le> length buf"
    using t(1) unfolding terminator_at_nth by auto
  have "terminator_at (buf @ c) j = None" if "j < i" for j
  proof (rule ccontr)
    assume "terminator_at (buf @ c) j \<noteq> None"
    then obtain m where "terminator_at (buf @ c) j = Some m" by blast
    moreover have "terminator_at buf j \<noteq> Some m" using t(2) [OF that] by simp
    ultimately show False
      using t(1) that unfolding terminator_at_nth nth_append length_append
      by (cases "i = j + 1"; auto)
  qed
  moreover have "terminator_at (buf @ c) i = Some n"
    using t(1) unfolding terminator_at_nth nth_append length_append by auto
  ultimately show ?thesis
    using n by (simp add: find_first_iff)
qed

text \<open>The head with more body bytes behind it.\<close>

fun with_more_body :: "string \<Rightarrow> head_feed \<Rightarrow> head_feed" where
  "with_more_body rest (Complete h) = Complete (h\<lparr>body_remainder := body_remainder h @ rest\<rparr>)"
| "with_more_body rest r = r"

lemma head_of_append:
  assumes "head_of lossy vs buf = Complete h"
  shows "head_of lossy vs (buf @ c) = with_more_body c (Complete h)"
proof (cases "find_header_terminator buf 0")
  case (Some p)
  obtain i n where p: "p = (i, n)" by (cases p)
  note f = find_append [OF Some [unfolded p], of c]
  show ?thesis
    using assms f Some p by (auto simp: head_of_find split: prod.splits)
qed (use assms in \<open>simp add: head_of_find split: if_splits\<close>)

lemma feed_chunks_head_of:
  assumes "find_header_terminator (head_buf acc) 0 = None"
    and "length (head_buf acc @ concat cs) \<le> MAX_HEAD_BYTES"
  shows "case feed_chunks lossy vs acc cs of
           (r, rest) \<Rightarrow> head_of lossy vs (head_buf acc @ concat cs) = with_more_body (concat rest) r"
  using assms
proof (induction cs arbitrary: acc)
  case Nil
  then show ?case by (simp add: head_of_find)
next
  case (Cons c cs)
  let ?buf = "head_buf acc @ c"
  have step: "accumulator_feed lossy vs c acc = (head_of lossy vs ?buf, acc\<lparr>head_buf := ?buf\<rparr>)"
    by (rule accumulator_feed_resumes [OF Cons.prems(1)])
  show ?case
  proof (cases "find_header_terminator ?buf 0")
    case None
    then have "head_of lossy vs ?buf = Pending"
      using Cons.prems(2) by (simp add: head_of_find)
    then show ?thesis
      using step None Cons.IH [of "acc\<lparr>head_buf := ?buf\<rparr>"] Cons.prems(2) by simp
  next
    case (Some p)
    then obtain h where "head_of lossy vs ?buf = Complete h"
      by (cases p; cases "parse_head lossy vs (take (fst p) ?buf)") (simp add: head_of_find)
    then show ?thesis
      using step head_of_append [of lossy vs ?buf h "concat cs"] by simp
  qed
qed

text \<open>
  C38: where the backend's record boundaries fall never matters. A head within the size cap that is fed
  chunk by chunk gives the same status and headers as the whole response fed at once, and the body
  bytes behind the head are those that came with it followed by the chunks not yet fed; it stays
  pending exactly when the whole response holds no terminator.
\<close>

theorem head_chunking_irrelevant:
  assumes "length (concat cs) \<le> MAX_HEAD_BYTES"
  shows "case feed_chunks lossy vs accumulator_new cs of
           (r, rest) \<Rightarrow> fst (accumulator_feed lossy vs (concat cs) accumulator_new) = with_more_body (concat rest) r"
  using feed_chunks_head_of [of accumulator_new cs lossy vs] assms
  by (simp add: accumulator_new_def head_of_def find_header_terminator_def)

theorem head_chunking_irrelevant_witness:
  "case feed_chunks (\<lambda>s. s) (\<lambda>n. 100 \<le> n \<and> n < 1000) accumulator_new
      [''Status: 302 Found'' @ [CR], [LF] @ ''Location: /x'' @ [CR, LF, CR], [LF] @ ''bo'', ''dy''] of
     (r, rest) \<Rightarrow> fst (accumulator_feed (\<lambda>s. s) (\<lambda>n. 100 \<le> n \<and> n < 1000)
         (concat [''Status: 302 Found'' @ [CR], [LF] @ ''Location: /x'' @ [CR, LF, CR], [LF] @ ''bo'', ''dy'']) accumulator_new)
       = with_more_body (concat rest) r
       \<and> r = Complete \<lparr>head_status = 302, head_headers = [(''Location'', ''/x'')], body_remainder = ''bo''\<rparr>
       \<and> rest = [''dy'']"
  using head_chunking_irrelevant [of "[''Status: 302 Found'' @ [CR], [LF] @ ''Location: /x'' @ [CR, LF, CR], [LF] @ ''bo'', ''dy'']"
      "\<lambda>s. s" "\<lambda>n. 100 \<le> n \<and> n < 1000"]
  by code_simp

end
